(* ===== verification/Prelude.thy ===== *)
theory Prelude
  imports Complex_Main "HOL-Library.Log_Nat" "HOL-Library.Sublist"
begin

text \<open>
  Shared vocabulary of the development: the collections of simplification rules
  the component theories fill, and the generic facts on lists, options, powers
  and rounding that their proofs use.

  \<^item> \<open>go_simps\<close>: unfolding rules for the Go effects (early return, state passing);
  \<^item> \<open>wire_simps\<close>: how the connection primitives act on the transport;
  \<^item> \<open>near_intros\<close>: the error bounds of binary64 arithmetic, used backwards.
\<close>

named_theorems go_simps \<open>unfolding rules for state passing and early returns\<close>
named_theorems wire_simps \<open>effect of the connection primitives on the wire\<close>
named_theorems near_intros \<open>error bounds of rounded arithmetic\<close>

section \<open>Lists\<close>

lemma takeWhile_dropWhile_eq: "takeWhile P xs @ dropWhile P xs = xs"
  by simp

lemma takeWhile_all_append:
  "(\<forall>x\<in>set xs. P x) \<Longrightarrow> takeWhile P (xs @ ys) = xs @ takeWhile P ys"
  by (induction xs) auto

lemma dropWhile_all_append:
  "(\<forall>x\<in>set xs. P x) \<Longrightarrow> dropWhile P (xs @ ys) = dropWhile P ys"
  by (induction xs) auto

lemma length_ge_2_split:
  assumes "2 \<le> length xs"
  shows "\<exists>ys a b. xs = ys @ [a, b]"
proof (cases xs rule: rev_cases)
  case Nil
  with assms show ?thesis by simp
next
  case (snoc ys b)
  with assms show ?thesis by (cases ys rule: rev_cases) auto
qed

section \<open>Powers with integer exponent\<close>

lemma powi_mono_two: "a \<le> b \<Longrightarrow> (2::rat) powi a \<le> 2 powi b"
  by (rule power_int_increasing) auto

lemma powi_strict_mono_two: "a < b \<Longrightarrow> (2::rat) powi a < 2 powi b"
  by (rule power_int_strict_increasing) auto

lemma powi_two_pos [simp]: "0 < (2::rat) powi a"
  by simp

lemma powi_two_add: "(2::rat) powi (a + b) = 2 powi a * 2 powi b"
  by (simp add: power_int_add)

lemma powi_two_diff_nat: "(2::rat) powi (int a - int b) = 2 ^ a / 2 ^ b"
  by (simp add: power_int_diff)

section \<open>Rounding to integers\<close>

text \<open>Round to the nearest integer, ties to the even one (the IEEE default).\<close>

definition round_even :: "rat \<Rightarrow> int" where
  "round_even x = (let f = \<lfloor>x\<rfloor>; d = x - of_int f
     in if d < 1/2 then f else if d > 1/2 then f + 1 else if even f then f else f + 1)"

text \<open>Round to the nearest integer, ties away from zero (Go's \<open>math.Round\<close>).\<close>

definition round_away :: "rat \<Rightarrow> int" where
  "round_away x = (if 0 \<le> x then \<lfloor>x + 1/2\<rfloor> else - \<lfloor>1/2 - x\<rfloor>)"

text \<open>Truncation towards zero (Go's conversion from floating point to integer).\<close>

definition trunc_rat :: "rat \<Rightarrow> int" where
  "trunc_rat x = (if 0 \<le> x then \<lfloor>x\<rfloor> else - \<lfloor>- x\<rfloor>)"

lemma round_even_of_int [simp]: "round_even (of_int n) = n"
  by (simp add: round_even_def)

lemma rat_less_floor_add: "(y::rat) < of_int \<lfloor>y\<rfloor> + 1"
  using floor_correct [of y] by simp

lemma round_even_err: "\<bar>of_int (round_even x) - x\<bar> \<le> 1/2"
proof -
  have "of_int \<lfloor>x\<rfloor> \<le> x" and "x < of_int \<lfloor>x\<rfloor> + 1"
    by (rule of_int_floor_le) (rule rat_less_floor_add)
  then show ?thesis unfolding round_even_def Let_def by auto
qed

lemma round_even_nonneg: "0 \<le> x \<Longrightarrow> 0 \<le> round_even x"
  unfolding round_even_def Let_def by auto

lemma round_even_mono: "x \<le> y \<Longrightarrow> round_even x \<le> round_even y"
proof (cases "\<lfloor>x\<rfloor> = \<lfloor>y\<rfloor>")
  case True
  assume "x \<le> y"
  with True show ?thesis unfolding round_even_def Let_def by auto
next
  case False
  assume "x \<le> y"
  with False have "\<lfloor>x\<rfloor> + 1 \<le> \<lfloor>y\<rfloor>" using floor_mono by fastforce
  then show ?thesis unfolding round_even_def Let_def by auto
qed

lemma round_away_of_int [simp]: "round_away (of_int n) = n"
  unfolding round_away_def by (auto simp: floor_eq_iff)

lemma round_away_close:
  assumes "\<bar>x - of_int n\<bar> < 1/2"
  shows "round_away x = n"
proof (cases "0 \<le> x")
  case True
  from assms have "\<lfloor>x + 1/2\<rfloor> = n" unfolding floor_eq_iff by linarith
  with True show ?thesis by (simp add: round_away_def)
next
  case False
  from assms have "\<lfloor>1/2 - x\<rfloor> = - n" unfolding floor_eq_iff of_int_minus by linarith
  with False show ?thesis by (simp add: round_away_def)
qed

lemma round_away_err: "\<bar>of_int (round_away x) - x\<bar> \<le> 1/2"
proof (cases "0 \<le> x")
  case True
  then have "round_away x = \<lfloor>x + 1/2\<rfloor>" by (simp add: round_away_def)
  then show ?thesis
    using of_int_floor_le [of "x + 1/2"] rat_less_floor_add [of "x + 1/2"] by linarith
next
  case False
  then have "(of_int (round_away x) :: rat) = - of_int \<lfloor>1/2 - x\<rfloor>" by (simp add: round_away_def)
  then show ?thesis
    using of_int_floor_le [of "1/2 - x"] rat_less_floor_add [of "1/2 - x"] by linarith
qed

lemma trunc_rat_of_int [simp]: "trunc_rat (of_int n) = n"
  unfolding trunc_rat_def by auto

end
