(* ===== verification/Float64.thy ===== *)
theory Float64
  imports Prelude
begin

text \<open>
  Go's \<open>float64\<close> arithmetic. The type \<open>f64\<close> holds the exact rational value of a
  finite number, with the negative zero, the infinities and NaN apart; every
  operation computes the exact result and rounds it once to the nearest binary64
  value, ties to even, with gradual underflow and overflow to infinity, as IEEE 754
  and the Go specification require. Conversions to \<open>int\<close> follow GOARCH=amd64, where
  \<open>int\<close> has 64 bits, no multiply-add is fused and an out-of-range conversion gives
  the indefinite integer \<open>- 2^63\<close>.

  The second half gives the error bounds the formatting proofs rest on: \<open>near f x e\<close>
  says that \<open>f\<close> is finite and within \<open>e\<close> of the exact value \<open>x\<close>.
\<close>

section \<open>Values and rounding\<close>

datatype f64 = Fin rat | NZero | PInf | NInf | NaN

fun fval :: "f64 \<Rightarrow> rat" where
  "fval (Fin q) = q"
| "fval _ = 0"

fun is_fin :: "f64 \<Rightarrow> bool" where
  "is_fin (Fin q) = True"
| "is_fin NZero = True"
| "is_fin _ = False"

text \<open>The position of the leading binary digit of a positive rational.\<close>

definition ilog2 :: "rat \<Rightarrow> int" where
  "ilog2 x = (let (n, d) = quotient_of x; e = bitlen n - bitlen d
              in if 2 powi e \<le> x then e else e - 1)"

text \<open>The spacing of binary64 numbers around \<open>x\<close>: 53 significant digits, and no
  spacing below \<open>2^-1074\<close>.\<close>

definition quantum :: "rat \<Rightarrow> rat" where
  "quantum x = 2 powi (max (ilog2 x - 52) (-1074))"

definition rnd_abs :: "rat \<Rightarrow> rat" where
  "rnd_abs a = of_int (round_even (a / quantum a)) * quantum a"

text \<open>Results from \<open>2^1024\<close> on overflow to infinity.\<close>

definition overflow_bound :: rat where
  "overflow_bound = 2 ^ 1024"

definition rnd :: "rat \<Rightarrow> f64" where
  "rnd x =
     (if x = 0 then Fin 0
      else let r = rnd_abs \<bar>x\<bar>
           in if r \<ge> overflow_bound then (if x < 0 then NInf else PInf)
              else if r = 0 \<and> x < 0 then NZero
              else Fin (if x < 0 then - r else r))"

text \<open>The signed zero an exact result of zero takes.\<close>

definition signed_zero :: "bool \<Rightarrow> f64" where
  "signed_zero neg = (if neg then NZero else Fin 0)"

fun fsign :: "f64 \<Rightarrow> bool" where
  "fsign (Fin q) = (q < 0)"
| "fsign NZero = True"
| "fsign NInf = True"
| "fsign _ = False"

definition finf :: "bool \<Rightarrow> f64" where
  "finf neg = (if neg then NInf else PInf)"

section \<open>Operations\<close>

fun fneg :: "f64 \<Rightarrow> f64" where
  "fneg (Fin q) = (if q = 0 then NZero else Fin (- q))"
| "fneg NZero = Fin 0"
| "fneg PInf = NInf"
| "fneg NInf = PInf"
| "fneg NaN = NaN"

definition f_abs :: "f64 \<Rightarrow> f64" where
  "f_abs x = (if fsign x then fneg x else x)"

definition fadd :: "f64 \<Rightarrow> f64 \<Rightarrow> f64" where
  "fadd x y =
     (if x = NaN \<or> y = NaN then NaN
      else if is_fin x \<and> is_fin y
        then (if x = NZero \<and> y = NZero then NZero else rnd (fval x + fval y))
      else if is_fin x then y
      else if is_fin y then x
      else if x = y then x else NaN)"

definition fsub :: "f64 \<Rightarrow> f64 \<Rightarrow> f64" where
  "fsub x y = fadd x (fneg y)"

definition fmul :: "f64 \<Rightarrow> f64 \<Rightarrow> f64" where
  "fmul x y =
     (if x = NaN \<or> y = NaN then NaN
      else let s = (fsign x \<noteq> fsign y)
           in if is_fin x \<and> is_fin y
                then (if fval x * fval y = 0 then signed_zero s else rnd (fval x * fval y))
              else if (is_fin x \<and> fval x = 0) \<or> (is_fin y \<and> fval y = 0) then NaN
              else finf s)"

definition fdiv :: "f64 \<Rightarrow> f64 \<Rightarrow> f64" where
  "fdiv x y =
     (if x = NaN \<or> y = NaN then NaN
      else let s = (fsign x \<noteq> fsign y)
           in if is_fin x \<and> is_fin y
                then (if fval y = 0 then (if fval x = 0 then NaN else finf s)
                      else if fval x = 0 then signed_zero s else rnd (fval x / fval y))
              else if is_fin x then signed_zero s
              else if is_fin y then finf s
              else NaN)"

text \<open>Comparisons are false on NaN; the two zeros are equal.\<close>

definition flt :: "f64 \<Rightarrow> f64 \<Rightarrow> bool" where
  "flt x y =
     (if x = NaN \<or> y = NaN then False
      else if is_fin x \<and> is_fin y then fval x < fval y
      else (x = NInf \<and> y \<noteq> NInf) \<or> (y = PInf \<and> x \<noteq> PInf))"

definition fle :: "f64 \<Rightarrow> f64 \<Rightarrow> bool" where
  "fle x y = (flt x y \<or> (is_fin x \<and> is_fin y \<and> fval x = fval y) \<or> (x = y \<and> x \<noteq> NaN))"

text \<open>\<open>math.Mod\<close>: the remainder of truncated division, which is exact; the result
  has the sign of the dividend.\<close>

definition fmod :: "f64 \<Rightarrow> f64 \<Rightarrow> f64" where
  "fmod x y =
     (if x = NaN \<or> y = NaN \<or> \<not> is_fin x then NaN
      else if \<not> is_fin y then x
      else if fval y = 0 then NaN
      else let r = fval x - of_int (trunc_rat (fval x / fval y)) * fval y
           in if r = 0 then signed_zero (fsign x) else Fin r)"

text \<open>\<open>math.Round\<close> (halfway cases away from zero) and \<open>math.Floor\<close>; both results
  are representable.\<close>

fun f_round :: "f64 \<Rightarrow> f64" where
  "f_round (Fin q) =
     (let n = round_away q in if n = 0 then signed_zero (q < 0) else Fin (of_int n))"
| "f_round x = x"

fun f_floor :: "f64 \<Rightarrow> f64" where
  "f_floor (Fin q) = Fin (of_int \<lfloor>q\<rfloor>)"
| "f_floor x = x"

text \<open>Conversion to and from the 64-bit \<open>int\<close>.\<close>

definition int_of_f64 :: "f64 \<Rightarrow> int" where
  "int_of_f64 x =
     (if is_fin x \<and> - (2 ^ 63) \<le> trunc_rat (fval x) \<and> trunc_rat (fval x) < 2 ^ 63
      then trunc_rat (fval x) else - (2 ^ 63))"

definition f64_of_int :: "int \<Rightarrow> f64" where
  "f64_of_int n = rnd (of_int n)"

section \<open>The leading digit and the spacing\<close>

lemma quotient_of_pos:
  assumes "0 < x" and "quotient_of x = (n, d)"
  shows "0 < n" "0 < d" "x = of_int n / of_int d"
proof -
  show d: "0 < d" using assms(2) by (rule quotient_of_denom_pos)
  show x: "x = of_int n / of_int d" using assms(2) by (rule quotient_of_div)
  with d assms(1) show "0 < n" by (simp add: zero_less_divide_iff)
qed

lemma bitlen_powi:
  assumes "0 < n"
  shows "2 powi (bitlen n - 1) \<le> (of_int n :: rat)" "of_int n < (2::rat) powi bitlen n"
proof -
  have b: "1 \<le> bitlen n"
    using assms bitlen_nonneg [of n] bitlen_eq_zero_iff [of n] by linarith
  from bitlen_bounds [OF assms]
  have lo: "2 ^ nat (bitlen n - 1) \<le> n" and hi: "n < 2 ^ nat (bitlen n)" by auto
  from lo have "(of_int (2 ^ nat (bitlen n - 1)) :: rat) \<le> of_int n"
    by (subst of_int_le_iff)
  with b show "2 powi (bitlen n - 1) \<le> (of_int n :: rat)" by (simp add: power_int_def)
  from hi have "(of_int n :: rat) < of_int (2 ^ nat (bitlen n))"
    by (subst of_int_less_iff)
  with b show "of_int n < (2::rat) powi bitlen n" by (simp add: power_int_def)
qed

lemma ilog2_bounds:
  assumes "0 < x"
  shows "2 powi ilog2 x \<le> x" "x < 2 powi (ilog2 x + 1)"
proof -
  obtain n d where q: "quotient_of x = (n, d)" by (cases "quotient_of x")
  note p = quotient_of_pos [OF assms q]
  define e where "e = bitlen n - bitlen d"
  have up: "x < 2 powi (e + 1)"
  proof -
    have "x * of_int d < 2 powi bitlen n"
      using p bitlen_powi(2) [OF p(1)] by simp
    also have "\<dots> = 2 powi (e + 1) * 2 powi (bitlen d - 1)"
      by (simp add: e_def flip: power_int_add)
    also have "\<dots> \<le> 2 powi (e + 1) * of_int d"
      by (rule mult_left_mono [OF bitlen_powi(1) [OF p(2)]]) simp
    finally show ?thesis using p(2) by simp
  qed
  have lo: "2 powi (e - 1) < x"
  proof -
    have "2 powi (e - 1) * of_int d < (2::rat) powi (e - 1) * 2 powi bitlen d"
      by (rule mult_strict_left_mono [OF bitlen_powi(2) [OF p(2)]]) simp
    also have "\<dots> = 2 powi (bitlen n - 1)"
      by (simp add: e_def flip: power_int_add)
    also have "\<dots> \<le> x * of_int d"
      using p bitlen_powi(1) [OF p(1)] by simp
    finally show ?thesis using p(2) by simp
  qed
  have l: "ilog2 x = (if 2 powi e \<le> x then e else e - 1)"
    by (simp add: ilog2_def q e_def)
  show "2 powi ilog2 x \<le> x" using lo by (simp add: l)
  show "x < 2 powi (ilog2 x + 1)" using up by (simp add: l)
qed

lemma ilog2_le:
  assumes "0 < x" "x \<le> 2 powi k"
  shows "ilog2 x \<le> k"
proof (rule ccontr)
  assume "\<not> ?thesis"
  then have "(2::rat) powi k < 2 powi ilog2 x" by (simp add: powi_strict_mono_two)
  with ilog2_bounds(1) [OF assms(1)] assms(2) show False by simp
qed

lemma ilog2_unique:
  assumes "0 < x" "2 powi k \<le> x" "x < 2 powi (k + 1)"
  shows "ilog2 x = k"
proof (rule antisym)
  show "ilog2 x \<le> k"
  proof (rule ccontr)
    assume "\<not> ?thesis"
    then have "(2::rat) powi (k + 1) \<le> 2 powi ilog2 x" by (simp add: powi_mono_two)
    with ilog2_bounds(1) [OF assms(1)] assms(3) show False by simp
  qed
  show "k \<le> ilog2 x"
  proof (rule ccontr)
    assume "\<not> ?thesis"
    then have "(2::rat) powi (ilog2 x + 1) \<le> 2 powi k" by (simp add: powi_mono_two)
    with ilog2_bounds(2) [OF assms(1)] assms(2) show False by simp
  qed
qed

section \<open>Rounding error and exact values\<close>

lemma quantum_pos [simp]: "0 < quantum x"
  by (simp add: quantum_def)

lemma quantum_nonzero [simp]: "quantum x \<noteq> 0"
  using quantum_pos [of x] by linarith

lemma quantum_le:
  assumes "0 < x" "x \<le> 2 powi k" "- 1022 \<le> k"
  shows "quantum x \<le> 2 powi (k - 52)"
  unfolding quantum_def
  by (rule powi_mono_two) (use ilog2_le [OF assms(1,2)] assms(3) in simp)

lemma rnd_abs_err_quantum: "\<bar>rnd_abs a - a\<bar> \<le> quantum a / 2"
proof -
  let ?q = "quantum a"
  let ?n = "of_int (round_even (a / ?q)) :: rat"
  have "rnd_abs a - a = (?n - a / ?q) * ?q"
    by (simp add: rnd_abs_def left_diff_distrib)
  then have "\<bar>rnd_abs a - a\<bar> = \<bar>?n - a / ?q\<bar> * ?q"
    by (simp only: abs_mult abs_of_pos [OF quantum_pos])
  also have "\<dots> \<le> 1/2 * ?q"
    by (rule mult_right_mono [OF round_even_err]) (simp add: less_imp_le)
  finally show ?thesis by simp
qed

lemma rnd_abs_err:
  assumes "0 < a" "a \<le> 2 powi k" "- 1022 \<le> k"
  shows "\<bar>rnd_abs a - a\<bar> \<le> 2 powi (k - 53)"
proof -
  have "(2::rat) powi (k - 52) / 2 = 2 powi (k - 53)"
    using power_int_diff [of "2::rat" "k - 52" 1] by simp
  with rnd_abs_err_quantum [of a] quantum_le [OF assms] show ?thesis by linarith
qed

lemma rnd_abs_nonneg: "0 \<le> a \<Longrightarrow> 0 \<le> rnd_abs a"
  unfolding rnd_abs_def
  by (rule mult_nonneg_nonneg)
     (auto intro!: round_even_nonneg divide_nonneg_pos simp: less_imp_le)

lemma rnd_abs_exact:
  assumes "a = of_int j * quantum a"
  shows "rnd_abs a = a"
proof -
  from assms have "a / quantum a = of_int j" by (metis nonzero_mult_div_cancel_right quantum_nonzero)
  then show ?thesis unfolding rnd_abs_def using assms by simp
qed

lemma rnd_abs_dyadic:
  assumes "0 < m" "m < 2 ^ 53" "- 1074 \<le> e"
  shows "rnd_abs (of_int m * 2 powi e) = of_int m * 2 powi e"
proof -
  let ?a = "of_int m * (2::rat) powi e"
  have a: "0 < ?a" using assms(1) by simp
  have lt: "?a < 2 powi (e + 53)"
  proof -
    have "of_int m < (2::rat) ^ 53"
      using assms(2) by (metis of_int_less_iff of_int_numeral of_int_power)
    then have "?a < 2 ^ 53 * 2 powi e" by (rule mult_strict_right_mono) simp
    also have "(2::rat) ^ 53 * 2 powi e = 2 powi (53 + e)"
      by (simp only: powi_two_add power_int_numeral)
    finally show ?thesis by (simp only: add.commute)
  qed
  have "ilog2 ?a \<le> e + 52"
  proof (rule ccontr)
    assume "\<not> ?thesis"
    then have "(2::rat) powi (e + 53) \<le> 2 powi ilog2 ?a" by (intro powi_mono_two) linarith
    with ilog2_bounds(1) [OF a] lt show False by linarith
  qed
  define qe where "qe = max (ilog2 ?a - 52) (- 1074)"
  have qe: "qe \<le> e" using \<open>ilog2 ?a \<le> e + 52\<close> assms(3) by (simp add: qe_def)
  have "?a = of_int (m * 2 ^ nat (e - qe)) * quantum ?a"
  proof -
    have "(2::rat) powi e = 2 powi (e - qe) * 2 powi qe" by (simp flip: power_int_add)
    moreover have "(2::rat) powi (e - qe) = 2 ^ nat (e - qe)" using qe by (simp add: power_int_def)
    ultimately show ?thesis by (simp add: quantum_def qe_def)
  qed
  then show ?thesis by (rule rnd_abs_exact)
qed

lemma rnd_pos: "0 < x \<Longrightarrow> rnd_abs x < overflow_bound \<Longrightarrow> rnd x = Fin (rnd_abs x)"
  by (simp add: rnd_def)

lemma rnd_zero [simp]: "rnd 0 = Fin 0"
  by (simp add: rnd_def)

lemma rnd_uminus: "x \<noteq> 0 \<Longrightarrow> rnd (- x) = fneg (rnd x)"
  by (auto simp: rnd_def Let_def)

text \<open>\<open>near f x e\<close>: the number \<open>f\<close> is finite and within \<open>e\<close> of \<open>x\<close>.\<close>

definition near :: "f64 \<Rightarrow> rat \<Rightarrow> rat \<Rightarrow> bool" where
  "near f x e = (is_fin f \<and> \<bar>fval f - x\<bar> \<le> e)"

lemma near_exact [near_intros]: "near (Fin x) x 0"
  by (simp add: near_def)

lemma nearD: "near f x e \<Longrightarrow> is_fin f" "near f x e \<Longrightarrow> \<bar>fval f - x\<bar> \<le> e"
  by (simp_all add: near_def)

lemma near_mono: "near f x e \<Longrightarrow> e \<le> e' \<Longrightarrow> near f x e'"
  by (simp add: near_def)

lemma near_trans: "near f y e \<Longrightarrow> \<bar>y - x\<bar> \<le> d \<Longrightarrow> near f x (e + d)"
  unfolding near_def by linarith

lemma near_negative: "near f (- x) e \<Longrightarrow> e < x \<Longrightarrow> fval f < 0"
  unfolding near_def by linarith

lemma powi_two_sum_overflow:
  assumes "k \<le> 1023"
  shows "(2::rat) powi k + 2 powi (k - 53) < overflow_bound"
proof -
  have "(2::rat) powi (k - 53) < 2 powi k" by (rule powi_strict_mono_two) simp
  then have "(2::rat) powi k + 2 powi (k - 53) < 2 powi (k + 1)"
    by (simp only: powi_two_add power_int_1_right)
  also have "\<dots> \<le> 2 powi 1024" by (rule powi_mono_two) (use assms in simp)
  also have "\<dots> = overflow_bound" unfolding overflow_bound_def by (rule power_int_numeral)
  finally show ?thesis .
qed

lemma fin_rnd_near:
  assumes "\<bar>x\<bar> \<le> 2 powi k" "- 1022 \<le> k" "k \<le> 1023"
  shows "near (rnd x) x (2 powi (k - 53))"
proof (cases "x = 0")
  case True
  then show ?thesis by (simp add: near_def)
next
  case False
  let ?r = "rnd_abs \<bar>x\<bar>"
  have err: "\<bar>?r - \<bar>x\<bar>\<bar> \<le> 2 powi (k - 53)"
    by (rule rnd_abs_err) (use False assms in auto)
  with assms(1) powi_two_sum_overflow [OF assms(3)] have "?r < overflow_bound" by linarith
  with err False show ?thesis
    by (auto simp: near_def rnd_def Let_def)
qed

lemma near_rnd [near_intros]:
  assumes "\<bar>x\<bar> + e \<le> 2 powi k" "- 1022 \<le> k" "k \<le> 1023" "\<bar>y - x\<bar> \<le> e"
  shows "near (rnd y) x (2 powi (k - 53) + e)"
proof -
  have "near (rnd y) y (2 powi (k - 53))"
    by (rule fin_rnd_near) (use assms in linarith)+
  then show ?thesis by (rule near_trans) (use assms in linarith)
qed

section \<open>Error bounds of the operations\<close>

lemma rnd_dyadic:
  assumes "\<bar>m\<bar> < 2 ^ 53" "- 1074 \<le> e" "e \<le> 970"
  shows "rnd (of_int m * 2 powi e) = Fin (of_int m * 2 powi e)"
proof -
  have pos: "rnd (of_int n * 2 powi e) = Fin (of_int n * 2 powi e)" if n: "0 < n" "n < 2 ^ 53" for n :: int
  proof (rule trans [OF rnd_pos])
    show "0 < of_int n * (2::rat) powi e" using n by simp
    note ex = rnd_abs_dyadic [OF n assms(2)]
    have "of_int n < (2::rat) ^ 53"
      using n(2) by (metis of_int_less_iff of_int_numeral of_int_power)
    then have "of_int n * (2::rat) powi e < 2 ^ 53 * 2 powi e" by (rule mult_strict_right_mono) simp
    also have "\<dots> = 2 powi (53 + e)" by (simp only: powi_two_add power_int_numeral)
    also have "\<dots> \<le> 2 powi 1024" by (rule powi_mono_two) (use assms in simp)
    also have "\<dots> = overflow_bound" unfolding overflow_bound_def by (rule power_int_numeral)
    finally show "rnd_abs (of_int n * 2 powi e) < overflow_bound" by (simp only: ex)
    show "Fin (rnd_abs (of_int n * 2 powi e)) = Fin (of_int n * 2 powi e)" by (simp only: ex)
  qed
  consider "m = 0" | "0 < m" | "m < 0" by linarith
  then show ?thesis
  proof cases
    case 3
    with assms(1) pos [of "- m"] have "rnd (- (of_int m * 2 powi e)) = Fin (- (of_int m * 2 powi e))"
      by simp
    moreover have "of_int m * (2::rat) powi e \<noteq> 0" using 3 by simp
    ultimately show ?thesis using rnd_uminus [of "- (of_int m * 2 powi e)"] by simp
  qed (use assms pos in auto)
qed

lemma rnd_of_int: "\<bar>m\<bar> < 2 ^ 53 \<Longrightarrow> rnd (of_int m) = Fin (of_int m)"
  using rnd_dyadic [of m 0] by simp

lemma rnd_of_nat: "n < 2 ^ 53 \<Longrightarrow> rnd (of_nat n) = Fin (of_nat n)"
  using rnd_of_int [of "int n"] by simp

lemma f64_of_int_exact: "\<bar>m\<bar> < 2 ^ 53 \<Longrightarrow> f64_of_int m = Fin (of_int m)"
  by (simp add: f64_of_int_def rnd_of_int)

text \<open>A rounded result is itself a binary64 number: rounding it again changes nothing.\<close>

lemma rnd_abs_idem:
  assumes "0 < a"
  shows "rnd_abs (rnd_abs a) = rnd_abs a \<or> rnd_abs a = 0"
proof -
  define qe where "qe = max (ilog2 a - 52) (- 1074)"
  define j where "j = round_even (a / quantum a)"
  have r: "rnd_abs a = of_int j * 2 powi qe"
    by (simp add: rnd_abs_def j_def quantum_def qe_def)
  have "a / quantum a \<le> 2 ^ 53"
  proof -
    have "a < 2 powi (ilog2 a + 1)" by (rule ilog2_bounds(2) [OF assms])
    also have "\<dots> \<le> 2 powi (53 + qe)" by (rule powi_mono_two) (simp add: qe_def)
    also have "\<dots> = 2 ^ 53 * quantum a"
      by (simp only: powi_two_add power_int_numeral quantum_def qe_def)
    finally show ?thesis by (simp add: divide_le_eq less_imp_le)
  qed
  then have "j \<le> round_even (of_int (2 ^ 53))"
    unfolding j_def by (intro round_even_mono) simp
  then have hi: "j \<le> 2 ^ 53" by (simp only: round_even_of_int)
  have lo: "0 \<le> j" unfolding j_def using assms by (intro round_even_nonneg) (simp add: less_imp_le)
  consider "j = 0" | "0 < j" "j < 2 ^ 53" | "j = 2 ^ 53" using lo hi by linarith
  then show ?thesis
  proof cases
    case 2
    have "- 1074 \<le> qe" by (simp add: qe_def)
    then show ?thesis unfolding r using rnd_abs_dyadic [OF 2] by blast
  next
    case 3
    have "of_int j * (2::rat) powi qe = of_int (2 ^ 52) * 2 powi (1 + qe)"
      by (simp add: 3 powi_two_add)
    moreover have "rnd_abs (of_int (2 ^ 52) * 2 powi (1 + qe)) = of_int (2 ^ 52) * 2 powi (1 + qe)"
      by (rule rnd_abs_dyadic) (simp_all add: qe_def)
    ultimately show ?thesis unfolding r by simp
  qed (simp add: r)
qed

lemma rnd_idem:
  assumes "rnd x = Fin q"
  shows "rnd q = Fin q"
proof -
  have abs: "rnd_abs (rnd_abs \<bar>x\<bar>) = rnd_abs \<bar>x\<bar> \<or> rnd_abs \<bar>x\<bar> = 0" if "x \<noteq> 0"
    using that by (intro rnd_abs_idem) simp
  have nonneg: "0 \<le> rnd_abs \<bar>x\<bar>" by (rule rnd_abs_nonneg) simp
  show ?thesis
  proof (cases "x = 0 \<or> rnd_abs \<bar>x\<bar> = 0")
    case True
    with assms show ?thesis by (auto simp: rnd_def Let_def split: if_splits)
  next
    case False
    with abs nonneg have "rnd_abs (rnd_abs \<bar>x\<bar>) = rnd_abs \<bar>x\<bar>" "0 < rnd_abs \<bar>x\<bar>" by auto
    with assms False show ?thesis by (auto simp: rnd_def Let_def split: if_splits)
  qed
qed

lemma near_fneg [near_intros]: "near f x e \<Longrightarrow> near (fneg f) (- x) e"
  by (cases f) (auto simp: near_def)

lemma fadd_fin:
  "is_fin f \<Longrightarrow> is_fin g \<Longrightarrow> fadd f g = (if f = NZero \<and> g = NZero then NZero else rnd (fval f + fval g))"
  by (auto simp: fadd_def)

lemma near_fadd [near_intros]:
  assumes "near f x d" "near g y e" "\<bar>x + y\<bar> + (d + e) \<le> 2 powi k" "- 1022 \<le> k" "k \<le> 1023"
  shows "near (fadd f g) (x + y) (2 powi (k - 53) + (d + e))"
proof (cases "f = NZero \<and> g = NZero")
  case True
  have "0 \<le> (2::rat) powi (k - 53)" by simp
  moreover from True assms have "\<bar>x\<bar> \<le> d" "\<bar>y\<bar> \<le> e" by (auto simp: near_def)
  ultimately have "\<bar>x + y\<bar> \<le> 2 powi (k - 53) + (d + e)" by linarith
  with True show ?thesis by (simp add: near_def fadd_def)
next
  case False
  from assms(1,2) have "fadd f g = rnd (fval f + fval g)" "\<bar>fval f + fval g - (x + y)\<bar> \<le> d + e"
    using False by (auto simp: near_def fadd_fin)
  then show ?thesis using near_rnd [OF assms(3-5)] by simp
qed

lemma near_fmul_const [near_intros]:
  assumes "near f x d" "c \<noteq> 0" "\<bar>x * c\<bar> + d * \<bar>c\<bar> \<le> 2 powi k" "- 1022 \<le> k" "k \<le> 1023"
  shows "near (fmul f (Fin c)) (x * c) (2 powi (k - 53) + d * \<bar>c\<bar>)"
proof -
  have err: "\<bar>fval f * c - x * c\<bar> \<le> d * \<bar>c\<bar>"
    using assms(1) by (simp add: near_def abs_mult mult_right_mono flip: left_diff_distrib)
  note n = near_rnd [OF assms(3-5) err]
  show ?thesis
  proof (cases "fval f = 0")
    case True
    with n assms(1,2) show ?thesis
      by (cases f) (auto simp: near_def fmul_def signed_zero_def)
  next
    case False
    with n assms(1,2) show ?thesis by (cases f) (auto simp: near_def fmul_def)
  qed
qed

lemma fmul_commute: "fmul x y = fmul y x"
  by (cases x; cases y) (auto simp: fmul_def Let_def mult.commute)

lemma fval_rnd_nonneg: "0 \<le> x \<Longrightarrow> 0 \<le> fval (rnd x)"
  using rnd_abs_nonneg [of "\<bar>x\<bar>"] by (auto simp: rnd_def Let_def)

lemma fval_signed_zero [simp]: "fval (signed_zero b) = 0" "fval (finf b) = 0"
  by (simp_all add: signed_zero_def finf_def)

lemma fadd_nonneg: "0 \<le> fval x \<Longrightarrow> 0 \<le> fval y \<Longrightarrow> 0 \<le> fval (fadd x y)"
  by (auto simp: fadd_def fval_rnd_nonneg)

lemma fmul_nonneg: "0 \<le> fval x \<Longrightarrow> 0 \<le> fval y \<Longrightarrow> 0 \<le> fval (fmul x y)"
  by (auto simp: fmul_def Let_def fval_rnd_nonneg)

lemma fdiv_nonneg: "0 \<le> fval x \<Longrightarrow> 0 \<le> fval y \<Longrightarrow> 0 \<le> fval (fdiv x y)"
  by (auto simp: fdiv_def Let_def fval_rnd_nonneg)

lemma near_fdiv_const [near_intros]:
  assumes "near f x d" "0 < c" "\<bar>x / c\<bar> + d / c \<le> 2 powi k" "- 1022 \<le> k" "k \<le> 1023"
  shows "near (fdiv f (Fin c)) (x / c) (2 powi (k - 53) + d / c)"
proof -
  have "\<bar>fval f / c - x / c\<bar> = \<bar>fval f - x\<bar> / c"
    using assms(2) by (simp add: abs_divide flip: diff_divide_distrib)
  also have "\<dots> \<le> d / c" using assms(1,2) by (simp add: near_def divide_right_mono)
  finally have err: "\<bar>fval f / c - x / c\<bar> \<le> d / c" .
  note n = near_rnd [OF assms(3-5) err]
  show ?thesis
  proof (cases "fval f = 0")
    case True
    with n assms(1,2) show ?thesis
      by (cases f) (auto simp: near_def fdiv_def signed_zero_def)
  next
    case False
    with n assms(1,2) show ?thesis by (cases f) (auto simp: near_def fdiv_def)
  qed
qed

section \<open>Conversions\<close>

lemma trunc_rat_small: "\<bar>x\<bar> < 1 \<Longrightarrow> trunc_rat x = 0"
  unfolding trunc_rat_def by (auto simp: floor_eq_iff)

lemma fmod_small:
  assumes "is_fin f" "\<bar>fval f\<bar> < c"
  shows "is_fin (fmod f (Fin c))" "fval (fmod f (Fin c)) = fval f"
proof -
  from assms(2) have "trunc_rat (fval f / c) = 0"
    by (intro trunc_rat_small) (simp add: abs_divide)
  with assms show "is_fin (fmod f (Fin c))" "fval (fmod f (Fin c)) = fval f"
    by (cases f; auto simp: fmod_def signed_zero_def Let_def)+
qed

lemma int_of_f64_range: "- (2 ^ 63) \<le> int_of_f64 x \<and> int_of_f64 x < 2 ^ 63"
  by (simp add: int_of_f64_def)

lemma int_of_f64_of_int:
  "- (2 ^ 63) \<le> n \<Longrightarrow> n < 2 ^ 63 \<Longrightarrow> is_fin f \<Longrightarrow> fval f = of_int n \<Longrightarrow> int_of_f64 f = n"
  by (simp add: int_of_f64_def)

lemma f_round_fin: "is_fin f \<Longrightarrow> is_fin (f_round f) \<and> fval (f_round f) = of_int (round_away (fval f))"
proof (cases f)
  case NZero
  have "round_away 0 = 0" using round_away_of_int [of 0] by simp
  with NZero show ?thesis by simp
qed (auto simp: Let_def signed_zero_def)

lemma round_near:
  assumes "near f (of_int n) e" "e < 1/2" "\<bar>n\<bar> < 2 ^ 53"
  shows "int_of_f64 (f_round f) = n"
proof -
  from assms(1,2) have "\<bar>fval f - of_int n\<bar> < 1/2" by (simp add: near_def)
  then have "round_away (fval f) = n" by (rule round_away_close)
  with f_round_fin [OF nearD(1) [OF assms(1)]] assms(3) show ?thesis
    by (intro int_of_f64_of_int) auto
qed

end
