(* ===== verification/GoLang.thy ===== *)
theory GoLang
  imports Float64
begin

text \<open>
  The parts of Go and its standard library the program is written in: error values
  with wrapping, effectful code as state passing with early return on an error,
  the string functions of package \<open>strings\<close>, decimal conversion of \<open>strconv\<close> and the
  numeric verbs of \<open>fmt\<close>. A Go string is a byte sequence, the HOL type \<open>string\<close>.
\<close>

section \<open>Errors\<close>

text \<open>
  \<open>ErrNew\<close> is a value of \<open>errors.New\<close>; \<open>NetError\<close> an error of the network layer with
  its \<open>Timeout()\<close> answer; \<open>Errorf\<close> keeps the format, its arguments in order and the
  error wrapped by \<open>%w\<close>, if any.
\<close>

datatype farg = AStr string | AChr char | AInt int | AFlt f64

datatype gerr =
    ErrNew string
  | NetError string bool
  | Errorf string "farg list" "gerr option"

text \<open>\<open>errors.Is\<close>: the error itself or one it wraps is the target.\<close>

fun errors_is :: "gerr \<Rightarrow> gerr \<Rightarrow> bool" where
  "errors_is (Errorf f a (Some w)) t = (Errorf f a (Some w) = t \<or> errors_is w t)"
| "errors_is e t = (e = t)"

lemma errors_is_refl [simp]: "errors_is e e"
  by (cases "(e, e)" rule: errors_is.cases) auto

lemma errors_is_wrap [simp]: "errors_is w t \<Longrightarrow> errors_is (Errorf f a (Some w)) t"
  by simp

section \<open>Effects with early return\<close>

text \<open>
  A method that changes the state \<open>'s\<close> and returns \<open>('a, error)\<close>. \<open>bindE m f\<close> is
  \<^verbatim>\<open>x, err := m(); if err != nil { return err }; f(x)\<close>.
\<close>

type_synonym ('s, 'a) io = "'s \<Rightarrow> (gerr + 'a) \<times> 's"

definition okE :: "'a \<Rightarrow> ('s, 'a) io" where
  "okE x = (\<lambda>s. (Inr x, s))"

definition errE :: "gerr \<Rightarrow> ('s, 'a) io" where
  "errE e = (\<lambda>s. (Inl e, s))"

definition bindE :: "('s, 'a) io \<Rightarrow> ('a \<Rightarrow> ('s, 'b) io) \<Rightarrow> ('s, 'b) io" where
  "bindE m f = (\<lambda>s. case m s of (Inl e, s') \<Rightarrow> (Inl e, s') | (Inr x, s') \<Rightarrow> f x s')"

text \<open>\<open>tryE m f\<close> hands the outcome, error or value, to \<open>f\<close>: \<^verbatim>\<open>x, err := m()\<close>
  followed by code that inspects \<open>err\<close> itself.\<close>

definition tryE :: "('s, 'a) io \<Rightarrow> (gerr + 'a \<Rightarrow> ('s, 'b) io) \<Rightarrow> ('s, 'b) io" where
  "tryE m f = (\<lambda>s. case m s of (r, s') \<Rightarrow> f r s')"

text \<open>A state update that cannot fail, and a pure fallible computation.\<close>

definition modE :: "('s \<Rightarrow> 's) \<Rightarrow> ('s, unit) io" where
  "modE f = (\<lambda>s. (Inr (), f s))"

definition liftE :: "gerr + 'a \<Rightarrow> ('s, 'a) io" where
  "liftE r = (\<lambda>s. (r, s))"

lemma okE_apply [simp, go_simps]: "okE x s = (Inr x, s)"
  by (simp add: okE_def)

lemma errE_apply [simp, go_simps]: "errE e s = (Inl e, s)"
  by (simp add: errE_def)

lemma modE_apply [simp, go_simps]: "modE f s = (Inr (), f s)"
  by (simp add: modE_def)

lemma liftE_apply [simp, go_simps]: "liftE r s = (r, s)"
  by (simp add: liftE_def)

lemma tryE_apply [go_simps]: "tryE m f s = (case m s of (r, s') \<Rightarrow> f r s')"
  by (simp add: tryE_def)

lemma bindE_apply [go_simps]:
  "bindE m f s = (case m s of (Inl e, s') \<Rightarrow> (Inl e, s') | (Inr x, s') \<Rightarrow> f x s')"
  by (simp add: bindE_def)

lemma bindE_okE [simp]: "bindE (okE x) f = f x"
  by (simp add: bindE_def okE_def)

lemma bindE_errE [simp]: "bindE (errE e) f = errE e"
  by (simp add: bindE_def errE_def)

lemma bindE_assoc: "bindE (bindE m f) g = bindE m (\<lambda>x. bindE (f x) g)"
  by (auto simp: bindE_def fun_eq_iff split: prod.split sum.split)

lemma bindE_InrD:
  assumes "bindE m f s = (Inr y, t)"
  obtains x u where "m s = (Inr x, u)" "f x u = (Inr y, t)"
  using assms by (auto simp: bindE_def split: prod.splits sum.splits)

section \<open>Package strings\<close>

definition HasPrefix :: "string \<Rightarrow> string \<Rightarrow> bool" where
  "HasPrefix s p = (take (length p) s = p)"

definition HasSuffix :: "string \<Rightarrow> string \<Rightarrow> bool" where
  "HasSuffix s p = (length p \<le> length s \<and> drop (length s - length p) s = p)"

definition TrimPrefix :: "string \<Rightarrow> string \<Rightarrow> string" where
  "TrimPrefix s p = (if HasPrefix s p then drop (length p) s else s)"

definition TrimSuffix :: "string \<Rightarrow> string \<Rightarrow> string" where
  "TrimSuffix s p = (if HasSuffix s p then take (length s - length p) s else s)"

text \<open>
  \<open>TrimSpace\<close> removes Unicode white space. The space characters are the ASCII ones
  and those whose UTF-8 encodings are listed in \<open>wide_spaces\<close> (U+0085, U+00A0,
  U+1680, U+2000 to U+200A, U+2028, U+2029, U+202F, U+205F, U+3000).
\<close>

definition ascii_space :: "char \<Rightarrow> bool" where
  "ascii_space c = (let n = of_char c :: nat in n = 32 \<or> 9 \<le> n \<and> n \<le> 13)"

definition wide_spaces :: "string list" where
  "wide_spaces = map (map char_of)
     ([[194, 133], [194, 160], [225, 154, 128], [226, 128, 168], [226, 128, 169],
       [226, 128, 175], [226, 129, 159], [227, 128, 128]]
      @ map (\<lambda>n. [226, 128, n]) [128..<139 :: nat])"

fun space_len :: "string list \<Rightarrow> string \<Rightarrow> nat" where
  "space_len [] s = 0"
| "space_len (w # ws) s = (if HasPrefix s w then length w else space_len ws s)"

definition lead_space :: "string list \<Rightarrow> string \<Rightarrow> nat" where
  "lead_space ws s =
     (case s of [] \<Rightarrow> 0 | c # _ \<Rightarrow> if ascii_space c then 1 else space_len ws s)"

lemma lead_space_le: "lead_space ws s \<le> length s"
proof -
  have "space_len ws s \<le> length s"
    by (induction ws) (auto simp: HasPrefix_def dest: arg_cong [where f = length])
  then show ?thesis by (cases s) (auto simp: lead_space_def)
qed

lemma lead_space_Nil [simp]: "lead_space ws [] = 0"
  by (simp add: lead_space_def)

function trim_left :: "string list \<Rightarrow> string \<Rightarrow> string" where
  "trim_left ws s = (let n = lead_space ws s in if n = 0 then s else trim_left ws (drop n s))"
  by pat_completeness auto
termination
proof (relation "measure (\<lambda>(ws, s). length s)")
  fix ws s and n :: nat
  assume "n = lead_space ws s" "n \<noteq> 0"
  moreover from this have "s \<noteq> []" by (cases s) auto
  ultimately show "((ws, drop n s), (ws, s)) \<in> measure (\<lambda>(ws, s). length s)"
    by simp
qed simp

declare trim_left.simps [simp del]

definition TrimSpace :: "string \<Rightarrow> string" where
  "TrimSpace s = rev (trim_left (map rev wide_spaces) (rev (trim_left wide_spaces s)))"

text \<open>\<open>FieldsFunc\<close>: the maximal runs of characters that are no separators.\<close>

function FieldsFunc :: "(char \<Rightarrow> bool) \<Rightarrow> string \<Rightarrow> string list" where
  "FieldsFunc sep s =
     (let t = dropWhile sep s
      in if t = [] then []
         else takeWhile (\<lambda>c. \<not> sep c) t # FieldsFunc sep (dropWhile (\<lambda>c. \<not> sep c) t))"
  by pat_completeness auto
termination
proof (relation "measure (\<lambda>(p, s). length s)")
  fix sep :: "char \<Rightarrow> bool" and s t
  assume t: "t = dropWhile sep s" and ne: "t \<noteq> []"
  from ne obtain c r where cr: "t = c # r" by (cases t) simp_all
  have "\<not> sep c" using t cr by (metis hd_dropWhile list.sel(1) list.distinct(1))
  then have "length (dropWhile (\<lambda>c. \<not> sep c) t) \<le> length r"
    by (simp add: cr length_dropWhile_le)
  also have "\<dots> < length t" by (simp add: cr)
  also have "\<dots> \<le> length s" by (simp add: t length_dropWhile_le)
  finally show "((sep, dropWhile (\<lambda>c. \<not> sep c) t), (sep, s)) \<in> measure (\<lambda>(p, s). length s)"
    by simp
qed simp

declare FieldsFunc.simps [simp del]

lemma HasPrefix_Nil [simp]: "HasPrefix s []"
  by (simp add: HasPrefix_def)

lemma HasPrefix_append [simp]: "HasPrefix (p @ s) p"
  by (simp add: HasPrefix_def)

lemma HasPrefix_Cons: "HasPrefix (c # s) (d # p) = (c = d \<and> HasPrefix s p)"
  by (auto simp: HasPrefix_def)

lemma TrimPrefix_append [simp]: "TrimPrefix (p @ s) p = s"
  by (simp add: TrimPrefix_def)

lemma HasPrefixE: "HasPrefix s p \<Longrightarrow> (\<And>r. s = p @ r \<Longrightarrow> thesis) \<Longrightarrow> thesis"
  unfolding HasPrefix_def by (metis append_take_drop_id)

lemma trim_left_id: "s = [] \<or> lead_space ws s = 0 \<Longrightarrow> trim_left ws s = s"
  by (subst trim_left.simps) auto

lemma FieldsFunc_sep [simp]: "sep c \<Longrightarrow> FieldsFunc sep (c # r) = FieldsFunc sep r"
  by (subst (1 2) FieldsFunc.simps) simp

lemma FieldsFunc_Nil [simp]: "FieldsFunc sep [] = []"
  by (subst FieldsFunc.simps) simp

lemma FieldsFunc_field:
  assumes "w \<noteq> []" "\<forall>c\<in>set w. \<not> sep c" "r = [] \<or> sep (hd r)"
  shows "FieldsFunc sep (w @ r) = w # FieldsFunc sep r"
proof -
  obtain c v where w: "w = c # v" using assms(1) by (cases w) auto
  have d: "dropWhile sep (w @ r) = w @ r" using assms(2) w by simp
  have "takeWhile (\<lambda>c. \<not> sep c) (w @ r) = w @ takeWhile (\<lambda>c. \<not> sep c) r"
    "dropWhile (\<lambda>c. \<not> sep c) (w @ r) = dropWhile (\<lambda>c. \<not> sep c) r"
    using assms(2) by (simp_all add: takeWhile_all_append dropWhile_all_append)
  moreover have "takeWhile (\<lambda>c. \<not> sep c) r = []" "dropWhile (\<lambda>c. \<not> sep c) r = r"
    using assms(3) by (cases r; auto)+
  ultimately show ?thesis using w d by (subst FieldsFunc.simps) (simp add: Let_def)
qed

text \<open>Text that begins and ends with a printable ASCII character is already trimmed.\<close>

definition plain_char :: "char \<Rightarrow> bool" where
  "plain_char c = (32 < (of_char c :: nat) \<and> (of_char c :: nat) < 128)"

lemma lead_space_plain:
  assumes "plain_char c" "\<forall>w\<in>set ws. w \<noteq> [] \<and> 128 \<le> (of_char (hd w) :: nat)"
  shows "lead_space ws (c # r) = 0"
proof -
  have "space_len ws (c # r) = 0" using assms(2)
  proof (induction ws)
    case (Cons w ws)
    then obtain d v where w: "w = d # v" by (cases w) auto
    with Cons.prems assms(1) have "c \<noteq> d" by (auto simp: plain_char_def)
    with Cons w show ?case by (simp add: HasPrefix_Cons)
  qed simp
  moreover have "\<not> ascii_space c" using assms(1) by (auto simp: plain_char_def ascii_space_def Let_def)
  ultimately show ?thesis by (simp add: lead_space_def)
qed

lemma wide_spaces_high:
  "\<forall>w\<in>set wide_spaces. w \<noteq> [] \<and> 128 \<le> (of_char (hd w) :: nat)"
  "\<forall>w\<in>set (map rev wide_spaces). w \<noteq> [] \<and> 128 \<le> (of_char (hd w) :: nat)"
  by (simp_all add: wide_spaces_def upt_rec)

lemma TrimSpace_plain:
  assumes "s \<noteq> []" "plain_char (hd s)" "plain_char (last s)"
  shows "TrimSpace s = s"
proof -
  obtain c r where s: "s = c # r" using assms(1) by (cases s) auto
  have l: "trim_left wide_spaces s = s"
    using assms(2) s by (intro trim_left_id) (simp add: lead_space_plain wide_spaces_high)
  obtain d t where rs: "rev s = d # t" using assms(1) by (cases "rev s") auto
  then have "d = last s" by (metis assms(1) hd_rev list.sel(1))
  then have "trim_left (map rev wide_spaces) (rev s) = rev s"
    using assms(3) rs wide_spaces_high(2) by (intro trim_left_id) (simp only: rs lead_space_plain simp_thms)
  then show ?thesis by (simp add: TrimSpace_def l)
qed

lemma TrimSuffix_other: "s = [] \<or> last s \<noteq> c \<Longrightarrow> TrimSuffix s [c] = s"
  by (cases s rule: rev_cases) (auto simp: TrimSuffix_def HasSuffix_def)

section \<open>Integer division\<close>

text \<open>Go's \<open>/\<close> and \<open>%\<close> on integers truncate towards zero.\<close>

definition go_quot :: "int \<Rightarrow> int \<Rightarrow> int" where
  "go_quot a b = sgn a * sgn b * (\<bar>a\<bar> div \<bar>b\<bar>)"

definition go_rem :: "int \<Rightarrow> int \<Rightarrow> int" where
  "go_rem a b = sgn a * (\<bar>a\<bar> mod \<bar>b\<bar>)"

lemma go_quot_nonneg: "0 \<le> a \<Longrightarrow> 0 < b \<Longrightarrow> go_quot a b = a div b"
  by (auto simp: go_quot_def sgn_if)

lemma go_rem_nonneg: "0 \<le> a \<Longrightarrow> 0 < b \<Longrightarrow> go_rem a b = a mod b"
  by (auto simp: go_rem_def sgn_if)

lemma go_rem_bound: "0 < b \<Longrightarrow> - b < go_rem a b \<and> go_rem a b < b"
  using pos_mod_bound [of b "\<bar>a\<bar>"] pos_mod_sign [of b "\<bar>a\<bar>"]
  by (auto simp: go_rem_def sgn_if simp del: pos_mod_bound pos_mod_sign)

lemma go_rem_mod: "0 < b \<Longrightarrow> go_rem a b mod b = a mod b"
  by (auto simp: go_rem_def sgn_if mod_minus_eq)

text \<open>The idiom \<open>((a % b) + b) % b\<close> is the mathematical remainder.\<close>

lemma go_rem_wrap: "0 < b \<Longrightarrow> go_rem (go_rem a b + b) b = a mod b"
  using go_rem_bound [of b a] go_rem_mod [of b a] by (simp add: go_rem_nonneg)

end
