(* ===== verification/Transport.thy ===== *)
theory Transport
  imports GoLang
begin

text \<open>
  The byte pipe below every client (src/lx200.go: \<open>Transport\<close>, \<open>deadliner\<close>; the serial
  port and the TCP connection themselves are system code). The peer is a parameter: what
  it sends is a list of scheduled reads, and \<open>react\<close> says which reads it schedules in
  answer to the writes made so far. Time is in nanoseconds.
\<close>

text \<open>\<open>Rd dt c e\<close>: after \<open>dt\<close> ns of waiting the pipe yields the bytes \<open>c\<close> and the error \<open>e\<close>.
  A serial port whose read timeout expires yields no bytes and no error.\<close>

datatype 'b rd = Rd nat "'b list" "gerr option"

record 'b transport =
  rx :: "'b rd list"
  wx :: "gerr option list"
  react :: "'b list list \<Rightarrow> 'b rd list"
  tx :: "'b list list"
  now :: int
  isDeadliner :: bool
  readDeadline :: "int option"

definition ms :: int where "ms = 1000000"

definition netTimeout :: gerr where "netTimeout = NetError ''i/o timeout'' True"

fun rd_size :: "'b rd \<Rightarrow> nat" where
  "rd_size (Rd dt c e) = Suc (length c)"

definition backlog :: "'b transport \<Rightarrow> nat" where
  "backlog s = sum_list (map rd_size (rx s))"

text \<open>The instant at which a blocked read gives up.\<close>

definition read_limit :: "'b transport \<Rightarrow> int option" where
  "read_limit s = (if isDeadliner s then readDeadline s else None)"

text \<open>\<open>Read\<close> with a buffer of \<open>n\<close> bytes: the bytes and the error. A deadline that passes
  first ends the read with a timeout and leaves the data for the next read; a pipe on
  which nothing more is scheduled is idle.\<close>

definition tr_read :: "nat \<Rightarrow> 'b transport \<Rightarrow> ('b list \<times> gerr option) \<times> 'b transport" where
  "tr_read n s =
     (case rx s of
        [] \<Rightarrow>
          (case read_limit s of
             Some d \<Rightarrow> (([], Some netTimeout), s\<lparr>now := max (now s) d\<rparr>)
           | None \<Rightarrow> (([], None), s))
      | Rd dt c e # rest \<Rightarrow>
          (let t = now s + int dt
           in if (case read_limit s of Some d \<Rightarrow> d < t | None \<Rightarrow> False) then
                (let d = max (now s) (the (read_limit s))
                 in (([], Some netTimeout), s\<lparr>rx := Rd (nat (t - d)) c e # rest, now := d\<rparr>))
              else if n < length c then
                ((take n c, None), s\<lparr>rx := Rd 0 (drop n c) e # rest, now := t\<rparr>)
              else ((c, e), s\<lparr>rx := rest, now := t\<rparr>)))"

text \<open>\<open>Write\<close>: the next outcome of \<open>wx\<close>, success once they are used up; an accepted write
  reaches the peer, which may answer.\<close>

definition tr_write :: "'b list \<Rightarrow> 'b transport \<Rightarrow> gerr option \<times> 'b transport" where
  "tr_write b s =
     (case wx s of
        Some e # rest \<Rightarrow> (Some e, s\<lparr>wx := rest\<rparr>)
      | ws \<Rightarrow> (None, s\<lparr>wx := drop 1 ws, tx := tx s @ [b], rx := rx s @ react s (tx s @ [b])\<rparr>))"

definition tr_sleep :: "int \<Rightarrow> 'b transport \<Rightarrow> 'b transport" where
  "tr_sleep d s = s\<lparr>now := now s + d\<rparr>"

text \<open>What \<open>tr_read\<close> and \<open>tr_write\<close> leave alone.\<close>

lemma tr_read_frame:
  assumes "tr_read n s = ((c, e), s')"
  shows "now s \<le> now s'" "tx s' = tx s" "wx s' = wx s" "react s' = react s"
    "isDeadliner s' = isDeadliner s" "readDeadline s' = readDeadline s"
  using assms by (auto simp: tr_read_def Let_def split: list.splits rd.splits option.splits if_splits)

lemma tr_read_length: "tr_read n s = ((c, e), s') \<Longrightarrow> length c \<le> n"
  by (auto simp: tr_read_def Let_def split: list.splits rd.splits option.splits if_splits)

text \<open>A read that gives no error and finds something scheduled uses it up.\<close>

lemma tr_read_backlog:
  assumes "tr_read n s = ((c, None), s')" "0 < n"
  shows "backlog s' < backlog s \<or> rx s = [] \<and> c = [] \<and> s' = s"
  using assms by (auto simp: tr_read_def Let_def backlog_def netTimeout_def
      split: list.splits rd.splits option.splits if_splits)

lemma tr_read_idle [simp]: "rx s = [] \<Longrightarrow> read_limit s = None \<Longrightarrow> tr_read n s = (([], None), s)"
  by (simp add: tr_read_def)

lemma tr_read_chunk [simp]:
  "rx s = Rd dt c e # rest \<Longrightarrow> (case read_limit s of Some d \<Rightarrow> now s + int dt \<le> d | None \<Rightarrow> True) \<Longrightarrow> length c \<le> n
    \<Longrightarrow> tr_read n s = ((c, e), s\<lparr>rx := rest, now := now s + int dt\<rparr>)"
  by (auto simp: tr_read_def Let_def split: option.splits)

lemma tr_write_ok:
  "wx s = [] \<Longrightarrow> tr_write b s = (None, s\<lparr>tx := tx s @ [b], rx := rx s @ react s (tx s @ [b])\<rparr>)"
  by (simp add: tr_write_def)

lemma tr_write_cases:
  assumes "tr_write b s = (r, s')"
  obtains (sent) "r = None" "tx s' = tx s @ [b]" "rx s' = rx s @ react s (tx s @ [b])"
      "now s' = now s" "react s' = react s" "isDeadliner s' = isDeadliner s" "readDeadline s' = readDeadline s"
  | (failed) e where "r = Some e" "tx s' = tx s" "rx s' = rx s"
      "now s' = now s" "react s' = react s" "isDeadliner s' = isDeadliner s" "readDeadline s' = readDeadline s"
  using assms by (auto simp: tr_write_def split: list.splits option.splits)

end
