(* ===== verification/Conn.thy ===== *)
theory Conn
  imports Transport
begin

text \<open>
  The command channel (src/lx200.go): \<open>Conn\<close> with the primitives \<open>Blind\<close>, \<open>Ack\<close>, \<open>AckByte\<close>,
  \<open>Get\<close>, \<open>Await\<close>, \<open>GetMatching\<close>, \<open>SlewNack\<close> and \<open>Slew\<close> every driver is built on. Each holds
  the connection's mutex from its write to its last read, so it is one step of the model.
  The closures \<open>accept\<close> and \<open>skip\<close> of \<open>GetMatching\<close>: \<open>accept\<close> is a predicate, and the frames
  given to \<open>skip\<close> are returned in order.
\<close>

section \<open>The functions of lx200.go\<close>

definition DefaultTimeout :: int where "DefaultTimeout = 3000 * ms"

record conn =
  wire :: "char transport"
  timeout :: int

definition New :: "char transport \<Rightarrow> int \<Rightarrow> conn" where
  "New t d = \<lparr>wire = t, timeout = (if d \<le> 0 then DefaultTimeout else d)\<rparr>"

definition ErrTimeout :: gerr where
  "ErrTimeout = ErrNew ''lx200: timed out waiting for reply''"

definition ErrNoMatch :: gerr where
  "ErrNoMatch = ErrNew ''lx200: no matching reply within the skip budget''"

definition connWrite :: "string \<Rightarrow> (conn, unit) io" where
  "connWrite cmd = (\<lambda>c.
     case tr_write cmd (wire c) of
       (None, t) \<Rightarrow> (Inr (), c\<lparr>wire := t\<rparr>)
     | (Some e, t) \<Rightarrow> (Inl (Errorf ''lx200: write %q: %w'' [AStr cmd] (Some e)), c\<lparr>wire := t\<rparr>))"

definition setDeadline :: "int \<Rightarrow> 'b transport \<Rightarrow> 'b transport" where
  "setDeadline d t = (if isDeadliner t then t\<lparr>readDeadline := Some (now t + d)\<rparr> else t)"

text \<open>A read error of the network layer that is a timeout becomes \<open>ErrTimeout\<close>.\<close>

fun read_error :: "gerr \<Rightarrow> gerr" where
  "read_error (NetError m True) = ErrTimeout"
| "read_error e = e"

function readByte_loop :: "int \<Rightarrow> 'b transport \<Rightarrow> (gerr + 'b) \<times> 'b transport" where
  "readByte_loop deadline t =
     (case tr_read 1 t of
        ((b # _, _), t') \<Rightarrow> (Inr b, t')
      | (([], Some e), t') \<Rightarrow> (Inl (read_error e), t')
      | (([], None), t') \<Rightarrow>
          if now t' > deadline then (Inl ErrTimeout, t')
          else readByte_loop deadline (tr_sleep (2 * ms) t'))"
  by pat_completeness auto
termination
proof (relation "measure (\<lambda>(deadline, t). nat (deadline + 3 * ms - now t))", goal_cases)
  case 1
  then show ?case by simp
next
  case (2 deadline t p t' c e)
  then have "tr_read 1 t = (([], None), t')" by simp
  from tr_read_frame(1) [OF this] 2 show ?case by (auto simp: tr_sleep_def ms_def)
qed

declare readByte_loop.simps [simp del]

definition readByte :: "int \<Rightarrow> (conn, char) io" where
  "readByte d = (\<lambda>c.
     let t = setDeadline d (wire c);
         (r, t') = readByte_loop (now t + d) t
     in (r, c\<lparr>wire := t'\<rparr>))"

text \<open>The text read so far is returned with the error, if there is one.\<close>

function readUntil_loop :: "'b \<Rightarrow> int \<Rightarrow> 'b list \<Rightarrow> 'b transport \<Rightarrow> ('b list \<times> gerr option) \<times> 'b transport" where
  "readUntil_loop delim deadline buf t =
     (case tr_read 1 t of ((c, e), t') \<Rightarrow>
        if c \<noteq> [] \<and> hd c = delim then ((buf, None), t')
        else (let buf = buf @ c
              in case e of
                   Some er \<Rightarrow> ((buf, Some (read_error er)), t')
                 | None \<Rightarrow>
                     if now t' > deadline then ((buf, Some ErrTimeout), t')
                     else readUntil_loop delim deadline buf (tr_sleep (2 * ms) t')))"
  by pat_completeness auto
termination
proof (relation "measure (\<lambda>(delim, deadline, buf, t). nat (deadline + 3 * ms - now t))", goal_cases)
  case 1
  then show ?case by simp
next
  case (2 delim deadline buf t p t' c e)
  then have "tr_read 1 t = ((c, e), t')" by simp
  from tr_read_frame(1) [OF this] 2 show ?case by (auto simp: tr_sleep_def ms_def)
qed

declare readUntil_loop.simps [simp del]

definition readUntil :: "char \<Rightarrow> int \<Rightarrow> conn \<Rightarrow> (string \<times> gerr option) \<times> conn" where
  "readUntil delim d c =
     (let t = setDeadline d (wire c);
          (r, t') = readUntil_loop delim (now t + d) [] t
      in (r, c\<lparr>wire := t'\<rparr>))"

text \<open>The value callers use when they return on the error.\<close>

definition frame_result :: "'b list \<times> gerr option \<Rightarrow> gerr + 'b list" where
  "frame_result r = (case snd r of None \<Rightarrow> Inr (fst r) | Some e \<Rightarrow> Inl e)"

definition readFrame :: "int \<Rightarrow> (conn, string) io" where
  "readFrame d = (\<lambda>c. case readUntil CHR ''#'' d c of (r, c') \<Rightarrow> (frame_result r, c'))"

definition Blind :: "string \<Rightarrow> (conn, unit) io" where
  "Blind cmd = connWrite cmd"

definition Ack :: "string \<Rightarrow> (conn, bool) io" where
  "Ack cmd = bindE (connWrite cmd) (\<lambda>_ c.
     bindE (readByte (timeout c)) (\<lambda>b. okE (b = CHR ''1'')) c)"

definition AckByte :: "string \<Rightarrow> (conn, char) io" where
  "AckByte cmd = bindE (connWrite cmd) (\<lambda>_ c. readByte (timeout c) c)"

definition Get :: "string \<Rightarrow> (conn, string) io" where
  "Get cmd = bindE (connWrite cmd) (\<lambda>_ c. readFrame (timeout c) c)"

definition Await :: "int \<Rightarrow> (conn, string) io" where
  "Await d = (\<lambda>c. readFrame (if d \<le> 0 then timeout c else d) c)"

text \<open>The loop of \<open>GetMatching\<close> at index \<open>i\<close>: the result and the frames skipped.\<close>

function matching_loop ::
  "string \<Rightarrow> (string \<Rightarrow> bool) \<Rightarrow> int \<Rightarrow> int \<Rightarrow> conn \<Rightarrow> (gerr + string) \<times> string list \<times> conn" where
  "matching_loop cmd accept maxSkip i c =
     (case readFrame (timeout c) c of
        (Inl e, c') \<Rightarrow> (Inl e, [], c')
      | (Inr s, c') \<Rightarrow>
          if accept s then (Inr s, [], c')
          else if i \<ge> maxSkip then
            (Inl (Errorf ''%s: last frame %q: %w'' [AStr cmd, AStr s] (Some ErrNoMatch)), [], c')
          else (case matching_loop cmd accept maxSkip (i + 1) c' of (r, sk, c'') \<Rightarrow> (r, s # sk, c'')))"
  by pat_completeness auto
termination by (relation "measure (\<lambda>(cmd, accept, maxSkip, i, c). nat (maxSkip - i))") auto

declare matching_loop.simps [simp del]

definition GetMatching ::
  "string \<Rightarrow> (string \<Rightarrow> bool) \<Rightarrow> int \<Rightarrow> conn \<Rightarrow> (gerr + string) \<times> string list \<times> conn" where
  "GetMatching cmd accept maxSkip c =
     (case connWrite cmd c of
        (Inl e, c') \<Rightarrow> (Inl e, [], c')
      | (Inr _, c') \<Rightarrow> matching_loop cmd accept maxSkip 0 c')"

definition SlewNack :: "string \<Rightarrow> int \<Rightarrow> (conn, string) io" where
  "SlewNack cmd window = bindE (connWrite cmd) (\<lambda>_ c.
     tryE (readFrame (if window \<le> 0 then timeout c else window)) (\<lambda>r.
       case r of
         Inl e \<Rightarrow> if errors_is e ErrTimeout then okE [] else errE e
       | Inr s \<Rightarrow> okE s) c)"

text \<open>\<open>Slew\<close> uses the fault text even when its end never arrived.\<close>

definition Slew :: "string \<Rightarrow> (conn, unit) io" where
  "Slew cmd = bindE (connWrite cmd) (\<lambda>_ c.
     bindE (readByte (timeout c)) (\<lambda>b.
       if b = CHR ''0'' then okE ()
       else (\<lambda>c. case readUntil CHR ''#'' (timeout c) c of ((reason, _), c') \<Rightarrow>
         if reason = [] then (Inl (Errorf ''lx200: slew rejected (code %c)'' [AChr b] None), c')
         else (Inl (Errorf ''lx200: slew rejected: %c%s'' [AChr b, AStr reason] None), c'))) c)"

section \<open>Reading a stream\<close>

fun rd_bytes :: "'b rd \<Rightarrow> 'b list" where "rd_bytes (Rd dt c e) = c"
fun rd_wait :: "'b rd \<Rightarrow> nat" where "rd_wait (Rd dt c e) = dt"
fun rd_clean :: "'b rd \<Rightarrow> bool" where "rd_clean (Rd dt c e) = (c \<noteq> [] \<and> e = None)"

definition bytes :: "'b rd list \<Rightarrow> 'b list" where
  "bytes rds = concat (map rd_bytes rds)"

definition waits :: "'b rd list \<Rightarrow> nat" where
  "waits rds = sum_list (map rd_wait rds)"

text \<open>\<open>in_time t w\<close>: a read that waits until \<open>w\<close> is not cut off by a deadline.\<close>

definition in_time :: "'b transport \<Rightarrow> int \<Rightarrow> bool" where
  "in_time t w = (case read_limit t of Some d \<Rightarrow> w \<le> d | None \<Rightarrow> True)"

lemma in_time_mono: "in_time t w \<Longrightarrow> v \<le> w \<Longrightarrow> in_time t v"
  by (auto simp: in_time_def split: option.splits)

lemma in_time_update [simp]:
  "in_time (t\<lparr>rx := r\<rparr>) w = in_time t w" "in_time (t\<lparr>now := n\<rparr>) w = in_time t w"
  "in_time (tr_sleep d t) w = in_time t w"
  by (simp_all add: in_time_def read_limit_def tr_sleep_def)

lemma read_one:
  assumes "bytes rds = b # bs" "list_all rd_clean rds" "rx t = rds @ later" "in_time t (now t + int (waits rds))"
  shows "\<exists>rds' dt. tr_read 1 t = (([b], None), t\<lparr>rx := rds' @ later, now := now t + int dt\<rparr>)
    \<and> list_all rd_clean rds' \<and> bytes rds' = bs \<and> dt + waits rds' = waits rds"
proof -
  obtain dt c e rest where rds: "rds = Rd dt c e # rest"
    using assms(1) by (cases rds; cases "hd rds") (auto simp: bytes_def)
  with assms(1,2) obtain cs where c: "c = b # cs" "e = None" and bs: "bs = cs @ bytes rest"
    by (cases c) (auto simp: bytes_def)
  have "now t + int dt \<le> now t + int (waits rds)" by (simp add: rds waits_def)
  from in_time_mono [OF assms(4) this] have lim: "\<not> (case read_limit t of Some d \<Rightarrow> d < now t + int dt | None \<Rightarrow> False)"
    by (auto simp: in_time_def split: option.splits)
  show ?thesis
  proof (cases cs)
    case Nil
    with assms(2,3) lim rds c bs show ?thesis
      by (intro exI [of _ rest] exI [of _ dt]) (auto simp: tr_read_def Let_def waits_def)
  next
    case (Cons x xs)
    with assms(2,3) lim rds c bs show ?thesis
      by (intro exI [of _ "Rd 0 cs None # rest"] exI [of _ dt]) (auto simp: tr_read_def Let_def waits_def bytes_def)
  qed
qed

text \<open>A frame that arrives in whatever pieces is read to its end and not beyond. Every byte
  before the end costs the 2 ms of the polling loop.\<close>

lemma readUntil_loop_frame:
  assumes "bytes rds = s @ delim # rest" "delim \<notin> set s" "list_all rd_clean rds" "rx t = rds @ later"
    "now t + int (waits rds) + 2 * ms * int (length s) \<le> deadline"
    "in_time t (now t + int (waits rds) + 2 * ms * int (length s))"
  shows "\<exists>rds' n. readUntil_loop delim deadline buf t = ((buf @ s, None), t\<lparr>rx := rds' @ later, now := n\<rparr>)
    \<and> list_all rd_clean rds' \<and> bytes rds' = rest \<and> waits rds' \<le> waits rds
    \<and> n + int (waits rds') = now t + int (waits rds) + 2 * ms * int (length s)"
  using assms
proof (induction s arbitrary: rds t buf)
  case Nil
  have it: "in_time t (now t + int (waits rds))" using Nil.prems by simp
  obtain rds' dt where r: "tr_read 1 t = (([delim], None), t\<lparr>rx := rds' @ later, now := now t + int dt\<rparr>)"
    "list_all rd_clean rds'" "bytes rds' = rest" "dt + waits rds' = waits rds"
    using read_one [OF _ Nil.prems(3,4) it] Nil.prems(1) by auto
  then show ?case
    by (intro exI [of _ rds'] exI [of _ "now t + int dt"]) (subst readUntil_loop.simps, auto)
next
  case (Cons b s)
  have pos: "0 < ms" by (simp add: ms_def)
  have it: "in_time t (now t + int (waits rds))" using Cons.prems(6) pos by (auto elim!: in_time_mono)
  obtain rds1 dt where r: "tr_read 1 t = (([b], None), t\<lparr>rx := rds1 @ later, now := now t + int dt\<rparr>)"
    "list_all rd_clean rds1" "bytes rds1 = s @ delim # rest" "dt + waits rds1 = waits rds"
    using read_one [OF _ Cons.prems(3,4) it] Cons.prems(1) by auto
  define t1 where "t1 = tr_sleep (2 * ms) (t\<lparr>rx := rds1 @ later, now := now t + int dt\<rparr>)"
  have tm: "now t1 + int (waits rds1) + 2 * ms * int (length s) = now t + int (waits rds) + 2 * ms * int (length (b # s))"
    using r(4) by (simp add: t1_def tr_sleep_def algebra_simps)
  have "now t + int dt \<le> deadline"
  proof -
    have "int dt \<le> int (waits rds)" using r(4) by simp
    moreover have "0 \<le> 2 * ms * int (length (b # s))" using pos by simp
    ultimately show ?thesis using Cons.prems(5) by linarith
  qed
  with r(1) Cons.prems(2) have step: "readUntil_loop delim deadline buf t = readUntil_loop delim deadline (buf @ [b]) t1"
    by (subst readUntil_loop.simps) (auto simp: t1_def)
  have "\<exists>rds' n. readUntil_loop delim deadline (buf @ [b]) t1 = (((buf @ [b]) @ s, None), t1\<lparr>rx := rds' @ later, now := n\<rparr>)
    \<and> list_all rd_clean rds' \<and> bytes rds' = rest \<and> waits rds' \<le> waits rds1
    \<and> n + int (waits rds') = now t1 + int (waits rds1) + 2 * ms * int (length s)"
    using Cons.prems(2,5,6) r(2,3) unfolding tm [symmetric] by (intro Cons.IH) (auto simp: t1_def tr_sleep_def)
  then show ?case unfolding step tm using r(4) by (fastforce simp: t1_def tr_sleep_def)
qed


lemma readByte_loop_byte:
  assumes "bytes rds = b # rest" "list_all rd_clean rds" "rx t = rds @ later" "in_time t (now t + int (waits rds))"
  shows "\<exists>rds' n. readByte_loop deadline t = (Inr b, t\<lparr>rx := rds' @ later, now := n\<rparr>)
    \<and> list_all rd_clean rds' \<and> bytes rds' = rest \<and> n + int (waits rds') = now t + int (waits rds)"
proof -
  obtain rds' dt where r: "tr_read 1 t = (([b], None), t\<lparr>rx := rds' @ later, now := now t + int dt\<rparr>)"
    "list_all rd_clean rds'" "bytes rds' = rest" "dt + waits rds' = waits rds"
    using read_one [OF assms] by blast
  then show ?thesis
    by (intro exI [of _ rds'] exI [of _ "now t + int dt"]) (subst readByte_loop.simps, auto)
qed

section \<open>How long a read can take\<close>

text \<open>On a pipe with deadlines a read ends at the deadline; on one without, every single
  read is assumed to return within \<open>R\<close> (the read timeout of a serial port).\<close>

definition patient :: "nat \<Rightarrow> 'b transport \<Rightarrow> bool" where
  "patient R t = (read_limit t = None \<longrightarrow> (\<forall>r\<in>set (rx t). rd_wait r \<le> R))"

definition read_cap :: "nat \<Rightarrow> 'b transport \<Rightarrow> int \<Rightarrow> int" where
  "read_cap R t n = (case read_limit t of Some d \<Rightarrow> max n d | None \<Rightarrow> n + int R)"

lemma read_cap_mono: "n \<le> m \<Longrightarrow> read_cap R t n \<le> read_cap R t m"
  by (auto simp: read_cap_def split: option.splits)

lemma tr_read_cap:
  assumes "tr_read n t = ((c, e), t')" "patient R t"
  shows "now t' \<le> read_cap R t (now t)" "patient R t'" "read_limit t' = read_limit t"
  using assms by (auto simp: tr_read_def Let_def patient_def read_cap_def read_limit_def
      split: list.splits rd.splits option.splits if_splits)

lemma tr_sleep_patient [simp]: "patient R (tr_sleep d t) = patient R t" "read_limit (tr_sleep d t) = read_limit t"
  by (simp_all add: patient_def read_limit_def tr_sleep_def)

lemma readUntil_loop_time:
  assumes "readUntil_loop delim deadline buf t = (r, t')" "patient R t"
  shows "now t' \<le> read_cap R t (max (now t) (deadline + 2 * ms))"
  using assms
proof (induction delim deadline buf t rule: readUntil_loop.induct)
  case (1 delim deadline buf t)
  obtain c e t1 where rd: "tr_read 1 t = ((c, e), t1)" by (metis surj_pair)
  note cap = tr_read_cap [OF rd 1(3)]
  have n1: "now t1 \<le> read_cap R t (max (now t) (deadline + 2 * ms))"
    using cap(1) read_cap_mono [of "now t" "max (now t) (deadline + 2 * ms)" R t] by simp
  show ?case
  proof (cases "(c \<noteq> [] \<and> hd c = delim) \<or> e \<noteq> None \<or> now t1 > deadline")
    case True
    then have "t' = t1" using 1(2) rd
      by (subst (asm) readUntil_loop.simps) (auto simp: Let_def split: if_splits option.splits)
    with n1 show ?thesis by simp
  next
    case False
    then have "readUntil_loop delim deadline (buf @ c) (tr_sleep (2 * ms) t1) = (r, t')"
      using 1(2) rd by (subst (asm) readUntil_loop.simps) (auto simp: Let_def)
    with 1(1) [OF rd [symmetric] refl _ refl _ _ ] False cap(2)
    have "now t' \<le> read_cap R (tr_sleep (2 * ms) t1) (max (now (tr_sleep (2 * ms) t1)) (deadline + 2 * ms))"
      by auto
    moreover have "max (now (tr_sleep (2 * ms) t1)) (deadline + 2 * ms) = deadline + 2 * ms"
      using False by (simp add: tr_sleep_def)
    ultimately show ?thesis
      using cap(3) read_cap_mono [of "deadline + 2 * ms" "max (now t) (deadline + 2 * ms)" R t]
      by (simp add: read_cap_def)
  qed
qed

lemma readByte_loop_time:
  assumes "readByte_loop deadline t = (r, t')" "patient R t"
  shows "now t' \<le> read_cap R t (max (now t) (deadline + 2 * ms))"
  using assms
proof (induction deadline t rule: readByte_loop.induct)
  case (1 deadline t)
  obtain c e t1 where rd: "tr_read 1 t = ((c, e), t1)" by (metis surj_pair)
  note cap = tr_read_cap [OF rd 1(3)]
  have n1: "now t1 \<le> read_cap R t (max (now t) (deadline + 2 * ms))"
    using cap(1) read_cap_mono [of "now t" "max (now t) (deadline + 2 * ms)" R t] by simp
  show ?case
  proof (cases "c \<noteq> [] \<or> e \<noteq> None \<or> now t1 > deadline")
    case True
    then have "t' = t1" using 1(2) rd
      by (subst (asm) readByte_loop.simps) (auto split: if_splits option.splits list.splits)
    with n1 show ?thesis by simp
  next
    case False
    then have "readByte_loop deadline (tr_sleep (2 * ms) t1) = (r, t')"
      using 1(2) rd by (subst (asm) readByte_loop.simps) auto
    with 1(1) [OF rd [symmetric] refl] False cap(2)
    have "now t' \<le> read_cap R (tr_sleep (2 * ms) t1) (max (now (tr_sleep (2 * ms) t1)) (deadline + 2 * ms))"
      by auto
    moreover have "max (now (tr_sleep (2 * ms) t1)) (deadline + 2 * ms) = deadline + 2 * ms"
      using False by (simp add: tr_sleep_def)
    ultimately show ?thesis
      using cap(3) read_cap_mono [of "deadline + 2 * ms" "max (now t) (deadline + 2 * ms)" R t]
      by (simp add: read_cap_def)
  qed
qed


section \<open>What is sent\<close>

definition sent :: "conn \<Rightarrow> string list" where
  "sent c = tx (wire c)"

text \<open>\<open>emits out m cmds\<close>: whatever happens \<open>m\<close> writes a prefix of \<open>cmds\<close>, and all of them
  when it succeeds. The rules follow the structure of the code.\<close>

definition emits :: "('s \<Rightarrow> string list) \<Rightarrow> ('s, 'a) io \<Rightarrow> string list \<Rightarrow> bool" where
  "emits out m cmds = (\<forall>c r c'. m c = (r, c') \<longrightarrow>
     (\<exists>p. prefix p cmds \<and> out c' = out c @ p \<and> (isl r \<or> p = cmds)))"

lemma emitsD: "emits out m cmds \<Longrightarrow> m c = (Inr x, c') \<Longrightarrow> out c' = out c @ cmds"
  by (force simp: emits_def)

lemma emitsE:
  assumes "emits out m cmds" "m c = (r, c')"
  obtains p where "prefix p cmds" "out c' = out c @ p" "isl r \<or> p = cmds"
  using assms unfolding emits_def by blast

lemma emits_okE: "emits out (okE x) []"
  by (simp add: emits_def)

lemma emits_errE: "emits out (errE e) cmds"
  by (auto simp: emits_def intro: exI [of _ "[]"])

lemma emits_if: "emits out m xs \<Longrightarrow> emits out n xs \<Longrightarrow> emits out (if b then m else n) xs"
  by simp

lemma emits_bindE:
  assumes "emits out m xs" "\<And>x. emits out (f x) ys"
  shows "emits out (bindE m f) (xs @ ys)"
  unfolding emits_def
proof (intro allI impI)
  fix c r c' assume b: "bindE m f c = (r, c')"
  obtain a c1 where a: "m c = (a, c1)" by fastforce
  then obtain p where p: "prefix p xs" "out c1 = out c @ p" "isl a \<or> p = xs" by (rule emitsE [OF assms(1)])
  show "\<exists>q. prefix q (xs @ ys) \<and> out c' = out c @ q \<and> (isl r \<or> q = xs @ ys)"
  proof (cases a)
    case (Inl e)
    with a b p show ?thesis by (auto simp: bindE_def intro!: exI [of _ p])
  next
    case (Inr x)
    with a b have "f x c1 = (r, c')" by (simp add: bindE_def)
    then obtain q where "prefix q ys" "out c' = out c1 @ q" "isl r \<or> q = ys" by (rule emitsE [OF assms(2)])
    with p Inr show ?thesis by (auto intro!: exI [of _ "xs @ q"])
  qed
qed

lemma emits_weaken: "emits out m xs \<Longrightarrow> (\<And>c. isl (fst (m c))) \<Longrightarrow> emits out m (xs @ ys)"
  unfolding emits_def by (metis fst_conv prefix_order.trans prefixI)

text \<open>The contract of a command primitive, and what its clients get from it.\<close>

locale channel =
  fixes out :: "'s \<Rightarrow> string list"
    and op :: "string \<Rightarrow> ('s, 'a) io"
  assumes op_emits: "emits out (op cmd) [cmd]"
begin

lemma op_then: "emits out (bindE (op cmd) (\<lambda>x. okE (f x))) [cmd]"
  using emits_bindE [OF op_emits emits_okE] by simp

lemma op_lift: "emits out (bindE (op cmd) (\<lambda>x. liftE (f x))) [cmd]"
proof -
  have "emits out (liftE (f x)) []" for x by (simp add: emits_def)
  from emits_bindE [OF op_emits this] show ?thesis by simp
qed

lemma op_pair: "emits out (bindE (op a) (\<lambda>_. op b)) [a, b]"
  using emits_bindE [OF op_emits op_emits, of a b] by simp

lemma op_sent: "op cmd c = (Inr x, c') \<Longrightarrow> out c' = out c @ [cmd]"
  by (rule emitsD [OF op_emits])

end

definition same_out :: "'b transport \<Rightarrow> 'b transport \<Rightarrow> bool" where
  "same_out t t' = (tx t' = tx t \<and> wx t' = wx t \<and> react t' = react t \<and> isDeadliner t' = isDeadliner t)"

lemma same_out_sleep: "same_out (tr_sleep d t) t' = same_out t t'"
  by (simp add: same_out_def tr_sleep_def)

lemma same_out_trans: "same_out t u \<Longrightarrow> same_out u v \<Longrightarrow> same_out t v"
  by (simp add: same_out_def)

lemma tr_read_same_out: "tr_read n t = ((c, e), t') \<Longrightarrow> same_out t t'"
  by (auto simp: same_out_def dest: tr_read_frame)

lemma readUntil_loop_same_out: "readUntil_loop delim deadline buf t = (r, t') \<Longrightarrow> same_out t t'"
proof (induction delim deadline buf t rule: readUntil_loop.induct)
  case (1 delim deadline buf t)
  obtain c e t1 where rd: "tr_read 1 t = ((c, e), t1)" by (metis surj_pair)
  note so = tr_read_same_out [OF rd]
  from 1(2) rd have "t' = t1 \<or> (\<not> (c \<noteq> [] \<and> hd c = delim) \<and> e = None \<and> \<not> now t1 > deadline \<and>
      readUntil_loop delim deadline (buf @ c) (tr_sleep (2 * ms) t1) = (r, t'))"
    by (subst (asm) readUntil_loop.simps) (auto simp: Let_def split: if_splits option.splits)
  then show ?case
    using 1(1) [OF rd [symmetric] refl _ refl] so by (auto simp: same_out_sleep intro: same_out_trans)
qed

lemma readByte_loop_same_out: "readByte_loop deadline t = (r, t') \<Longrightarrow> same_out t t'"
proof (induction deadline t rule: readByte_loop.induct)
  case (1 deadline t)
  obtain c e t1 where rd: "tr_read 1 t = ((c, e), t1)" by (metis surj_pair)
  note so = tr_read_same_out [OF rd]
  from 1(2) rd have "t' = t1 \<or> (c = [] \<and> e = None \<and> \<not> now t1 > deadline \<and>
      readByte_loop deadline (tr_sleep (2 * ms) t1) = (r, t'))"
    by (subst (asm) readByte_loop.simps) (auto split: if_splits option.splits list.splits)
  then show ?case
    using 1(1) [OF rd [symmetric] refl] so by (auto simp: same_out_sleep intro: same_out_trans)
qed

lemma setDeadline_same_out: "same_out (setDeadline d t) t' = same_out t t'"
  by (simp add: same_out_def setDeadline_def)

lemma readUntil_sent: "readUntil delim d c = (r, c') \<Longrightarrow> sent c' = sent c \<and> timeout c' = timeout c"
  by (auto simp: readUntil_def Let_def sent_def same_out_def setDeadline_def
      split: prod.splits if_splits dest!: readUntil_loop_same_out)

lemma readByte_emits: "emits sent (readByte d) []"
  by (auto simp: emits_def readByte_def Let_def sent_def same_out_def setDeadline_def
      split: prod.splits if_splits dest!: readByte_loop_same_out)

lemma readFrame_emits: "emits sent (readFrame d) []"
  by (auto simp: emits_def readFrame_def split: prod.splits dest!: readUntil_sent)

lemma connWrite_emits: "emits sent (connWrite cmd) [cmd]"
  by (auto simp: emits_def connWrite_def sent_def split: prod.splits option.splits elim!: tr_write_cases)

lemma emits_writing:
  assumes "\<And>c0. emits sent (g c0) []"
  shows "emits sent (bindE (connWrite cmd) (\<lambda>_ c. g c c)) [cmd]"
proof -
  have "emits sent (\<lambda>c. g c c) []" using assms by (simp add: emits_def)
  from emits_bindE [OF connWrite_emits this] show ?thesis by simp
qed

interpretation blind: channel sent Blind
  by unfold_locales (simp add: Blind_def connWrite_emits)

interpretation ack: channel sent Ack
proof unfold_locales
  have "emits sent (bindE (readByte d) (\<lambda>b. okE (b = CHR ''1''))) []" for d
    using emits_bindE [OF readByte_emits emits_okE] by simp
  then show "emits sent (Ack cmd) [cmd]" for cmd
    unfolding Ack_def by (rule emits_writing [where g = "\<lambda>c. bindE (readByte (timeout c)) (\<lambda>b. okE (b = CHR ''1''))"])
qed

interpretation ackbyte: channel sent AckByte
  using emits_writing [where g = "\<lambda>c. readByte (timeout c)"]
  by unfold_locales (simp add: AckByte_def readByte_emits)

interpretation get: channel sent Get
  using emits_writing [where g = "\<lambda>c. readFrame (timeout c)"]
  by unfold_locales (simp add: Get_def readFrame_emits)

interpretation slewnack: channel sent "\<lambda>cmd. SlewNack cmd window"
proof unfold_locales
  fix cmd
  let ?k = "\<lambda>r. case r of Inl e \<Rightarrow> if errors_is e ErrTimeout then okE [] else errE e | Inr s \<Rightarrow> okE s"
  have "emits sent (tryE (readFrame d) ?k) []" for d
    unfolding emits_def
  proof (intro allI impI)
    fix c r c' assume t: "tryE (readFrame d) ?k c = (r, c')"
    obtain a c1 where a: "readFrame d c = (a, c1)" by fastforce
    from readFrame_emits this have "sent c1 = sent c" by (rule emitsE) simp
    moreover have "c' = c1" using t a by (auto simp: tryE_def split: sum.splits if_splits)
    ultimately show "\<exists>p. prefix p [] \<and> sent c' = sent c @ p \<and> (isl r \<or> p = [])" by simp
  qed
  then show "emits sent (SlewNack cmd window) [cmd]"
    unfolding SlewNack_def
    by (rule emits_writing [where g = "\<lambda>c. tryE (readFrame (if window \<le> 0 then timeout c else window)) ?k"])
qed

interpretation slew: channel sent Slew
proof unfold_locales
  fix cmd
  let ?fault = "\<lambda>b c. case readUntil CHR ''#'' (timeout c) c of ((reason, _), c') \<Rightarrow>
         if reason = [] then (Inl (Errorf ''lx200: slew rejected (code %c)'' [AChr b] None), c')
         else (Inl (Errorf ''lx200: slew rejected: %c%s'' [AChr b, AStr reason] None), c')"
  let ?k = "\<lambda>b. if b = CHR ''0'' then okE () else ?fault b"
  have f: "emits sent (?fault b) []" for b
    by (auto simp: emits_def split: prod.splits if_splits dest!: readUntil_sent)
  have "emits sent (?k b) []" for b
    by (rule emits_if [OF emits_okE f])
  from emits_bindE [OF readByte_emits this] have "emits sent (bindE (readByte d) ?k) []" for d by simp
  then show "emits sent (Slew cmd) [cmd]"
    unfolding Slew_def by (rule emits_writing [where g = "\<lambda>c. bindE (readByte (timeout c)) ?k"])
qed


section \<open>Replies\<close>

lemma setDeadline_simps [simp]:
  "rx (setDeadline d t) = rx t" "now (setDeadline d t) = now t" "tx (setDeadline d t) = tx t"
  "wx (setDeadline d t) = wx t" "react (setDeadline d t) = react t"
  by (simp_all add: setDeadline_def)

lemma setDeadline_in_time: "read_limit t = None \<or> isDeadliner t \<Longrightarrow> w \<le> now t + d \<Longrightarrow> in_time (setDeadline d t) w"
  by (auto simp: in_time_def read_limit_def setDeadline_def)

lemma limit_cases: "read_limit t = None \<or> isDeadliner t"
  by (simp add: read_limit_def)

lemma readFrame_arrives:
  assumes "bytes rds = s @ CHR ''#'' # rest" "CHR ''#'' \<notin> set s" "list_all rd_clean rds"
    "rx (wire c) = rds @ later" "int (waits rds) + 2 * ms * int (length s) \<le> d"
  shows "\<exists>rds' c'. readFrame d c = (Inr s, c') \<and> rx (wire c') = rds' @ later \<and> list_all rd_clean rds'
    \<and> bytes rds' = rest \<and> waits rds' \<le> waits rds \<and> timeout c' = timeout c
    \<and> same_out (wire c) (wire c')"
proof -
  define t where "t = setDeadline d (wire c)"
  have "in_time t (now t + int (waits rds) + 2 * ms * int (length s))"
    unfolding t_def by (rule setDeadline_in_time [OF limit_cases]) (use assms(5) in simp)
  then obtain rds' n where r: "readUntil_loop CHR ''#'' (now t + d) [] t = ((s, None), t\<lparr>rx := rds' @ later, now := n\<rparr>)"
    "list_all rd_clean rds'" "bytes rds' = rest" "waits rds' \<le> waits rds"
    using readUntil_loop_frame [OF assms(1-3), of t later "now t + d" "[]"] assms(4,5) by (auto simp: t_def)
  let ?c = "c\<lparr>wire := t\<lparr>rx := rds' @ later, now := n\<rparr>\<rparr>"
  have "readFrame d c = (Inr s, ?c)"
    using r(1) by (simp add: readFrame_def readUntil_def frame_result_def Let_def t_def)
  moreover have "same_out (wire c) (wire ?c)" by (simp add: same_out_def t_def setDeadline_def)
  ultimately show ?thesis using r(2-4) by (intro exI [of _ rds'] exI [of _ ?c]) simp
qed

lemma connWrite_ok:
  assumes "wx (wire c) = []"
  shows "connWrite cmd c = (Inr (), c\<lparr>wire := (wire c)\<lparr>tx := sent c @ [cmd], rx := rx (wire c) @ react (wire c) (sent c @ [cmd])\<rparr>\<rparr>)"
  using assms by (simp add: connWrite_def tr_write_ok sent_def)

lemma Get_arrives:
  assumes "wx (wire c) = []" "rx (wire c) @ react (wire c) (sent c @ [cmd]) = rds @ later"
    "bytes rds = s @ CHR ''#'' # rest" "CHR ''#'' \<notin> set s" "list_all rd_clean rds"
    "int (waits rds) + 2 * ms * int (length s) \<le> timeout c"
  shows "\<exists>rds' c'. Get cmd c = (Inr s, c') \<and> sent c' = sent c @ [cmd] \<and> rx (wire c') = rds' @ later
    \<and> list_all rd_clean rds' \<and> bytes rds' = rest"
proof -
  define c1 where "c1 = c\<lparr>wire := (wire c)\<lparr>tx := sent c @ [cmd], rx := rds @ later\<rparr>\<rparr>"
  have w: "connWrite cmd c = (Inr (), c1)" using assms(1,2) by (simp add: connWrite_ok c1_def)
  obtain rds' c' where f: "readFrame (timeout c1) c1 = (Inr s, c')" "rx (wire c') = rds' @ later" "list_all rd_clean rds'"
    "bytes rds' = rest" "same_out (wire c1) (wire c')"
    using readFrame_arrives [OF assms(3-5), of c1 later "timeout c1"] assms(6) by (auto simp: c1_def)
  have "Get cmd c = (Inr s, c')" using w f(1) by (simp add: Get_def bindE_def)
  moreover have "sent c' = sent c @ [cmd]" using f(5) by (simp add: same_out_def sent_def c1_def)
  ultimately show ?thesis using f by blast
qed

text \<open>The frames of a stream, and which of them \<open>GetMatching\<close> returns.\<close>

definition frames :: "string list \<Rightarrow> string" where
  "frames fs = concat (map (\<lambda>f. f @ ''#'') fs)"

lemma frames_Cons: "frames (f # fs) = f @ CHR ''#'' # frames fs"
  by (simp add: frames_def)

lemma clean_empty: "list_all rd_clean rds \<Longrightarrow> bytes rds = [] \<Longrightarrow> rds = []"
  by (cases rds; cases "hd rds") (auto simp: bytes_def)

lemma tr_read_silent:
  "rx t = [] \<Longrightarrow> tr_read n t = (([], None), t) \<or> (\<exists>m. tr_read n t = (([], Some netTimeout), t\<lparr>now := m\<rparr>))"
  by (auto simp: tr_read_def split: option.split)

lemma readUntil_loop_silent:
  "rx t = [] \<Longrightarrow> \<exists>t'. readUntil_loop delim deadline buf t = ((buf, Some ErrTimeout), t') \<and> rx t' = [] \<and> same_out t t'"
proof (induction delim deadline buf t rule: readUntil_loop.induct)
  case (1 delim deadline buf t)
  from tr_read_silent [OF 1(2), of 1] show ?case
  proof (elim disjE exE)
    fix m assume "tr_read 1 t = (([], Some netTimeout), t\<lparr>now := m\<rparr>)"
    then show ?thesis using 1(2)
      by (intro exI [of _ "t\<lparr>now := m\<rparr>"]) (subst readUntil_loop.simps, simp add: netTimeout_def same_out_def)
  next
    assume r: "tr_read 1 t = (([], None), t)"
    show ?thesis
    proof (cases "now t > deadline")
      case True
      with r 1(2) show ?thesis
        by (intro exI [of _ t]) (subst readUntil_loop.simps, simp add: same_out_def)
    next
      case False
      have "rx (tr_sleep (2 * ms) t) = []" using 1(2) by (simp add: tr_sleep_def)
      with 1(1) [OF r [symmetric] refl _ refl] False obtain t' where
        "readUntil_loop delim deadline buf (tr_sleep (2 * ms) t) = ((buf, Some ErrTimeout), t')" "rx t' = []" "same_out t t'"
        by (auto simp: same_out_sleep)
      with r False show ?thesis by (intro exI [of _ t']) (subst readUntil_loop.simps, simp)
    qed
  qed
qed

lemma readFrame_silent:
  assumes "rx (wire c) = []"
  shows "\<exists>c'. readFrame d c = (Inl ErrTimeout, c') \<and> rx (wire c') = [] \<and> same_out (wire c) (wire c') \<and> timeout c' = timeout c"
proof -
  have "rx (setDeadline d (wire c)) = []" using assms by simp
  from readUntil_loop_silent [OF this, of "CHR ''#''" "now (wire c) + d" "[]"] obtain t' where
    "readUntil_loop CHR ''#'' (now (wire c) + d) [] (setDeadline d (wire c)) = (([], Some ErrTimeout), t')"
    "rx t' = []" "same_out (wire c) t'" by (auto simp: setDeadline_same_out)
  then show ?thesis
    by (intro exI [of _ "c\<lparr>wire := t'\<rparr>"]) (simp add: readFrame_def readUntil_def Let_def frame_result_def)
qed

text \<open>\<open>n\<close> frames come before the first acceptable one, and \<open>k\<close> may still be skipped: what the loop
  returns, which frames it skips, and what it leaves on the wire.\<close>

definition match_result :: "string \<Rightarrow> nat \<Rightarrow> nat \<Rightarrow> string list \<Rightarrow> gerr + string" where
  "match_result cmd n k fs =
     (if n < length fs \<and> n \<le> k then Inr (fs ! n)
      else if k < length fs then Inl (Errorf ''%s: last frame %q: %w'' [AStr cmd, AStr (fs ! k)] (Some ErrNoMatch))
      else Inl ErrTimeout)"

lemma matching_loop_stream:
  fixes fs :: "string list" and accept :: "string \<Rightarrow> bool" and maxSkip i :: int
  defines "n \<equiv> \<lambda>fs. length (takeWhile (\<lambda>f. \<not> accept f) fs)" and "k \<equiv> \<lambda>i. nat (maxSkip - i)"
  assumes "bytes rds = frames fs @ rest" "list_all rd_clean rds" "rx (wire c) = rds @ later"
    "\<forall>f\<in>set fs. CHR ''#'' \<notin> set f \<and> int (waits rds) + 2 * ms * int (length f) \<le> timeout c"
    "i \<le> maxSkip" "n fs < length fs \<or> k i < length fs \<or> rest = [] \<and> later = []"
  shows "\<exists>rds' c'. matching_loop cmd accept maxSkip i c = (match_result cmd (n fs) (k i) fs, take (min (n fs) (k i)) fs, c')
    \<and> rx (wire c') = rds' @ later \<and> bytes rds' = frames (drop (Suc (min (n fs) (k i))) fs) @ rest \<and> sent c' = sent c"
  using assms(3-)
proof (induction fs arbitrary: rds c i)
  case Nil
  then have "rx (wire c) = []" using clean_empty [of rds] by (simp add: n_def frames_def)
  from readFrame_silent [OF this, of "timeout c"] obtain c' where
    "readFrame (timeout c) c = (Inl ErrTimeout, c')" "rx (wire c') = []" "same_out (wire c) (wire c')" by blast
  with Nil show ?case
    by (intro exI [of _ "[]"] exI [of _ c'], subst matching_loop.simps)
      (simp add: match_result_def n_def frames_def bytes_def same_out_def sent_def)
next
  case (Cons f fs)
  from Cons.prems(1) have b: "bytes rds = f @ CHR ''#'' # (frames fs @ rest)" by (simp add: frames_Cons)
  obtain rds1 c1 where r: "readFrame (timeout c) c = (Inr f, c1)" "rx (wire c1) = rds1 @ later" "list_all rd_clean rds1"
    "bytes rds1 = frames fs @ rest" "waits rds1 \<le> waits rds" "timeout c1 = timeout c" "same_out (wire c) (wire c1)"
    using readFrame_arrives [OF b _ Cons.prems(2,3), of "timeout c"] Cons.prems(4) by auto
  have snt: "sent c1 = sent c" using r(7) by (simp add: same_out_def sent_def)
  show ?case
  proof (cases "accept f \<or> i \<ge> maxSkip")
    case True
    then have "min (n (f # fs)) (k i) = 0" by (auto simp: n_def k_def)
    with True r snt show ?thesis
      by (intro exI [of _ rds1] exI [of _ c1], subst matching_loop.simps) (auto simp: match_result_def n_def k_def)
  next
    case False
    then have nk: "n (f # fs) = Suc (n fs)" "k i = Suc (k (i + 1))" by (auto simp: n_def k_def)
    have fr: "\<forall>g\<in>set fs. CHR ''#'' \<notin> set g \<and> int (waits rds1) + 2 * ms * int (length g) \<le> timeout c1"
      using Cons.prems(4) r(5,6) by fastforce
    have more: "n fs < length fs \<or> k (i + 1) < length fs \<or> rest = [] \<and> later = []" using Cons.prems(6) nk by auto
    obtain rds2 c2 where c2: "matching_loop cmd accept maxSkip (i + 1) c1
        = (match_result cmd (n fs) (k (i + 1)) fs, take (min (n fs) (k (i + 1))) fs, c2)" "rx (wire c2) = rds2 @ later"
        "bytes rds2 = frames (drop (Suc (min (n fs) (k (i + 1)))) fs) @ rest" "sent c2 = sent c1"
      using Cons.IH [OF r(4,3,2) fr _ more] False by auto
    have "match_result cmd (n (f # fs)) (k i) (f # fs) = match_result cmd (n fs) (k (i + 1)) fs"
      by (simp add: match_result_def nk)
    with False r(1) c2 snt show ?thesis
      by (intro exI [of _ rds2] exI [of _ c2], subst matching_loop.simps) (simp add: nk)
  qed
qed

section \<open>A mount that answers\<close>

text \<open>
  A peer that answers each command, \<open>d\<close> ns after it was sent, with the text \<open>ans h\<close>, where
  \<open>h\<close> is the list of all commands so far; the empty text is silence. Any deterministic
  mount is of this form.
\<close>

definition answering :: "nat \<Rightarrow> (string list \<Rightarrow> string) \<Rightarrow> conn \<Rightarrow> bool" where
  "answering d ans c = (rx (wire c) = [] \<and> wx (wire c) = []
     \<and> react (wire c) = (\<lambda>h. if ans h = [] then [] else [Rd d (ans h) None]))"

text \<open>\<open>steps d ans c cmds c'\<close>: \<open>cmds\<close> were sent and the mount is ready again.\<close>

definition steps :: "nat \<Rightarrow> (string list \<Rightarrow> string) \<Rightarrow> conn \<Rightarrow> string list \<Rightarrow> conn \<Rightarrow> bool" where
  "steps d ans c cmds c' = (answering d ans c' \<and> sent c' = sent c @ cmds \<and> timeout c' = timeout c)"

lemma answered:
  assumes "answering d ans c" "ans (sent c @ [cmd]) \<noteq> []"
  shows "\<exists>c1. connWrite cmd c = (Inr (), c1) \<and> rx (wire c1) = [Rd d (ans (sent c @ [cmd])) None]
    \<and> wx (wire c1) = [] \<and> react (wire c1) = react (wire c) \<and> sent c1 = sent c @ [cmd] \<and> timeout c1 = timeout c"
  using assms by (simp add: connWrite_ok answering_def sent_def)

lemma Blind_answered:
  assumes "answering d ans c" "ans (sent c @ [cmd]) = []"
  shows "\<exists>c'. Blind cmd c = (Inr (), c') \<and> steps d ans c [cmd] c'"
  using assms by (auto simp: Blind_def connWrite_ok answering_def steps_def sent_def)

lemma Get_answered:
  assumes "answering d ans c" "ans (sent c @ [cmd]) = s @ ''#''" "CHR ''#'' \<notin> set s"
    "int d + 2 * ms * int (length s) \<le> timeout c"
  shows "\<exists>c'. Get cmd c = (Inr s, c') \<and> steps d ans c [cmd] c'"
proof -
  obtain c1 where c1: "connWrite cmd c = (Inr (), c1)" "rx (wire c1) = [Rd d (s @ ''#'') None] @ []" "wx (wire c1) = []"
    "react (wire c1) = react (wire c)" "sent c1 = sent c @ [cmd]" "timeout c1 = timeout c"
    using answered [OF assms(1), of cmd] assms(2) by auto
  obtain rds c' where r: "readFrame (timeout c1) c1 = (Inr s, c')" "rx (wire c') = rds @ []" "list_all rd_clean rds"
    "bytes rds = []" "timeout c' = timeout c1" "same_out (wire c1) (wire c')"
    using readFrame_arrives [OF _ assms(3) _ c1(2), of "[]" "timeout c1"] assms(4) c1(6)
    by (auto simp: bytes_def waits_def)
  have "Get cmd c = (Inr s, c')" using c1(1) r(1) by (simp add: Get_def bindE_def)
  moreover have "answering d ans c'"
    using assms(1) r(2,6) c1(3,4) clean_empty [OF r(3,4)] by (simp add: answering_def same_out_def)
  moreover have "sent c' = sent c @ [cmd]" using r(6) c1(5) by (simp add: same_out_def sent_def)
  ultimately show ?thesis using r(5) c1(6) by (auto simp: steps_def)
qed

lemma AckByte_answered:
  assumes "answering d ans c" "ans (sent c @ [cmd]) = [b]" "int d \<le> timeout c"
  shows "\<exists>c'. AckByte cmd c = (Inr b, c') \<and> steps d ans c [cmd] c'"
proof -
  obtain c1 where c1: "connWrite cmd c = (Inr (), c1)" "rx (wire c1) = [Rd d [b] None] @ []" "wx (wire c1) = []"
    "react (wire c1) = react (wire c)" "sent c1 = sent c @ [cmd]" "timeout c1 = timeout c"
    using answered [OF assms(1), of cmd] assms(2) by auto
  define t where "t = setDeadline (timeout c1) (wire c1)"
  have "in_time t (now t + int d)"
    unfolding t_def by (rule setDeadline_in_time [OF limit_cases]) (use assms(3) c1(6) in simp)
  then obtain rds n where r: "readByte_loop (now t + timeout c1) t = (Inr b, t\<lparr>rx := rds @ [], now := n\<rparr>)"
    "list_all rd_clean rds" "bytes rds = []"
    using readByte_loop_byte [of "[Rd d [b] None]" b "[]" t "[]" "now t + timeout c1"] c1(2)
    by (auto simp: bytes_def waits_def t_def)
  let ?c = "c1\<lparr>wire := t\<lparr>rx := [], now := n\<rparr>\<rparr>"
  have "readByte (timeout c1) c1 = (Inr b, ?c)"
    using r clean_empty [OF r(2,3)] by (simp add: readByte_def Let_def t_def)
  with c1(1) have "AckByte cmd c = (Inr b, ?c)" by (simp add: AckByte_def bindE_def)
  moreover have "steps d ans c [cmd] ?c"
    using assms(1) c1 by (simp add: steps_def answering_def t_def sent_def)
  ultimately show ?thesis by blast
qed

lemma Ack_AckByte: "Ack cmd = bindE (AckByte cmd) (\<lambda>b. okE (b = CHR ''1''))"
  by (simp add: Ack_def AckByte_def bindE_def fun_eq_iff split: prod.splits sum.splits)

lemma Ack_answered:
  assumes "answering d ans c" "ans (sent c @ [cmd]) = [b]" "int d \<le> timeout c"
  shows "\<exists>c'. Ack cmd c = (Inr (b = CHR ''1''), c') \<and> steps d ans c [cmd] c'"
  using AckByte_answered [OF assms] by (auto simp: Ack_AckByte bindE_def)

lemma Slew_answered:
  assumes "answering d ans c" "ans (sent c @ [cmd]) = ''0''" "int d \<le> timeout c"
  shows "\<exists>c'. Slew cmd c = (Inr (), c') \<and> steps d ans c [cmd] c'"
proof -
  obtain c' where "AckByte cmd c = (Inr CHR ''0'', c')" "steps d ans c [cmd] c'"
    using AckByte_answered [OF assms] by blast
  moreover from this have "Slew cmd c = (Inr (), c')"
    by (auto simp: Slew_def AckByte_def bindE_def split: prod.splits sum.splits)
  ultimately show ?thesis by blast
qed

lemma steps_trans: "steps d ans c xs c1 \<Longrightarrow> steps d ans c1 ys c2 \<Longrightarrow> steps d ans c (xs @ ys) c2"
  by (simp add: steps_def)

text \<open>A connection to such a mount.\<close>

definition mount_conn :: "nat \<Rightarrow> (string list \<Rightarrow> string) \<Rightarrow> conn" where
  "mount_conn d ans = New \<lparr>rx = [], wx = [], react = (\<lambda>h. if ans h = [] then [] else [Rd d (ans h) None]),
     tx = [], now = 0, isDeadliner = True, readDeadline = None\<rparr> 0"

lemma mount_conn_facts [simp]:
  "answering d ans (mount_conn d ans)" "sent (mount_conn d ans) = []" "timeout (mount_conn d ans) = 3000000000"
  by (simp_all add: mount_conn_def New_def answering_def sent_def DefaultTimeout_def ms_def)

lemma matching_loop_answered:
  assumes "bytes rds = frames (fs @ [f])" "list_all rd_clean rds" "rx (wire c) = rds"
    "\<forall>g\<in>set (fs @ [f]). CHR ''#'' \<notin> set g \<and> int (waits rds) + 2 * ms * int (length g) \<le> timeout c"
    "\<forall>g\<in>set fs. \<not> accept g" "accept f" "i + int (length fs) \<le> maxSkip"
  shows "\<exists>c'. matching_loop cmd accept maxSkip i c = (Inr f, fs, c') \<and> rx (wire c') = []
    \<and> same_out (wire c) (wire c') \<and> timeout c' = timeout c"
  using assms
proof (induction fs arbitrary: rds c i)
  case Nil
  then obtain rds1 c1 where r: "readFrame (timeout c) c = (Inr f, c1)" "rx (wire c1) = rds1 @ []" "list_all rd_clean rds1"
    "bytes rds1 = []" "timeout c1 = timeout c" "same_out (wire c) (wire c1)"
    using readFrame_arrives [of rds f "[]" c "[]" "timeout c"] by (auto simp: frames_def)
  with Nil.prems(6) clean_empty [OF r(3,4)] show ?case by (subst matching_loop.simps) simp
next
  case (Cons g fs)
  from Cons.prems(1) have b: "bytes rds = g @ CHR ''#'' # frames (fs @ [f])" by (simp add: frames_Cons)
  obtain rds1 c1 where r: "readFrame (timeout c) c = (Inr g, c1)" "rx (wire c1) = rds1 @ []" "list_all rd_clean rds1"
    "bytes rds1 = frames (fs @ [f])" "waits rds1 \<le> waits rds" "timeout c1 = timeout c" "same_out (wire c) (wire c1)"
    using readFrame_arrives [OF b _ Cons.prems(2), of c "[]" "timeout c"] Cons.prems(3,4) by auto
  have "\<forall>h\<in>set (fs @ [f]). CHR ''#'' \<notin> set h \<and> int (waits rds1) + 2 * ms * int (length h) \<le> timeout c1"
    using Cons.prems(4) r(5,6) by fastforce
  then obtain c2 where c2: "matching_loop cmd accept maxSkip (i + 1) c1 = (Inr f, fs, c2)" "rx (wire c2) = []"
    "same_out (wire c1) (wire c2)" "timeout c2 = timeout c1"
    using Cons.IH [OF r(4,3), of c1 "i + 1"] r(2) Cons.prems(5-7) by auto
  have "\<not> accept g" "i < maxSkip" using Cons.prems(5,7) by auto
  with r(1) c2(1) have "matching_loop cmd accept maxSkip i c = (Inr f, g # fs, c2)"
    by (subst matching_loop.simps) simp
  with c2 r(6,7) same_out_trans show ?case by auto
qed

lemma GetMatching_answered:
  assumes "answering d ans c" "ans (sent c @ [cmd]) = frames (fs @ [f])"
    "\<forall>g\<in>set (fs @ [f]). CHR ''#'' \<notin> set g \<and> int d + 2 * ms * int (length g) \<le> timeout c"
    "\<forall>g\<in>set fs. \<not> accept g" "accept f" "int (length fs) \<le> maxSkip"
  shows "\<exists>c'. GetMatching cmd accept maxSkip c = (Inr f, fs, c') \<and> steps d ans c [cmd] c'"
proof -
  have ne: "ans (sent c @ [cmd]) \<noteq> []" using assms(2) by (simp add: frames_def)
  obtain c1 where c1: "connWrite cmd c = (Inr (), c1)" "rx (wire c1) = [Rd d (frames (fs @ [f])) None]" "wx (wire c1) = []"
    "react (wire c1) = react (wire c)" "sent c1 = sent c @ [cmd]" "timeout c1 = timeout c"
    using answered [OF assms(1) ne] assms(2) by auto
  have "frames (fs @ [f]) \<noteq> []" by (simp add: frames_def)
  then obtain c' where c': "matching_loop cmd accept maxSkip 0 c1 = (Inr f, fs, c')" "rx (wire c') = []"
    "same_out (wire c1) (wire c')" "timeout c' = timeout c1"
    using matching_loop_answered [of "[Rd d (frames (fs @ [f])) None]" fs f c1 accept 0 maxSkip cmd] c1(2,6) assms(3-6)
    by (auto simp: bytes_def waits_def)
  have "GetMatching cmd accept maxSkip c = (Inr f, fs, c')" using c1(1) c'(1) by (simp add: GetMatching_def)
  moreover have "steps d ans c [cmd] c'"
    using assms(1) c1(3-6) c'(2-4) by (simp add: steps_def answering_def same_out_def sent_def)
  ultimately show ?thesis by blast
qed

section \<open>Properties of the channel\<close>

text \<open>C7: \<open>Get\<close> returns the text of the first frame that follows its command, however the
  reads cut it, when it arrives within the timeout (2 ms of which go for every byte); it
  sends its command once and leaves everything behind the frame to the next reader.\<close>

theorem Get_returns_frame:
  assumes "wx (wire c) = []" "rx (wire c) @ react (wire c) (sent c @ [cmd]) = rds @ later"
    "bytes rds = s @ CHR ''#'' # rest" "CHR ''#'' \<notin> set s" "list_all rd_clean rds"
    "int (waits rds) + 2 * ms * int (length s) \<le> timeout c"
  shows "\<exists>rds' c'. Get cmd c = (Inr s, c') \<and> sent c' = sent c @ [cmd] \<and> rx (wire c') = rds' @ later
    \<and> list_all rd_clean rds' \<and> bytes rds' = rest"
  by (rule Get_arrives [OF assms])

theorem Get_returns_frame_witness:
  "\<exists>c'. Get '':GR#'' (mount_conn 1000000 (\<lambda>h. ''05:00:00#+10'')) = (Inr ''05:00:00'', c')"
proof -
  let ?c = "mount_conn 1000000 (\<lambda>h. ''05:00:00#+10'')"
  have "wx (wire ?c) = []" "rx (wire ?c) @ react (wire ?c) (sent ?c @ ['':GR#'']) = [Rd 1000000 ''05:00:00#+10'' None] @ []"
    by (simp_all add: mount_conn_def New_def)
  from Get_returns_frame [OF this, of "''05:00:00''" "''+10''"] show ?thesis
    by (auto simp: bytes_def waits_def ms_def)
qed

text \<open>Each primitive sends its command exactly once, and a primitive that fails has sent
  it at most once; none sends anything else.\<close>

theorem primitives_send_once:
  "emits sent (Blind cmd) [cmd] \<and> emits sent (Ack cmd) [cmd] \<and> emits sent (AckByte cmd) [cmd]
   \<and> emits sent (Get cmd) [cmd] \<and> emits sent (SlewNack cmd window) [cmd] \<and> emits sent (Slew cmd) [cmd]"
  using blind.op_emits ack.op_emits ackbyte.op_emits get.op_emits slewnack.op_emits slew.op_emits by blast

text \<open>C9: a read ends. On a pipe with deadlines \<open>readUntil\<close> returns at most 2 ms after its
  timeout; on a serial port whose reads each return within \<open>R\<close>, at most \<open>R\<close> later than
  that.\<close>

theorem readUntil_time:
  assumes "0 \<le> d" "isDeadliner (wire c) \<or> (\<forall>r\<in>set (rx (wire c)). rd_wait r \<le> R)"
    "readUntil delim d c = (r, c')"
  shows "now (wire c') \<le> now (wire c) + d + 2 * ms + (if isDeadliner (wire c) then 0 else int R)"
proof -
  define t where "t = setDeadline d (wire c)"
  obtain t' where t': "readUntil_loop delim (now t + d) [] t = (r, t')" "wire c' = t'"
    using assms(3) by (auto simp: readUntil_def Let_def t_def split: prod.splits)
  have "patient R t" using assms(2) by (auto simp: t_def patient_def read_limit_def setDeadline_def)
  from readUntil_loop_time [OF t'(1) this] show ?thesis
    using assms(1) by (auto simp: t'(2) t_def setDeadline_def read_cap_def read_limit_def ms_def split: if_splits)
qed

theorem readUntil_time_witness:
  "now (wire (snd (readUntil CHR ''#'' 5 (mount_conn 1 (\<lambda>h. []))))) \<le> 5 + 2 * ms"
proof -
  obtain r c' where r: "readUntil CHR ''#'' 5 (mount_conn 1 (\<lambda>h. [])) = (r, c')" by fastforce
  from readUntil_time [OF _ _ r, of 0] r show ?thesis by (simp add: mount_conn_def New_def)
qed

text \<open>C8: \<open>GetMatching\<close> reads exactly as far as it has to. Let \<open>n\<close> frames of what arrives, each
  in time, precede the first acceptable one and \<open>k\<close>, zero or more, be the budget. It returns the acceptable frame when \<open>n\<close> is at most
  \<open>k\<close>, fails with \<open>ErrNoMatch\<close>, naming frame \<open>k\<close>, when more than \<open>k\<close> arrive, and times out when the mount falls
  silent first; it hands the frames before that one to \<open>skip\<close> in order, and whatever follows it stays
  on the wire for the next read.\<close>

theorem GetMatching_first:
  fixes fs :: "string list" and accept :: "string \<Rightarrow> bool" and maxSkip :: int
  defines "n \<equiv> length (takeWhile (\<lambda>f. \<not> accept f) fs)" and "k \<equiv> nat maxSkip"
  assumes "wx (wire c) = []" "rx (wire c) @ react (wire c) (sent c @ [cmd]) = rds @ later"
    "bytes rds = frames fs @ rest" "list_all rd_clean rds"
    "\<forall>f\<in>set fs. CHR ''#'' \<notin> set f \<and> int (waits rds) + 2 * ms * int (length f) \<le> timeout c"
    "0 \<le> maxSkip" "n < length fs \<or> k < length fs \<or> rest = [] \<and> later = []"
  shows "\<exists>rds' c'. GetMatching cmd accept maxSkip c =
      (if n < length fs \<and> n \<le> k then Inr (fs ! n)
       else if k < length fs then Inl (Errorf ''%s: last frame %q: %w'' [AStr cmd, AStr (fs ! k)] (Some ErrNoMatch))
       else Inl ErrTimeout,
       take (min n k) fs, c')
    \<and> rx (wire c') = rds' @ later \<and> bytes rds' = frames (drop (Suc (min n k)) fs) @ rest \<and> sent c' = sent c @ [cmd]"
proof -
  define c1 where "c1 = c\<lparr>wire := (wire c)\<lparr>tx := sent c @ [cmd], rx := rds @ later\<rparr>\<rparr>"
  have w: "connWrite cmd c = (Inr (), c1)" using assms(3,4) by (simp add: connWrite_ok c1_def)
  have c1: "rx (wire c1) = rds @ later" "timeout c1 = timeout c" "sent c1 = sent c @ [cmd]" by (simp_all add: c1_def sent_def)
  from matching_loop_stream [OF assms(5,6) c1(1), of 0 maxSkip accept cmd] assms(7-9) c1 w
  show ?thesis by (auto simp: GetMatching_def match_result_def n_def k_def)
qed

theorem GetMatching_first_witness:
  "\<exists>c'. GetMatching '':GR#'' (\<lambda>f. f = ''b'') 1 (mount_conn 0 (\<lambda>h. ''a#b#c#'')) = (Inr ''b'', [''a''], c')
    \<and> bytes (rx (wire c')) = ''c#''"
proof -
  let ?c = "mount_conn 0 (\<lambda>h. ''a#b#c#'')"
  have "wx (wire ?c) = []" "rx (wire ?c) @ react (wire ?c) (sent ?c @ ['':GR#'']) = [Rd 0 ''a#b#c#'' None] @ []"
    by (simp_all add: mount_conn_def New_def)
  from GetMatching_first [OF this, of "[''a'', ''b'', ''c'']" "[]" 1 "\<lambda>f. f = ''b''"] show ?thesis
    by (auto simp: bytes_def waits_def ms_def frames_def)
qed

end
