(* ===== verification/GoFmt.thy ===== *)
theory GoFmt
  imports GoLang "HOL-Library.Char_ord"
begin

text \<open>
  Decimal text: the integer verbs \<open>%d\<close>, \<open>%0wd\<close>, \<open>%+0wd\<close> and the fixed-point verb
  \<open>%[+]0w.pf\<close> of package \<open>fmt\<close>, and \<open>strconv.ParseFloat\<close> on strings of digits and
  points. The lemmas give the lengths, the digit sets and the round trips that the
  message-format proofs use.
\<close>

section \<open>Digits\<close>

definition dig :: "nat \<Rightarrow> char" where
  "dig n = char_of (48 + n)"

definition is_digit :: "char \<Rightarrow> bool" where
  "is_digit c = (CHR ''0'' \<le> c \<and> c \<le> CHR ''9'')"

definition digit_val :: "char \<Rightarrow> nat" where
  "digit_val c = of_char c - 48"

fun nat_str :: "nat \<Rightarrow> string" where
  "nat_str n = (if n < 10 then [dig n] else nat_str (n div 10) @ [dig (n mod 10)])"

declare nat_str.simps [simp del]

definition digits_val :: "string \<Rightarrow> nat" where
  "digits_val s = foldl (\<lambda>a c. 10 * a + digit_val c) 0 s"

definition pad0 :: "nat \<Rightarrow> string \<Rightarrow> string" where
  "pad0 w s = replicate (w - length s) CHR ''0'' @ s"

definition padsp :: "nat \<Rightarrow> string \<Rightarrow> string" where
  "padsp w s = replicate (w - length s) CHR '' '' @ s"

text \<open>\<open>%0wd\<close>: the width counts the sign, which comes before the zeros; \<open>w = 0\<close> is \<open>%d\<close>.\<close>

definition fmt_d :: "nat \<Rightarrow> int \<Rightarrow> string" where
  "fmt_d w n = (if n < 0 then ''-'' @ pad0 (w - 1) (nat_str (nat (- n)))
                else pad0 w (nat_str (nat n)))"

definition fmt_plus_d :: "nat \<Rightarrow> int \<Rightarrow> string" where
  "fmt_plus_d w n = (if n < 0 then ''-'' else ''+'') @ pad0 (w - 1) (nat_str (nat \<bar>n\<bar>))"

text \<open>The digits of \<open>\<bar>x\<bar>\<close> with \<open>p\<close> decimals, correctly rounded, ties to even.\<close>

definition fixed_digits :: "nat \<Rightarrow> rat \<Rightarrow> string" where
  "fixed_digits p q =
     (let n = nat (round_even (\<bar>q\<bar> * 10 ^ p))
      in nat_str (n div 10 ^ p) @ (if p = 0 then [] else ''.'' @ pad0 p (nat_str (n mod 10 ^ p))))"

text \<open>\<open>%0w.pf\<close> and \<open>%+0w.pf\<close>: zero padding after the sign; infinities and NaN are
  padded with spaces instead.\<close>

definition fmt_f :: "bool \<Rightarrow> nat \<Rightarrow> nat \<Rightarrow> f64 \<Rightarrow> string" where
  "fmt_f signed w p x =
     (case x of
        NaN \<Rightarrow> padsp w (if signed then ''+NaN'' else ''NaN'')
      | PInf \<Rightarrow> padsp w ''+Inf''
      | NInf \<Rightarrow> padsp w ''-Inf''
      | _ \<Rightarrow> (let s = fixed_digits p (fval x)
              in if fsign x then ''-'' @ pad0 (w - 1) s
                 else if signed then ''+'' @ pad0 (w - 1) s
                 else pad0 w s))"

section \<open>strconv.ParseFloat on digits and points\<close>

text \<open>The value of a decimal numeral without sign or exponent: digits with at most one
  point, and at least one digit.\<close>

definition decimal_value :: "string \<Rightarrow> rat option" where
  "decimal_value s =
     (let i = takeWhile (\<lambda>c. c \<noteq> CHR ''.'') s; r = dropWhile (\<lambda>c. c \<noteq> CHR ''.'') s
      in case r of
           [] \<Rightarrow> if list_all is_digit i \<and> i \<noteq> [] then Some (of_nat (digits_val i)) else None
         | _ # f \<Rightarrow> if list_all is_digit (i @ f) \<and> i @ f \<noteq> []
                    then Some (of_nat (digits_val (i @ f)) / 10 ^ length f) else None)"

definition ErrSyntax :: gerr where "ErrSyntax = ErrNew ''invalid syntax''"
definition ErrRange :: gerr where "ErrRange = ErrNew ''value out of range''"

text \<open>\<open>strconv.ParseFloat(s, 64)\<close> for \<open>s\<close> made of digits and points: the nearest
  binary64 number, or a syntax or range error.\<close>

definition ParseFloat :: "string \<Rightarrow> gerr + f64" where
  "ParseFloat s =
     (case decimal_value s of
        None \<Rightarrow> Inl (Errorf ''strconv.ParseFloat: parsing %q: %w'' [AStr s] (Some ErrSyntax))
      | Some q \<Rightarrow>
          (let f = rnd q
           in if is_fin f then Inr f
              else Inl (Errorf ''strconv.ParseFloat: parsing %q: %w'' [AStr s] (Some ErrRange))))"

section \<open>Facts\<close>

lemma of_char_dig: "n < 10 \<Longrightarrow> (of_char (dig n) :: nat) = 48 + n"
  by (simp add: dig_def)

lemma is_digit_iff: "is_digit c = (48 \<le> (of_char c :: nat) \<and> (of_char c :: nat) \<le> 57)"
proof -
  have "CHR ''0'' \<le> c \<longleftrightarrow> (of_char (CHR ''0'') :: nat) \<le> of_char c"
    "c \<le> CHR ''9'' \<longleftrightarrow> (of_char c :: nat) \<le> of_char (CHR ''9'')"
    by (simp_all add: less_eq_char_def)
  then show ?thesis by (simp add: is_digit_def)
qed

lemma is_digit_dig [simp]: "n < 10 \<Longrightarrow> is_digit (dig n)"
  by (simp add: is_digit_iff of_char_dig)

lemma digit_val_dig [simp]: "n < 10 \<Longrightarrow> digit_val (dig n) = n"
  by (simp add: digit_val_def of_char_dig)

lemma dig_digit_val: "is_digit c \<Longrightarrow> dig (digit_val c) = c"
  by (simp add: is_digit_iff dig_def digit_val_def)

lemma dig_0: "dig 0 = CHR ''0''"
  by code_simp

lemma digit_val_less: "is_digit c \<Longrightarrow> digit_val c < 10"
  unfolding is_digit_iff digit_val_def by linarith

lemma digits_val_Nil [simp]: "digits_val [] = 0"
  by (simp add: digits_val_def)

lemma digits_val_snoc [simp]: "digits_val (s @ [c]) = 10 * digits_val s + digit_val c"
  by (simp add: digits_val_def)

lemma digits_val_append: "digits_val (s @ t) = digits_val s * 10 ^ length t + digits_val t"
  by (induction t rule: rev_induct) (simp_all flip: append_assoc add: algebra_simps)

lemma digits_val_zeros [simp]: "digits_val (replicate k CHR ''0'' @ s) = digits_val s"
proof -
  have "digits_val (replicate k CHR ''0'') = 0"
  proof (induction k)
    case (Suc k)
    have "digits_val (replicate (Suc k) CHR ''0'') = digits_val (replicate k CHR ''0'' @ [CHR ''0''])"
      by (simp only: replicate_append_same replicate_Suc)
    with Suc show ?case by (simp add: digit_val_def del: replicate_append_same)
  qed simp
  then show ?thesis by (simp add: digits_val_append)
qed

lemma digits_val_nat_str [simp]: "digits_val (nat_str n) = n"
proof (induction n rule: nat_str.induct)
  case (1 n)
  show ?case
  proof (cases "n < 10")
    case True
    then show ?thesis by (simp add: nat_str.simps digits_val_def)
  next
    case False
    with 1 show ?thesis by (subst nat_str.simps) simp
  qed
qed

lemma nat_str_digits: "list_all is_digit (nat_str n)"
proof (induction n rule: nat_str.induct)
  case (1 n)
  then show ?case by (cases "n < 10") (simp_all add: nat_str.simps [of n])
qed

lemma nat_str_nonempty [simp]: "nat_str n \<noteq> []"
  by (subst nat_str.simps) simp

lemma length_nat_str: "n < 10 ^ k \<Longrightarrow> 0 < k \<Longrightarrow> length (nat_str n) \<le> k"
proof (induction n arbitrary: k rule: nat_str.induct)
  case (1 n)
  show ?case
  proof (cases "n < 10")
    case True
    with "1.prems" show ?thesis by (simp add: nat_str.simps [of n])
  next
    case False
    obtain j where k: "k = Suc j" using "1.prems"(2) by (cases k) auto
    have "0 < j" using False "1.prems"(1) k by (cases j) auto
    moreover have "n div 10 < 10 ^ j" using "1.prems"(1) k by (simp add: less_mult_imp_div_less mult.commute)
    ultimately show ?thesis using "1.IH" [OF False] False by (simp add: nat_str.simps [of n] k)
  qed
qed

lemma digits_val_pad0 [simp]: "digits_val (pad0 w s) = digits_val s"
  by (simp add: pad0_def)

lemma pad0_digits: "list_all is_digit s \<Longrightarrow> list_all is_digit (pad0 w s)"
  by (auto simp: pad0_def list_all_iff is_digit_iff)

lemma length_pad0: "length s \<le> w \<Longrightarrow> length (pad0 w s) = w"
  by (simp add: pad0_def)

lemma pad0_nonempty: "s \<noteq> [] \<Longrightarrow> pad0 w s \<noteq> []"
  by (simp add: pad0_def)

text \<open>A digit string of the field's width is what the verb prints for its value.\<close>

lemma digits_unique:
  assumes "list_all is_digit s" "list_all is_digit t" "length s = length t" "digits_val s = digits_val t"
  shows "s = t"
  using assms(3,1,2,4)
proof (induction s t rule: rev_induct2)
  case (4 x xs y ys)
  have "digit_val x < 10" "digit_val y < 10" using 4 by (auto intro: digit_val_less)
  moreover from "4.prems" have "10 * digits_val xs + digit_val x = 10 * digits_val ys + digit_val y" by simp
  ultimately have "digits_val xs = digits_val ys" and "digit_val x = digit_val y" by presburger+
  moreover have "is_digit x" "is_digit y" "list_all is_digit xs" "list_all is_digit ys"
    using "4.prems" by simp_all
  moreover have "length xs = length ys" using "4.prems" by simp
  ultimately have "xs = ys" by (intro "4.IH")
  moreover have "x = y"
    using \<open>digit_val x = digit_val y\<close> \<open>is_digit x\<close> \<open>is_digit y\<close> by (metis dig_digit_val)
  ultimately show ?case by simp
qed auto

lemma fmt_d_nonneg: "0 \<le> n \<Longrightarrow> fmt_d w n = pad0 w (nat_str (nat n))"
  by (simp add: fmt_d_def)

lemma fmt_d_digits: "0 \<le> n \<Longrightarrow> list_all is_digit (fmt_d w n)"
  by (simp add: fmt_d_nonneg pad0_digits nat_str_digits)

lemma fmt_d_nonempty [simp]: "fmt_d w n \<noteq> []"
  by (simp add: fmt_d_def pad0_nonempty)

lemma fmt_d_chars: "c \<in> set (fmt_d w n) \<Longrightarrow> is_digit c \<or> c = CHR ''-''"
  using pad0_digits [OF nat_str_digits [of "nat n"], of w] pad0_digits [OF nat_str_digits [of "nat (- n)"], of "w - 1"]
  by (auto simp: fmt_d_def list_all_iff split: if_splits)

lemma fmt_d_val: "0 \<le> n \<Longrightarrow> digits_val (fmt_d w n) = nat n"
  by (simp add: fmt_d_nonneg)

lemma fmt_d_length: "0 \<le> n \<Longrightarrow> n < 10 ^ w \<Longrightarrow> 0 < w \<Longrightarrow> length (fmt_d w n) = w"
  unfolding fmt_d_nonneg
  by (intro length_pad0 length_nat_str) (simp_all add: nat_less_iff)

lemma decimal_value_digits:
  assumes "list_all is_digit s" "s \<noteq> []"
  shows "decimal_value s = Some (of_nat (digits_val s))"
proof -
  have "\<forall>c\<in>set s. c \<noteq> CHR ''.''" using assms(1) by (auto simp: list_all_iff is_digit_iff)
  then have tw: "takeWhile (\<lambda>c. c \<noteq> CHR ''.'') s = s"
    and dw: "dropWhile (\<lambda>c. c \<noteq> CHR ''.'') s = []"
    by (simp_all only: takeWhile_eq_all_conv dropWhile_eq_Nil_conv)
  from assms show ?thesis unfolding decimal_value_def Let_def tw dw by simp
qed

lemma ParseFloat_fmt_d:
  assumes "0 \<le> n" "n < 2 ^ 53"
  shows "ParseFloat (fmt_d w n) = Inr (Fin (of_int n))"
proof -
  have "rnd (of_int n) = Fin (of_int n)" using assms by (intro rnd_of_int) auto
  with assms(1) show ?thesis
    by (simp add: ParseFloat_def decimal_value_digits fmt_d_digits fmt_d_val)
qed

end
