(* ===== verification/Sexagesimal.thy ===== *)
theory Sexagesimal
  imports GoFmt
begin

text \<open>
  The coordinate text of the protocol (src/sexagesimal.go): \<open>ParseSexagesimal\<close>,
  \<open>FormatHMS\<close>, \<open>FormatDMS\<close> and \<open>splitSex\<close>, over binary64 values. The results: every
  \<open>float64\<close>, infinities and NaN included, formats to a well-formed hour string; the
  text of a valid coordinate survives parsing and formatting unchanged; formatting
  loses at most half a second beyond the floating-point error.
\<close>

section \<open>The functions of sexagesimal.go\<close>

definition field_sep :: "char \<Rightarrow> bool" where
  "field_sep r = (\<not> (is_digit r \<or> r = CHR ''.''))"

text \<open>The loop over the fields: \<open>i\<close> counts them, \<open>v\<close> is the sum so far.\<close>

fun sex_fields :: "string \<Rightarrow> nat \<Rightarrow> f64 \<Rightarrow> f64 \<Rightarrow> string list \<Rightarrow> gerr + f64" where
  "sex_fields s i v scale [] = Inr v"
| "sex_fields s i v scale (f # fs) =
     (if i > 3 then Inr v
      else case ParseFloat f of
             Inl e \<Rightarrow> Inl (Errorf ''lx200: bad sexagesimal field %q in %q: %w'' [AStr f, AStr s] (Some e))
           | Inr n \<Rightarrow> sex_fields s (i + 1) (fadd v (fdiv n scale)) (fmul scale (Fin 60)) fs)"

definition ParseSexagesimal :: "string \<Rightarrow> gerr + f64" where
  "ParseSexagesimal text =
     (let s = TrimSpace (TrimSuffix (TrimSpace text) ''#'')
      in if s = [] then Inl (Errorf ''lx200: empty sexagesimal value'' [] None)
         else let (sign, s) =
                    (if hd s = CHR ''-'' then (Fin (-1), tl s)
                     else if hd s = CHR ''+'' then (Fin 1, tl s)
                     else (Fin 1, s));
                  fields = FieldsFunc field_sep s
              in if fields = []
                 then Inl (Errorf ''lx200: no numeric fields in %q'' [AStr s] None)
                 else case sex_fields s 0 (Fin 0) (Fin 1) fields of
                        Inl e \<Rightarrow> Inl e
                      | Inr v \<Rightarrow> Inr (fmul sign v))"

definition FormatHMS :: "f64 \<Rightarrow> string" where
  "FormatHMS hours =
     (let sec = int_of_f64 (f_round (fmul (fmod hours (Fin 24)) (Fin 3600)));
          sec = go_rem (go_rem sec 86400 + 86400) 86400
      in fmt_d 2 (go_quot sec 3600) @ '':'' @ fmt_d 2 (go_rem (go_quot sec 60) 60) @ '':''
         @ fmt_d 2 (go_rem sec 60))"

definition splitSex :: "f64 \<Rightarrow> int \<times> int \<times> int" where
  "splitSex v =
     (let total = int_of_f64 (f_round (fmul v (Fin 3600)));
          sec = go_rem total 60;
          total = go_quot total 60;
          min = go_rem total 60;
          top = go_quot total 60
      in (top, min, sec))"

definition FormatDMS :: "f64 \<Rightarrow> char \<Rightarrow> string" where
  "FormatDMS deg sep =
     (let (sign, deg) = (if flt deg (Fin 0) then (CHR ''-'', fneg deg) else (CHR ''+'', deg));
          (d, m, s) = splitSex deg
      in [sign] @ fmt_d 2 d @ [sep] @ fmt_d 2 m @ '':'' @ fmt_d 2 s)"

section \<open>The text of a coordinate\<close>

text \<open>\<open>HH:MM:SS\<close>, and \<open>sDD*MM:SS\<close> with a chosen degree mark.\<close>

definition hms_text :: "int \<Rightarrow> int \<Rightarrow> int \<Rightarrow> string" where
  "hms_text h m s = fmt_d 2 h @ '':'' @ fmt_d 2 m @ '':'' @ fmt_d 2 s"

definition dms_text :: "char \<Rightarrow> char \<Rightarrow> int \<Rightarrow> int \<Rightarrow> int \<Rightarrow> string" where
  "dms_text sign sep d m s = [sign] @ fmt_d 2 d @ [sep] @ fmt_d 2 m @ '':'' @ fmt_d 2 s"

text \<open>The parsed value of three whole fields, as the loop computes it.\<close>

definition sex_sum :: "int \<Rightarrow> int \<Rightarrow> int \<Rightarrow> f64" where
  "sex_sum a b c =
     fadd (fadd (fadd (Fin 0) (fdiv (Fin (of_int a)) (Fin 1))) (fdiv (Fin (of_int b)) (Fin 60)))
          (fdiv (Fin (of_int c)) (Fin 3600))"

section \<open>Parsing\<close>

lemma field_sep_digit: "is_digit c \<Longrightarrow> \<not> field_sep c"
  by (simp add: field_sep_def)

lemma plain_digit: "is_digit c \<Longrightarrow> plain_char c"
  by (simp add: is_digit_iff plain_char_def)

lemma fmt_d_not_sep: "0 \<le> n \<Longrightarrow> \<forall>c\<in>set (fmt_d w n). \<not> field_sep c"
  using fmt_d_digits [of n w] by (auto simp: list_all_iff field_sep_digit)

lemma fmt_d_last_digit: "0 \<le> n \<Longrightarrow> is_digit (last (fmt_d w n))"
  using fmt_d_digits [of n w] last_in_set [OF fmt_d_nonempty] by (auto simp: list_all_iff)

lemma fmt_d_hd_digit: "0 \<le> n \<Longrightarrow> is_digit (hd (fmt_d w n))"
  using fmt_d_digits [of n w] hd_in_set [OF fmt_d_nonempty] by (auto simp: list_all_iff)

lemma fields_three:
  assumes "0 \<le> a" "0 \<le> b" "0 \<le> c" "field_sep p" "field_sep q"
  shows "FieldsFunc field_sep (fmt_d u a @ p # fmt_d v b @ q # fmt_d w c)
         = [fmt_d u a, fmt_d v b, fmt_d w c]"
proof -
  have "FieldsFunc field_sep (fmt_d w c) = [fmt_d w c]"
    using FieldsFunc_field [OF fmt_d_nonempty fmt_d_not_sep [OF assms(3)], of "[]"] by simp
  then show ?thesis
    using assms by (simp add: FieldsFunc_field fmt_d_not_sep)
qed

lemma scale_60: "fmul (Fin 1) (Fin 60) = Fin 60" "fmul (Fin 60) (Fin 60) = Fin 3600"
  "fmul (Fin 3600) (Fin 60) = Fin 216000"
  using rnd_of_int [of 60] rnd_of_int [of 3600] rnd_of_int [of 216000] by (simp_all add: fmul_def)

lemma sex_fields_three:
  assumes "0 \<le> a" "a < 2 ^ 53" "0 \<le> b" "b < 2 ^ 53" "0 \<le> c" "c < 2 ^ 53"
  shows "sex_fields s 0 (Fin 0) (Fin 1) [fmt_d u a, fmt_d v b, fmt_d w c] = Inr (sex_sum a b c)"
  using assms by (simp add: ParseFloat_fmt_d scale_60 sex_sum_def)

lemma TrimSpace_trimmed:
  assumes "s \<noteq> []" "plain_char (hd s)" "is_digit (last s)"
  shows "TrimSpace (TrimSuffix (TrimSpace s) ''#'') = s"
proof -
  have "TrimSpace s = s" using assms by (simp add: TrimSpace_plain plain_digit)
  moreover have "last s \<noteq> CHR ''#''" using assms(3) by (auto simp: is_digit_iff)
  ultimately show ?thesis by (simp add: TrimSuffix_other)
qed

lemma ParseSexagesimal_hms:
  assumes "0 \<le> h" "h < 2 ^ 53" "0 \<le> m" "m < 2 ^ 53" "0 \<le> s" "s < 2 ^ 53"
  shows "ParseSexagesimal (hms_text h m s) = Inr (fmul (Fin 1) (sex_sum h m s))"
proof -
  have t: "TrimSpace (TrimSuffix (TrimSpace (hms_text h m s)) ''#'') = hms_text h m s"
    using assms by (intro TrimSpace_trimmed)
      (simp_all add: hms_text_def fmt_d_hd_digit fmt_d_last_digit plain_digit)
  have "is_digit (hd (hms_text h m s))" using assms by (simp add: hms_text_def fmt_d_hd_digit)
  then have hd: "hd (hms_text h m s) \<noteq> CHR ''-''" "hd (hms_text h m s) \<noteq> CHR ''+''"
    by (auto simp: is_digit_iff)
  have f: "FieldsFunc field_sep (hms_text h m s) = [fmt_d 2 h, fmt_d 2 m, fmt_d 2 s]"
    using fields_three [of h m s "CHR '':''" "CHR '':''"] assms
    by (simp add: hms_text_def field_sep_def is_digit_iff)
  have ne: "hms_text h m s \<noteq> []" by (simp add: hms_text_def)
  show ?thesis
    unfolding ParseSexagesimal_def t
    using ne hd f sex_fields_three [OF assms] by (simp add: Let_def)
qed

text \<open>A signed text with three fields of any widths.\<close>

lemma ParseSexagesimal_fields:
  assumes "0 \<le> d" "d < 2 ^ 53" "0 \<le> m" "m < 2 ^ 53" "0 \<le> s" "s < 2 ^ 53"
    "field_sep sep" "sign \<in> {CHR ''+'', CHR ''-''}"
  shows "ParseSexagesimal ([sign] @ fmt_d u d @ [sep] @ fmt_d v m @ '':'' @ fmt_d w s)
         = Inr (fmul (Fin (if sign = CHR ''-'' then -1 else 1)) (sex_sum d m s))"
proof -
  define T where "T = [sign] @ fmt_d u d @ [sep] @ fmt_d v m @ '':'' @ fmt_d w s"
  have t: "TrimSpace (TrimSuffix (TrimSpace T) ''#'') = T"
    using assms by (intro TrimSpace_trimmed) (auto simp: T_def fmt_d_last_digit plain_char_def)
  have f: "FieldsFunc field_sep (tl T) = [fmt_d u d, fmt_d v m, fmt_d w s]"
    using fields_three [of d m s sep "CHR '':''"] assms by (simp add: T_def field_sep_def is_digit_iff)
  have ne: "T \<noteq> []" "hd T = sign" by (simp_all add: T_def)
  have "ParseSexagesimal T = Inr (fmul (Fin (if sign = CHR ''-'' then -1 else 1)) (sex_sum d m s))"
    unfolding ParseSexagesimal_def t using ne f sex_fields_three [OF assms(1-6)] assms(8) by (auto simp: Let_def)
  then show ?thesis by (simp only: T_def)
qed

lemma ParseSexagesimal_dms:
  assumes "0 \<le> d" "d < 2 ^ 53" "0 \<le> m" "m < 2 ^ 53" "0 \<le> s" "s < 2 ^ 53"
    "field_sep sep" "sign \<in> {CHR ''+'', CHR ''-''}"
  shows "ParseSexagesimal (dms_text sign sep d m s)
         = Inr (fmul (Fin (if sign = CHR ''-'' then -1 else 1)) (sex_sum d m s))"
  unfolding dms_text_def by (rule ParseSexagesimal_fields [OF assms])

section \<open>Accuracy\<close>

lemma powi_neg_numeral: "(2::rat) powi (- numeral k) = 1 / 2 ^ numeral k"
  by (simp only: power_int_minus power_int_numeral inverse_eq_divide)

lemma sex_sum_near:
  assumes "0 \<le> a" "a \<le> 1000" "0 \<le> b" "b < 60" "0 \<le> c" "c < 60"
  shows "near (sex_sum a b c) (of_int a + of_int b / 60 + of_int c / 3600) (2 powi -41)"
proof -
  have ab: "of_int a \<le> (1000::rat)" "0 \<le> (of_int a :: rat)" "of_int b \<le> (59::rat)" "0 \<le> (of_int b :: rat)"
    "of_int c \<le> (59::rat)" "0 \<le> (of_int c :: rat)"
    using assms by simp_all
  have "\<bar>a\<bar> < 2 ^ 53" using assms by simp
  then have "rnd (of_int a) = Fin (of_int a)" by (rule rnd_of_int)
  then have A: "fadd (Fin 0) (fdiv (Fin (of_int a)) (Fin 1)) = Fin (of_int a)"
    by (simp add: fadd_def fdiv_def signed_zero_def)
  have "near (fdiv (Fin (of_int b)) (Fin 60)) (of_int b / 60) (2 powi (0 - 53) + 0 / 60)"
    by (rule near_fdiv_const [OF near_exact]) (use ab in simp_all)
  then have B: "near (fdiv (Fin (of_int b)) (Fin 60)) (of_int b / 60) (2 powi -53)" by simp
  have "near (fdiv (Fin (of_int c)) (Fin 3600)) (of_int c / 3600) (2 powi (0 - 53) + 0 / 3600)"
    by (rule near_fdiv_const [OF near_exact]) (use ab in simp_all)
  then have C: "near (fdiv (Fin (of_int c)) (Fin 3600)) (of_int c / 3600) (2 powi -53)" by simp
  have "near (fadd (Fin (of_int a)) (fdiv (Fin (of_int b)) (Fin 60))) (of_int a + of_int b / 60)
        (2 powi (10 - 53) + (0 + 2 powi -53))"
    by (rule near_fadd [OF near_exact B]) (use ab in \<open>simp_all add: powi_neg_numeral\<close>)
  then have AB: "near (fadd (Fin (of_int a)) (fdiv (Fin (of_int b)) (Fin 60))) (of_int a + of_int b / 60)
        (2 powi -43 + 2 powi -53)"
    by simp
  have "near (sex_sum a b c) (of_int a + of_int b / 60 + of_int c / 3600)
        (2 powi (10 - 53) + ((2 powi -43 + 2 powi -53) + 2 powi -53))"
    unfolding sex_sum_def A
    by (rule near_fadd [OF AB C]) (use ab in \<open>simp_all add: powi_neg_numeral\<close>)
  then show ?thesis by (rule near_mono) (simp add: powi_neg_numeral)
qed

lemma sex_sum_nonneg:
  "0 \<le> a \<Longrightarrow> 0 \<le> b \<Longrightarrow> 0 \<le> c \<Longrightarrow> 0 \<le> fval (sex_sum a b c)"
  by (simp add: sex_sum_def fadd_nonneg fdiv_nonneg)

lemma times_3600:
  assumes "near f (of_int n / 3600) (2 powi -40)" "\<bar>n\<bar> \<le> 3605000"
  shows "int_of_f64 (f_round (fmul f (Fin 3600))) = n"
proof -
  have "\<bar>of_int n\<bar> \<le> (3605000::rat)"
    using assms(2) by (auto simp: abs_le_iff)
  then have "near (fmul f (Fin 3600)) (of_int n / 3600 * 3600) (2 powi (22 - 53) + 2 powi -40 * \<bar>3600\<bar>)"
    by (intro near_fmul_const [OF assms(1)]) (simp_all add: powi_neg_numeral)
  then have "near (fmul f (Fin 3600)) (of_int n) (2 powi (22 - 53) + 2 powi -40 * \<bar>3600\<bar>)"
    by simp
  then have "near (fmul f (Fin 3600)) (of_int n) (1/4)"
    by (rule near_mono) (simp add: powi_neg_numeral)
  then show ?thesis by (rule round_near) (use assms(2) in auto)
qed

lemma sex_total:
  "of_int h + of_int m / 60 + of_int s / 3600 = (of_int (3600 * h + 60 * m + s) / 3600 :: rat)"
  by (simp add: field_simps)

lemma signed_sum_near:
  assumes "0 \<le> a" "a \<le> 1000" "0 \<le> b" "b < 60" "0 \<le> c" "c < 60" "\<sigma> \<in> {1, -1}"
  shows "near (fmul (Fin \<sigma>) (sex_sum a b c)) (\<sigma> * (of_int (3600 * a + 60 * b + c) / 3600)) (2 powi -40)"
proof -
  let ?x = "of_int (3600 * a + 60 * b + c) / 3600 :: rat"
  note n = sex_sum_near [OF assms(1-6), unfolded sex_total]
  have \<sigma>: "\<bar>\<sigma>\<bar> = 1" "\<sigma> \<noteq> 0" using assms(7) by auto
  have "\<bar>?x\<bar> \<le> 1001" using assms by (simp add: abs_divide)
  then have b: "\<bar>?x * \<sigma>\<bar> \<le> 1001" by (simp only: abs_mult \<sigma> mult_1_right)
  have "2 powi -41 * \<bar>\<sigma>\<bar> \<le> 1" by (simp add: \<sigma> powi_neg_numeral)
  from add_mono [OF b this] have "\<bar>?x * \<sigma>\<bar> + 2 powi -41 * \<bar>\<sigma>\<bar> \<le> 2 powi 10"
    by (rule order_trans) simp
  then have "near (fmul (sex_sum a b c) (Fin \<sigma>)) (?x * \<sigma>) (2 powi (10 - 53) + 2 powi -41 * \<bar>\<sigma>\<bar>)"
    by (intro near_fmul_const [OF n \<sigma>(2)]) simp_all
  then have "near (fmul (Fin \<sigma>) (sex_sum a b c)) (\<sigma> * ?x) (2 powi (10 - 53) + 2 powi -41 * \<bar>\<sigma>\<bar>)"
    by (simp only: fmul_commute [of "Fin \<sigma>"] mult.commute [of \<sigma> ?x])
  then show ?thesis by (rule near_mono) (use assms(7) in \<open>auto simp: powi_neg_numeral\<close>)
qed

section \<open>Formatting\<close>

lemma FormatHMS_seconds:
  assumes "int_of_f64 (f_round (fmul (fmod x (Fin 24)) (Fin 3600))) mod 86400 = n"
  shows "FormatHMS x = hms_text (n div 3600) (n div 60 mod 60) (n mod 60)"
proof -
  have n: "0 \<le> n" using assms by (metis pos_mod_sign zero_less_numeral)
  have q: "0 \<le> n div 60" using n by simp
  show ?thesis
    unfolding FormatHMS_def Let_def hms_text_def
    using n q assms by (simp add: go_rem_wrap go_quot_nonneg go_rem_nonneg)
qed

lemma splitSex_near:
  assumes "near f (of_int n / 3600) (2 powi -40)" "0 \<le> n" "n \<le> 3605000"
  shows "splitSex f = (n div 60 div 60, n div 60 mod 60, n mod 60)"
  using assms by (simp add: splitSex_def times_3600 go_quot_nonneg go_rem_nonneg Let_def)

lemma sex_parts:
  fixes h m s :: int
  assumes "0 \<le> m" "m < 60" "0 \<le> s" "s < 60"
  shows "(3600 * h + 60 * m + s) div 3600 = h" "(3600 * h + 60 * m + s) div 60 div 60 = h"
    "(3600 * h + 60 * m + s) div 60 mod 60 = m" "(3600 * h + 60 * m + s) mod 60 = s"
proof -
  have "(3600 * h + 60 * m + s) div 60 = 60 * h + m" using assms by linarith
  then show "(3600 * h + 60 * m + s) div 60 div 60 = h" "(3600 * h + 60 * m + s) div 60 mod 60 = m"
    using assms by simp_all
  show "(3600 * h + 60 * m + s) div 3600 = h" using assms by linarith
  have "(3600 * h + 60 * m + s) mod 60 = (60 * (60 * h + m) + s) mod 60" by simp
  also have "\<dots> = s" using assms by (simp only: mod_mult_self4 mod_pos_pos_trivial)
  finally show "(3600 * h + 60 * m + s) mod 60 = s" .
qed

text \<open>Degrees rounded half up to whole arc seconds, as the drivers format a site, and the
  value their text has when it is read back.\<close>

lemma half_up_seconds:
  assumes "is_fin x" "0 \<le> fval x" "fval x \<le> 360"
  defines "t \<equiv> int_of_f64 (fadd (fmul x (Fin 3600)) (Fin (1 / 2)))"
  shows "0 \<le> t" "t \<le> 1296001" "\<bar>of_int t - 3600 * fval x\<bar> \<le> 1 / 2 + 1 / 2 ^ 30"
proof -
  have "near (fmul x (Fin 3600)) (fval x * 3600) (2 powi (21 - 53) + 0 * \<bar>3600\<bar>)"
    by (rule near_fmul_const) (use assms in \<open>simp_all add: near_def\<close>)
  then have m: "near (fmul x (Fin 3600)) (fval x * 3600) (1 / 2 ^ 32)" by (simp add: powi_neg_numeral)
  define y where "y = fadd (fmul x (Fin 3600)) (Fin (1 / 2))"
  have "near y (fval x * 3600 + 1 / 2) (2 powi (21 - 53) + (1 / 2 ^ 32 + 0))"
    unfolding y_def by (rule near_fadd [OF m near_exact]) (use assms in simp_all)
  then have y: "near y (fval x * 3600 + 1 / 2) (1 / 2 ^ 31)" by (simp add: powi_neg_numeral)
  have nn: "0 \<le> fval y"
    unfolding y_def using assms by (intro fadd_nonneg fmul_nonneg) simp_all
  have le: "\<lfloor>fval y\<rfloor> \<le> 1296001"
  proof -
    have "(1::rat) / 2 ^ 31 < 1" by simp
    then have "fval y < 1296002" using nearD(2) [OF y] assms(3) by linarith
    then show ?thesis by (simp add: floor_le_iff)
  qed
  have t: "t = \<lfloor>fval y\<rfloor>"
    using nn nearD(1) [OF y] le by (auto simp: t_def y_def [symmetric] int_of_f64_def trunc_rat_def)
  show "0 \<le> t" "t \<le> 1296001" using nn le by (simp_all add: t)
  have "of_int \<lfloor>fval y\<rfloor> \<le> fval y" "fval y < of_int \<lfloor>fval y\<rfloor> + 1" by linarith+
  moreover have "(1::rat) / 2 ^ 31 \<le> 1 / 2 ^ 30" by simp
  ultimately show "\<bar>of_int t - 3600 * fval x\<bar> \<le> 1 / 2 + 1 / 2 ^ 30"
    unfolding t using nearD(2) [OF y] by linarith
qed

lemma seconds_text_value:
  assumes "0 \<le> t" "t \<le> 3600000" "field_sep sep" "sign \<in> {CHR ''+'', CHR ''-''}"
  shows "\<exists>v. ParseSexagesimal ([sign] @ fmt_d w (go_quot t 3600) @ [sep] @ fmt_d 2 (go_rem (go_quot t 60) 60) @ '':'' @ fmt_d 2 (go_rem t 60)) = Inr v
    \<and> near v ((if sign = CHR ''-'' then -1 else 1) * (of_int t / 3600)) (2 powi -40)"
proof -
  let ?d = "t div 3600" and ?m = "t div 60 mod 60" and ?s = "t mod 60"
  have q: "go_quot t 3600 = ?d" "go_rem (go_quot t 60) 60 = ?m" "go_rem t 60 = ?s"
    using assms(1) by (simp_all add: go_quot_nonneg go_rem_nonneg pos_imp_zdiv_nonneg_iff)
  have r: "0 \<le> ?d" "?d \<le> 1000" "0 \<le> ?m" "?m < 60" "0 \<le> ?s" "?s < 60"
    using assms(1,2) by (simp_all add: pos_imp_zdiv_nonneg_iff)
  define k where "k = t div 60"
  have "t div 3600 = k div 60" unfolding k_def by (simp add: zdiv_zmult2_eq [symmetric])
  moreover have "60 * k + t mod 60 = t" "60 * (k div 60) + k mod 60 = k" by (simp_all add: k_def)
  ultimately have e: "3600 * ?d + 60 * ?m + ?s = t" unfolding k_def [symmetric] by linarith
  have "ParseSexagesimal ([sign] @ fmt_d w ?d @ [sep] @ fmt_d 2 ?m @ '':'' @ fmt_d 2 ?s)
      = Inr (fmul (Fin (if sign = CHR ''-'' then -1 else 1)) (sex_sum ?d ?m ?s))"
    using r assms(3,4) by (intro ParseSexagesimal_fields) simp_all
  moreover have "near (fmul (Fin (if sign = CHR ''-'' then -1 else 1)) (sex_sum ?d ?m ?s))
      ((if sign = CHR ''-'' then -1 else 1) * (of_int (3600 * ?d + 60 * ?m + ?s) / 3600)) (2 powi -40)"
    using r by (intro signed_sum_near) auto
  ultimately show ?thesis unfolding q e by blast
qed

section \<open>Properties\<close>

text \<open>\<open>FormatHMS\<close> turns every \<open>float64\<close>, including the infinities, NaN and values
  that round up to a full day, into eight characters \<open>HH:MM:SS\<close> with an hour below 24
  and minutes and seconds below 60.\<close>

theorem FormatHMS_wellformed:
  "\<exists>h m s. 0 \<le> h \<and> h < 24 \<and> 0 \<le> m \<and> m < 60 \<and> 0 \<le> s \<and> s < 60
     \<and> FormatHMS x = fmt_d 2 h @ '':'' @ fmt_d 2 m @ '':'' @ fmt_d 2 s
     \<and> length (FormatHMS x) = 8"
proof -
  define n where "n = int_of_f64 (f_round (fmul (fmod x (Fin 24)) (Fin 3600))) mod 86400"
  have n: "0 \<le> n" "n < 86400" by (simp_all add: n_def)
  then have r: "0 \<le> n div 3600" "n div 3600 < 24" "0 \<le> n div 60 mod 60" "n div 60 mod 60 < 60"
    "0 \<le> n mod 60" "n mod 60 < 60" by auto
  have "FormatHMS x = hms_text (n div 3600) (n div 60 mod 60) (n mod 60)"
    by (rule FormatHMS_seconds) (simp add: n_def)
  moreover have "length (hms_text (n div 3600) (n div 60 mod 60) (n mod 60)) = 8"
    using r by (simp add: hms_text_def fmt_d_length)
  ultimately show ?thesis using r unfolding hms_text_def by metis
qed

lemma hms_survives:
  assumes "0 \<le> h" "h < 24" "0 \<le> m" "m < 60" "0 \<le> s" "s < 60"
  shows "\<exists>v. ParseSexagesimal (hms_text h m s) = Inr v \<and> FormatHMS v = hms_text h m s
    \<and> near v (of_int (3600 * h + 60 * m + s) / 3600) (2 powi -40) \<and> 0 \<le> fval v"
proof (intro exI conjI)
  let ?v = "fmul (Fin 1) (sex_sum h m s)" and ?n = "3600 * h + 60 * m + s"
  show "ParseSexagesimal (hms_text h m s) = Inr ?v"
    using assms by (intro ParseSexagesimal_hms) simp_all
  show v: "near ?v (of_int ?n / 3600) (2 powi -40)"
    using signed_sum_near [of h m s 1] assms by simp
  show "0 \<le> fval ?v" using assms by (simp add: fmul_nonneg sex_sum_nonneg)
  have "0 \<le> ?n" "?n \<le> 86399" using assms by simp_all
  then have x: "0 \<le> (of_int ?n / 3600 :: rat)" "of_int ?n / 3600 \<le> (86399 / 3600 :: rat)"
    by (simp_all del: of_int_add of_int_mult)
  have "(2::rat) powi -40 < 1 / 3600" by (simp add: powi_neg_numeral)
  with nearD(2) [OF v] x have "\<bar>fval ?v\<bar> < 24" by linarith
  note f = fmod_small [OF nearD(1) [OF v] this]
  have "near (fmod ?v (Fin 24)) (of_int ?n / 3600) (2 powi -40)"
    using v f by (simp add: near_def)
  then have "int_of_f64 (f_round (fmul (fmod ?v (Fin 24)) (Fin 3600))) = ?n"
    by (rule times_3600) (use assms in simp)
  then have "FormatHMS ?v = hms_text (?n div 3600) (?n div 60 mod 60) (?n mod 60)"
    by (intro FormatHMS_seconds) (use \<open>0 \<le> ?n\<close> \<open>?n \<le> 86399\<close> in simp)
  then show "FormatHMS ?v = hms_text h m s" by (simp only: sex_parts [OF assms(3-6)])
qed

text \<open>C17: the text of a valid right ascension survives parsing and formatting: for every
  hour below 24 and minutes and seconds below 60, \<open>ParseSexagesimal\<close> accepts
  \<open>HH:MM:SS\<close> and \<open>FormatHMS\<close> of the \<open>float64\<close> it returns is the same text.\<close>

theorem hms_roundtrip:
  assumes "0 \<le> h" "h < 24" "0 \<le> m" "m < 60" "0 \<le> s" "s < 60"
  shows "\<exists>v. ParseSexagesimal (hms_text h m s) = Inr v \<and> FormatHMS v = hms_text h m s"
  using hms_survives [OF assms] by blast

theorem hms_roundtrip_witness:
  "\<exists>v. ParseSexagesimal (hms_text 23 59 59) = Inr v \<and> FormatHMS v = hms_text 23 59 59"
  by (rule hms_roundtrip) simp_all

lemma dms_survives:
  assumes "0 \<le> d" "d \<le> 1000" "0 \<le> m" "m < 60" "0 \<le> s" "s < 60"
    and "field_sep sep" and "sign = CHR ''+'' \<or> sign = CHR ''-'' \<and> 0 < d + m + s"
  shows "\<exists>v. ParseSexagesimal (dms_text sign sep d m s) = Inr v
           \<and> FormatDMS v sep = dms_text sign sep d m s
           \<and> near v ((if sign = CHR ''-'' then -1 else 1) * (of_int (3600 * d + 60 * m + s) / 3600)) (2 powi -40)"
proof -
  define \<sigma> :: rat where "\<sigma> = (if sign = CHR ''-'' then -1 else 1)"
  let ?v = "fmul (Fin \<sigma>) (sex_sum d m s)" and ?n = "3600 * d + 60 * m + s"
  have \<sigma>: "\<sigma> = 1 \<or> \<sigma> = -1" by (auto simp: \<sigma>_def)
  have p: "ParseSexagesimal (dms_text sign sep d m s) = Inr ?v"
    unfolding \<sigma>_def using assms by (intro ParseSexagesimal_dms) auto
  have n: "0 \<le> ?n" "?n \<le> 3605000" using assms by simp_all
  have v: "near ?v (\<sigma> * (of_int ?n / 3600)) (2 powi -40)"
    using assms \<sigma> by (intro signed_sum_near) auto
  have tiny: "(2::rat) powi -40 < 1 / 3600" by (simp add: powi_neg_numeral)
  note parts = sex_parts [OF assms(3-6), of d]
  have "FormatDMS ?v sep = dms_text sign sep d m s"
  proof (cases "sign = CHR ''-''")
    case True
    then have sm: "\<sigma> = -1" by (simp add: \<sigma>_def)
    from True assms have "1 \<le> ?n" by auto
    then have "1 / 3600 \<le> (of_int ?n / 3600 :: rat)"
      by (simp add: divide_right_mono del: of_int_add of_int_mult)
    with tiny have "2 powi -40 < (of_int ?n / 3600 :: rat)" by linarith
    moreover have "near ?v (- (of_int ?n / 3600)) (2 powi -40)"
      using v by (simp only: sm mult_minus1)
    ultimately have "fval ?v < 0" by (rule near_negative [rotated])
    with nearD(1) [OF v] have lt: "flt ?v (Fin 0)" by (auto simp: flt_def)
    have "near (fneg ?v) (of_int ?n / 3600) (2 powi -40)"
      using near_fneg [OF v] by (simp only: sm mult_minus1 minus_minus)
    from splitSex_near [OF this n] lt True show ?thesis
      by (simp add: FormatDMS_def dms_text_def parts)
  next
    case False
    then have s1: "\<sigma> = 1" by (simp add: \<sigma>_def)
    have nn: "near ?v (of_int ?n / 3600) (2 powi -40)"
      using v by (simp only: s1 mult_1_left)
    have "0 \<le> fval ?v" unfolding s1 using assms by (simp add: fmul_nonneg sex_sum_nonneg)
    with nearD(1) [OF v] have ge: "\<not> flt ?v (Fin 0)" by (auto simp: flt_def)
    from splitSex_near [OF nn n] ge False assms(8) show ?thesis
      by (simp add: FormatDMS_def dms_text_def parts)
  qed
  with p v show ?thesis unfolding \<sigma>_def by blast
qed

text \<open>The text of a declination, altitude or azimuth survives parsing and formatting:
  for degrees up to 1000, minutes and seconds below 60, either sign and any degree mark
  that is no digit or point, parsing \<open>sDD*MM:SS\<close> and formatting with the same mark gives
  the text back. A negative sign needs a non-zero value: a negative zero prints as
  \<open>+00*00:00\<close>.\<close>

theorem dms_roundtrip:
  assumes "0 \<le> d" "d \<le> 1000" "0 \<le> m" "m < 60" "0 \<le> s" "s < 60"
    and "field_sep sep" and "sign = CHR ''+'' \<or> sign = CHR ''-'' \<and> 0 < d + m + s"
  shows "\<exists>v. ParseSexagesimal (dms_text sign sep d m s) = Inr v
           \<and> FormatDMS v sep = dms_text sign sep d m s"
  using dms_survives [OF assms] by blast

theorem dms_roundtrip_witness:
  "\<exists>v. ParseSexagesimal (dms_text CHR ''-'' CHR ''*'' 0 0 1) = Inr v
     \<and> FormatDMS v CHR ''*'' = dms_text CHR ''-'' CHR ''*'' 0 0 1"
  by (rule dms_roundtrip) (simp_all add: field_sep_def is_digit_iff)

text \<open>\<open>FormatHMS\<close> is accurate: for a finite hour value in \<open>[0, 24)\<close> the printed time is
  a whole number of seconds, reduced modulo one day, that differs from the value by at most half a
  second plus a floating-point error of \<open>2^-36\<close> seconds.\<close>

theorem FormatHMS_accurate:
  assumes "is_fin x" "0 \<le> fval x" "fval x < 24"
  shows "\<exists>n. \<bar>of_int n - 3600 * fval x\<bar> \<le> 1/2 + 1 / 2 ^ 36
     \<and> FormatHMS x = hms_text (n mod 86400 div 3600) (n mod 86400 div 60 mod 60) (n mod 86400 mod 60)"
proof -
  define g where "g = fmod x (Fin 24)"
  have g: "is_fin g" "fval g = fval x" using fmod_small [of x 24] assms by (simp_all add: g_def)
  define y where "y = fmul g (Fin 3600)"
  have "near g (fval x) 0" using g by (simp add: near_def)
  then have "near y (fval x * 3600) (2 powi (17 - 53) + 0 * \<bar>3600\<bar>)"
    unfolding y_def by (rule near_fmul_const) (use assms in simp_all)
  then have y: "near y (3600 * fval x) (1 / 2 ^ 36)" by (simp add: powi_neg_numeral mult.commute)
  let ?n = "round_away (fval y)"
  have err: "\<bar>of_int ?n - 3600 * fval x\<bar> \<le> 1/2 + 1 / 2 ^ 36"
    using round_away_err [of "fval y"] nearD(2) [OF y] by linarith
  moreover have "(1::rat) / 2 ^ 36 \<le> 1" by simp
  ultimately have "of_int ?n \<le> (100000::rat)" "- 100000 \<le> (of_int ?n :: rat)"
    using assms by linarith+
  then have "\<bar>?n\<bar> \<le> 100000" by (simp add: abs_le_iff)
  then have "int_of_f64 (f_round y) = ?n"
    using f_round_fin [OF nearD(1) [OF y]] by (intro int_of_f64_of_int) auto
  then have "FormatHMS x = hms_text (?n mod 86400 div 3600) (?n mod 86400 div 60 mod 60) (?n mod 86400 mod 60)"
    by (intro FormatHMS_seconds) (simp add: y_def g_def)
  with err show ?thesis by blast
qed

theorem FormatHMS_accurate_witness:
  "\<exists>n. \<bar>of_int n - 3600 * fval (Fin (23 + 1023/1024))\<bar> \<le> 1/2 + 1 / 2 ^ 36
     \<and> FormatHMS (Fin (23 + 1023/1024))
       = hms_text (n mod 86400 div 3600) (n mod 86400 div 60 mod 60) (n mod 86400 mod 60)"
  by (rule FormatHMS_accurate) simp_all

text \<open>A fourth field is not ignored: the loop stops only after index 3, so
  \<open>00:00:00:60\<close> parses to the number nearest to \<open>60/216000\<close> of a unit, not to zero.\<close>

theorem fourth_field_counts:
  "\<exists>v. ParseSexagesimal ''00:00:00:60'' = Inr v \<and> \<not> fle v (Fin 0)"
proof -
  have t: "TrimSpace (TrimSuffix (TrimSpace ''00:00:00:60'') ''#'') = ''00:00:00:60''"
    by (rule TrimSpace_trimmed) (simp_all add: plain_char_def is_digit_iff)
  have f: "FieldsFunc field_sep ''00:00:00:60'' = [''00'', ''00'', ''00'', ''60'']"
    by (simp add: FieldsFunc.simps field_sep_def is_digit_iff)
  have p: "ParseFloat ''00'' = Inr (Fin 0)" "ParseFloat ''60'' = Inr (Fin 60)"
    using rnd_of_int [of 60]
    by (simp_all add: ParseFloat_def decimal_value_def is_digit_iff digits_val_def digit_val_def)
  have z: "fdiv (Fin 0) (Fin 1) = Fin 0" "fdiv (Fin 0) (Fin 60) = Fin 0" "fdiv (Fin 0) (Fin 3600) = Fin 0"
    "fadd (Fin 0) (Fin 0) = Fin 0"
    by (simp_all add: fdiv_def fadd_def signed_zero_def)
  let ?v = "fmul (Fin 1) (fadd (Fin 0) (fdiv (Fin 60) (Fin 216000)))"
  have "ParseSexagesimal ''00:00:00:60'' = Inr ?v"
    unfolding ParseSexagesimal_def t using f p z by (simp add: Let_def scale_60)
  moreover have "near (fdiv (Fin 60) (Fin 216000)) (60 / 216000) (2 powi (-11 - 53) + 0 / 216000)"
    by (rule near_fdiv_const [OF near_exact]) (simp_all add: powi_neg_numeral)
  then have d: "near (fdiv (Fin 60) (Fin 216000)) (1 / 3600) (2 powi -64)" by simp
  have "near (fadd (Fin 0) (fdiv (Fin 60) (Fin 216000))) (0 + 1 / 3600) (2 powi (-11 - 53) + (0 + 2 powi -64))"
    by (rule near_fadd [OF near_exact d]) (simp_all add: powi_neg_numeral)
  then have s: "near (fadd (Fin 0) (fdiv (Fin 60) (Fin 216000))) (1 / 3600) (2 powi -63)"
    by (rule near_mono [OF near_trans [where x = "1/3600" and d = 0], simplified]) (simp_all add: powi_neg_numeral)
  then have "near (fmul (fadd (Fin 0) (fdiv (Fin 60) (Fin 216000))) (Fin 1)) (1 / 3600 * 1) (2 powi (-11 - 53) + 2 powi -63 * \<bar>1\<bar>)"
    by (rule near_fmul_const) (simp_all add: powi_neg_numeral)
  then have "near ?v (1 / 3600) (1 / 7200)"
    unfolding fmul_commute [of "Fin 1"] by (rule near_mono [OF near_trans [where x = "1/3600" and d = 0], simplified]) (simp_all add: powi_neg_numeral)
  then have "0 < fval ?v" "is_fin ?v" unfolding near_def by linarith+
  then have "\<not> fle ?v (Fin 0)" by (auto simp: fle_def flt_def)
  ultimately show ?thesis by blast
qed

end
