(* ===== verification/Commands.thy ===== *)
theory Commands
  imports Conn Sexagesimal
begin

text \<open>
  The command set common to the LX200 family (src/commands.go): queries that parse a
  sexagesimal reply, the target commands, motion, guiding and tracking rates, each over
  the primitives of theory \<open>Conn\<close>. A \<open>Direction\<close> or a \<open>Rate\<close> is the byte the protocol uses.
\<close>

section \<open>The functions of commands.go\<close>

definition Frame :: "string \<Rightarrow> bool \<Rightarrow> string" where
  "Frame cmd raw =
     (if raw \<or> cmd = [] then cmd
      else let cmd = (if hd cmd \<noteq> CHR '':'' then '':'' @ cmd else cmd);
               cmd = (if last cmd \<noteq> CHR ''#'' then cmd @ ''#'' else cmd)
           in cmd)"

definition query :: "string \<Rightarrow> (conn, f64) io" where
  "query cmd = bindE (Get cmd) (\<lambda>s. liftE (ParseSexagesimal s))"

definition RA :: "(conn, f64) io" where "RA = query '':GR#''"
definition Dec :: "(conn, f64) io" where "Dec = query '':GD#''"
definition Altitude :: "(conn, f64) io" where "Altitude = query '':GA#''"
definition Azimuth :: "(conn, f64) io" where "Azimuth = query '':GZ#''"
definition SiderealTime :: "(conn, f64) io" where "SiderealTime = query '':GS#''"

definition Firmware :: "(conn, string) io" where "Firmware = Get '':GVN#''"

definition SetTargetRA :: "f64 \<Rightarrow> (conn, bool) io" where
  "SetTargetRA hours = Ack ('':Sr'' @ FormatHMS hours @ ''#'')"

definition SetTargetDec :: "f64 \<Rightarrow> (conn, bool) io" where
  "SetTargetDec deg = Ack ('':Sd'' @ FormatDMS deg CHR ''*'' @ ''#'')"

definition SlewToTarget :: "(conn, unit) io" where "SlewToTarget = Slew '':MS#''"
definition SyncToTarget :: "(conn, string) io" where "SyncToTarget = Get '':CM#''"
definition Halt :: "(conn, unit) io" where "Halt = Blind '':Q#''"

type_synonym Direction = char

definition North :: Direction where "North = CHR ''n''"
definition South :: Direction where "South = CHR ''s''"
definition East :: Direction where "East = CHR ''e''"
definition West :: Direction where "West = CHR ''w''"

definition Move :: "Direction \<Rightarrow> (conn, unit) io" where
  "Move d = Blind ('':M'' @ [d] @ ''#'')"

definition HaltMove :: "Direction \<Rightarrow> (conn, unit) io" where
  "HaltMove d = Blind ('':Q'' @ [d] @ ''#'')"

type_synonym Rate = char

definition RateGuide :: Rate where "RateGuide = CHR ''G''"
definition RateCenter :: Rate where "RateCenter = CHR ''C''"
definition RateFind :: Rate where "RateFind = CHR ''M''"
definition RateMax :: Rate where "RateMax = CHR ''S''"

definition SetRate :: "Rate \<Rightarrow> (conn, unit) io" where
  "SetRate r = Blind ('':R'' @ [r] @ ''#'')"

definition PulseGuide :: "Direction \<Rightarrow> int \<Rightarrow> (conn, unit) io" where
  "PulseGuide d t =
     (if t < 0 \<or> t > 9999 then
        errE (Errorf ''lx200: pulse-guide duration %d ms out of range 0..9999'' [AInt t] None)
      else Blind ('':Mg'' @ [d] @ fmt_d 4 t @ ''#''))"

type_synonym Axis = int

definition AxisPrimary :: Axis where "AxisPrimary = 0"
definition AxisSecondary :: Axis where "AxisSecondary = 1"

definition axisDir :: "Axis \<Rightarrow> bool \<Rightarrow> Direction" where
  "axisDir a positive =
     (if a = AxisPrimary \<and> positive then East
      else if a = AxisPrimary then West
      else if positive then North
      else South)"

definition MoveAxis :: "Axis \<Rightarrow> bool \<Rightarrow> Rate \<Rightarrow> (conn, unit) io" where
  "MoveAxis a positive rate = bindE (SetRate rate) (\<lambda>_. Move (axisDir a positive))"

definition StopAxis :: "Axis \<Rightarrow> (conn, unit) io" where
  "StopAxis a =
     (let (d1, d2) = (if a = AxisSecondary then (North, South) else (East, West))
      in bindE (HaltMove d1) (\<lambda>_. HaltMove d2))"

definition TrackSidereal :: "(conn, unit) io" where "TrackSidereal = Blind '':TQ#''"
definition TrackLunar :: "(conn, unit) io" where "TrackLunar = Blind '':TL#''"
definition TrackSolar :: "(conn, unit) io" where "TrackSolar = Blind '':TS#''"

section \<open>What the commands send\<close>

lemma query_emits: "emits sent (query cmd) [cmd]"
  unfolding query_def by (rule get.op_lift)

lemma MoveAxis_emits: "emits sent (MoveAxis a pos r) ['':R'' @ [r] @ ''#'', '':M'' @ [axisDir a pos] @ ''#'']"
  unfolding MoveAxis_def SetRate_def Move_def by (rule blind.op_pair)

lemma StopAxis_emits:
  "emits sent (StopAxis a) (if a = AxisSecondary then ['':Qn#'', '':Qs#''] else ['':Qe#'', '':Qw#''])"
  using blind.op_pair [of "'':Qn#''" "'':Qs#''"] blind.op_pair [of "'':Qe#''" "'':Qw#''"]
  by (auto simp: StopAxis_def HaltMove_def North_def South_def East_def West_def)

text \<open>A delimited command: it begins with a colon, and its only hash is its last byte.\<close>

definition command :: "string \<Rightarrow> bool" where
  "command s = (s \<noteq> [] \<and> hd s = CHR '':'' \<and> last s = CHR ''#'' \<and> CHR ''#'' \<notin> set (butlast s))"

lemma Frame_affixes:
  assumes "\<not> raw" "cmd \<noteq> []"
  shows "Frame cmd raw = (if hd cmd = CHR '':'' then [] else '':'') @ cmd @ (if last cmd = CHR ''#'' then [] else ''#'')"
  using assms by (simp add: Frame_def Let_def)

text \<open>\<open>Frame\<close> completes the delimiters and changes nothing else: the result starts with a
  colon and ends with a hash, framing twice is framing once, and a command that has its
  delimiters is left alone.\<close>

theorem Frame_delimits:
  assumes "\<not> raw" "cmd \<noteq> []"
  shows "hd (Frame cmd raw) = CHR '':'' \<and> last (Frame cmd raw) = CHR ''#''
    \<and> Frame (Frame cmd raw) raw = Frame cmd raw
    \<and> Frame cmd raw = (if hd cmd = CHR '':'' then [] else '':'') @ cmd @ (if last cmd = CHR ''#'' then [] else ''#'')"
proof -
  have f: "hd (Frame cmd raw) = CHR '':''" "last (Frame cmd raw) = CHR ''#''" "Frame cmd raw \<noteq> []"
    using assms by (simp_all add: Frame_affixes)
  with Frame_affixes [OF assms(1) f(3)] Frame_affixes [OF assms] show ?thesis by simp
qed

theorem Frame_delimits_witness: "hd (Frame ''GR'' False) = CHR '':'' \<and> Frame ''GR'' False = '':GR#''"
  using Frame_delimits [of False "''GR''"] by simp

lemma hms_no_hash: "CHR ''#'' \<notin> set (FormatHMS h)"
  using fmt_d_chars [of "CHR ''#''"] by (auto simp: FormatHMS_def Let_def is_digit_def)

lemma dms_no_hash: "sep \<noteq> CHR ''#'' \<Longrightarrow> CHR ''#'' \<notin> set (FormatDMS h sep)"
  using fmt_d_chars [of "CHR ''#''"] by (auto simp: FormatDMS_def Let_def is_digit_def split: prod.splits if_splits)

text \<open>Every value, be it infinite or no number, is sent as one well-delimited command,
  so a bad coordinate cannot break the framing; a guide pulse is refused outside 0 to 9999
  ms and nothing is sent then, else its duration takes exactly four digits.\<close>

theorem commands_framed:
  "command ('':Sr'' @ FormatHMS h @ ''#'') \<and> command ('':Sd'' @ FormatDMS d CHR ''*'' @ ''#'')
   \<and> emits sent (SetTargetRA h) ['':Sr'' @ FormatHMS h @ ''#'']
   \<and> emits sent (SetTargetDec d) ['':Sd'' @ FormatDMS d CHR ''*'' @ ''#'']
   \<and> (if 0 \<le> t \<and> t \<le> 9999
      then emits sent (PulseGuide East t) ['':Mge'' @ fmt_d 4 t @ ''#''] \<and> length (fmt_d 4 t) = 4
      else emits sent (PulseGuide East t) [] \<and> isl (fst (PulseGuide East t c)))"
proof -
  have "command ('':Sr'' @ FormatHMS h @ ''#'')" "command ('':Sd'' @ FormatDMS d CHR ''*'' @ ''#'')"
    using hms_no_hash dms_no_hash by (simp_all add: command_def butlast_append)
  moreover have "emits sent (PulseGuide East t) ['':Mge'' @ fmt_d 4 t @ ''#''] \<and> length (fmt_d 4 t) = 4" if "0 \<le> t" "t \<le> 9999"
    using that blind.op_emits [of "'':Mge'' @ fmt_d 4 t @ ''#''"] by (simp add: PulseGuide_def East_def fmt_d_length)
  moreover have "emits sent (PulseGuide East t) [] \<and> isl (fst (PulseGuide East t c))" if "\<not> (0 \<le> t \<and> t \<le> 9999)"
    using that emits_errE by (auto simp: PulseGuide_def)
  ultimately show ?thesis
    using ack.op_emits by (auto simp: SetTargetRA_def SetTargetDec_def)
qed

text \<open>\<open>MoveAxis\<close> selects the rate before it moves, and \<open>StopAxis\<close> stops both directions of
  its axis, one of which is the direction \<open>MoveAxis\<close> used; a failed first command sends no
  second.\<close>

theorem axis_commands:
  "emits sent (MoveAxis a pos r) ['':R'' @ [r] @ ''#'', '':M'' @ [axisDir a pos] @ ''#'']
   \<and> (\<exists>d1 d2. emits sent (StopAxis a) ['':Q'' @ [d1] @ ''#'', '':Q'' @ [d2] @ ''#'']
        \<and> (a \<in> {AxisPrimary, AxisSecondary} \<longrightarrow> axisDir a pos \<in> {d1, d2}))"
proof -
  have "\<exists>d1 d2. emits sent (StopAxis a) ['':Q'' @ [d1] @ ''#'', '':Q'' @ [d2] @ ''#'']
        \<and> (a \<in> {AxisPrimary, AxisSecondary} \<longrightarrow> axisDir a pos \<in> {d1, d2})"
    using StopAxis_emits [of a]
    by (cases "a = AxisSecondary")
       (auto simp: axisDir_def AxisPrimary_def AxisSecondary_def North_def South_def East_def West_def)
  with MoveAxis_emits show ?thesis by blast
qed

theorem axis_commands_witness:
  "axisDir 0 True = East \<and> emits sent (StopAxis 0) ['':Qe#'', '':Qw#'']
   \<and> emits sent (MoveAxis 0 True CHR ''G'') ['':RG#'', '':Me#'']"
  using axis_commands [of 0 True "CHR ''G''"] StopAxis_emits [of 0]
  by (simp add: axisDir_def AxisPrimary_def AxisSecondary_def East_def)


end
