(* ===== verification/Mount.thy ===== *)
theory Mount
  imports Commands
begin

text \<open>
  The interface between front ends and mounts (src/mount.go). A mount is a record of
  operations on a device state \<open>'d\<close>; an optional interface of the source is a component
  that may be absent. \<open>connMount\<close> is the mount an \<open>lx200.Conn\<close> itself provides, with the
  operations the source leaves to each driver as parameters. The locale
  \<open>target_mount\<close> states what a front end relies on: the target registers hold what was
  set last and a slew goes there.
\<close>

type_synonym duration = int

datatype PierSide = PierUnknown | PierEast | PierWest

record 'd mount =
  mRA :: "('d, f64) io"
  mDec :: "('d, f64) io"
  mSetTargetRA :: "f64 \<Rightarrow> ('d, bool) io"
  mSetTargetDec :: "f64 \<Rightarrow> ('d, bool) io"
  mSlewToTarget :: "('d, unit) io"
  mSyncToTarget :: "('d, string) io"
  mHalt :: "('d, unit) io"
  mSlewing :: "('d, bool) io"
  mTracking :: "('d, bool) io"
  mSetTracking :: "bool \<Rightarrow> ('d, unit) io"
  asHorizontal :: "(('d, f64) io \<times> ('d, f64) io) option"
  asProductizer :: "('d, string) io option"
  asSiteSetter :: "((f64 \<Rightarrow> ('d, unit) io) \<times> (f64 \<Rightarrow> ('d, unit) io) \<times> (f64 \<Rightarrow> ('d, unit) io)) option"
  asSiteReader :: "(('d, f64) io \<times> ('d, f64) io) option"
  asClock :: "(int \<Rightarrow> ('d, unit) io) option"
  asUTCOffsetReader :: "('d, duration) io option"
  asUTCOffsetSetter :: "(duration \<Rightarrow> ('d, unit) io) option"
  asMover :: "((Direction \<Rightarrow> ('d, unit) io) \<times> (Direction \<Rightarrow> ('d, unit) io)) option"
  asRater :: "(Rate \<Rightarrow> ('d, unit) io) option"
  asOpLocker :: bool

text \<open>The methods of \<open>*lx200.Conn\<close> as a mount; status and tracking are per driver.\<close>

definition connMount ::
  "(conn, bool) io \<Rightarrow> (conn, bool) io \<Rightarrow> (bool \<Rightarrow> (conn, unit) io) \<Rightarrow> conn mount" where
  "connMount slewing tracking setTracking =
     \<lparr>mRA = RA, mDec = Dec, mSetTargetRA = SetTargetRA, mSetTargetDec = SetTargetDec,
      mSlewToTarget = SlewToTarget, mSyncToTarget = SyncToTarget, mHalt = Halt,
      mSlewing = slewing, mTracking = tracking, mSetTracking = setTracking,
      asHorizontal = Some (Altitude, Azimuth), asProductizer = None, asSiteSetter = None,
      asSiteReader = None, asClock = None, asUTCOffsetReader = None, asUTCOffsetSetter = None,
      asMover = Some (Move, HaltMove), asRater = Some SetRate, asOpLocker = True\<rparr>"

section \<open>The target registers\<close>

text \<open>The text last given to \<open>:Sr\<close> and \<open>:Sd\<close>, and the registers at the last \<open>:MS#\<close>.\<close>

record registers =
  regRA :: "string option"
  regDec :: "string option"
  dest :: "(string option \<times> string option) option"

definition obey :: "registers \<Rightarrow> string \<Rightarrow> registers" where
  "obey g cmd =
     (if HasPrefix cmd '':Sr'' then g\<lparr>regRA := Some (butlast (drop 3 cmd))\<rparr>
      else if HasPrefix cmd '':Sd'' then g\<lparr>regDec := Some (butlast (drop 3 cmd))\<rparr>
      else if cmd = '':MS#'' then g\<lparr>dest := Some (regRA g, regDec g)\<rparr>
      else g)"

definition registers_of :: "string list \<Rightarrow> registers" where
  "registers_of cmds = foldl obey \<lparr>regRA = None, regDec = None, dest = None\<rparr> cmds"

lemma registers_of_snoc [simp]: "registers_of (cmds @ [c]) = obey (registers_of cmds) c"
  by (simp add: registers_of_def)

text \<open>
  What a front end relies on, for any device: a target that was accepted is in its
  register and leaves the other one alone, and a slew that was accepted goes to the
  registers.
\<close>

locale target_mount =
  fixes setRA :: "f64 \<Rightarrow> ('d, bool) io"
    and setDec :: "f64 \<Rightarrow> ('d, bool) io"
    and go :: "('d, unit) io"
    and ra :: "'d \<Rightarrow> string option"
    and dec :: "'d \<Rightarrow> string option"
    and going :: "'d \<Rightarrow> (string option \<times> string option) option"
    and showRA :: "f64 \<Rightarrow> string"
    and showDec :: "f64 \<Rightarrow> string"
  assumes set_ra: "setRA v d = (Inr b, d') \<Longrightarrow> ra d' = Some (showRA v) \<and> dec d' = dec d"
    and set_dec: "setDec v d = (Inr b, d') \<Longrightarrow> dec d' = Some (showDec v) \<and> ra d' = ra d"
    and go_there: "go d = (Inr u, d') \<Longrightarrow> going d' = Some (ra d, dec d)"
begin

lemma goto_reaches:
  assumes "setRA v d = (Inr a, d1)" "setDec w d1 = (Inr b, d2)" "go d2 = (Inr u, d3)"
  shows "going d3 = Some (Some (showRA v), Some (showDec w))"
  using set_ra [OF assms(1)] set_dec [OF assms(2)] go_there [OF assms(3)] by simp

end

lemma HasPrefix_Sd_Sr: "\<not> HasPrefix ('':Sd'' @ s) '':Sr''"
  by (simp add: HasPrefix_def)

interpretation lx: target_mount SetTargetRA SetTargetDec SlewToTarget
    "\<lambda>c. regRA (registers_of (sent c))" "\<lambda>c. regDec (registers_of (sent c))"
    "\<lambda>c. dest (registers_of (sent c))" FormatHMS "\<lambda>v. FormatDMS v CHR ''*''"
proof unfold_locales
  fix v d b d'
  assume "SetTargetRA v d = (Inr b, d')"
  then have "sent d' = sent d @ ['':Sr'' @ FormatHMS v @ ''#'']"
    unfolding SetTargetRA_def by (rule ack.op_sent)
  then show "regRA (registers_of (sent d')) = Some (FormatHMS v) \<and> regDec (registers_of (sent d')) = regDec (registers_of (sent d))"
    by (simp add: obey_def HasPrefix_def)
next
  fix v d b d'
  assume "SetTargetDec v d = (Inr b, d')"
  then have "sent d' = sent d @ ['':Sd'' @ FormatDMS v CHR ''*'' @ ''#'']"
    unfolding SetTargetDec_def by (rule ack.op_sent)
  then show "regDec (registers_of (sent d')) = Some (FormatDMS v CHR ''*'') \<and> regRA (registers_of (sent d')) = regRA (registers_of (sent d))"
    by (simp add: obey_def HasPrefix_def)
next
  fix d u d'
  assume "SlewToTarget d = (Inr u, d')"
  then have "sent d' = sent d @ ['':MS#'']" unfolding SlewToTarget_def by (rule slew.op_sent)
  then show "dest (registers_of (sent d')) = Some (regRA (registers_of (sent d)), regDec (registers_of (sent d)))"
    by (simp add: obey_def HasPrefix_def)
qed

end
