(* ===== verification/Calendar.thy ===== *)
theory Calendar
  imports GoFmt
begin

text \<open>
  The parts of package \<open>time\<close> the program uses: instants as nanoseconds since 1970 in UTC,
  durations as 64-bit nanoseconds, the civil date of an instant, and the layouts
  \<open>01/02/06\<close> (parsed and formatted) and \<open>15:04:05\<close>. Theory \<open>CalendarFacts\<close> shows that \<open>civil\<close> inverts
  \<open>DateUTC\<close>, theory \<open>GoTime\<close> has the other layouts.
\<close>

definition hour_ns :: int where "hour_ns = 3600000000000"
definition day_ns :: int where "day_ns = 86400000000000"

definition wrap64 :: "int \<Rightarrow> int" where
  "wrap64 n = (n + 2 ^ 63) mod 2 ^ 64 - 2 ^ 63"

text \<open>\<open>time.Duration(h * float64(time.Hour))\<close>.\<close>

definition hours_dur :: "f64 \<Rightarrow> int" where
  "hours_dur h = int_of_f64 (fmul h (Fin 3600000000000))"

text \<open>A \<open>time.Time\<close>: the instant and the offset of its zone, in seconds east of UTC. What
  \<open>Format\<close> prints is the clock on the wall there.\<close>

type_synonym gotime = "int \<times> int"

definition wall :: "gotime \<Rightarrow> int" where
  "wall t = fst t + snd t * 1000000000"

definition is_leap :: "int \<Rightarrow> bool" where
  "is_leap y = (y mod 4 = 0 \<and> (y mod 100 \<noteq> 0 \<or> y mod 400 = 0))"

definition daysIn :: "int \<Rightarrow> int \<Rightarrow> int" where
  "daysIn m y = (if m = 2 then (if is_leap y then 29 else 28)
     else if m \<in> {4, 6, 9, 11} then 30 else 31)"

text \<open>Days from 1 January of year 1 to 1 January of year \<open>y\<close>, and to the first of month \<open>m\<close>.\<close>

definition days_to_year :: "int \<Rightarrow> int" where
  "days_to_year y = 365 * (y - 1) + (y - 1) div 4 - (y - 1) div 100 + (y - 1) div 400"

definition days_to_month :: "int \<Rightarrow> int \<Rightarrow> int" where
  "days_to_month m y = sum_list (map (\<lambda>k. daysIn k y) [1..m - 1])"

definition epoch_days :: int where "epoch_days = 719162"

text \<open>\<open>time.Date(y, m, d, 0, 0, 0, 0, time.UTC)\<close>.\<close>

definition DateUTC :: "int \<Rightarrow> int \<Rightarrow> int \<Rightarrow> int" where
  "DateUTC y m d = (days_to_year y + days_to_month m y + (d - 1) - epoch_days) * day_ns"

text \<open>The year, month and day of a day number counted from year 1. 400 years are 146097 days, so the
  quotient misses the year by at most two.\<close>

definition year_of :: "int \<Rightarrow> int" where
  "year_of n = (let q = (n * 400) div 146097 in last (filter (\<lambda>k. days_to_year k \<le> n) [q .. q + 2]))"

fun month_from :: "nat \<Rightarrow> int \<Rightarrow> int \<Rightarrow> int \<Rightarrow> int \<times> int" where
  "month_from 0 m y r = (m, r)"
| "month_from (Suc k) m y r = (if r < daysIn m y then (m, r) else month_from k (m + 1) y (r - daysIn m y))"

definition civil :: "int \<Rightarrow> int \<times> int \<times> int" where
  "civil t = (let n = t div day_ns + epoch_days;
                  y = year_of n;
                  (m, r) = month_from 11 1 y (n - days_to_year y)
              in (y, m, r + 1))"

definition Format_date :: "int \<Rightarrow> string" where
  "Format_date t = (case civil t of (y, m, d) \<Rightarrow>
     fmt_d 2 m @ ''/'' @ fmt_d 2 d @ ''/'' @ fmt_d 2 ((if y < 0 then 0 else y) mod 100))"

definition Format_clock :: "int \<Rightarrow> string" where
  "Format_clock t = (let s = t mod day_ns div 1000000000
     in fmt_d 2 (s div 3600) @ '':'' @ fmt_d 2 (s div 60 mod 60) @ '':'' @ fmt_d 2 (s mod 60))"

text \<open>The two digits of month and day, and the year field, which may carry a sign.\<close>

definition two_digits :: "string \<Rightarrow> int option" where
  "two_digits s = (if length s = 2 \<and> list_all is_digit s then Some (int (digits_val s)) else None)"

definition year_field :: "string \<Rightarrow> int option" where
  "year_field s =
     (if length s \<noteq> 2 then None
      else if list_all is_digit s then Some (int (digits_val s))
      else if is_digit (s ! 1) \<and> s ! 0 = CHR ''-'' then Some (- int (digit_val (s ! 1)))
      else if is_digit (s ! 1) \<and> s ! 0 = CHR ''+'' then Some (int (digit_val (s ! 1)))
      else None)"

text \<open>\<open>time.Parse("01/02/06", s)\<close>: the instant, or no value for an error.\<close>

definition Parse_date :: "string \<Rightarrow> int option" where
  "Parse_date s =
     (if length s \<noteq> 8 \<or> s ! 2 \<noteq> CHR ''/'' \<or> s ! 5 \<noteq> CHR ''/'' then None
      else case (two_digits (take 2 s), two_digits (take 2 (drop 3 s)), year_field (drop 6 s)) of
             (Some m, Some d, Some yy) \<Rightarrow>
               (let y = (if yy \<ge> 69 then yy + 1900 else yy + 2000)
                in if m < 1 \<or> 12 < m \<or> d < 1 \<or> d > daysIn m y then None
                   else Some (DateUTC y m d))
           | _ \<Rightarrow> None)"

end
