(* ===== verification/GoErr.thy ===== *)
theory GoErr
  imports GoFmt
begin

text \<open>
  The text of an error: \<open>Error()\<close> of the error values of theory \<open>GoLang\<close>, which formats the
  arguments of \<open>fmt.Errorf\<close> by the verbs the program uses: \<open>%d\<close>, \<open>%X\<close>, \<open>%f\<close> with their flags
  and widths, \<open>%c\<close>, \<open>%s\<close>, \<open>%v\<close>, \<open>%q\<close>, \<open>%U\<close> and \<open>%w\<close>. Bytes above 127 inside \<open>%q\<close> are written
  as escapes, which is what Go does with text that is not UTF-8.
\<close>

definition hex_dig :: "nat \<Rightarrow> char" where
  "hex_dig n = (if n < 10 then char_of (48 + n) else char_of (55 + n))"

fun hex_str :: "nat \<Rightarrow> string" where
  "hex_str n = (if n < 16 then [hex_dig n] else hex_str (n div 16) @ [hex_dig (n mod 16)])"

declare hex_str.simps [simp del]

definition lower_hex_dig :: "nat \<Rightarrow> char" where
  "lower_hex_dig n = (if n < 10 then char_of (48 + n) else char_of (87 + n))"

definition quote_char :: "char \<Rightarrow> string" where
  "quote_char c =
     (let n = of_char c :: nat
      in if n = 34 then [CHR 0x5C, CHR 0x22]
         else if n = 92 then [CHR 0x5C, CHR 0x5C]
         else if 32 \<le> n \<and> n < 127 then [c]
         else if n = 7 then [CHR 0x5C, CHR ''a'']
         else if n = 8 then [CHR 0x5C, CHR ''b'']
         else if n = 9 then [CHR 0x5C, CHR ''t'']
         else if n = 10 then [CHR 0x5C, CHR ''n'']
         else if n = 11 then [CHR 0x5C, CHR ''v'']
         else if n = 12 then [CHR 0x5C, CHR ''f'']
         else if n = 13 then [CHR 0x5C, CHR ''r'']
         else [CHR 0x5C, CHR ''x'', lower_hex_dig (n div 16), lower_hex_dig (n mod 16)])"

definition quote :: "string \<Rightarrow> string" where
  "quote s = [CHR 0x22] @ concat (map quote_char s) @ [CHR 0x22]"

text \<open>\<open>%c\<close> of a byte: the UTF-8 encoding of that code point.\<close>

definition rune_str :: "char \<Rightarrow> string" where
  "rune_str c = (let n = of_char c :: nat
     in if n < 128 then [c] else [char_of (192 + n div 64), char_of (128 + n mod 64)])"

text \<open>The flags and the width of a verb: \<open>+\<close>, then digits, then a point and digits.\<close>

definition spec_width :: "string \<Rightarrow> nat" where
  "spec_width sp = digits_val (takeWhile is_digit (dropWhile (\<lambda>c. \<not> is_digit c) (takeWhile (\<lambda>c. c \<noteq> CHR ''.'') sp)))"

definition spec_prec :: "string \<Rightarrow> nat" where
  "spec_prec sp = (case dropWhile (\<lambda>c. c \<noteq> CHR ''.'') sp of [] \<Rightarrow> 6 | _ # p \<Rightarrow> digits_val p)"

fun fmt_verb :: "string \<Rightarrow> char \<Rightarrow> farg \<Rightarrow> string" where
  "fmt_verb sp v (AStr s) = (if v = CHR ''q'' then quote s else s)"
| "fmt_verb sp v (AChr c) =
     (if v = CHR ''U'' then ''U+'' @ pad0 4 (hex_str (of_char c)) @ '' '' @ [CHR 0x27] @ rune_str c @ [CHR 0x27]
      else rune_str c)"
| "fmt_verb sp v (AInt n) =
     (if v = CHR ''X'' then pad0 (spec_width sp) (hex_str (nat n))
      else if CHR ''+'' \<in> set sp then fmt_plus_d (spec_width sp) n
      else fmt_d (spec_width sp) n)"
| "fmt_verb sp v (AFlt x) = fmt_f (CHR ''+'' \<in> set sp) (spec_width sp) (spec_prec sp) x"

definition verb_flag :: "char \<Rightarrow> bool" where
  "verb_flag c = (is_digit c \<or> c \<in> set ''+-.#'')"

lemma dropWhile_shorter: "dropWhile P xs = y # ys \<Longrightarrow> length ys < Suc (length xs)"
  using length_dropWhile_le [of P xs] by simp

text \<open>\<open>fmt.Sprintf\<close>; \<open>w\<close> is the text of the wrapped error.\<close>

function Sprintf :: "string \<Rightarrow> farg list \<Rightarrow> string \<Rightarrow> string" where
  "Sprintf f args w =
     (case f of
        [] \<Rightarrow> []
      | c # r \<Rightarrow>
          if c \<noteq> CHR ''%'' then c # Sprintf r args w
          else (let sp = takeWhile verb_flag r
                in case dropWhile verb_flag r of
                     [] \<Rightarrow> ''%!(NOVERB)''
                   | v # rest \<Rightarrow>
                       if v = CHR ''%'' then CHR ''%'' # Sprintf rest args w
                       else if v = CHR ''w'' then w @ Sprintf rest args w
                       else case args of
                              [] \<Rightarrow> ''%!'' @ [v] @ ''(MISSING)'' @ Sprintf rest [] w
                            | a # as \<Rightarrow> fmt_verb sp v a @ Sprintf rest as w))"
  by pat_completeness auto
termination
proof (relation "measure (\<lambda>(f, args, w). length f)", goal_cases)
  case 1
  then show ?case by simp
qed (auto dest!: dropWhile_shorter)

declare Sprintf.simps [simp del]

text \<open>\<open>Error()\<close>.\<close>

fun err_text :: "gerr \<Rightarrow> string" where
  "err_text (ErrNew s) = s"
| "err_text (NetError s b) = s"
| "err_text (Errorf f args None) = Sprintf f args []"
| "err_text (Errorf f args (Some e)) = Sprintf f args (err_text e)"

text \<open>\<open>strings.ReplaceAll\<close> of one character by another.\<close>

definition replace_char :: "char \<Rightarrow> char \<Rightarrow> string \<Rightarrow> string" where
  "replace_char a b s = map (\<lambda>c. if c = a then b else c) s"

end
