(* ===== verification/Bridge.thy ===== *)
theory Bridge
  imports Mount Calendar GoErr
begin

text \<open>
  The LX200 server in front of a mount (src/bridge/bridge.go): \<open>handle\<close> with \<open>dispatch\<close> and
  every command handler. The server's configuration is a record; its caches, the
  connection's buffered state (\<open>connState\<close>), the device, the wall clock and the text
  written to the client are the state. \<open>MountFunc\<close> is an operation on the device that yields the
  mount or an error. A request is one step: the operation lock that keeps it so is the
  subject of theory \<open>OpLock\<close>. Log lines are left out.
\<close>

section \<open>State\<close>

record 'd server =
  mountFn :: "('d, 'd mount) io"
  mountTyp :: char
  product :: string
  version :: string
  roSite :: bool

record connState =
  tgtRA :: f64
  tgtDec :: f64
  haveRA :: bool
  haveDec :: bool
  setDate :: int
  setTOD :: int
  setOff :: int
  haveSC :: bool
  haveSL :: bool
  haveSG :: bool

definition connState0 :: connState where
  "connState0 = \<lparr>tgtRA = Fin 0, tgtDec = Fin 0, haveRA = False, haveDec = False,
     setDate = 0, setTOD = 0, setOff = 0, haveSC = False, haveSL = False, haveSG = False\<rparr>"

record 'd bridge =
  dev :: 'd
  clock :: int
  cachedProduct :: string
  siteLat :: f64
  siteLon :: f64
  utcOff :: int
  haveSite :: bool
  haveOff :: bool
  st :: connState
  out :: string

text \<open>\<open>New\<close> and its options: the defaults and a server that has read nothing yet.\<close>

definition newServer :: "('d, 'd mount) io \<Rightarrow> 'd server" where
  "newServer m = \<lparr>mountFn = m, mountTyp = CHR ''P'', product = ''lx200-bridge'', version = ''1.0'', roSite = False\<rparr>"

definition WithMountType :: "char \<Rightarrow> 'd server \<Rightarrow> 'd server" where
  "WithMountType b s = s\<lparr>mountTyp := b\<rparr>"

definition WithIdent :: "string \<Rightarrow> string \<Rightarrow> 'd server \<Rightarrow> 'd server" where
  "WithIdent p v s = s\<lparr>product := p, version := v\<rparr>"

definition WithReadOnlySite :: "'d server \<Rightarrow> 'd server" where
  "WithReadOnlySite s = s\<lparr>roSite := True\<rparr>"

definition newBridge :: "'d \<Rightarrow> int \<Rightarrow> 'd bridge" where
  "newBridge d t = \<lparr>dev = d, clock = t, cachedProduct = [], siteLat = Fin 0, siteLon = Fin 0,
     utcOff = 0, haveSite = False, haveOff = False, st = connState0, out = []\<rparr>"

text \<open>Running an operation on the device, and writing to the client.\<close>

definition onDev :: "('d, 'a) io \<Rightarrow> 'd bridge \<Rightarrow> (gerr + 'a) \<times> 'd bridge" where
  "onDev f b = (case f (dev b) of (r, d) \<Rightarrow> (r, b\<lparr>dev := d\<rparr>))"

definition bwriteS :: "string \<Rightarrow> 'd bridge \<Rightarrow> 'd bridge" where
  "bwriteS msg b = b\<lparr>out := out b @ msg\<rparr>"

section \<open>Reading handlers\<close>

definition formatRA :: "f64 \<Rightarrow> string" where "formatRA hours = FormatHMS hours"
definition formatDec :: "f64 \<Rightarrow> string" where "formatDec deg = FormatDMS deg CHR ''*''"

definition isDir :: "char \<Rightarrow> bool" where
  "isDir c = (c = CHR ''n'' \<or> c = CHR ''s'' \<or> c = CHR ''e'' \<or> c = CHR ''w'')"

definition oneLine :: "string \<Rightarrow> string" where
  "oneLine s = replace_char CHR 0x0A CHR '' '' (replace_char CHR ''#'' CHR '' '' s)"

definition getCoord :: "'d server \<Rightarrow> ('d mount \<Rightarrow> ('d, f64) io) \<Rightarrow> (f64 \<Rightarrow> string) \<Rightarrow> 'd bridge \<Rightarrow> 'd bridge" where
  "getCoord s read format b =
     (case onDev (mountFn s) b of
        (Inl _, b) \<Rightarrow> bwriteS ''#'' b
      | (Inr m, b) \<Rightarrow>
          (case onDev (read m) b of
             (Inl _, b) \<Rightarrow> bwriteS ''#'' b
           | (Inr v, b) \<Rightarrow> bwriteS (format v @ ''#'') b))"

definition altitude :: "'d mount \<Rightarrow> ('d, f64) io" where
  "altitude m = (case asHorizontal m of Some (alt, _) \<Rightarrow> alt | None \<Rightarrow> okE (Fin 0))"

definition azimuth :: "'d mount \<Rightarrow> ('d, f64) io" where
  "azimuth m = (case asHorizontal m of Some (_, az) \<Rightarrow> az | None \<Rightarrow> okE (Fin 0))"

definition productName :: "'d server \<Rightarrow> 'd bridge \<Rightarrow> string \<times> 'd bridge" where
  "productName s b =
     (if cachedProduct b \<noteq> [] then (cachedProduct b, b)
      else case onDev (mountFn s) b of
        (Inl _, b) \<Rightarrow> (product s, b)
      | (Inr m, b) \<Rightarrow>
          (case asProductizer m of
             None \<Rightarrow> (product s, b)
           | Some p \<Rightarrow>
               (case onDev p b of
                  (Inr name, b) \<Rightarrow>
                    if name \<noteq> [] then (name, b\<lparr>cachedProduct := name\<rparr>) else (product s, b)
                | (Inl _, b) \<Rightarrow> (product s, b))))"

definition site :: "'d server \<Rightarrow> 'd bridge \<Rightarrow> (f64 \<times> f64) option \<times> 'd bridge" where
  "site s b =
     (if haveSite b then (Some (siteLat b, siteLon b), b)
      else case onDev (mountFn s) b of
        (Inl _, b) \<Rightarrow> (None, b)
      | (Inr m, b) \<Rightarrow>
          (case asSiteReader m of
             None \<Rightarrow> (None, b)
           | Some (lat, lon) \<Rightarrow>
               (case onDev lat b of (la, b) \<Rightarrow>
                case onDev lon b of (lo, b) \<Rightarrow>
                  (case (la, lo) of
                     (Inr x, Inr y) \<Rightarrow> (Some (x, y), b\<lparr>siteLat := x, siteLon := y, haveSite := True\<rparr>)
                   | _ \<Rightarrow> (None, b)))))"

definition offset :: "'d server \<Rightarrow> 'd bridge \<Rightarrow> int \<times> 'd bridge" where
  "offset s b =
     (if haveOff b then (utcOff b, b)
      else case onDev (mountFn s) b of
        (Inl _, b) \<Rightarrow> (0, b)
      | (Inr m, b) \<Rightarrow>
          (case asUTCOffsetReader m of
             None \<Rightarrow> (0, b)
           | Some r \<Rightarrow>
               (case onDev r b of
                  (Inl _, b) \<Rightarrow> (0, b)
                | (Inr d, b) \<Rightarrow> (d, b\<lparr>utcOff := d, haveOff := True\<rparr>))))"

definition localNow :: "int \<Rightarrow> 'd bridge \<Rightarrow> int" where
  "localNow off b = clock b + wrap64 (- off)"

definition meadeLat :: "f64 \<Rightarrow> string" where
  "meadeLat deg =
     (let (sign, deg) = (if flt deg (Fin 0) then (CHR ''-'', fneg deg) else (CHR ''+'', deg));
          d = int_of_f64 deg;
          mm = wrap64 (int_of_f64 (f_round (fmul deg (Fin 60))) - wrap64 (d * 60));
          (d, mm) = (if mm \<ge> 60 then (wrap64 (d + 1), mm - 60) else (d, mm))
      in [sign] @ fmt_d 2 d @ ''*'' @ fmt_d 2 mm)"

definition meadeLon :: "f64 \<Rightarrow> string" where
  "meadeLon eastDeg =
     (let w = fmod (fneg eastDeg) (Fin 360);
          w = (if flt w (Fin 0) then fadd w (Fin 360) else w);
          d = int_of_f64 w;
          mm = wrap64 (int_of_f64 (f_round (fmul w (Fin 60))) - wrap64 (d * 60));
          (d, mm) = (if mm \<ge> 60 then (wrap64 (d + 1), mm - 60) else (d, mm));
          d = (if d \<ge> 360 then d - 360 else d)
      in fmt_d 3 d @ ''*'' @ fmt_d 2 mm)"

text \<open>\<open>time.Duration.Hours\<close>.\<close>

definition hours_of :: "int \<Rightarrow> f64" where
  "hours_of d = fadd (f64_of_int (go_quot d hour_ns))
     (fdiv (f64_of_int (go_rem d hour_ns)) (Fin 3600000000000))"

definition meadeOffset :: "int \<Rightarrow> string" where
  "meadeOffset d =
     (let h = hours_of d;
          (sign, h) = (if flt h (Fin 0) then (CHR ''-'', fneg h) else (CHR ''+'', h))
      in [sign] @ fmt_d 2 (int_of_f64 (f_round h)))"

definition alignStatus :: "'d server \<Rightarrow> 'd bridge \<Rightarrow> string \<times> 'd bridge" where
  "alignStatus s b =
     (case (case onDev (mountFn s) b of
              (Inl _, b) \<Rightarrow> (False, b)
            | (Inr m, b) \<Rightarrow> (case onDev (mTracking m) b of (r, b) \<Rightarrow> (r = Inr True, b))) of
        (tr, b) \<Rightarrow> (rune_str (mountTyp s) @ [if tr then CHR ''T'' else CHR ''N''] @ ''1'', b))"

definition distance :: "'d server \<Rightarrow> 'd bridge \<Rightarrow> 'd bridge" where
  "distance s b =
     (case onDev (mountFn s) b of
        (Inl _, b) \<Rightarrow> bwriteS ''#'' b
      | (Inr m, b) \<Rightarrow>
          (case onDev (mSlewing m) b of (r, b) \<Rightarrow> bwriteS (if r = Inr True then ''|#'' else ''#'') b))"

section \<open>Site and clock\<close>

text \<open>The tail of \<open>setLatitude\<close> and \<open>setLongitude\<close>: the call of the mount's setter, the cache
  update when it succeeds, and the reply.\<close>

definition setSite :: "'d server \<Rightarrow> ('d mount \<Rightarrow> ('d, unit) io option) \<Rightarrow> ('d bridge \<Rightarrow> 'd bridge) \<Rightarrow> 'd bridge \<Rightarrow> 'd bridge" where
  "setSite s setter cache b =
     (case onDev (mountFn s) b of
        (Inl _, b) \<Rightarrow> bwriteS ''0'' b
      | (Inr m, b) \<Rightarrow>
          (case setter m of
             None \<Rightarrow> bwriteS ''0'' b
           | Some f \<Rightarrow>
               (case onDev f b of
                  (Inl _, b) \<Rightarrow> bwriteS ''0'' b
                | (Inr _, b) \<Rightarrow> bwriteS ''1'' (if haveSite b then cache b else b))))"

definition setLatitude :: "'d server \<Rightarrow> string \<Rightarrow> 'd bridge \<Rightarrow> 'd bridge" where
  "setLatitude s val b =
     (case ParseSexagesimal val of
        Inl _ \<Rightarrow> bwriteS ''0'' b
      | Inr deg \<Rightarrow>
          if flt deg (Fin (- 90)) \<or> flt (Fin 90) deg then bwriteS ''0'' b
          else if roSite s then bwriteS ''1'' b
          else setSite s (\<lambda>m. case asSiteSetter m of None \<Rightarrow> None | Some (lat, _, _) \<Rightarrow> Some (lat deg))
                 (\<lambda>b. b\<lparr>siteLat := deg\<rparr>) b)"

definition setLongitude :: "'d server \<Rightarrow> string \<Rightarrow> 'd bridge \<Rightarrow> 'd bridge" where
  "setLongitude s val b =
     (case ParseSexagesimal val of
        Inl _ \<Rightarrow> bwriteS ''0'' b
      | Inr w \<Rightarrow>
          if roSite s then bwriteS ''1'' b
          else let east = fmod (fneg w) (Fin 360);
                   east = (if flt (Fin 180) east then fsub east (Fin 360)
                           else if flt east (Fin (- 180)) then fadd east (Fin 360) else east)
               in setSite s (\<lambda>m. case asSiteSetter m of None \<Rightarrow> None | Some (_, lon, _) \<Rightarrow> Some (lon east))
                    (\<lambda>b. b\<lparr>siteLon := east\<rparr>) b)"

definition tryApplyTime :: "'d server \<Rightarrow> 'd bridge \<Rightarrow> 'd bridge" where
  "tryApplyTime s b =
     (if \<not> haveSC (st b) \<or> \<not> haveSL (st b) then b
      else
        let (off, b) = (if haveSG (st b) then (setOff (st b), b) else offset s b);
            utc = setDate (st b) + setTOD (st b) + off;
            b = (case onDev (mountFn s) b of
                   (Inl _, b) \<Rightarrow> b
                 | (Inr m, b) \<Rightarrow> (case asClock m of None \<Rightarrow> b | Some f \<Rightarrow> snd (onDev (f utc) b)))
        in b\<lparr>st := (st b)\<lparr>haveSC := False, haveSL := False, haveSG := False\<rparr>\<rparr>)"

definition setUTCOffset :: "'d server \<Rightarrow> string \<Rightarrow> 'd bridge \<Rightarrow> 'd bridge" where
  "setUTCOffset s val b =
     (case ParseSexagesimal val of
        Inl _ \<Rightarrow> bwriteS ''0'' b
      | Inr h \<Rightarrow>
          if roSite s then bwriteS ''1'' b
          else
            let off = hours_dur h;
                b = b\<lparr>st := (st b)\<lparr>setOff := off, haveSG := True\<rparr>\<rparr>;
                b = (case onDev (mountFn s) b of
                       (Inl _, b) \<Rightarrow> b
                     | (Inr m, b) \<Rightarrow> (case asUTCOffsetSetter m of None \<Rightarrow> b | Some f \<Rightarrow> snd (onDev (f off) b)));
                b = b\<lparr>utcOff := off, haveOff := True\<rparr>
            in bwriteS ''1'' (tryApplyTime s b))"

definition setLocalTime :: "'d server \<Rightarrow> string \<Rightarrow> 'd bridge \<Rightarrow> 'd bridge" where
  "setLocalTime s val b =
     (case ParseSexagesimal val of
        Inl _ \<Rightarrow> bwriteS ''0'' b
      | Inr h \<Rightarrow>
          if roSite s then bwriteS ''1'' b
          else bwriteS ''1'' (tryApplyTime s (b\<lparr>st := (st b)\<lparr>setTOD := hours_dur h, haveSL := True\<rparr>\<rparr>)))"

definition setCalendarDate :: "'d server \<Rightarrow> string \<Rightarrow> 'd bridge \<Rightarrow> 'd bridge" where
  "setCalendarDate s val b =
     (case Parse_date (TrimSpace val) of
        None \<Rightarrow> bwriteS ''0'' b
      | Some d \<Rightarrow>
          bwriteS ''1Updating Planetary Data#                              #''
            (if \<not> roSite s then tryApplyTime s (b\<lparr>st := (st b)\<lparr>setDate := d, haveSC := True\<rparr>\<rparr>) else b))"

section \<open>Target, slew and sync\<close>

text \<open>\<open>setTarget\<close> on either of the two registers; \<open>1e-9\<close> is the nearest \<open>float64\<close>.\<close>

definition f_1e9 :: f64 where "f_1e9 = rnd (1 / 1000000000)"

definition target_value :: "string \<Rightarrow> rat \<Rightarrow> rat \<Rightarrow> f64 option" where
  "target_value val lo hi =
     (case ParseSexagesimal val of
        Inl _ \<Rightarrow> None
      | Inr v \<Rightarrow> if flt v (Fin lo) \<or> fle (fadd (Fin hi) f_1e9) v then None else Some v)"

definition setTargetRA :: "string \<Rightarrow> 'd bridge \<Rightarrow> 'd bridge" where
  "setTargetRA val b =
     (case target_value val 0 24 of
        None \<Rightarrow> bwriteS ''0'' (b\<lparr>st := (st b)\<lparr>haveRA := False\<rparr>\<rparr>)
      | Some v \<Rightarrow> bwriteS ''1'' (b\<lparr>st := (st b)\<lparr>tgtRA := v, haveRA := True\<rparr>\<rparr>))"

definition setTargetDec :: "string \<Rightarrow> 'd bridge \<Rightarrow> 'd bridge" where
  "setTargetDec val b =
     (case target_value val (- 90) 90 of
        None \<Rightarrow> bwriteS ''0'' (b\<lparr>st := (st b)\<lparr>haveDec := False\<rparr>\<rparr>)
      | Some v \<Rightarrow> bwriteS ''1'' (b\<lparr>st := (st b)\<lparr>tgtDec := v, haveDec := True\<rparr>\<rparr>))"

definition setDeviceTarget :: "'d mount \<Rightarrow> f64 \<Rightarrow> f64 \<Rightarrow> ('d, unit) io" where
  "setDeviceTarget m ra dec =
     bindE (mSetTargetRA m ra) (\<lambda>ok.
       if \<not> ok then errE (Errorf ''mount rejected target RA'' [] None)
       else bindE (mSetTargetDec m dec) (\<lambda>ok.
         if \<not> ok then errE (Errorf ''mount rejected target Dec'' [] None)
         else okE ()))"

definition gotoTarget :: "'d server \<Rightarrow> 'd bridge \<Rightarrow> 'd bridge" where
  "gotoTarget s b =
     (if \<not> haveRA (st b) \<or> \<not> haveDec (st b) then bwriteS ''1No target set#'' b
      else case onDev (mountFn s) b of
        (Inl e, b) \<Rightarrow> bwriteS (''1'' @ err_text e @ ''#'') b
      | (Inr m, b) \<Rightarrow>
          (case onDev (bindE (setDeviceTarget m (tgtRA (st b)) (tgtDec (st b))) (\<lambda>_. mSlewToTarget m)) b of
             (Inl e, b) \<Rightarrow> bwriteS (''1'' @ oneLine (err_text e) @ ''#'') b
           | (Inr _, b) \<Rightarrow> bwriteS ''0'' b))"

definition syncTarget :: "'d server \<Rightarrow> 'd bridge \<Rightarrow> 'd bridge" where
  "syncTarget s b =
     (if \<not> haveRA (st b) \<or> \<not> haveDec (st b) then bwriteS ''No target set#'' b
      else case onDev (mountFn s) b of
        (Inl e, b) \<Rightarrow> bwriteS ''Not connected#'' b
      | (Inr m, b) \<Rightarrow>
          (case onDev (bindE (setDeviceTarget m (tgtRA (st b)) (tgtDec (st b))) (\<lambda>_. mSyncToTarget m)) b of
             (Inl e, b) \<Rightarrow> bwriteS ''Sync failed#'' b
           | (Inr matched, b) \<Rightarrow>
               bwriteS ((if matched = [] then ''Coordinates matched.'' else matched) @ ''#'') b))"

section \<open>Motion\<close>

text \<open>The shape of \<open>halt\<close>, \<open>move\<close>, \<open>haltMove\<close> and \<open>setRate\<close>: a capability the live mount may
  lack, its error only logged.\<close>

definition motion :: "'d server \<Rightarrow> ('d mount \<Rightarrow> ('d, unit) io option) \<Rightarrow> 'd bridge \<Rightarrow> 'd bridge" where
  "motion s cap b =
     (case onDev (mountFn s) b of
        (Inl _, b) \<Rightarrow> b
      | (Inr m, b) \<Rightarrow> (case cap m of None \<Rightarrow> b | Some f \<Rightarrow> snd (onDev f b)))"

definition halt :: "'d server \<Rightarrow> 'd bridge \<Rightarrow> 'd bridge" where
  "halt s b = motion s (\<lambda>m. Some (mHalt m)) b"

definition move :: "'d server \<Rightarrow> char \<Rightarrow> 'd bridge \<Rightarrow> 'd bridge" where
  "move s dir b = motion s (\<lambda>m. map_option (\<lambda>(mv, _). mv dir) (asMover m)) b"

definition haltMove :: "'d server \<Rightarrow> char \<Rightarrow> 'd bridge \<Rightarrow> 'd bridge" where
  "haltMove s dir b = motion s (\<lambda>m. map_option (\<lambda>(_, hm). hm dir) (asMover m)) b"

definition setRate :: "'d server \<Rightarrow> char \<Rightarrow> 'd bridge \<Rightarrow> 'd bridge" where
  "setRate s r b = motion s (\<lambda>m. map_option (\<lambda>f. f r) (asRater m)) b"

section \<open>The command loop\<close>

definition dispatch :: "'d server \<Rightarrow> string \<Rightarrow> 'd bridge \<Rightarrow> 'd bridge" where
  "dispatch s cmd b =
     (if cmd = ''GR'' then getCoord s mRA formatRA b
      else if cmd = ''GD'' then getCoord s mDec formatDec b
      else if cmd = ''GA'' then getCoord s altitude formatDec b
      else if cmd = ''GZ'' then getCoord s azimuth formatDec b
      else if cmd = ''GVP'' then (case productName s b of (n, b) \<Rightarrow> bwriteS (n @ ''#'') b)
      else if cmd = ''GVN'' then bwriteS (version s @ ''#'') b
      else if cmd = ''Gt'' then
        (case site s b of (None, b) \<Rightarrow> bwriteS ''#'' b | (Some (lat, _), b) \<Rightarrow> bwriteS (meadeLat lat @ ''#'') b)
      else if cmd = ''Gg'' then
        (case site s b of (None, b) \<Rightarrow> bwriteS ''#'' b | (Some (_, lon), b) \<Rightarrow> bwriteS (meadeLon lon @ ''#'') b)
      else if cmd = ''GG'' then (case offset s b of (d, b) \<Rightarrow> bwriteS (meadeOffset d @ ''#'') b)
      else if cmd = ''GL'' then (case offset s b of (d, b) \<Rightarrow> bwriteS (Format_clock (localNow d b) @ ''#'') b)
      else if cmd = ''GC'' then (case offset s b of (d, b) \<Rightarrow> bwriteS (Format_date (localNow d b) @ ''#'') b)
      else if cmd = ''GW'' then (case alignStatus s b of (a, b) \<Rightarrow> bwriteS (a @ ''#'') b)
      else if cmd = ''D'' then distance s b
      else if HasPrefix cmd ''Sr'' then setTargetRA (drop 2 cmd) b
      else if HasPrefix cmd ''Sd'' then setTargetDec (drop 2 cmd) b
      else if HasPrefix cmd ''St'' then setLatitude s (drop 2 cmd) b
      else if HasPrefix cmd ''Sg'' then setLongitude s (drop 2 cmd) b
      else if HasPrefix cmd ''SG'' then setUTCOffset s (drop 2 cmd) b
      else if HasPrefix cmd ''SL'' then setLocalTime s (drop 2 cmd) b
      else if HasPrefix cmd ''SC'' then setCalendarDate s (drop 2 cmd) b
      else if cmd = ''MS'' then gotoTarget s b
      else if cmd = ''CM'' then syncTarget s b
      else if cmd = ''Q'' then halt s b
      else if cmd = ''U'' then b
      else if length cmd = 2 \<and> cmd ! 0 = CHR ''M'' \<and> isDir (cmd ! 1) then move s (cmd ! 1) b
      else if length cmd = 2 \<and> cmd ! 0 = CHR ''Q'' \<and> isDir (cmd ! 1) then haltMove s (cmd ! 1) b
      else if length cmd = 2 \<and> cmd ! 0 = CHR ''R'' \<and> cmd ! 1 \<in> set ''GCMS'' then setRate s (cmd ! 1) b
      else if HasPrefix cmd ''G'' then bwriteS ''#'' b
      else b)"

text \<open>\<open>handle\<close> on the bytes a client sends before it closes the connection.\<close>

function handle :: "'d server \<Rightarrow> string \<Rightarrow> 'd bridge \<Rightarrow> 'd bridge" where
  "handle s input b =
     (case input of
        [] \<Rightarrow> b
      | c # rest \<Rightarrow>
          if c = CHR 0x06 then handle s rest (bwriteS (rune_str (mountTyp s)) b)
          else if c = CHR '':'' then
            (if CHR ''#'' \<notin> set rest then b
             else handle s (drop 1 (dropWhile (\<lambda>x. x \<noteq> CHR ''#'') rest))
                    (dispatch s (takeWhile (\<lambda>x. x \<noteq> CHR ''#'') rest) b))
          else handle s rest b)"
  by pat_completeness auto
termination
proof (relation "measure (\<lambda>(s, input, b). length input)", goal_cases)
  case (3 s input b c rest)
  have "length (dropWhile (\<lambda>x. x \<noteq> CHR ''#'') rest) \<le> length rest" by (rule length_dropWhile_le)
  with 3 show ?case by simp
qed auto

declare handle.simps [simp del]

section \<open>Framing of requests\<close>

lemma handle_Nil [simp]: "handle s [] b = b"
  by (subst handle.simps) simp

lemma handle_frame:
  assumes "CHR ''#'' \<notin> set cmd"
  shows "handle s (CHR '':'' # cmd @ CHR ''#'' # rest) b = handle s rest (dispatch s cmd b)"
proof -
  have "\<forall>x\<in>set cmd. x \<noteq> CHR ''#''" using assms by auto
  then have "takeWhile (\<lambda>x. x \<noteq> CHR ''#'') (cmd @ CHR ''#'' # rest) = cmd"
    "drop 1 (dropWhile (\<lambda>x. x \<noteq> CHR ''#'') (cmd @ CHR ''#'' # rest)) = rest"
    by (simp_all add: takeWhile_all_append dropWhile_all_append)
  then show ?thesis by (subst handle.simps) simp
qed

lemma handle_stray:
  "c \<noteq> CHR 0x06 \<Longrightarrow> c \<noteq> CHR '':'' \<Longrightarrow> handle s (c # rest) b = handle s rest b"
  by (subst handle.simps) simp

lemma handle_ack: "handle s (CHR 0x06 # rest) b = handle s rest (bwriteS (rune_str (mountTyp s)) b)"
  by (subst handle.simps) simp

lemma handle_junk:
  "\<forall>c\<in>set j. c \<noteq> CHR 0x06 \<and> c \<noteq> CHR '':'' \<Longrightarrow> handle s (j @ rest) b = handle s rest b"
  by (induction j) (auto simp: handle_stray)

lemma handle_frames:
  assumes "\<forall>(j, cmd)\<in>set fs. (\<forall>c\<in>set j. c \<noteq> CHR 0x06 \<and> c \<noteq> CHR '':'') \<and> CHR ''#'' \<notin> set cmd"
  shows "handle s (concat (map (\<lambda>(j, cmd). j @ '':'' @ cmd @ ''#'') fs) @ rest) b
    = handle s rest (foldl (\<lambda>b (j, cmd). dispatch s cmd b) b fs)"
  using assms
proof (induction fs arbitrary: b)
  case (Cons f fs)
  obtain j cmd where f: "f = (j, cmd)" by (cases f)
  with Cons.prems have "handle s (j @ CHR '':'' # cmd @ CHR ''#'' # concat (map (\<lambda>(j, cmd). j @ '':'' @ cmd @ ''#'') fs) @ rest) b
      = handle s (concat (map (\<lambda>(j, cmd). j @ '':'' @ cmd @ ''#'') fs) @ rest) (dispatch s cmd b)"
    by (simp add: handle_junk handle_frame)
  with Cons show ?case by (simp add: f)
qed simp

section \<open>Framing of replies\<close>

text \<open>\<open>replies b b' t\<close>: exactly the text \<open>t\<close> was written.\<close>

definition replies :: "'d bridge \<Rightarrow> 'd bridge \<Rightarrow> string \<Rightarrow> bool" where
  "replies b b' t = (out b' = out b @ t)"

definition framed :: "string \<Rightarrow> bool" where
  "framed t = (\<exists>u. t = u @ ''#'' \<and> CHR ''#'' \<notin> set u)"

lemma framed_snoc: "CHR ''#'' \<notin> set u \<Longrightarrow> framed (u @ ''#'')"
  by (auto simp: framed_def)

lemma framed_hash [simp]: "framed ''#''"
  by (simp add: framed_def)

lemma onDev_out: "onDev f b = (r, b') \<Longrightarrow> out b' = out b \<and> st b' = st b \<and> clock b' = clock b"
  by (auto simp: onDev_def split: prod.splits)

lemma bwriteS_out [simp]: "out (bwriteS t b) = out b @ t"
  by (simp add: bwriteS_def)

lemma site_out: "site s b = (r, b') \<Longrightarrow> out b' = out b"
  by (auto simp: site_def dest!: onDev_out split: prod.splits sum.splits option.splits if_splits)

lemma offset_out: "offset s b = (r, b') \<Longrightarrow> out b' = out b"
  by (auto simp: offset_def dest!: onDev_out split: prod.splits sum.splits option.splits if_splits)

lemma digit_no_hash: "\<not> is_digit CHR ''#''"
  by (simp add: is_digit_def)

lemma fmt_d_no_hash [simp]: "CHR ''#'' \<notin> set (fmt_d w n)"
  using fmt_d_chars [of "CHR ''#''" w n] digit_no_hash by auto

lemma meade_no_hash [simp]:
  "CHR ''#'' \<notin> set (meadeLat x)" "CHR ''#'' \<notin> set (meadeLon x)" "CHR ''#'' \<notin> set (meadeOffset d)"
  "CHR ''#'' \<notin> set (Format_clock t)" "CHR ''#'' \<notin> set (Format_date t)"
  by (auto simp: meadeLat_def meadeLon_def meadeOffset_def Format_clock_def Format_date_def Let_def split: prod.splits if_splits)

lemma rune_no_hash: "c \<noteq> CHR ''#'' \<Longrightarrow> CHR ''#'' \<notin> set (rune_str c)"
proof -
  assume c: "c \<noteq> CHR ''#''"
  have h: "char_of n \<noteq> CHR ''#''" if "128 \<le> n" "n < 256" for n :: nat
  proof
    assume "char_of n = CHR ''#''"
    then have "of_char (char_of n) = (35 :: nat)" by simp
    with that show False by (simp add: of_char_of)
  qed
  have "(of_char c :: nat) < 256" 
    by (metis mod_less_divisor of_char_mod_256 zero_less_numeral)
  then have "of_char c div 64 < (4 :: nat)" by linarith
  then have "char_of (192 + of_char c div 64 :: nat) \<noteq> CHR ''#''" by (intro h) simp_all
  moreover have "char_of (128 + of_char c mod 64 :: nat) \<noteq> CHR ''#''"
    using mod_less_divisor [of 64 "of_char c"] by (intro h) simp_all
  ultimately show ?thesis using c by (auto simp: rune_str_def Let_def)
qed

lemma getCoord_framed:
  assumes "\<And>v. CHR ''#'' \<notin> set (format v)"
  shows "\<exists>t. framed t \<and> replies b (getCoord s read format b) t"
proof -
  obtain r b1 where r: "onDev (mountFn s) b = (r, b1)" by fastforce
  show ?thesis
  proof (cases r)
    case (Inl e)
    with r onDev_out [OF r] show ?thesis by (intro exI [of _ "''#''"]) (simp add: getCoord_def replies_def)
  next
    case (Inr m)
    obtain v b2 where v: "onDev (read m) b1 = (v, b2)" by fastforce
    show ?thesis
    proof (cases v)
      case (Inl e)
      with Inr r v onDev_out [OF r] onDev_out [OF v] show ?thesis
        by (intro exI [of _ "''#''"]) (simp add: getCoord_def replies_def)
    next
      case (Inr x)
      with \<open>r = Inr m\<close> r v onDev_out [OF r] onDev_out [OF v] assms show ?thesis
        by (intro exI [of _ "format x @ ''#''"]) (simp add: getCoord_def replies_def framed_snoc)
    qed
  qed
qed

lemma site_framed:
  assumes "\<And>x. CHR ''#'' \<notin> set (show x)"
  shows "\<exists>t. framed t \<and> replies b (case site s b of (None, b) \<Rightarrow> bwriteS ''#'' b | (Some p, b) \<Rightarrow> bwriteS (show p @ ''#'') b) t"
  using assms by (cases "site s b"; cases "fst (site s b)")
    (force simp: replies_def dest: site_out intro: framed_snoc)+

lemma distance_framed: "\<exists>t. framed t \<and> replies b (distance s b) t"
proof -
  obtain r b1 where r: "onDev (mountFn s) b = (r, b1)" by fastforce
  have "framed ''|#''" using framed_snoc [of "''|''"] by simp
  then show ?thesis
    using onDev_out [OF r] r
    by (cases r) (force simp: distance_def replies_def dest: onDev_out split: prod.splits)+
qed


lemma productName_out: "productName s b = (n, b') \<Longrightarrow> out b' = out b"
  by (auto simp: productName_def dest!: onDev_out split: prod.splits sum.splits option.splits if_splits)

lemma alignStatus_reply:
  assumes "alignStatus s b = (a, b')" "mountTyp s \<noteq> CHR ''#''"
  shows "out b' = out b \<and> CHR ''#'' \<notin> set a"
  using assms rune_no_hash [of "mountTyp s"]
  by (auto simp: alignStatus_def dest!: onDev_out split: prod.splits sum.splits if_splits)

lemma HasPrefix_clash: "HasPrefix cmd (x # p) \<Longrightarrow> x \<noteq> y \<Longrightarrow> \<not> HasPrefix cmd (y # q)"
  by (cases cmd) (auto simp: HasPrefix_Cons HasPrefix_def)

lemma dispatch_other_query:
  assumes "HasPrefix cmd ''G''" "cmd \<notin> {''GR'', ''GD'', ''GA'', ''GZ'', ''GVP'', ''GVN'', ''Gt'', ''Gg'', ''GG'', ''GL'', ''GC'', ''GW''}"
  shows "dispatch s cmd b = bwriteS ''#'' b"
proof -
  obtain r where cmd: "cmd = CHR ''G'' # r" using assms(1) by (cases cmd) (auto simp: HasPrefix_def)
  with assms(2) show ?thesis by (simp add: dispatch_def HasPrefix_def)
qed

text \<open>No name that the bridge passes on holds the delimiter: neither the configured identity nor the
  product name of the mount.\<close>

definition plain_names :: "'d server \<Rightarrow> 'd bridge \<Rightarrow> bool" where
  "plain_names s b = (mountTyp s \<noteq> CHR ''#'' \<and> CHR ''#'' \<notin> set (version s @ product s @ cachedProduct b)
     \<and> (\<forall>d m d' p e name e'. mountFn s d = (Inr m, d') \<longrightarrow> asProductizer m = Some p \<longrightarrow> p e = (Inr name, e') \<longrightarrow> CHR ''#'' \<notin> set name))"

lemma productName_plain:
  assumes "plain_names s b" "productName s b = (n, b')"
  shows "CHR ''#'' \<notin> set n"
  using assms unfolding plain_names_def productName_def onDev_def
  by (auto split: if_splits prod.splits sum.splits option.splits) blast+

lemma query_reply:
  assumes "HasPrefix cmd ''G'' \<or> cmd = ''D''" "plain_names s b"
  shows "\<exists>t. framed t \<and> replies b (dispatch s cmd b) t"
proof -
  have names: "mountTyp s \<noteq> CHR ''#''" "CHR ''#'' \<notin> set (version s)" using assms(2) by (simp_all add: plain_names_def)
  have ra: "CHR ''#'' \<notin> set (formatRA v)" and dec: "CHR ''#'' \<notin> set (formatDec v)" for v
    by (simp_all add: formatRA_def formatDec_def hms_no_hash dms_no_hash)
  obtain d b1 where off: "offset s b = (d, b1)" by fastforce
  obtain a b2 where al: "alignStatus s b = (a, b2)" by fastforce
  define A where "A = {''GR'', ''GD'', ''GA'', ''GZ''}"
  define B where "B = {''GG'', ''GL'', ''GC''}"
  define K where "K = {''GVP'', ''GVN'', ''Gt'', ''Gg'', ''GW''}"
  obtain n b3 where pn: "productName s b = (n, b3)" by fastforce
  consider "cmd = ''GVP''" | "cmd = ''D''" | "cmd \<in> A" | "cmd = ''GVN''" | "cmd = ''Gt''" | "cmd = ''Gg''"
    | "cmd \<in> B" | "cmd = ''GW''" | "HasPrefix cmd ''G''" "cmd \<notin> A" "cmd \<notin> B" "cmd \<notin> K"
    using assms(1) unfolding K_def insert_iff empty_iff by argo
  then show ?thesis
  proof cases
    case 1
    with pn productName_plain [OF assms(2) pn] productName_out [OF pn] show ?thesis
      by (intro exI [of _ "n @ ''#''"]) (simp add: dispatch_def replies_def framed_snoc)
  next
    case 2
    then show ?thesis using distance_framed [of b s] by (simp add: dispatch_def)
  next
    case 3
    then show ?thesis unfolding A_def by (elim insertE emptyE) (simp_all add: dispatch_def getCoord_framed ra dec)
  next
    case 4
    with names(2) show ?thesis
      by (intro exI [of _ "version s @ ''#''"]) (simp add: dispatch_def replies_def framed_snoc)
  next
    case 5
    with site_framed [of "\<lambda>p. meadeLat (fst p)" b s] show ?thesis
      by (cases "fst (site s b)") (auto simp: dispatch_def case_prod_beta)
  next
    case 6
    with site_framed [of "\<lambda>p. meadeLon (snd p)" b s] show ?thesis
      by (cases "fst (site s b)") (auto simp: dispatch_def case_prod_beta)
  next
    case 7
    then show ?thesis unfolding B_def
      using offset_out [OF off] off
      by (elim insertE emptyE) (auto simp: dispatch_def replies_def intro!: framed_snoc)
  next
    case 8
    then show ?thesis
      using alignStatus_reply [OF al names(1)] al by (auto simp: dispatch_def replies_def intro!: framed_snoc)
  next
    case 9
    then have "dispatch s cmd b = bwriteS ''#'' b"
      by (intro dispatch_other_query [OF 9(1)]) (simp add: A_def B_def K_def)
    then show ?thesis by (auto simp: replies_def)
  qed
qed

section \<open>Targets\<close>

lemma dispatch_Sr: "dispatch s (''Sr'' @ v) b = setTargetRA v b"
  by (simp add: dispatch_def HasPrefix_def)

lemma dispatch_Sd: "dispatch s (''Sd'' @ v) b = setTargetDec v b"
  by (simp add: dispatch_def HasPrefix_def)

lemma dispatch_MS: "dispatch s ''MS'' b = gotoTarget s b"
  by (simp add: dispatch_def HasPrefix_def)

lemma dispatch_CM: "dispatch s ''CM'' b = syncTarget s b"
  by (simp add: dispatch_def HasPrefix_def)


lemma upper_limit:
  assumes "0 \<le> c" "c \<le> 100"
  shows "is_fin (fadd (Fin c) f_1e9)" "c \<le> fval (fadd (Fin c) f_1e9)"
proof -
  have "near f_1e9 (1 / 1000000000) (2 powi (-29 - 53) + 0)"
    unfolding f_1e9_def by (rule near_rnd) (simp_all add: powi_neg_numeral)
  then have "near (fadd (Fin c) f_1e9) (c + 1 / 1000000000) (2 powi (7 - 53) + (0 + (2 powi (-29 - 53) + 0)))"
    using assms by (intro near_fadd near_exact) (simp_all add: powi_neg_numeral)
  note n = nearD [OF this]
  show "is_fin (fadd (Fin c) f_1e9)" by (rule n)
  have "2 powi (7 - 53) + (0 + (2 powi (-29 - 53) + 0)) \<le> (1 / 1000000000 :: rat)" by (simp add: powi_neg_numeral)
  with n(2) show "c \<le> fval (fadd (Fin c) f_1e9)" by linarith
qed

text \<open>The texts a client sends for a target inside the sky are accepted.\<close>

lemma target_RA_accepted:
  assumes "0 \<le> h" "h < 24" "0 \<le> m" "m < 60" "0 \<le> s" "s < 60"
  shows "\<exists>v. target_value (hms_text h m s) 0 24 = Some v \<and> FormatHMS v = hms_text h m s"
proof -
  obtain v where v: "ParseSexagesimal (hms_text h m s) = Inr v" "FormatHMS v = hms_text h m s"
    "near v (of_int (3600 * h + 60 * m + s) / 3600) (2 powi -40)" "0 \<le> fval v"
    using hms_survives [OF assms] by blast
  have "3600 * h + 60 * m + s \<le> 86399" using assms by simp
  then have "of_int (3600 * h + 60 * m + s) / 3600 \<le> (86399 / 3600 :: rat)"
    by (simp add: divide_right_mono del: of_int_add of_int_mult)
  moreover have "(2::rat) powi -40 < 1 / 3600" by (simp add: powi_neg_numeral)
  ultimately have "fval v < 24" using nearD(2) [OF v(3)] by linarith
  with upper_limit [of 24] v nearD(1) [OF v(3)] show ?thesis
    by (auto simp: target_value_def flt_def fle_def)
qed

lemma near_signed_less:
  assumes "near v (\<sigma> * x) e" "\<sigma> = 1 \<or> \<sigma> = -1" "0 \<le> x" "x + e < c"
  shows "\<bar>fval v\<bar> < c"
  using nearD(2) [OF assms(1)] assms(2-4) by (elim disjE) (simp only: mult_1_left mult_minus1; linarith)+

lemma target_Dec_accepted:
  assumes "0 \<le> d" "d < 90" "0 \<le> m" "m < 60" "0 \<le> s" "s < 60"
    "sign = CHR ''+'' \<or> sign = CHR ''-'' \<and> 0 < d + m + s"
  shows "\<exists>v. target_value (dms_text sign CHR ''*'' d m s) (- 90) 90 = Some v \<and> FormatDMS v CHR ''*'' = dms_text sign CHR ''*'' d m s"
proof -
  obtain v where v: "ParseSexagesimal (dms_text sign CHR ''*'' d m s) = Inr v" "FormatDMS v CHR ''*'' = dms_text sign CHR ''*'' d m s"
    "near v ((if sign = CHR ''-'' then -1 else 1) * (of_int (3600 * d + 60 * m + s) / 3600)) (2 powi -40)"
    using dms_survives [of d m s "CHR ''*''" sign] assms by (auto simp: field_sep_def is_digit_iff)
  have "3600 * d + 60 * m + s \<le> 323999" "0 \<le> 3600 * d + 60 * m + s" using assms by simp_all
  then have "of_int (3600 * d + 60 * m + s) / 3600 \<le> (323999 / 3600 :: rat)" "0 \<le> (of_int (3600 * d + 60 * m + s) / 3600 :: rat)"
    by (simp_all add: divide_right_mono del: of_int_add of_int_mult)
  moreover have "(2::rat) powi -40 < 1 / 3600" by (simp add: powi_neg_numeral)
  ultimately have x: "0 \<le> (of_int (3600 * d + 60 * m + s) / 3600 :: rat)"
    "of_int (3600 * d + 60 * m + s) / 3600 + 2 powi -40 < (90 :: rat)" by linarith+
  have "\<bar>fval v\<bar> < 90" by (rule near_signed_less [OF v(3) _ x]) simp
  then have "fval v < 90" "- 90 < fval v" by linarith+
  with upper_limit [of 90] v nearD(1) [OF v(3)] show ?thesis
    by (auto simp: target_value_def flt_def fle_def)
qed

text \<open>\<open>setDeviceTarget\<close> and the slew on a mount that accepts them.\<close>

definition slews :: "(string list \<Rightarrow> string) \<Rightarrow> bool" where
  "slews ans = (\<forall>h. (\<forall>t. ans (h @ ['':Sr'' @ t @ ''#'']) = ''1'' \<and> ans (h @ ['':Sd'' @ t @ ''#'']) = ''1'') \<and> ans (h @ ['':MS#'']) = ''0'')"

lemma connMount_sel [simp]:
  "mSetTargetRA (connMount a b c) = SetTargetRA" "mSetTargetDec (connMount a b c) = SetTargetDec"
  "mSlewToTarget (connMount a b c) = SlewToTarget" "mSyncToTarget (connMount a b c) = SyncToTarget"
  by (simp_all add: connMount_def)

lemma slewsD:
  assumes "slews ans"
  shows "ans (h @ ['':Sr'' @ t @ ''#'']) = ''1''" "ans (h @ ['':Sd'' @ t @ ''#'']) = ''1''" "ans (h @ ['':MS#'']) = ''0''"
  using assms unfolding slews_def by blast+

lemma stepsD: "steps d ans c cmds c' \<Longrightarrow> answering d ans c'" "steps d ans c cmds c' \<Longrightarrow> timeout c' = timeout c"
  by (simp_all add: steps_def)

lemma goto_steps:
  assumes dev: "answering d ans c" and ok: "slews ans" and time: "int d \<le> timeout c"
  shows "\<exists>c'. bindE (setDeviceTarget (connMount x y z) v w) (\<lambda>_. mSlewToTarget (connMount x y z)) c = (Inr (), c')
    \<and> steps d ans c ['':Sr'' @ FormatHMS v @ ''#'', '':Sd'' @ FormatDMS w CHR ''*'' @ ''#'', '':MS#''] c'"
proof -
  obtain c1 where c1: "SetTargetRA v c = (Inr True, c1)" "steps d ans c ['':Sr'' @ FormatHMS v @ ''#''] c1"
    using Ack_answered [OF dev slewsD(1) [OF ok] time] by (auto simp: SetTargetRA_def)
  have t1: "int d \<le> timeout c1" using time stepsD(2) [OF c1(2)] by simp
  obtain c2 where c2: "SetTargetDec w c1 = (Inr True, c2)" "steps d ans c1 ['':Sd'' @ FormatDMS w CHR ''*'' @ ''#''] c2"
    using Ack_answered [OF stepsD(1) [OF c1(2)] slewsD(2) [OF ok] t1] by (auto simp: SetTargetDec_def)
  have t2: "int d \<le> timeout c2" using t1 stepsD(2) [OF c2(2)] by simp
  obtain c3 where c3: "SlewToTarget c2 = (Inr (), c3)" "steps d ans c2 ['':MS#''] c3"
    using Slew_answered [OF stepsD(1) [OF c2(2)] slewsD(3) [OF ok] t2] by (auto simp: SlewToTarget_def)
  have "bindE (setDeviceTarget (connMount x y z) v w) (\<lambda>_. mSlewToTarget (connMount x y z)) c = (Inr (), c3)"
    using c1(1) c2(1) c3(1) by (simp add: setDeviceTarget_def bindE_def)
  with steps_trans [OF steps_trans [OF c1(2) c2(2)] c3(2)] show ?thesis by auto
qed

text \<open>A server for one connection that is up.\<close>

definition serve :: "'d mount \<Rightarrow> 'd server" where
  "serve m = newServer (\<lambda>d. (Inr m, d))"

lemma serve_sel [simp]: "mountFn (serve m) d = (Inr m, d)" "mountTyp (serve m) = CHR ''P''" "roSite (serve m) = False"
  by (simp_all add: serve_def newServer_def)


section \<open>Degrees and minutes\<close>

lemma fmod_pos:
  assumes "is_fin f" "0 < c"
  shows "is_fin (fmod f (Fin c))" "\<bar>fval (fmod f (Fin c))\<bar> < c"
    "\<exists>k. fval (fmod f (Fin c)) = fval f - of_int k * c"
proof -
  define q where "q = trunc_rat (fval f / c)"
  have v: "is_fin (fmod f (Fin c)) \<and> fval (fmod f (Fin c)) = fval f - of_int q * c"
    using assms by (cases f) (auto simp: fmod_def Let_def q_def signed_zero_def)
  then show "is_fin (fmod f (Fin c))" "\<exists>k. fval (fmod f (Fin c)) = fval f - of_int k * c" by blast+
  have "\<bar>fval f / c - of_int q\<bar> < 1"
  proof (cases "0 \<le> fval f / c")
    case True
    then have "q = \<lfloor>fval f / c\<rfloor>" by (simp add: q_def trunc_rat_def)
    then show ?thesis using of_int_floor_le [of "fval f / c"] rat_less_floor_add [of "fval f / c"] by linarith
  next
    case False
    then have "(of_int q :: rat) = - of_int \<lfloor>- (fval f / c)\<rfloor>" by (simp add: q_def trunc_rat_def)
    then show ?thesis using of_int_floor_le [of "- (fval f / c)"] rat_less_floor_add [of "- (fval f / c)"] by linarith
  qed
  then have "\<bar>(fval f / c - of_int q) * c\<bar> < c" using assms(2) by (simp add: abs_mult)
  also have "(fval f / c - of_int q) * c = fval f - of_int q * c" using assms(2) by (simp add: left_diff_distrib)
  finally show "\<bar>fval (fmod f (Fin c))\<bar> < c" using v by simp
qed

lemma flt_zero: "is_fin w \<Longrightarrow> flt w (Fin 0) = (fval w < 0)"
  by (cases w) (auto simp: flt_def)

lemma int_of_small:
  assumes "is_fin w" "0 \<le> fval w" "fval w \<le> 1000000"
  shows "int_of_f64 w = \<lfloor>fval w\<rfloor>"
proof -
  have "\<lfloor>fval w\<rfloor> \<le> 1000000" using assms(3) by (simp add: floor_le_iff)
  with assms show ?thesis by (simp add: int_of_f64_def trunc_rat_def)
qed

text \<open>The whole degrees and the rounded minutes of an angle fit together up to a carry.\<close>

lemma minutes_split:
  assumes w: "is_fin w" "0 \<le> fval w" "fval w \<le> 400"
  defines "d \<equiv> int_of_f64 w" and "r \<equiv> int_of_f64 (f_round (fmul w (Fin 60)))"
  shows "0 \<le> d" "of_int d \<le> fval w" "60 * d \<le> r" "r \<le> 60 * d + 60"
    "\<bar>of_int r - 60 * fval w\<bar> \<le> 1/2 + 1 / 2 ^ 38"
proof -
  have d: "d = \<lfloor>fval w\<rfloor>" unfolding d_def using w by (intro int_of_small) auto
  define y where "y = fmul w (Fin 60)"
  have "near w (fval w) 0" using w(1) by (simp add: near_def)
  then have "near y (fval w * 60) (2 powi (15 - 53) + 0 * \<bar>60\<bar>)"
    unfolding y_def by (rule near_fmul_const) (use w in simp_all)
  then have y: "is_fin y" "\<bar>fval y - fval w * 60\<bar> \<le> 1 / 2 ^ 38"
    by (auto dest: nearD simp: powi_neg_numeral)
  have eps: "(1::rat) / 2 ^ 38 \<le> 1 / 4" by simp
  have yy: "\<bar>fval y\<bar> \<le> 24001" using y(2) w eps by linarith
  have ra: "\<bar>of_int (round_away (fval y)) - fval y\<bar> \<le> 1/2" by (rule round_away_err)
  have "\<bar>of_int (round_away (fval y)) :: rat\<bar> \<le> 24002" using ra yy by linarith
  then have "\<bar>round_away (fval y)\<bar> \<le> 24002" by linarith
  then have r: "r = round_away (fval y)"
    unfolding r_def using f_round_fin [OF y(1)] by (intro int_of_f64_of_int) (auto simp: y_def)
  show close: "\<bar>of_int r - 60 * fval w\<bar> \<le> 1/2 + 1 / 2 ^ 38"
    unfolding r using ra y(2) by linarith
  show "0 \<le> d" "of_int d \<le> fval w" using w by (auto simp: d)
  have fl: "of_int d \<le> fval w" "fval w < of_int d + 1" unfolding d by (rule of_int_floor_le) (rule rat_less_floor_add)
  have c34: "\<bar>of_int r - 60 * fval w\<bar> \<le> 3/4" using close eps by linarith
  have "60 * of_int d - 1 < (of_int r :: rat)" using c34 fl by linarith
  then have "(of_int (60 * d - 1) :: rat) < of_int r" by simp
  then show "60 * d \<le> r" unfolding of_int_less_iff by simp
  have "(of_int r :: rat) < 60 * of_int d + 61" using c34 fl by linarith
  then have "(of_int r :: rat) < of_int (60 * d + 61)" by simp
  then show "r \<le> 60 * d + 60" unfolding of_int_less_iff by simp
qed

lemma wrap64_id: "- (2 ^ 63) \<le> n \<Longrightarrow> n < 2 ^ 63 \<Longrightarrow> wrap64 n = n"
  by (simp add: wrap64_def)

text \<open>The degrees and minutes after the carry.\<close>

lemma minutes_carry:
  assumes w: "is_fin w" "0 \<le> fval w" "fval w \<le> 400"
  defines "d \<equiv> int_of_f64 w" and "r \<equiv> int_of_f64 (f_round (fmul w (Fin 60)))"
  defines "mm \<equiv> wrap64 (r - wrap64 (d * 60))"
  shows "(if mm \<ge> 60 then (wrap64 (d + 1), mm - 60) else (d, mm)) = (r div 60, r mod 60)"
proof -
  note s = minutes_split [OF w, folded d_def r_def]
  have "(of_int d :: rat) \<le> of_int 400" using s(2) w(3) by simp
  then have "d \<le> 400" by (simp only: of_int_le_iff)
  with s have e: "wrap64 (d * 60) = d * 60" "wrap64 (d + 1) = d + 1" "mm = r - d * 60"
    by (simp_all add: wrap64_id mm_def)
  show ?thesis
  proof (cases "r = 60 * d + 60")
    case True
    then show ?thesis by (simp add: e)
  next
    case False
    with s(3,4) have "r div 60 = d" "r mod 60 = r - d * 60"
      by (intro int_div_pos_eq [of r 60 d "r - 60 * d"] int_mod_pos_eq [of r 60 d "r - d * 60"]; simp)+
    with False s show ?thesis by (simp add: e)
  qed
qed

lemma abs_combine:
  fixes r w t a b c :: rat
  assumes "\<bar>r - 60 * w\<bar> \<le> 1/2 + a" "\<bar>w - t\<bar> \<le> b" "a + 60 * b \<le> c"
  shows "\<bar>r - 60 * t\<bar> \<le> 1/2 + c"
  using assms by (simp only: abs_le_iff) linarith

lemma meadeLon_value:
  assumes "is_fin x"
  shows "\<exists>r k. meadeLon x = fmt_d 3 (r mod 21600 div 60) @ ''*'' @ fmt_d 2 (r mod 60)
    \<and> \<bar>of_int r - 60 * (of_int k * 360 - fval x)\<bar> \<le> 1/2 + 1 / 2 ^ 30"
proof -
  define w0 where "w0 = fmod (fneg x) (Fin 360)"
  have nx: "is_fin (fneg x)" "fval (fneg x) = - fval x" using assms by (cases x; simp)+
  obtain k where w0: "is_fin w0" "\<bar>fval w0\<bar> < 360" "fval w0 = - fval x - of_int k * 360"
    using fmod_pos [OF nx(1), of 360] nx(2) by (auto simp: w0_def)
  define w where "w = (if flt w0 (Fin 0) then fadd w0 (Fin 360) else w0)"
  obtain j where w: "is_fin w" "0 \<le> fval w" "\<bar>fval w - (of_int j * 360 - fval x)\<bar> \<le> 1 / 2 ^ 44" "fval w \<le> 360 + 1 / 2 ^ 44"
  proof (cases "flt w0 (Fin 0)")
    case False
    then have "0 \<le> fval w0" "w = w0" using w0(1) by (auto simp: flt_zero w_def)
    with w0 that [of "- k"] show thesis by (simp add: abs_less_iff)
  next
    case True
    then have neg: "fval w0 < 0" and ww: "w = fadd w0 (Fin 360)" using w0(1) by (auto simp: flt_zero w_def)
    have "near w0 (fval w0) 0" using w0(1) by (simp add: near_def)
    moreover have "\<bar>fval w0 + 360\<bar> \<le> 512" using neg w0(2) by linarith
    ultimately have n: "near w (fval w0 + 360) (2 powi (9 - 53) + (0 + 0))"
      unfolding ww by (intro near_fadd near_exact) simp_all
    have "w = rnd (fval w0 + 360)" unfolding ww using fadd_fin [OF w0(1)] by simp
    then have "0 \<le> fval w" using w0(2) by (simp add: fval_rnd_nonneg abs_less_iff)
    moreover have "2 powi (9 - 53) + (0 + 0) = (1::rat) / 2 ^ 44" by (simp add: powi_neg_numeral)
    note n44 = nearD [OF n, unfolded this]
    have sh: "of_int (1 - k) * 360 - fval x = fval w0 + 360" using w0(3) by (simp add: left_diff_distrib)
    have "fval w \<le> 360 + 1 / 2 ^ 44" using n44(2) neg by linarith
    ultimately show thesis using n44 by (intro that [of "1 - k"]) (simp_all only: sh)
  qed
  define r where "r = int_of_f64 (f_round (fmul w (Fin 60)))"
  have w400: "fval w \<le> 400" using w(4) by (rule order_trans) simp
  note s = minutes_split [OF w(1,2) w400, folded r_def]
  have eps: "(1::rat) / 2 ^ 38 \<le> 1 / 8" "(1::rat) / 2 ^ 44 \<le> 1 / 1000" "1 / 2 ^ 38 + 60 * (1 / 2 ^ 44) \<le> (1::rat) / 2 ^ 30"
    by simp_all
  have "(of_int r :: rat) < 21601" using s(5) w(4) eps by linarith
  then have r: "0 \<le> r" "r \<le> 21600" using s(1,3) by simp_all
  have "meadeLon x = fmt_d 3 (if r div 60 \<ge> 360 then r div 60 - 360 else r div 60) @ ''*'' @ fmt_d 2 (r mod 60)"
    unfolding meadeLon_def Let_def w0_def [symmetric] w_def [symmetric] r_def [symmetric]
    using minutes_carry [OF w(1,2) w400, folded r_def] by simp
  also have "(if r div 60 \<ge> 360 then r div 60 - 360 else r div 60) = r mod 21600 div 60"
    using r by (cases "r = 21600") auto
  finally have "meadeLon x = fmt_d 3 (r mod 21600 div 60) @ ''*'' @ fmt_d 2 (r mod 60)" .
  moreover have "\<bar>of_int r - 60 * (of_int j * 360 - fval x)\<bar> \<le> 1/2 + 1 / 2 ^ 30"
    by (rule abs_combine [OF s(5) w(3) eps(3)])
  ultimately show ?thesis by blast
qed


lemma meadeLat_value:
  assumes "is_fin x" "\<bar>fval x\<bar> \<le> 90"
  shows "\<exists>r. meadeLat x = [if fval x < 0 then CHR ''-'' else CHR ''+''] @ fmt_d 2 (r div 60) @ ''*'' @ fmt_d 2 (r mod 60)
    \<and> 0 \<le> r \<and> r \<le> 5400 \<and> \<bar>of_int r - 60 * \<bar>fval x\<bar>\<bar> \<le> 1/2 + 1 / 2 ^ 38"
proof -
  define w where "w = (if fval x < 0 then fneg x else x)"
  have w: "is_fin w" "fval w = \<bar>fval x\<bar>" using assms(1) by (cases x; auto simp: w_def)+
  define r where "r = int_of_f64 (f_round (fmul w (Fin 60)))"
  have w400: "0 \<le> fval w" "fval w \<le> 400" using w assms(2) by auto
  note s = minutes_split [OF w(1) w400, folded r_def]
  have "(1::rat) / 2 ^ 38 \<le> 1 / 8" by simp
  with s(5) assms(2) w(2) have "(of_int r :: rat) < 5401" by linarith
  then have r: "0 \<le> r" "r \<le> 5400" using s(1,3) by simp_all
  have "meadeLat x = [if fval x < 0 then CHR ''-'' else CHR ''+''] @ fmt_d 2 (r div 60) @ ''*'' @ fmt_d 2 (r mod 60)"
  proof -
    have sg: "(if flt x (Fin 0) then (CHR ''-'', fneg x) else (CHR ''+'', x)) = (if fval x < 0 then CHR ''-'' else CHR ''+'', w)"
      by (simp add: flt_zero [OF assms(1)] w_def)
    from minutes_carry [OF w(1) w400, folded r_def] show ?thesis
      unfolding meadeLat_def Let_def sg prod.case r_def [symmetric] by simp
  qed
  with r s(5) w(2) show ?thesis by auto
qed

text \<open>A server whose mount is not connected.\<close>

abbreviation down_server :: "unit server" where
  "down_server \<equiv> newServer (\<lambda>d. (Inl ErrTimeout, d))"

section \<open>Properties of the bridge\<close>

text \<open>A target and a slew, in one go, on whatever mount is behind the server.\<close>

lemma goto_request:
  assumes "target_value R 0 24 = Some v" "target_value E (- 90) 90 = Some w" "CHR ''#'' \<notin> set R" "CHR ''#'' \<notin> set E"
    "bindE (setDeviceTarget m v w) (\<lambda>_. mSlewToTarget m) (dev b) = (r, d)"
  shows "\<exists>b'. handle (serve m) ('':Sr'' @ R @ ''#:Sd'' @ E @ ''#:MS#'') b = b' \<and> dev b' = d
    \<and> out b' = out b @ ''11'' @ (case r of Inl e \<Rightarrow> ''1'' @ oneLine (err_text e) @ ''#'' | Inr _ \<Rightarrow> ''0'')"
proof -
  let ?s = "serve m"
  define b1 where "b1 = bwriteS ''1'' (b\<lparr>st := (st b)\<lparr>tgtRA := v, haveRA := True\<rparr>\<rparr>)"
  define b2 where "b2 = bwriteS ''1'' (b1\<lparr>st := (st b1)\<lparr>tgtDec := w, haveDec := True\<rparr>\<rparr>)"
  have hash: "CHR ''#'' \<notin> set (''Sr'' @ R)" "CHR ''#'' \<notin> set (''Sd'' @ E)" "CHR ''#'' \<notin> set ''MS''"
    using assms(3,4) by simp_all
  have "handle ?s ('':Sr'' @ R @ ''#:Sd'' @ E @ ''#:MS#'') b
      = handle ?s (CHR '':'' # (''Sr'' @ R) @ CHR ''#'' # CHR '':'' # (''Sd'' @ E) @ CHR ''#'' # CHR '':'' # ''MS'' @ CHR ''#'' # []) b"
    by simp
  also have "\<dots> = gotoTarget ?s b2"
    unfolding handle_frame [OF hash(1)] handle_frame [OF hash(2)] handle_frame [OF hash(3)]
    by (simp only: handle_Nil dispatch_Sr dispatch_Sd dispatch_MS setTargetRA_def setTargetDec_def assms(1,2) option.case b1_def b2_def)
  finally have run: "handle ?s ('':Sr'' @ R @ ''#:Sd'' @ E @ ''#:MS#'') b = gotoTarget ?s b2" .
  have "dev b2 = dev b" "tgtRA (st b2) = v" "tgtDec (st b2) = w" "haveRA (st b2)" "haveDec (st b2)" "out b2 = out b @ ''11''"
    by (simp_all add: b2_def b1_def bwriteS_def)
  with assms(5) show ?thesis
    unfolding run by (cases r) (auto simp: gotoTarget_def onDev_def bwriteS_def)
qed

lemma goto_from_text:
  assumes ra: "0 \<le> h" "h < 24" "0 \<le> m" "m < 60" "0 \<le> s" "s < 60"
    and dec: "0 \<le> D" "D < 90" "0 \<le> M" "M < 60" "0 \<le> S" "S < 60"
      "sign = CHR ''+'' \<or> sign = CHR ''-'' \<and> 0 < D + M + S"
    and dev: "answering d ans (dev b)" "slews ans" "int d \<le> timeout (dev b)"
  defines "R \<equiv> hms_text h m s" and "E \<equiv> dms_text sign CHR ''*'' D M S"
  shows "\<exists>b'. handle (serve (connMount x y z)) ('':Sr'' @ R @ ''#:Sd'' @ E @ ''#:MS#'') b = b'
    \<and> out b' = out b @ ''110'' \<and> sent (dev b') = sent (dev b) @ ['':Sr'' @ R @ ''#'', '':Sd'' @ E @ ''#'', '':MS#'']"
proof -
  obtain v where v: "target_value R 0 24 = Some v" "FormatHMS v = R"
    using target_RA_accepted [OF ra] by (auto simp: R_def)
  obtain w where w: "target_value E (- 90) 90 = Some w" "FormatDMS w CHR ''*'' = E"
    using target_Dec_accepted [OF dec] by (auto simp: E_def)
  have hash: "CHR ''#'' \<notin> set R" "CHR ''#'' \<notin> set E"
    using hms_no_hash [of v] dms_no_hash [of "CHR ''*''" w] v(2) w(2) by simp_all
  obtain c' where c': "bindE (setDeviceTarget (connMount x y z) v w) (\<lambda>_. mSlewToTarget (connMount x y z)) (dev b) = (Inr (), c')"
    "steps d ans (dev b) ['':Sr'' @ FormatHMS v @ ''#'', '':Sd'' @ FormatDMS w CHR ''*'' @ ''#'', '':MS#''] c'"
    using goto_steps [OF dev] by blast
  from goto_request [OF v(1) w(1) hash c'(1)] c'(2) v(2) w(2) show ?thesis by (auto simp: steps_def)
qed


text \<open>C1: what a client asks for is what the mount is told. The texts of a right ascension
  and a declination that a client sends with \<open>:Sr\<close> and \<open>:Sd\<close>, followed by \<open>:MS#\<close>, reach a
  mount on a command connection unchanged and in that order, and nothing else is sent to
  it; the client reads \<open>110\<close>.\<close>

theorem goto_end_to_end:
  assumes ra: "0 \<le> h" "h < 24" "0 \<le> m" "m < 60" "0 \<le> s" "s < 60"
    and dec: "0 \<le> D" "D < 90" "0 \<le> M" "M < 60" "0 \<le> S" "S < 60"
      "sign = CHR ''+'' \<or> sign = CHR ''-'' \<and> 0 < D + M + S"
    and dev: "answering d ans (dev b)" "slews ans" "int d \<le> timeout (dev b)"
  defines "R \<equiv> hms_text h m s" and "E \<equiv> dms_text sign CHR ''*'' D M S"
  shows "\<exists>b'. handle (serve (connMount x y z)) ('':Sr'' @ R @ ''#:Sd'' @ E @ ''#:MS#'') b = b'
    \<and> out b' = out b @ ''110'' \<and> sent (dev b') = sent (dev b) @ ['':Sr'' @ R @ ''#'', '':Sd'' @ E @ ''#'', '':MS#'']"
  unfolding R_def E_def by (rule goto_from_text [OF ra dec dev])

text \<open>A mount that accepts every target and every slew.\<close>

definition obedient :: "string list \<Rightarrow> string" where
  "obedient h = (if last h = '':MS#'' then ''0'' else ''1'')"

lemma obedient_slews: "slews obedient"
  by (simp add: slews_def obedient_def)

theorem goto_end_to_end_witness:
  "\<exists>b'. handle (serve (connMount (okE False) (okE True) (\<lambda>_. okE ()))) ('':Sr'' @ hms_text 5 34 32 @ ''#:Sd'' @ dms_text CHR ''-'' CHR ''*'' 5 23 28 @ ''#:MS#'')
      (newBridge (mount_conn 1000000 obedient) 0) = b' \<and> out b' = ''110''
    \<and> sent (dev b') = ['':Sr'' @ hms_text 5 34 32 @ ''#'', '':Sd'' @ dms_text CHR ''-'' CHR ''*'' 5 23 28 @ ''#'', '':MS#'']"
  using goto_end_to_end [of 5 34 32 5 23 28 "CHR ''-''" 1000000 obedient "newBridge (mount_conn 1000000 obedient) 0" "okE False" "okE True" "\<lambda>_. okE ()"]
  by (simp add: newBridge_def obedient_slews)

text \<open>C20: every query, any command that begins with \<open>G\<close>, known or not, and \<open>:D#\<close>, is answered by exactly one
  frame, whatever the mount reports and however it fails. The names that are passed on as they are, the
  configured identity and the product name of the mount, must not hold the delimiter themselves
  (\<open>plain_names\<close>).\<close>

theorem query_one_frame:
  assumes "HasPrefix cmd ''G'' \<or> cmd = ''D''" "plain_names s b"
  shows "\<exists>t. out (dispatch s cmd b) = out b @ t @ ''#'' \<and> CHR ''#'' \<notin> set t"
  using query_reply [OF assms] by (auto simp: framed_def replies_def)

theorem query_one_frame_witness:
  "\<exists>t. out (dispatch down_server ''GVP'' (newBridge () 0)) = t @ ''#'' \<and> CHR ''#'' \<notin> set t"
proof -
  have "plain_names down_server (newBridge () 0)" by (simp add: plain_names_def newServer_def newBridge_def)
  from query_one_frame [OF _ this, of "''GVP''"] show ?thesis by (simp add: HasPrefix_def newBridge_def)
qed

text \<open>Commands are executed in the order they arrive, with stray bytes between them
  ignored, and an unfinished command at the end has no effect.\<close>

theorem handle_sequence:
  assumes "\<forall>(j, cmd)\<in>set fs. (\<forall>c\<in>set j. c \<noteq> CHR 0x06 \<and> c \<noteq> CHR '':'') \<and> CHR ''#'' \<notin> set cmd"
    "CHR ''#'' \<notin> set tail"
  shows "handle s (concat (map (\<lambda>(j, cmd). j @ '':'' @ cmd @ ''#'') fs) @ '':'' @ tail) b
    = foldl (\<lambda>b (j, cmd). dispatch s cmd b) b fs"
proof -
  have "handle s ('':'' @ tail) b' = b'" for b'
    using assms(2) by (subst handle.simps) simp
  then show ?thesis by (simp only: handle_frames [OF assms(1)])
qed

theorem handle_sequence_witness:
  "handle down_server ([CHR 0x0A] @ '':Q#'' @ '':M'') (newBridge () 0) = dispatch down_server ''Q'' (newBridge () 0)"
  using handle_sequence [of "[([CHR 0x0A], ''Q'')]" "''M''" down_server "newBridge () 0"] by simp

text \<open>C23: a server that protects the site answers site and clock settings without touching
  the mount, its caches or the buffered clock.\<close>

theorem read_only_site:
  assumes "roSite s" "HasPrefix cmd ''St'' \<or> HasPrefix cmd ''Sg'' \<or> HasPrefix cmd ''SG'' \<or> HasPrefix cmd ''SL'' \<or> HasPrefix cmd ''SC''"
  shows "\<exists>t. dispatch s cmd b = b\<lparr>out := out b @ t\<rparr> \<and> (t = ''0'' \<or> hd t = CHR ''1'')"
proof -
  have w: "bwriteS t b = b\<lparr>out := out b @ t\<rparr>" for t by (simp add: bwriteS_def)
  have s: "\<exists>t. f b = b\<lparr>out := out b @ t\<rparr> \<and> (t = ''0'' \<or> hd t = CHR ''1'')"
    if "f b = bwriteS ''0'' b \<or> (\<exists>u. f b = bwriteS (CHR ''1'' # u) b)" for f :: "'a bridge \<Rightarrow> 'a bridge"
    using that by (auto simp: w)
  from assms(2) show ?thesis
  proof (elim disjE HasPrefixE)
    fix v assume "cmd = ''St'' @ v"
    then have "dispatch s cmd b = setLatitude s v b" by (simp add: dispatch_def HasPrefix_def)
    with assms(1) show ?thesis by (auto simp: setLatitude_def w split: sum.splits)
  next
    fix v assume "cmd = ''Sg'' @ v"
    then have "dispatch s cmd b = setLongitude s v b" by (simp add: dispatch_def HasPrefix_def)
    with assms(1) show ?thesis by (auto simp: setLongitude_def w split: sum.splits)
  next
    fix v assume "cmd = ''SG'' @ v"
    then have "dispatch s cmd b = setUTCOffset s v b" by (simp add: dispatch_def HasPrefix_def)
    with assms(1) show ?thesis by (auto simp: setUTCOffset_def w split: sum.splits)
  next
    fix v assume "cmd = ''SL'' @ v"
    then have "dispatch s cmd b = setLocalTime s v b" by (simp add: dispatch_def HasPrefix_def)
    with assms(1) show ?thesis by (auto simp: setLocalTime_def w split: sum.splits)
  next
    fix v assume "cmd = ''SC'' @ v"
    then have "dispatch s cmd b = setCalendarDate s v b" by (simp add: dispatch_def HasPrefix_def)
    with assms(1) show ?thesis
      by (intro exI [of _ "if Parse_date (TrimSpace v) = None then ''0'' else ''1Updating Planetary Data#                              #''"])
         (auto simp: setCalendarDate_def w split: option.splits)
  qed
qed

theorem read_only_site_witness:
  "\<exists>t. dispatch (WithReadOnlySite (down_server)) ''SL12:00:00'' (newBridge () 0) = (newBridge () 0)\<lparr>out := t\<rparr>
     \<and> (t = ''0'' \<or> hd t = CHR ''1'')"
  using read_only_site [of "WithReadOnlySite (down_server)" "''SL12:00:00''" "newBridge () 0"]
  by (simp add: WithReadOnlySite_def newServer_def HasPrefix_def newBridge_def)

text \<open>A target the server refuses also cancels an earlier one: a slew or a sync after it
  is refused and the mount is not touched.\<close>

theorem refused_target_blocks:
  assumes "target_value v 0 24 = None" "CHR ''#'' \<notin> set v" "cmd = ''MS'' \<or> cmd = ''CM''"
  shows "handle s ('':Sr'' @ v @ ''#:'' @ cmd @ ''#'') b = b\<lparr>st := (st b)\<lparr>haveRA := False\<rparr>,
      out := out b @ ''0'' @ (if cmd = ''MS'' then ''1'' else []) @ ''No target set#''\<rparr>"
proof -
  let ?b = "bwriteS ''0'' (b\<lparr>st := (st b)\<lparr>haveRA := False\<rparr>\<rparr>)"
  have hash: "CHR ''#'' \<notin> set (''Sr'' @ v)" "CHR ''#'' \<notin> set cmd" using assms(2,3) by auto
  have "handle s ('':Sr'' @ v @ ''#:'' @ cmd @ ''#'') b
      = handle s (CHR '':'' # (''Sr'' @ v) @ CHR ''#'' # CHR '':'' # cmd @ CHR ''#'' # []) b" by simp
  also have "\<dots> = dispatch s cmd ?b"
    unfolding handle_frame [OF hash(1)] handle_frame [OF hash(2)] dispatch_Sr
    by (simp add: setTargetRA_def assms(1))
  finally show ?thesis
    using assms(3) by (auto simp: dispatch_MS dispatch_CM gotoTarget_def syncTarget_def bwriteS_def)
qed

theorem refused_target_blocks_witness:
  "handle down_server '':Sr#:MS#'' (newBridge () 0) = (newBridge () 0)\<lparr>st := connState0\<lparr>haveRA := False\<rparr>, out := ''01No target set#''\<rparr>"
proof -
  have "TrimSpace [] = []" by (simp add: TrimSpace_def trim_left_id)
  then have "target_value [] 0 24 = None"
    by (simp add: target_value_def ParseSexagesimal_def TrimSuffix_def HasSuffix_def TrimPrefix_def HasPrefix_def)
  from refused_target_blocks [OF this, of "''MS''" down_server "newBridge () 0"] show ?thesis by (simp add: newBridge_def)
qed

text \<open>The site readings are well-formed and right: for a finite longitude \<open>:Gg#\<close> prints a
  West-positive whole number of minutes reduced to \<open>000*00\<close> .. \<open>359*59\<close> that is within half
  a minute of the longitude modulo a full turn.\<close>

theorem meadeLon_correct:
  assumes "is_fin x"
  shows "\<exists>d m k. meadeLon x = fmt_d 3 d @ ''*'' @ fmt_d 2 m \<and> 0 \<le> d \<and> d < 360 \<and> 0 \<le> m \<and> m < 60
    \<and> \<bar>of_int (60 * d + m) - 60 * (of_int k * 360 - fval x)\<bar> \<le> 1/2 + 1 / 2 ^ 30"
proof -
  obtain r k where r: "meadeLon x = fmt_d 3 (r mod 21600 div 60) @ ''*'' @ fmt_d 2 (r mod 60)"
    "\<bar>of_int r - 60 * (of_int k * 360 - fval x)\<bar> \<le> 1/2 + 1 / 2 ^ 30"
    using meadeLon_value [OF assms] by blast
  have "r mod 21600 mod 60 = r mod 60" by (simp add: mod_mod_cancel)
  then have "60 * (r mod 21600 div 60) + r mod 60 = r - 21600 * (r div 21600)"
    by (metis minus_mult_div_eq_mod mult_div_mod_eq)
  then have "(of_int (60 * (r mod 21600 div 60) + r mod 60) :: rat) = of_int r - 21600 * of_int (r div 21600)"
    by simp
  then have "of_int (60 * (r mod 21600 div 60) + r mod 60) - 60 * (of_int (k - r div 21600) * 360 - fval x)
      = of_int r - 60 * (of_int k * 360 - fval x)"
    by (simp add: algebra_simps)
  with r(2) have "\<bar>of_int (60 * (r mod 21600 div 60) + r mod 60) - 60 * (of_int (k - r div 21600) * 360 - fval x)\<bar> \<le> 1/2 + 1 / 2 ^ 30"
    by (simp only:)
  moreover have "0 \<le> r mod 21600 div 60" "r mod 21600 div 60 < 360" "0 \<le> r mod 60" "r mod 60 < 60"
    by (simp_all add: pos_imp_zdiv_nonneg_iff div_less_iff_less_mult)
  ultimately show ?thesis using r(1) by blast
qed

theorem meadeLon_correct_witness:
  "\<exists>d m. meadeLon (Fin (-1/4)) = fmt_d 3 d @ ''*'' @ fmt_d 2 m \<and> d < 360 \<and> m < 60"
  using meadeLon_correct [of "Fin (-1/4)"] by auto


lemma dispatch_clock:
  "dispatch s (''SG'' @ v) b = setUTCOffset s v b" "dispatch s (''SL'' @ v) b = setLocalTime s v b"
  "dispatch s (''SC'' @ v) b = setCalendarDate s v b"
  by (simp_all add: dispatch_def HasPrefix_def)

text \<open>A mount that records the instants it is set to.\<close>

definition clock_mount :: "int list mount" where
  "clock_mount = \<lparr>mRA = okE (Fin 0), mDec = okE (Fin 0), mSetTargetRA = (\<lambda>_. okE True), mSetTargetDec = (\<lambda>_. okE True),
     mSlewToTarget = okE (), mSyncToTarget = okE [], mHalt = okE (), mSlewing = okE False, mTracking = okE True,
     mSetTracking = (\<lambda>_. okE ()), asHorizontal = None, asProductizer = None, asSiteSetter = None, asSiteReader = None,
     asClock = Some (\<lambda>t. modE (\<lambda>ts. ts @ [t])), asUTCOffsetReader = None, asUTCOffsetSetter = None,
     asMover = None, asRater = None, asOpLocker = False\<rparr>"

lemma sample_times:
  "\<exists>g. ParseSexagesimal (hms_text 5 0 0) = Inr g" "\<exists>l. ParseSexagesimal (hms_text 20 30 0) = Inr l"
  "Parse_date (TrimSpace ''07/04/26'') = Some (DateUTC 2026 7 4)"
proof -
  show "\<exists>g. ParseSexagesimal (hms_text 5 0 0) = Inr g" "\<exists>l. ParseSexagesimal (hms_text 20 30 0) = Inr l"
    using hms_survives [of 5 0 0] hms_survives [of 20 30 0] by auto
  have "TrimSpace ''07/04/26'' = ''07/04/26''" by (rule TrimSpace_plain) (simp_all add: plain_char_def)
  then show "Parse_date (TrimSpace ''07/04/26'') = Some (DateUTC 2026 7 4)"
    by (simp add: Parse_date_def two_digits_def year_field_def is_digit_def digits_val_def digit_val_def daysIn_def)
qed

text \<open>With the offset sent last, the clock is set from the date and the time with the
  offset known before, not with the one the client sends.\<close>

theorem clock_set_before_offset:
  assumes "asClock m = Some f" "asUTCOffsetSetter m = None" "\<not> haveSL (st b)" "\<not> haveSG (st b)" "haveOff b"
    "ParseSexagesimal g = Inr g'" "ParseSexagesimal l = Inr l'" "Parse_date (TrimSpace c) = Some d"
  shows "dev (foldl (\<lambda>b cmd. dispatch (serve m) cmd b) b [''SC'' @ c, ''SL'' @ l, ''SG'' @ g])
      = snd (f (d + hours_dur l' + utcOff b) (dev b))"
  using assms
  by (auto simp: dispatch_clock setUTCOffset_def setLocalTime_def setCalendarDate_def tryApplyTime_def offset_def
      bwriteS_def onDev_def Let_def simp del: append.simps split: prod.splits)

theorem clock_set_before_offset_witness:
  "\<exists>t. dev (foldl (\<lambda>b cmd. dispatch (serve clock_mount) cmd b) ((newBridge [] 0)\<lparr>haveOff := True\<rparr>)
      [''SC'' @ ''07/04/26'', ''SL'' @ hms_text 20 30 0, ''SG'' @ hms_text 5 0 0]) = [t]"
proof -
  obtain g l where p: "ParseSexagesimal (hms_text 5 0 0) = Inr g" "ParseSexagesimal (hms_text 20 30 0) = Inr l"
    using sample_times by blast
  from clock_set_before_offset [OF _ _ _ _ _ p sample_times(3), of clock_mount _ "(newBridge [] 0)\<lparr>haveOff := True\<rparr>"]
  show ?thesis by (simp add: clock_mount_def newBridge_def connState0_def)
qed

text \<open>The refusal of a slew on a mount that is not connected repeats the error text as it
  is: with a hash in it the client sees a frame that ends early.\<close>

theorem not_connected_reply:
  assumes "haveRA (st b)" "haveDec (st b)" "mountFn s (dev b) = (Inl e, d)"
  shows "out (dispatch s ''MS'' b) = out b @ ''1'' @ err_text e @ ''#''
    \<and> (framed (''1'' @ err_text e @ ''#'') \<longleftrightarrow> CHR ''#'' \<notin> set (err_text e))"
  using assms by (auto simp: dispatch_MS gotoTarget_def onDev_def framed_def)

theorem not_connected_reply_witness:
  "\<not> framed (''1'' @ err_text (ErrNew ''no reply to :GVP#'') @ ''#'')
   \<and> out (dispatch (newServer (\<lambda>d. (Inl (ErrNew ''no reply to :GVP#''), d))) ''MS''
       ((newBridge () 0)\<lparr>st := connState0\<lparr>haveRA := True, haveDec := True\<rparr>\<rparr>)) = ''1no reply to :GVP##''"
  using not_connected_reply [of "(newBridge () 0)\<lparr>st := connState0\<lparr>haveRA := True, haveDec := True\<rparr>\<rparr>"
      "newServer (\<lambda>d. (Inl (ErrNew ''no reply to :GVP#''), d))" "ErrNew ''no reply to :GVP#''" "()"]
  by (simp add: newServer_def newBridge_def)

end
