(* ===== verification/OpLock.thy ===== *)
theory OpLock
  imports Bridge
begin

text \<open>
  Operations of several front ends on one mount (src/lx200.go: \<open>OpLock\<close>; src/bridge/bridge.go:
  \<open>withOp\<close>, \<open>setDeviceTarget\<close>, \<open>gotoTarget\<close>, \<open>syncTarget\<close>). Single commands are serialized by the
  connection and interleave freely; \<open>op_step\<close> is one command, or one lock operation, of one
  client. The step relation has the lock as a switch, as \<open>withOp\<close> has: with it every slew and
  every sync uses its own client's target; without it there is a run in which it does not.
\<close>

datatype act = Goto | SyncTo

text \<open>What a client still has to do: the operation and its target. The lock, if there is
  one, is held from \<open>SetRA\<close> to \<open>Done\<close>.\<close>

datatype stage =
    Idle
  | Waiting act f64 f64
  | SetRA act f64 f64
  | SetDec act f64 f64
  | Act act f64 f64
  | Done

record 'c opstate =
  holder :: "'c option"
  stage :: "'c \<Rightarrow> stage"
  cmds :: "string list"
  events :: "('c \<times> act \<times> (string \<times> string) \<times> (string option \<times> string option)) list"

definition op_init :: "'c opstate" where
  "op_init = \<lparr>holder = None, stage = (\<lambda>_. Idle), cmds = [], events = []\<rparr>"

definition ra_cmd :: "f64 \<Rightarrow> string" where "ra_cmd v = '':Sr'' @ FormatHMS v @ ''#''"
definition dec_cmd :: "f64 \<Rightarrow> string" where "dec_cmd w = '':Sd'' @ FormatDMS w CHR ''*'' @ ''#''"

fun act_cmd :: "act \<Rightarrow> string" where
  "act_cmd Goto = '':MS#''"
| "act_cmd SyncTo = '':CM#''"

text \<open>
  A step of client \<open>c\<close>. A refused or failed command ends the operation (\<open>abort\<close>), and the
  deferred unlock runs. \<open>poll\<close> is any other command: it leaves the registers alone.
\<close>

inductive op_step :: "bool \<Rightarrow> 'c opstate \<Rightarrow> 'c opstate \<Rightarrow> bool" for locking :: bool where
  request: "stage s c = Idle \<Longrightarrow> op_step locking s (s\<lparr>stage := (stage s)(c := Waiting a v w)\<rparr>)"
| acquire: "stage s c = Waiting a v w \<Longrightarrow> (locking \<longrightarrow> holder s = None) \<Longrightarrow>
    op_step locking s (s\<lparr>holder := (if locking then Some c else holder s), stage := (stage s)(c := SetRA a v w)\<rparr>)"
| set_ra: "stage s c = SetRA a v w \<Longrightarrow>
    op_step locking s (s\<lparr>stage := (stage s)(c := SetDec a v w), cmds := cmds s @ [ra_cmd v]\<rparr>)"
| set_dec: "stage s c = SetDec a v w \<Longrightarrow>
    op_step locking s (s\<lparr>stage := (stage s)(c := Act a v w), cmds := cmds s @ [dec_cmd w]\<rparr>)"
| act: "stage s c = Act a v w \<Longrightarrow>
    op_step locking s (s\<lparr>stage := (stage s)(c := Done), cmds := cmds s @ [act_cmd a],
      events := events s @ [(c, a, (FormatHMS v, FormatDMS w CHR ''*''),
        (regRA (registers_of (cmds s)), regDec (registers_of (cmds s))))]\<rparr>)"
| abort: "stage s c \<in> {SetRA a v w, SetDec a v w, Act a v w} \<Longrightarrow>
    op_step locking s (s\<lparr>stage := (stage s)(c := Done)\<rparr>)"
| release: "stage s c = Done \<Longrightarrow>
    op_step locking s (s\<lparr>holder := (if locking then None else holder s), stage := (stage s)(c := Idle)\<rparr>)"
| poll: "\<not> HasPrefix cmd '':Sr'' \<Longrightarrow> \<not> HasPrefix cmd '':Sd'' \<Longrightarrow> cmd \<noteq> '':MS#'' \<Longrightarrow>
    op_step locking s (s\<lparr>cmds := cmds s @ [cmd]\<rparr>)"

inductive_cases op_stepE: "op_step locking s t"

inductive op_reach :: "bool \<Rightarrow> 'c opstate \<Rightarrow> bool" for locking :: bool where
  start: "op_reach locking op_init"
| next_step: "op_reach locking s \<Longrightarrow> op_step locking s t \<Longrightarrow> op_reach locking t"

section \<open>The invariant\<close>

fun inside :: "stage \<Rightarrow> bool" where
  "inside Idle = False"
| "inside (Waiting a v w) = False"
| "inside _ = True"

text \<open>Only the holder is inside, and the registers hold what it has set so far.\<close>

fun registers_ok :: "stage \<Rightarrow> registers \<Rightarrow> bool" where
  "registers_ok (SetDec a v w) g = (regRA g = Some (FormatHMS v))"
| "registers_ok (Act a v w) g = (regRA g = Some (FormatHMS v) \<and> regDec g = Some (FormatDMS w CHR ''*''))"
| "registers_ok _ g = True"

definition op_inv :: "'c opstate \<Rightarrow> bool" where
  "op_inv s = ((\<forall>c. inside (stage s c) \<longrightarrow> holder s = Some c)
     \<and> (\<forall>c. registers_ok (stage s c) (registers_of (cmds s)))
     \<and> (\<forall>(c, a, (r, d), (gr, gd))\<in>set (events s). gr = Some r \<and> gd = Some d))"

lemma registers_ra [simp]: "registers_of (h @ [ra_cmd v]) = (registers_of h)\<lparr>regRA := Some (FormatHMS v)\<rparr>"
  by (simp add: obey_def HasPrefix_def ra_cmd_def)

lemma registers_dec [simp]: "registers_of (h @ [dec_cmd w]) = (registers_of h)\<lparr>regDec := Some (FormatDMS w CHR ''*'')\<rparr>"
  by (simp add: obey_def HasPrefix_def dec_cmd_def)

lemma registers_act [simp]: "regRA (registers_of (h @ [act_cmd a])) = regRA (registers_of h)"
  "regDec (registers_of (h @ [act_cmd a])) = regDec (registers_of h)"
  by (cases a; simp add: obey_def HasPrefix_def)+

lemma registers_ok_cong:
  "regRA g = regRA g' \<Longrightarrow> regDec g = regDec g' \<Longrightarrow> registers_ok x g = registers_ok x g'"
  by (cases x) auto

lemma registers_ok_outside: "\<not> inside x \<Longrightarrow> registers_ok x g"
  by (cases x) auto

lemma op_inv_init: "op_inv op_init"
  by (simp add: op_inv_def op_init_def)

lemma op_inv_step:
  assumes "op_step True s t" "op_inv s"
  shows "op_inv t"
  using assms
proof (induction rule: op_step.induct)
  case (set_ra s c a v w)
  then have h: "holder s = Some c" by (auto simp: op_inv_def)
  then have "\<not> inside (stage s c')" if "c' \<noteq> c" for c' using set_ra that by (auto simp: op_inv_def)
  with set_ra h show ?case by (auto simp: op_inv_def registers_ok_outside simp del: registers_of_snoc)
next
  case (set_dec s c a v w)
  then have h: "holder s = Some c" by (auto simp: op_inv_def)
  then have "\<not> inside (stage s c')" if "c' \<noteq> c" for c' using set_dec that by (auto simp: op_inv_def)
  moreover have "regRA (registers_of (cmds s)) = Some (FormatHMS v)"
    using set_dec by (auto simp: op_inv_def dest: spec [of _ c])
  ultimately show ?case using set_dec h by (auto simp: op_inv_def registers_ok_outside simp del: registers_of_snoc)
next
  case (act s c a v w)
  then have g: "regRA (registers_of (cmds s)) = Some (FormatHMS v)" "regDec (registers_of (cmds s)) = Some (FormatDMS w CHR ''*'')"
    by (auto simp: op_inv_def dest: spec [of _ c])
  have "registers_ok (stage s c') (registers_of (cmds s @ [act_cmd a])) = registers_ok (stage s c') (registers_of (cmds s))" for c'
    by (rule registers_ok_cong) (simp_all only: registers_act)
  with act g show ?case by (auto simp: op_inv_def simp del: registers_of_snoc)
next
  case (poll cmd s)
  then have "registers_of (cmds s @ [cmd]) = registers_of (cmds s)" by (simp add: obey_def)
  with poll show ?case by (simp add: op_inv_def del: registers_of_snoc)
next
  case (abort s c a v w)
  then show ?case by (auto simp: op_inv_def)
next
  case (release s c)
  then have h: "holder s = Some c" by (auto simp: op_inv_def)
  then have "\<not> inside (stage s c')" if "c' \<noteq> c" for c' using release that by (auto simp: op_inv_def)
  with release show ?case by (auto simp: op_inv_def)
qed (auto simp: op_inv_def)

lemma op_inv_reach: "op_reach True s \<Longrightarrow> op_inv s"
  by (induction rule: op_reach.induct) (auto intro: op_inv_init op_inv_step)

section \<open>Properties\<close>

text \<open>C2: with the operation lock, however the commands of the clients interleave, no two
  clients are inside an operation at once, and every slew and every sync acts on the
  target of the client that asked for it.\<close>

theorem own_target_with_lock:
  assumes "op_reach True s"
  shows "(inside (stage s c) \<and> inside (stage s c') \<longrightarrow> c = c')
    \<and> ((c, a, (r, d), g) \<in> set (events s) \<longrightarrow> g = (Some r, Some d))"
proof -
  have inv: "\<forall>c. inside (stage s c) \<longrightarrow> holder s = Some c"
    "\<forall>(c, a, (r, d), (gr, gd))\<in>set (events s). gr = Some r \<and> gd = Some d"
    using op_inv_reach [OF assms] by (simp_all add: op_inv_def)
  from inv(1) have "inside (stage s c) \<and> inside (stage s c') \<longrightarrow> c = c'" by (metis option.inject)
  moreover from inv(2) have "(c, a, (r, d), g) \<in> set (events s) \<longrightarrow> g = (Some r, Some d)" by (cases g) fastforce
  ultimately show ?thesis by blast
qed

theorem own_target_with_lock_witness:
  "op_reach True (op_init\<lparr>stage := (\<lambda>_. Idle)(7 := Waiting Goto (Fin 1) (Fin 2))\<rparr> :: nat opstate)
   \<and> \<not> (inside (stage (op_init\<lparr>stage := (\<lambda>_. Idle)(7 := Waiting Goto (Fin 1) (Fin 2))\<rparr> :: nat opstate) 7)
      \<and> inside (stage (op_init\<lparr>stage := (\<lambda>_. Idle)(7 := Waiting Goto (Fin 1) (Fin 2))\<rparr> :: nat opstate) 8))"
proof -
  let ?s = "op_init\<lparr>stage := (\<lambda>_. Idle)(7 := Waiting Goto (Fin 1) (Fin 2))\<rparr> :: nat opstate"
  have "op_reach True (op_init\<lparr>stage := (stage op_init)(7 := Waiting Goto (Fin 1) (Fin 2))\<rparr> :: nat opstate)"
    by (rule next_step [OF start request]) (simp add: op_init_def)
  then have r: "op_reach True ?s" by (simp add: op_init_def)
  have "\<not> (inside (stage ?s 7) \<and> inside (stage ?s 8))"
  proof
    assume "inside (stage ?s 7) \<and> inside (stage ?s 8)"
    then have "(7 :: nat) = 8" by (rule mp [OF conjunct1 [OF own_target_with_lock [OF r, of 7 8]]])
    then show False by simp
  qed
  with r show ?thesis by blast
qed

lemma distinct_targets: "\<exists>v w. FormatHMS v \<noteq> FormatHMS w"
proof -
  obtain v where v: "FormatHMS v = hms_text 1 0 0" using hms_survives [of 1 0 0] by auto
  obtain w where w: "FormatHMS w = hms_text 2 0 0" using hms_survives [of 2 0 0] by auto
  have "hms_text 1 0 0 \<noteq> hms_text 2 0 0"
    by (simp add: hms_text_def fmt_d_def pad0_def nat_str.simps dig_def)
  with v w show ?thesis by metis
qed

text \<open>The lock is needed: without it two clients can interleave so that one of them slews
  to the other one's target.\<close>

theorem foreign_target_without_lock:
  "\<exists>(s :: nat opstate) c r d g. op_reach False s \<and> (c, Goto, (r, d), g) \<in> set (events s) \<and> g \<noteq> (Some r, Some d)"
proof -
  obtain v v' where ne: "FormatHMS v \<noteq> FormatHMS v'" using distinct_targets by blast
  let ?w = "Fin 0"
  define s1 :: "nat opstate" where "s1 = op_init\<lparr>stage := (stage op_init)(0 := Waiting Goto v ?w)\<rparr>"
  define s2 where "s2 = s1\<lparr>stage := (stage s1)(1 := Waiting Goto v' ?w)\<rparr>"
  define s3 where "s3 = s2\<lparr>holder := (if False then Some 0 else holder s2), stage := (stage s2)(0 := SetRA Goto v ?w)\<rparr>"
  define s4 where "s4 = s3\<lparr>holder := (if False then Some 1 else holder s3), stage := (stage s3)(1 := SetRA Goto v' ?w)\<rparr>"
  define s5 where "s5 = s4\<lparr>stage := (stage s4)(0 := SetDec Goto v ?w), cmds := cmds s4 @ [ra_cmd v]\<rparr>"
  define s6 where "s6 = s5\<lparr>stage := (stage s5)(1 := SetDec Goto v' ?w), cmds := cmds s5 @ [ra_cmd v']\<rparr>"
  define s7 where "s7 = s6\<lparr>stage := (stage s6)(0 := Act Goto v ?w), cmds := cmds s6 @ [dec_cmd ?w]\<rparr>"
  define s8 where "s8 = s7\<lparr>stage := (stage s7)(0 := Done), cmds := cmds s7 @ [act_cmd Goto],
      events := events s7 @ [(0, Goto, (FormatHMS v, FormatDMS ?w CHR ''*''),
        (regRA (registers_of (cmds s7)), regDec (registers_of (cmds s7))))]\<rparr>"
  note defs = s1_def s2_def s3_def s4_def s5_def s6_def s7_def op_init_def
  have "op_reach False s1" unfolding s1_def by (rule next_step [OF start request]) (simp add: op_init_def)
  then have "op_reach False s2" unfolding s2_def by (rule next_step [OF _ request]) (simp add: defs)
  then have "op_reach False s3" unfolding s3_def by (rule next_step [OF _ acquire]) (simp_all add: defs)
  then have "op_reach False s4" unfolding s4_def by (rule next_step [OF _ acquire]) (simp_all add: defs)
  then have "op_reach False s5" unfolding s5_def by (rule next_step [OF _ set_ra]) (simp add: defs)
  then have "op_reach False s6" unfolding s6_def by (rule next_step [OF _ set_ra]) (simp add: defs)
  then have "op_reach False s7" unfolding s7_def by (rule next_step [OF _ set_dec]) (simp add: defs)
  then have reach: "op_reach False s8" unfolding s8_def by (rule next_step [OF _ act]) (simp add: defs)
  have "registers_of (cmds s7) = (registers_of [])\<lparr>regRA := Some (FormatHMS v'), regDec := Some (FormatDMS ?w CHR ''*'')\<rparr>"
    using registers_ra [of "[ra_cmd v]" v'] registers_dec [of "[ra_cmd v, ra_cmd v']" ?w] registers_ra [of "[]" v]
    by (simp add: defs del: registers_of_snoc)
  then have "(0, Goto, (FormatHMS v, FormatDMS ?w CHR ''*''), (Some (FormatHMS v'), Some (FormatDMS ?w CHR ''*''))) \<in> set (events s8)"
    by (simp add: s8_def)
  with reach ne show ?thesis by fastforce
qed

end
