(* ===== verification/BridgeClock.thy ===== *)
theory BridgeClock
  imports Bridge
begin

text \<open>
  The clock behind the bridge (src/bridge/bridge.go): how the three clock messages of a client, in any
  order and among any other requests, become one call of the mount's \<open>SetUTC\<close>. The calls are counted on
  \<open>tapped m\<close>, the mount \<open>m\<close> with a list of the instants its clock was set to.
\<close>

section \<open>Counting the settings\<close>

definition lifted :: "('d, 'a) io \<Rightarrow> ('d \<times> int list, 'a) io" where
  "lifted f = (\<lambda>(d, log). case f d of (r, d') \<Rightarrow> (r, d', log))"

definition logged :: "int \<Rightarrow> ('d, 'a) io \<Rightarrow> ('d \<times> int list, 'a) io" where
  "logged t f = (\<lambda>(d, log). case f d of (r, d') \<Rightarrow> (r, d', log @ [t]))"

definition tapped :: "'d mount \<Rightarrow> ('d \<times> int list) mount" where
  "tapped m =
     \<lparr>mRA = lifted (mRA m), mDec = lifted (mDec m), mSetTargetRA = (\<lambda>v. lifted (mSetTargetRA m v)),
      mSetTargetDec = (\<lambda>v. lifted (mSetTargetDec m v)), mSlewToTarget = lifted (mSlewToTarget m),
      mSyncToTarget = lifted (mSyncToTarget m), mHalt = lifted (mHalt m), mSlewing = lifted (mSlewing m),
      mTracking = lifted (mTracking m), mSetTracking = (\<lambda>v. lifted (mSetTracking m v)),
      asHorizontal = map_option (map_prod lifted lifted) (asHorizontal m),
      asProductizer = map_option lifted (asProductizer m),
      asSiteSetter = map_option (\<lambda>(f, g, h). (\<lambda>v. lifted (f v), \<lambda>v. lifted (g v), \<lambda>v. lifted (h v))) (asSiteSetter m),
      asSiteReader = map_option (map_prod lifted lifted) (asSiteReader m),
      asClock = map_option (\<lambda>f t. logged t (f t)) (asClock m),
      asUTCOffsetReader = map_option lifted (asUTCOffsetReader m),
      asUTCOffsetSetter = map_option (\<lambda>f v. lifted (f v)) (asUTCOffsetSetter m),
      asMover = map_option (\<lambda>(f, g). (\<lambda>v. lifted (f v), \<lambda>v. lifted (g v))) (asMover m),
      asRater = map_option (\<lambda>f v. lifted (f v)) (asRater m), asOpLocker = asOpLocker m\<rparr>"

section \<open>Requests that leave the clock alone\<close>

text \<open>What the clock messages work on: the instants set so far and the buffered components.\<close>

definition clk :: "('d \<times> int list) bridge \<Rightarrow> int list \<times> bool \<times> bool \<times> bool \<times> int \<times> int \<times> int" where
  "clk b = (snd (dev b), haveSC (st b), haveSL (st b), haveSG (st b), setDate (st b), setTOD (st b), setOff (st b))"

definition untimed :: "('d \<times> int list, 'a) io \<Rightarrow> bool" where
  "untimed f = (\<forall>d r d'. f d = (r, d') \<longrightarrow> snd d' = snd d)"

lemma untimed_lifted [simp]: "untimed (lifted f)"
  by (auto simp: untimed_def lifted_def split: prod.splits)

lemma untimed_pure [simp]: "untimed (okE x)" "untimed (errE e)"
  by (simp_all add: untimed_def)

lemma untimedD: "untimed f \<Longrightarrow> f d = (r, d') \<Longrightarrow> snd d' = snd d"
  unfolding untimed_def by blast

lemma untimed_bindE:
  assumes "untimed f" "\<And>x. untimed (g x)"
  shows "untimed (bindE f g)"
  unfolding untimed_def
proof (intro allI impI)
  fix d r d' assume g: "bindE f g d = (r, d')"
  obtain q u where q: "f d = (q, u)" by (cases "f d")
  from untimedD [OF assms(1) q] g q show "snd d' = snd d"
    by (cases q) (auto simp: bindE_def dest: untimedD [OF assms(2)])
qed

lemma onDev_clk: "onDev f b = (r, b') \<Longrightarrow> untimed f \<Longrightarrow> clk b' = clk b"
  by (auto simp: onDev_def clk_def dest: untimedD split: prod.splits)

lemma bwriteS_clk [simp]: "clk (bwriteS t b) = clk b"
  by (simp add: bwriteS_def clk_def)

lemma cache_clk [simp]:
  "clk (b\<lparr>cachedProduct := n\<rparr>) = clk b" "clk (b\<lparr>siteLat := x\<rparr>) = clk b" "clk (b\<lparr>siteLon := x\<rparr>) = clk b"
  "clk (b\<lparr>haveSite := h\<rparr>) = clk b" "clk (b\<lparr>utcOff := z\<rparr>) = clk b" "clk (b\<lparr>haveOff := h\<rparr>) = clk b"
  by (simp_all add: clk_def)

lemma tapped_untimed [simp]:
  "untimed (mRA (tapped m))" "untimed (mDec (tapped m))" "untimed (mSlewToTarget (tapped m))"
  "untimed (mSyncToTarget (tapped m))" "untimed (mHalt (tapped m))" "untimed (mSlewing (tapped m))" "untimed (mTracking (tapped m))"
  "untimed (mSetTargetRA (tapped m) v)" "untimed (mSetTargetDec (tapped m) v)"
  "asProductizer (tapped m) = Some p \<Longrightarrow> untimed p" "asUTCOffsetReader (tapped m) = Some q \<Longrightarrow> untimed q"
  "asSiteReader (tapped m) = Some (f, g) \<Longrightarrow> untimed f" "asSiteReader (tapped m) = Some (f, g) \<Longrightarrow> untimed g"
  "asHorizontal (tapped m) = Some (f, g) \<Longrightarrow> untimed f" "asHorizontal (tapped m) = Some (f, g) \<Longrightarrow> untimed g"
  "asUTCOffsetSetter (tapped m) = Some u \<Longrightarrow> untimed (u z)" "asRater (tapped m) = Some w \<Longrightarrow> untimed (w rt)"
  "asMover (tapped m) = Some (mv, hm) \<Longrightarrow> untimed (mv dr)" "asMover (tapped m) = Some (mv, hm) \<Longrightarrow> untimed (hm dr)"
  "asSiteSetter (tapped m) = Some (s1, s2, s3) \<Longrightarrow> untimed (s1 v)" "asSiteSetter (tapped m) = Some (s1, s2, s3) \<Longrightarrow> untimed (s2 v)"
  by (auto simp: tapped_def)

lemma onDev_serve [simp]: "onDev (mountFn (serve m)) b = (Inr m, b)"
  by (simp add: onDev_def)

lemma offset_clk: "offset (serve (tapped m)) b = (z, b') \<Longrightarrow> clk b' = clk b"
  by (auto simp: offset_def dest!: onDev_clk split: prod.splits sum.splits option.splits if_splits)

lemma readers_clk:
  "productName (serve (tapped m)) b = (n, b') \<Longrightarrow> clk b' = clk b"
  "site (serve (tapped m)) b = (o1, b') \<Longrightarrow> clk b' = clk b"
  "alignStatus (serve (tapped m)) b = (a, b') \<Longrightarrow> clk b' = clk b"
  by (auto simp: productName_def site_def alignStatus_def dest!: onDev_clk split: prod.splits sum.splits option.splits if_splits)

lemma getCoord_clk: "untimed (f (tapped m)) \<Longrightarrow> clk (getCoord (serve (tapped m)) f g b) = clk b"
  by (auto simp: getCoord_def dest!: onDev_clk split: prod.splits sum.splits)

lemma horizontal_untimed [simp]: "untimed (altitude (tapped m))" "untimed (azimuth (tapped m))"
  by (auto simp: altitude_def azimuth_def split: option.splits)

lemma motion_clk: "(\<And>f. cap (tapped m) = Some f \<Longrightarrow> untimed f) \<Longrightarrow> clk (motion (serve (tapped m)) cap b) = clk b"
  by (auto simp: motion_def split: option.splits) (metis onDev_clk prod.collapse)

lemma setSite_clk:
  "(\<And>f. set1 (tapped m) = Some f \<Longrightarrow> untimed f) \<Longrightarrow> (\<And>b. clk (cache b) = clk b) \<Longrightarrow> clk (setSite (serve (tapped m)) set1 cache b) = clk b"
  by (auto simp: setSite_def dest!: onDev_clk split: prod.splits sum.splits option.splits)

lemma goto_clk: "clk (gotoTarget (serve (tapped m)) b) = clk b" "clk (syncTarget (serve (tapped m)) b) = clk b"
proof -
  have t: "untimed (setDeviceTarget (tapped m) v w)" for v w unfolding setDeviceTarget_def by (auto intro!: untimed_bindE)
  have "untimed (bindE (setDeviceTarget (tapped m) v w) (\<lambda>_. mSlewToTarget (tapped m)))"
    "untimed (bindE (setDeviceTarget (tapped m) v w) (\<lambda>_. mSyncToTarget (tapped m)))" for v w
    by (auto intro!: untimed_bindE t)
  then show "clk (gotoTarget (serve (tapped m)) b) = clk b" "clk (syncTarget (serve (tapped m)) b) = clk b"
    by (auto simp: gotoTarget_def syncTarget_def dest!: onDev_clk split: prod.splits sum.splits)
qed

lemma target_clk: "clk (setTargetRA v b) = clk b" "clk (setTargetDec v b) = clk b"
  by (auto simp: setTargetRA_def setTargetDec_def clk_def bwriteS_def split: option.split)

lemma handlers_clk:
  "clk (halt (serve (tapped m)) b) = clk b" "clk (move (serve (tapped m)) d b) = clk b"
  "clk (haltMove (serve (tapped m)) d b) = clk b" "clk (setRate (serve (tapped m)) d b) = clk b"
  "clk (distance (serve (tapped m)) b) = clk b"
  "clk (setLatitude (serve (tapped m)) v b) = clk b" "clk (setLongitude (serve (tapped m)) v b) = clk b"
  unfolding halt_def move_def haltMove_def setRate_def setLatitude_def setLongitude_def Let_def
  by (auto intro!: motion_clk setSite_clk simp: distance_def dest!: onDev_clk split: sum.split prod.splits option.splits)

text \<open>A request that is no clock message.\<close>

definition untimed_cmd :: "string \<Rightarrow> bool" where
  "untimed_cmd cmd = (\<not> HasPrefix cmd ''SG'' \<and> \<not> HasPrefix cmd ''SL'' \<and> \<not> HasPrefix cmd ''SC'')"

lemma clk_if: "clk x = k \<Longrightarrow> clk y = k \<Longrightarrow> clk (if c then x else y) = k"
  by simp

lemma clk_reader:
  "(\<And>r b'. p = (r, b') \<Longrightarrow> clk b' = clk b) \<Longrightarrow> (\<And>r b'. clk (f r b') = clk b') \<Longrightarrow> clk (case p of (r, b') \<Rightarrow> f r b') = clk b"
  by (cases p) simp

lemma dispatch_clk:
  assumes "untimed_cmd cmd"
  shows "clk (dispatch (serve (tapped m)) cmd b) = clk b"
proof -
  have c: "HasPrefix cmd ''SG'' = False" "HasPrefix cmd ''SL'' = False" "HasPrefix cmd ''SC'' = False"
    using assms by (simp_all add: untimed_cmd_def)
  show ?thesis unfolding dispatch_def c if_False
    by (intro clk_if clk_reader getCoord_clk target_clk goto_clk handlers_clk)
      (auto simp: dest: readers_clk offset_clk split: option.splits)
qed

lemma others_clk: "list_all untimed_cmd cmds \<Longrightarrow> clk (foldl (\<lambda>b cmd. dispatch (serve (tapped m)) cmd b) b cmds) = clk b"
  by (induction cmds arbitrary: b) (simp_all add: dispatch_clk)

section \<open>The clock messages\<close>

text \<open>The buffered components are pushed as soon as date and time are in.\<close>

lemma tryApply_clk:
  assumes "asClock m = Some f" "clk b = (L, sc, sl, sg, D, T, Z)"
  shows "\<exists>z. (sg \<longrightarrow> z = Z) \<and> clk (tryApplyTime (serve (tapped m)) b)
    = (if sc \<and> sl then (L @ [D + T + z], False, False, False, D, T, Z) else (L, sc, sl, sg, D, T, Z))"
proof (cases "sc \<and> sl")
  case True
  obtain z b1 where z: "(if sg then (Z, b) else offset (serve (tapped m)) b) = (z, b1)" by fastforce
  then have c: "clk b1 = (L, sc, sl, sg, D, T, Z)" using assms(2) by (auto dest: offset_clk split: if_splits)
  obtain g where g: "asClock (tapped m) = Some g" "g = (\<lambda>t. logged t (f t))" using assms(1) by (simp add: tapped_def)
  obtain r b2 where o1: "onDev (g (setDate (st b1) + setTOD (st b1) + z)) b1 = (r, b2)" by fastforce
  then have "st b2 = st b1" "snd (dev b2) = snd (dev b1) @ [setDate (st b1) + setTOD (st b1) + z]"
    unfolding g(2) onDev_def logged_def by (auto split: prod.splits)
  with True z o1 g(1) assms(2) c show ?thesis
    by (intro exI [of _ z]) (auto simp: tryApplyTime_def clk_def Let_def split: if_splits)
next
  case False
  with assms(2) show ?thesis by (auto simp: tryApplyTime_def clk_def)
qed

lemma SL_clk:
  assumes "asClock m = Some f" "clk b = (L, sc, sl, sg, D, T, Z)" "ParseSexagesimal v = Inr h"
  shows "\<exists>z. (sg \<longrightarrow> z = Z) \<and> clk (dispatch (serve (tapped m)) (''SL'' @ v) b)
    = (if sc then (L @ [D + hours_dur h + z], False, False, False, D, hours_dur h, Z) else (L, sc, True, sg, D, hours_dur h, Z))"
proof -
  have "clk (b\<lparr>st := (st b)\<lparr>setTOD := hours_dur h, haveSL := True\<rparr>\<rparr>) = (L, sc, True, sg, D, hours_dur h, Z)"
    using assms(2) by (simp add: clk_def)
  from tryApply_clk [OF assms(1) this] assms(3) show ?thesis
    by (simp add: dispatch_clock setLocalTime_def del: append.simps)
qed

lemma SC_clk:
  assumes "asClock m = Some f" "clk b = (L, sc, sl, sg, D, T, Z)" "Parse_date (TrimSpace v) = Some d"
  shows "\<exists>z. (sg \<longrightarrow> z = Z) \<and> clk (dispatch (serve (tapped m)) (''SC'' @ v) b)
    = (if sl then (L @ [d + T + z], False, False, False, d, T, Z) else (L, True, sl, sg, d, T, Z))"
proof -
  have "clk (b\<lparr>st := (st b)\<lparr>setDate := d, haveSC := True\<rparr>\<rparr>) = (L, True, sl, sg, d, T, Z)"
    using assms(2) by (simp add: clk_def)
  from tryApply_clk [OF assms(1) this] assms(3) show ?thesis
    by (simp add: dispatch_clock setCalendarDate_def del: append.simps)
qed

lemma SG_clk:
  assumes "clk b = (L, sc, sl, sg, D, T, Z)" "ParseSexagesimal v = Inr h" "\<not> (sc \<and> sl)"
  shows "clk (dispatch (serve (tapped m)) (''SG'' @ v) b) = (L, sc, sl, True, D, T, hours_dur h)"
proof -
  define b1 where "b1 = b\<lparr>st := (st b)\<lparr>setOff := hours_dur h, haveSG := True\<rparr>\<rparr>"
  have b1: "clk b1 = (L, sc, sl, True, D, T, hours_dur h)" using assms(1) by (simp add: clk_def b1_def)
  have k: "clk (case asUTCOffsetSetter (tapped m) of None \<Rightarrow> b1 | Some f \<Rightarrow> snd (onDev (f x) b1)) = clk b1" for x
    by (cases "asUTCOffsetSetter (tapped m)"; cases "onDev (the (asUTCOffsetSetter (tapped m)) x) b1") (auto dest: onDev_clk)
  have idle: "clk (tryApplyTime (serve (tapped m)) b2) = clk b1" if "clk b2 = clk b1" for b2
    using that b1 assms(3) by (auto simp: tryApplyTime_def clk_def)
  have "dispatch (serve (tapped m)) (''SG'' @ v) b = bwriteS ''1'' (tryApplyTime (serve (tapped m))
      ((case asUTCOffsetSetter (tapped m) of None \<Rightarrow> b1 | Some f \<Rightarrow> snd (onDev (f (hours_dur h)) b1))
        \<lparr>utcOff := hours_dur h, haveOff := True\<rparr>))"
    unfolding b1_def using assms(2) by (simp add: dispatch_clock setUTCOffset_def Let_def del: append.simps)
  then show ?thesis using b1 by (simp add: idle k)
qed

lemma three_orders:
  assumes "{a, b, c} = {x, y, z}" "x \<noteq> y" "x \<noteq> z" "y \<noteq> z"
  obtains "a = x" "b = y" "c = z" | "a = x" "b = z" "c = y" | "a = y" "b = x" "c = z" | "a = y" "b = z" "c = x"
    | "a = z" "b = x" "c = y" | "a = z" "b = y" "c = x"
proof -
  have "x \<in> {a, b, c}" "y \<in> {a, b, c}" "z \<in> {a, b, c}" unfolding assms(1) by simp_all
  with assms(2-4) that show ?thesis by auto
qed

text \<open>C22: three messages set the clock once. Whatever a client sends before, between and after, and in
  whichever order they come, its offset, date and time make exactly one call of the mount's \<open>SetUTC\<close>, with
  local date plus time of day plus an offset: the one of the message, unless that message comes last; then
  date and time are pushed before it is there, with the offset known until then
  (\<open>clock_set_before_offset\<close>).\<close>

theorem clock_set_once:
  fixes m :: "'d mount"
  assumes "asClock m = Some f" "\<not> haveSC (st b)" "\<not> haveSL (st b)"
    "ParseSexagesimal g = Inr g'" "ParseSexagesimal l = Inr l'" "Parse_date (TrimSpace c) = Some d"
    "{c1, c2, c3} = {''SG'' @ g, ''SL'' @ l, ''SC'' @ c}" "list_all untimed_cmd (xs @ ys @ zs @ ws)"
  shows "\<exists>z. snd (dev (foldl (\<lambda>b cmd. dispatch (serve (tapped m)) cmd b) b (xs @ c1 # ys @ c2 # zs @ c3 # ws)))
      = snd (dev b) @ [d + hours_dur l' + z] \<and> (c3 \<noteq> ''SG'' @ g \<longrightarrow> z = hours_dur g')"
proof -
  let ?run = "foldl (\<lambda>b cmd. dispatch (serve (tapped m)) cmd b)"
  obtain L sg D T Z where b: "clk b = (L, False, False, sg, D, T, Z)" "L = snd (dev b)"
    using assms(2,3) by (simp add: clk_def)
  note o = assms(8) [unfolded list_all_append]
  define b1 where "b1 = ?run b xs" define b2 where "b2 = ?run (dispatch (serve (tapped m)) c1 b1) ys"
  define b3 where "b3 = ?run (dispatch (serve (tapped m)) c2 b2) zs"
  have e: "?run b (xs @ c1 # ys @ c2 # zs @ c3 # ws) = ?run (dispatch (serve (tapped m)) c3 b3) ws"
    by (simp add: b1_def b2_def b3_def)
  have k: "clk b1 = clk b" "clk b2 = clk (dispatch (serve (tapped m)) c1 b1)" "clk b3 = clk (dispatch (serve (tapped m)) c2 b2)"
    "clk (?run b (xs @ c1 # ys @ c2 # zs @ c3 # ws)) = clk (dispatch (serve (tapped m)) c3 b3)"
    unfolding e using o by (simp_all add: b1_def b2_def b3_def others_clk)
  have won: "\<exists>z. snd (dev b') = snd (dev b) @ [d + hours_dur l' + z] \<and> (c3 \<noteq> ''SG'' @ g \<longrightarrow> z = hours_dur g')"
    if "clk b' = (snd (dev b) @ [d + hours_dur l' + z], rest)" "c3 \<noteq> ''SG'' @ g \<longrightarrow> z = hours_dur g'" for b' z rest
    using that by (intro exI [of _ z]) (simp add: clk_def)
  note SL = SL_clk [OF assms(1) _ assms(5)] and SC = SC_clk [OF assms(1) _ assms(6)] and SG = SG_clk [OF _ assms(4)]
  have b1: "clk b1 = (snd (dev b), False, False, sg, D, T, Z)" using k(1) b by simp
  from assms(7) show ?thesis
  proof (rule three_orders)
    assume c: "c1 = ''SG'' @ g" "c2 = ''SL'' @ l" "c3 = ''SC'' @ c"
    have b2: "clk b2 = (snd (dev b), False, False, True, D, T, hours_dur g')"
      unfolding k(2) c using SG [OF b1] by auto
    have b3: "clk b3 = (snd (dev b), False, True, True, D, hours_dur l', hours_dur g')"
      unfolding k(3) c using SL [OF b2] by auto
    have "clk (dispatch (serve (tapped m)) c3 b3) = (snd (dev b) @ [d + hours_dur l' + hours_dur g'], False, False, False, d, hours_dur l', hours_dur g')"
      unfolding c using SC [OF b3] by auto
    from won [OF k(4) [unfolded this]] c show ?thesis by simp
  next
    assume c: "c1 = ''SG'' @ g" "c2 = ''SC'' @ c" "c3 = ''SL'' @ l"
    have b2: "clk b2 = (snd (dev b), False, False, True, D, T, hours_dur g')"
      unfolding k(2) c using SG [OF b1] by auto
    have b3: "clk b3 = (snd (dev b), True, False, True, d, T, hours_dur g')"
      unfolding k(3) c using SC [OF b2] by auto
    have "clk (dispatch (serve (tapped m)) c3 b3) = (snd (dev b) @ [d + hours_dur l' + hours_dur g'], False, False, False, d, hours_dur l', hours_dur g')"
      unfolding c using SL [OF b3] by auto
    from won [OF k(4) [unfolded this]] c show ?thesis by simp
  next
    assume c: "c1 = ''SL'' @ l" "c2 = ''SG'' @ g" "c3 = ''SC'' @ c"
    have b2: "clk b2 = (snd (dev b), False, True, sg, D, hours_dur l', Z)"
      unfolding k(2) c using SL [OF b1] by auto
    have b3: "clk b3 = (snd (dev b), False, True, True, D, hours_dur l', hours_dur g')"
      unfolding k(3) c using SG [OF b2] by auto
    have "clk (dispatch (serve (tapped m)) c3 b3) = (snd (dev b) @ [d + hours_dur l' + hours_dur g'], False, False, False, d, hours_dur l', hours_dur g')"
      unfolding c using SC [OF b3] by auto
    from won [OF k(4) [unfolded this]] c show ?thesis by simp
  next
    assume c: "c1 = ''SL'' @ l" "c2 = ''SC'' @ c" "c3 = ''SG'' @ g"
    have b2: "clk b2 = (snd (dev b), False, True, sg, D, hours_dur l', Z)"
      unfolding k(2) c using SL [OF b1] by auto
    from SC [OF b2] obtain w where b3: "clk b3 = (snd (dev b) @ [d + hours_dur l' + w], False, False, False, d, hours_dur l', Z)"
      unfolding k(3) c by auto
    have "clk (dispatch (serve (tapped m)) c3 b3) = (snd (dev b) @ [d + hours_dur l' + w], False, False, True, d, hours_dur l', hours_dur g')"
      unfolding c using SG [OF b3] by auto
    from won [OF k(4) [unfolded this]] c show ?thesis by simp
  next
    assume c: "c1 = ''SC'' @ c" "c2 = ''SG'' @ g" "c3 = ''SL'' @ l"
    have b2: "clk b2 = (snd (dev b), True, False, sg, d, T, Z)"
      unfolding k(2) c using SC [OF b1] by auto
    have b3: "clk b3 = (snd (dev b), True, False, True, d, T, hours_dur g')"
      unfolding k(3) c using SG [OF b2] by auto
    have "clk (dispatch (serve (tapped m)) c3 b3) = (snd (dev b) @ [d + hours_dur l' + hours_dur g'], False, False, False, d, hours_dur l', hours_dur g')"
      unfolding c using SL [OF b3] by auto
    from won [OF k(4) [unfolded this]] c show ?thesis by simp
  next
    assume c: "c1 = ''SC'' @ c" "c2 = ''SL'' @ l" "c3 = ''SG'' @ g"
    have b2: "clk b2 = (snd (dev b), True, False, sg, d, T, Z)"
      unfolding k(2) c using SC [OF b1] by auto
    from SL [OF b2] obtain w where b3: "clk b3 = (snd (dev b) @ [d + hours_dur l' + w], False, False, False, d, hours_dur l', Z)"
      unfolding k(3) c by auto
    have "clk (dispatch (serve (tapped m)) c3 b3) = (snd (dev b) @ [d + hours_dur l' + w], False, False, True, d, hours_dur l', hours_dur g')"
      unfolding c using SG [OF b3] by auto
    from won [OF k(4) [unfolded this]] c show ?thesis by simp
  qed simp_all
qed

theorem clock_set_once_witness:
  "\<exists>t. snd (dev (foldl (\<lambda>b cmd. dispatch (serve (tapped clock_mount)) cmd b) (newBridge ([], []) 0)
      ([''GR''] @ (''SL'' @ hms_text 20 30 0) # [''GD''] @ (''SG'' @ hms_text 5 0 0) # [] @ (''SC'' @ ''07/04/26'') # [''GC'']))) = [t]"
proof -
  obtain g l where p: "ParseSexagesimal (hms_text 5 0 0) = Inr g" "ParseSexagesimal (hms_text 20 30 0) = Inr l"
    using sample_times by blast
  have a: "asClock clock_mount = Some (\<lambda>t. modE (\<lambda>ts. ts @ [t]))" by (simp add: clock_mount_def)
  have o: "list_all untimed_cmd ([''GR''] @ [''GD''] @ [] @ [''GC''])" by (simp add: untimed_cmd_def HasPrefix_def)
  have n: "\<not> haveSC (st (newBridge ([], []) 0))" "\<not> haveSL (st (newBridge ([], []) 0))" "snd (dev (newBridge ([], []) 0)) = []"
    by (simp_all add: newBridge_def connState0_def)
  have "{''SL'' @ hms_text 20 30 0, ''SG'' @ hms_text 5 0 0, ''SC'' @ ''07/04/26''}
      = {''SG'' @ hms_text 5 0 0, ''SL'' @ hms_text 20 30 0, ''SC'' @ ''07/04/26''}" by (rule insert_commute)
  from clock_set_once [OF a n(1,2) p sample_times(3) this o] show ?thesis unfolding n(3) append_Nil by blast
qed

end
