(* ===== verification/Serve.thy ===== *)
theory Serve
  imports Bridge
begin

text \<open>
  Connections over time (\<open>Serve\<close>, \<open>Addr\<close> and the deadline of \<open>handle\<close> in src/bridge/bridge.go): the
  accept loop on what the listener and the context do, and a connection whose bytes have a time of arrival.
  A frame gets no deadline of its own: it has to be complete two minutes after the connection last went
  back to waiting.
\<close>

section \<open>A connection in time\<close>

definition idleTimeout :: int where "idleTimeout = 120000 * ms"

text \<open>\<open>ReadString\<close> up to the \<open>#\<close>, at time \<open>t\<close>, with the deadline that was set before the frame.\<close>

fun read_frame :: "int \<Rightarrow> int \<Rightarrow> (int \<times> char) list \<Rightarrow> (string \<times> int \<times> (int \<times> char) list) option" where
  "read_frame deadline t [] = None"
| "read_frame deadline t ((a, c) # rest) =
     (if deadline \<le> a then None
      else if c = CHR ''#'' then Some ([], max t a, rest)
      else map_option (\<lambda>(w, u, r). (c # w, u, r)) (read_frame deadline (max t a) rest))"

lemma read_frame_Some:
  "read_frame deadline t input = Some (w, u, r) \<Longrightarrow>
     \<exists>k. input = take k input @ r \<and> k = Suc (length w) \<and> map snd (take k input) = w @ ''#'' \<and> CHR ''#'' \<notin> set w
       \<and> k \<le> length input \<and> t \<le> u \<and> fst (input ! (k - 1)) \<le> u"
proof (induction deadline t input arbitrary: w u r rule: read_frame.induct)
  case (2 deadline t a c rest)
  show ?case
  proof (cases "c = CHR ''#''")
    case True
    with 2(2) show ?thesis by (intro exI [of _ 1]) (auto split: if_splits)
  next
    case False
    with 2(2) obtain w' where w: "read_frame deadline (max t a) rest = Some (w', u, r)" "w = c # w'" "\<not> deadline \<le> a"
      by (auto split: if_splits)
    from 2(1) [OF w(3) False w(1)] obtain k where k: "rest = take k rest @ r" "k = Suc (length w')"
      "map snd (take k rest) = w' @ ''#''" "CHR ''#'' \<notin> set w'" "k \<le> length rest" "max t a \<le> u" "fst (rest ! (k - 1)) \<le> u" by blast
    with w False show ?thesis by (intro exI [of _ "Suc k"]) (auto simp: nth_Cons')
  qed
qed simp

lemma read_frame_None:
  "read_frame deadline t input = None \<Longrightarrow>
     \<exists>n \<le> length input. CHR ''#'' \<notin> set (map snd (take n input)) \<and> (n = length input \<or> deadline \<le> fst (input ! n))"
proof (induction deadline t input rule: read_frame.induct)
  case (2 deadline t a c rest)
  show ?case
  proof (cases "deadline \<le> a")
    case True
    then show ?thesis by (intro exI [of _ 0]) simp
  next
    case False
    with 2(2) have "c \<noteq> CHR ''#''" "read_frame deadline (max t a) rest = None" by (auto split: if_splits)
    with 2(1) False obtain n where "n \<le> length rest" "CHR ''#'' \<notin> set (map snd (take n rest))" "n = length rest \<or> deadline \<le> fst (rest ! n)"
      by blast
    with \<open>c \<noteq> CHR ''#''\<close> show ?thesis by (intro exI [of _ "Suc n"]) auto
  qed
qed simp

text \<open>\<open>handle\<close> on bytes with the time of their arrival, in order. \<open>t\<close> is the time, and \<open>busy\<close> the time a request takes;
  at the end of the bytes the client closes the connection, or says no more.\<close>

function handle_timed :: "(string \<Rightarrow> 'd bridge \<Rightarrow> nat) \<Rightarrow> 'd server \<Rightarrow> int \<Rightarrow> (int \<times> char) list \<Rightarrow> 'd bridge \<Rightarrow> 'd bridge" where
  "handle_timed busy s t input b =
     (case input of
        [] \<Rightarrow> b
      | (a, c) # rest \<Rightarrow>
          let deadline = t + idleTimeout
          in if deadline \<le> a then b
             else if c = CHR 0x06 then handle_timed busy s (max t a) rest (bwriteS (rune_str (mountTyp s)) b)
             else if c = CHR '':'' then
               (case read_frame deadline (max t a) rest of
                  None \<Rightarrow> b
                | Some (body, u, rest) \<Rightarrow> handle_timed busy s (u + int (busy body b)) rest (dispatch s body b))
             else handle_timed busy s (max t a) rest b)"
  by pat_completeness auto
termination
proof (relation "measure (\<lambda>(busy, s, t, input, b). length input)", goal_cases)
  case (3 busy s t input b x rest a c deadline p body q u rest')
  then have "read_frame deadline (max t a) rest = Some (body, u, rest')" by simp
  from read_frame_Some [OF this] have "length rest' \<le> length rest" by (metis length_append le_add2)
  with 3 show ?case by simp
qed auto

declare handle_timed.simps [simp del]

section \<open>What is served\<close>

text \<open>\<open>r\<close> is what the requests among the first \<open>n\<close> bytes make of \<open>b\<close>, the last of which ends at byte \<open>k\<close>; the
  rest is not served because it comes two minutes or more after that.\<close>

definition served :: "'d server \<Rightarrow> int \<Rightarrow> (int \<times> char) list \<Rightarrow> 'd bridge \<Rightarrow> 'd bridge \<Rightarrow> bool" where
  "served s t input b r = (\<exists>n k. k \<le> n \<and> n \<le> length input
     \<and> r = handle s (map snd (take n input)) b \<and> r = handle s (map snd (take k input)) b
     \<and> (n = length input \<or> (if k = 0 then t else fst (input ! (k - 1))) + idleTimeout \<le> fst (input ! n)))"

lemma served_late: "input = [] \<or> t + idleTimeout \<le> fst (hd input) \<Longrightarrow> served s t input b b"
  unfolding served_def by (cases input) (auto intro!: exI [of _ 0])

lemma served_step:
  assumes "input = pre @ rest" "pre \<noteq> []" "fst (last pre) \<le> u"
    and h: "\<And>xs. handle s (map snd pre @ xs) b = handle s xs b'" and "served s u rest b' r"
  shows "served s t input b r"
proof -
  obtain n k where k: "k \<le> n" "n \<le> length rest" "r = handle s (map snd (take n rest)) b'" "r = handle s (map snd (take k rest)) b'"
      "n = length rest \<or> (if k = 0 then u else fst (rest ! (k - 1))) + idleTimeout \<le> fst (rest ! n)"
    using assms(5) unfolding served_def by blast
  have "map snd (take (length pre + i) input) = map snd pre @ map snd (take i rest)" for i
    using assms(1) by simp
  moreover have "input ! (length pre + i) = rest ! i" for i using assms(1) by (simp add: nth_append)
  moreover have "fst (input ! (length pre + k - 1)) \<le> (if k = 0 then u else fst (rest ! (k - 1)))"
    using assms(1-3) by (cases k) (auto simp: nth_append last_conv_nth)
  ultimately show ?thesis unfolding served_def using k assms(1,2) h
    by (intro exI [of _ "length pre + n"] exI [of _ "length pre + k"]) auto
qed

lemma served_unfinished:
  assumes "CHR ''#'' \<notin> set (map snd (take n rest))" "n \<le> length rest"
    "n = length rest \<or> t + idleTimeout \<le> fst (rest ! n)"
  shows "served s t ((a, CHR '':'') # rest) b b"
proof -
  have "handle s (map snd (take (Suc n) ((a, CHR '':'') # rest))) b = b"
    using assms(1) by (subst handle.simps) simp
  with assms(2,3) show ?thesis unfolding served_def by (intro exI [of _ "Suc n"] exI [of _ 0]) auto
qed

lemma handle_timed_served: "served s t input b (handle_timed busy s t input b)"
proof (induction busy s t input b rule: handle_timed.induct)
  case (1 busy s t input b)
  show ?case
  proof (cases "input = [] \<or> t + idleTimeout \<le> fst (hd input)")
    case True
    then have "handle_timed busy s t input b = b" by (subst handle_timed.simps) (auto split: list.split)
    with served_late [OF True] show ?thesis by simp
  next
    case False
    then obtain a c rest where i: "input = (a, c) # rest" "\<not> t + idleTimeout \<le> a" by (cases input) auto
    consider (ack) "c = CHR 0x06" | (frame) "c = CHR '':''" | (stray) "c \<noteq> CHR 0x06" "c \<noteq> CHR '':''" by blast
    then show ?thesis
    proof cases
      case ack
      with i have e: "handle_timed busy s t input b = handle_timed busy s (max t a) rest (bwriteS (rune_str (mountTyp s)) b)"
        by (subst handle_timed.simps) simp
      show ?thesis unfolding e
        by (rule served_step [of input "[(a, c)]", OF _ _ _ _ 1(1) [OF i(1) refl refl i(2) ack]]) (simp_all add: i ack handle_ack)
    next
      case frame
      show ?thesis
      proof (cases "read_frame (t + idleTimeout) (max t a) rest")
        case None
        with i frame have e: "handle_timed busy s t input b = b" by (subst handle_timed.simps) simp
        from read_frame_None [OF None] have "served s t ((a, CHR '':'') # rest) b b" by (blast intro: served_unfinished)
        with e i(1) frame show ?thesis by simp
      next
        case (Some w)
        obtain body u rest' where w: "w = (body, u, rest')" by (cases w) auto
        obtain k where k: "rest = take k rest @ rest'" "k = Suc (length body)" "map snd (take k rest) = body @ ''#''"
            "CHR ''#'' \<notin> set body" "k \<le> length rest" "fst (rest ! (k - 1)) \<le> u"
          using read_frame_Some [OF Some [unfolded w]] by blast
        have e: "handle_timed busy s t input b = handle_timed busy s (u + int (busy body b)) rest' (dispatch s body b)"
          using i frame Some w by (subst handle_timed.simps) simp
        have l: "last (take k rest) = rest ! (k - 1)" "take k rest \<noteq> []"
          using k(2,5) by (auto simp: take_Suc_conv_app_nth)
        have n: "c \<noteq> CHR 0x06" using frame by simp
        show ?thesis unfolding e
        proof (rule served_step [of input "(a, c) # take k rest"])
          show "served s (u + int (busy body b)) rest' (dispatch s body b)
              (handle_timed busy s (u + int (busy body b)) rest' (dispatch s body b))"
            by (rule 1(2) [OF i(1) refl refl i(2) n frame Some [unfolded w] refl refl])
        qed (use i k l frame handle_frame [OF k(4)] in auto)
      qed
    next
      case stray
      with i have e: "handle_timed busy s t input b = handle_timed busy s (max t a) rest b"
        by (subst handle_timed.simps) simp
      show ?thesis unfolding e
        by (rule served_step [of input "[(a, c)]", OF _ _ _ _ 1(3) [OF i(1) refl refl i(2) stray]]) (simp_all add: i stray handle_stray)
    qed
  qed
qed

section \<open>The accept loop\<close>

text \<open>What the listener and the context do, in the order in which \<open>Serve\<close> sees it.\<close>

datatype 'c event = Accepted 'c | AcceptFails gerr | Cancelled

fun accept_loop :: "bool \<Rightarrow> 'c event list \<Rightarrow> (gerr + unit) option \<times> 'c list" where
  "accept_loop done [] = (None, [])"
| "accept_loop done (Cancelled # es) = accept_loop True es"
| "accept_loop done (Accepted c # es) = (case accept_loop done es of (r, cs) \<Rightarrow> (r, c # cs))"
| "accept_loop done (AcceptFails e # es) = (Some (if done then Inr () else Inl (Errorf ''bridge: accept: %w'' [] (Some e))), [])"

text \<open>\<open>Serve\<close> over a parameter for \<open>net.Listen\<close>: the listener's address is known from then on.\<close>

record 'c serving =
  lnAddr :: "string option"
  handlers :: "'c list"

definition ServeTCP :: "(string \<Rightarrow> gerr + string) \<Rightarrow> string \<Rightarrow> bool \<Rightarrow> 'c event list \<Rightarrow> 'c serving \<Rightarrow> (gerr + unit) option \<times> 'c serving" where
  "ServeTCP listen addr done es s =
     (case listen addr of
        Inl e \<Rightarrow> (Some (Inl (Errorf ''bridge: listen %s: %w'' [AStr addr] (Some e))), s)
      | Inr l \<Rightarrow> (case accept_loop done es of (r, cs) \<Rightarrow> (r, s\<lparr>lnAddr := Some l, handlers := handlers s @ cs\<rparr>)))"

definition Addr :: "'c serving \<Rightarrow> string option" where
  "Addr s = lnAddr s"

section \<open>The connections of a server\<close>

text \<open>C21: a client that keeps talking is never dropped: a connection serves some first part of what
  the client sends exactly as if it came at once, and it is cut there only when the next byte comes two
  minutes or more after the last byte of the last request that was complete; however slow the mount is.\<close>

theorem dropped_only_when_idle:
  "\<exists>n k. k \<le> n \<and> n \<le> length input
     \<and> handle_timed busy s t input b = handle s (map snd (take n input)) b
     \<and> handle_timed busy s t input b = handle s (map snd (take k input)) b
     \<and> (n = length input \<or> (if k = 0 then t else fst (input ! (k - 1))) + idleTimeout \<le> fst (input ! n))"
  using handle_timed_served [of s t input b busy] unfolding served_def .

text \<open>\<open>Serve\<close> returns when the listener fails: without an error exactly when the context was cancelled before.\<close>

fun failing :: "'c event \<Rightarrow> bool" where
  "failing (AcceptFails e) = True"
| "failing _ = False"

lemma accept_loop_result:
  "accept_loop done es =
     (let pre = takeWhile (\<lambda>e. \<not> failing e) es
      in ((case find failing es of
             Some (AcceptFails e) \<Rightarrow>
               Some (if done \<or> Cancelled \<in> set pre then Inr () else Inl (Errorf ''bridge: accept: %w'' [] (Some e)))
           | _ \<Rightarrow> None),
          concat (map (\<lambda>e. case e of Accepted c \<Rightarrow> [c] | _ \<Rightarrow> []) pre)))"
  by (induction "done" es rule: accept_loop.induct) (auto simp: Let_def split: option.splits event.splits)

end
