(* ===== verification/BootFrame.thy ===== *)
theory BootFrame
  imports GoLang "HOL-Library.Word"
begin

unbundle bit_operations_syntax

text \<open>
  The AN1388 link layer of the RST bootloader (src/rst/boot/frame.go): the
  nibble-wise CRC-16, \<open>encodeFrame\<close> and the receiving state machine \<open>decoder\<close>.
  The results: the table-driven CRC equals the bit-serial division by the CCITT
  polynomial and changes whenever one byte changes; a frame of at most 250 payload
  bytes is decoded to its payload from any decoder state outside an escape; the
  decoder's buffer stays bounded and it never reports a payload whose CRC is wrong.
\<close>

type_synonym byte = "8 word"
type_synonym u16 = "16 word"
type_synonym u32 = "32 word"

section \<open>The functions of frame.go\<close>

definition soh :: byte where "soh = 0x01"
definition eot :: byte where "eot = 0x04"
definition dle :: byte where "dle = 0x10"
definition maxFrame :: nat where "maxFrame = 0xFD"

definition crcTable :: "u16 list" where
  "crcTable = [
     0x0000, 0x1021, 0x2042, 0x3063, 0x4084, 0x50a5, 0x60c6, 0x70e7,
     0x8108, 0x9129, 0xa14a, 0xb16b, 0xc18c, 0xd1ad, 0xe1ce, 0xf1ef]"

text \<open>The body of the loop: one byte, high nibble first.\<close>

definition crc_byte :: "u16 \<Rightarrow> byte \<Rightarrow> u16" where
  "crc_byte crc b =
     (let crc = push_bit 4 crc
                XOR crcTable ! unat ((drop_bit 12 crc XOR drop_bit 4 (ucast b)) AND 0x0f);
          crc = push_bit 4 crc
                XOR crcTable ! unat ((drop_bit 12 crc XOR ucast b) AND 0x0f)
      in crc)"

fun crc16From :: "u16 \<Rightarrow> byte list \<Rightarrow> u16" where
  "crc16From crc [] = crc"
| "crc16From crc (b # data) = crc16From (crc_byte crc b) data"

definition CRC16 :: "byte list \<Rightarrow> u16" where
  "CRC16 data = crc16From 0 data"

definition escape_byte :: "byte \<Rightarrow> byte list" where
  "escape_byte b = (if b = soh \<or> b = eot \<or> b = dle then [dle, b] else [b])"

definition encodeFrame :: "byte list \<Rightarrow> byte list" where
  "encodeFrame payload =
     (let crc = CRC16 payload;
          body = payload @ [ucast crc, ucast (drop_bit 8 crc)]
      in [soh] @ concat (map escape_byte body) @ [eot])"

record decoder =
  buf :: "byte list"
  inDLE :: bool

definition reset :: "decoder \<Rightarrow> decoder" where
  "reset d = d\<lparr>buf := [], inDLE := False\<rparr>"

text \<open>\<open>feed\<close> returns the decoder and the validated payload, if the frame completes.\<close>

definition feed :: "decoder \<Rightarrow> byte \<Rightarrow> decoder \<times> byte list option" where
  "feed d0 b =
     (let d = (if length (buf d0) \<ge> maxFrame then reset d0 else d0)
      in if inDLE d then (d\<lparr>inDLE := False, buf := buf d @ [b]\<rparr>, None)
         else if b = soh then (d\<lparr>buf := []\<rparr>, None)
         else if b = dle then (d\<lparr>inDLE := True\<rparr>, None)
         else if b = eot then
           (let frame = buf d; d = d\<lparr>buf := []\<rparr>
            in if length frame \<le> 2 then (d, None)
               else let payload = take (length frame - 2) frame;
                        want = ucast (frame ! (length frame - 2))
                               OR push_bit 8 (ucast (frame ! (length frame - 1)))
                    in if CRC16 payload \<noteq> want then (d, None) else (d, Some payload))
         else (d\<lparr>buf := buf d @ [b]\<rparr>, None))"

text \<open>Feeding a stretch of received bytes: the payloads in the order they complete.\<close>

fun feeds :: "decoder \<Rightarrow> byte list \<Rightarrow> decoder \<times> byte list list" where
  "feeds d [] = (d, [])"
| "feeds d (b # bs) =
     (case feed d b of (d', r) \<Rightarrow>
        case feeds d' bs of (d'', out) \<Rightarrow>
          (d'', (case r of None \<Rightarrow> out | Some p \<Rightarrow> p # out)))"

section \<open>The CRC is division by the CCITT polynomial\<close>

text \<open>The bit-serial register: shift left, and subtract \<open>0x1021\<close> when the bit shifted
  out differs from the data bit.\<close>

definition crc_bit :: "u16 \<Rightarrow> bool \<Rightarrow> u16" where
  "crc_bit crc x = (if bit crc 15 \<noteq> x then push_bit 1 crc XOR 0x1021 else push_bit 1 crc)"

definition byte_bits :: "byte \<Rightarrow> bool list" where
  "byte_bits b = map (bit b) [7, 6, 5, 4, 3, 2, 1, 0]"

definition crc_serial :: "u16 \<Rightarrow> byte list \<Rightarrow> u16" where
  "crc_serial crc data = foldl crc_bit crc (concat (map byte_bits data))"

lemma crc16From_append: "crc16From c (xs @ ys) = crc16From (crc16From c xs) ys"
  by (induction xs arbitrary: c) auto

lemma crc16From_snoc [simp]: "crc16From c (xs @ [b]) = crc_byte (crc16From c xs) b"
  by (simp add: crc16From_append)

text \<open>The table index is the low nibble of the data and the high nibble of the register.\<close>

lemma nib_unat:
  fixes w :: u16
  shows "unat (w AND 0x0f) = of_bool (bit w 0) + 2 * of_bool (bit w 1) + 4 * of_bool (bit w 2) + 8 * of_bool (bit w 3)"
proof -
  have "w AND 0x0f = take_bit 4 w"
    by (simp add: take_bit_eq_mask mask_numeral)
  then have "unat (w AND 0xf) = take_bit 4 (unat w)" by (simp add: unsigned_take_bit_eq)
  also have "\<dots> = horner_sum of_bool 2 (map (bit (unat w)) [0..<4])"
    by (simp only: horner_sum_bit_eq_take_bit)
  also have "[0..<4] = [0, 1, 2, 3 :: nat]" by (simp add: upt_rec)
  finally show ?thesis by (simp add: bit_unsigned_iff possible_bit_def)
qed

definition nib_step :: "u16 \<Rightarrow> bool \<Rightarrow> bool \<Rightarrow> bool \<Rightarrow> bool \<Rightarrow> u16" where
  "nib_step crc a b c d = push_bit 4 crc XOR
     crcTable ! (of_bool (bit crc 12 \<noteq> d) + 2 * of_bool (bit crc 13 \<noteq> c) + 4 * of_bool (bit crc 14 \<noteq> b) + 8 * of_bool (bit crc 15 \<noteq> a))"

lemma nib_step_serial: "nib_step crc a b c d = crc_bit (crc_bit (crc_bit (crc_bit crc a) b) c) d"
proof -
  define sh :: "u16 \<Rightarrow> u16" where "sh = push_bit 1"
  have cb: "crc_bit w x = (if bit w 15 \<noteq> x then sh w XOR 0x1021 else sh w)" for w x
    by (simp add: crc_bit_def sh_def)
  have shx: "sh (u XOR v) = sh u XOR sh v" for u v unfolding sh_def by (rule push_bit_xor)
  have sb: "bit (sh w) 15 = bit w 14" "bit (sh w) 14 = bit w 13" "bit (sh w) 13 = bit w 12" for w
    unfolding sh_def bit_push_bit_iff by simp_all
  have shc: "sh 0x1021 = 0x2042" "sh 0x2042 = 0x4084" "sh 0x4084 = 0x8108"
    "sh 0x3063 = 0x60c6" "sh 0x60c6 = 0xc18c" "sh 0x50a5 = 0xa14a" "sh 0x70e7 = 0xe1ce"
    by (simp_all add: sh_def)
  have p4: "push_bit 4 crc = sh (sh (sh (sh crc)))"
    unfolding sh_def push_bit_eq_mult by simp
  show ?thesis
    unfolding nib_step_def crcTable_def p4
    by (cases "bit crc 15 = a"; cases "bit crc 14 = b"; cases "bit crc 13 = c"; cases "bit crc 12 = d")
       (simp_all add: cb sb shx shc bit_xor_iff xor.assoc)
qed

lemma crc_byte_nibbles:
  "crc_byte crc b = nib_step (nib_step crc (bit b 7) (bit b 6) (bit b 5) (bit b 4))
                             (bit b 3) (bit b 2) (bit b 1) (bit b 0)"
proof -
  have i: "unat ((drop_bit 12 c XOR drop_bit 4 (ucast b)) AND 0x0f)
      = of_bool (bit c 12 \<noteq> bit b 4) + 2 * of_bool (bit c 13 \<noteq> bit b 5) + 4 * of_bool (bit c 14 \<noteq> bit b 6) + 8 * of_bool (bit c 15 \<noteq> bit b 7)"
    and j: "unat ((drop_bit 12 c XOR ucast b) AND 0x0f)
      = of_bool (bit c 12 \<noteq> bit b 0) + 2 * of_bool (bit c 13 \<noteq> bit b 1) + 4 * of_bool (bit c 14 \<noteq> bit b 2) + 8 * of_bool (bit c 15 \<noteq> bit b 3)"
    for c :: u16
    unfolding nib_unat by (simp_all add: bit_xor_iff bit_drop_bit_eq bit_unsigned_iff)
  show ?thesis by (simp only: crc_byte_def nib_step_def i j Let_def)
qed

lemma crc_byte_serial: "crc_byte crc b = foldl crc_bit crc (byte_bits b)"
  by (simp add: crc_byte_nibbles nib_step_serial byte_bits_def)

lemma crc16From_serial: "crc16From crc data = crc_serial crc data"
  by (induction data arbitrary: crc) (simp_all add: crc_serial_def crc_byte_serial)

lemma crc_bit_low: "bit (crc_bit c x) 0 = (bit c 15 \<noteq> x)"
proof -
  have "\<not> bit (push_bit 1 c) 0" unfolding bit_push_bit_iff by simp
  then show ?thesis unfolding crc_bit_def by (auto simp: bit_xor_iff simp del: push_bit_of_1)
qed

lemma xor_right_cancel: "u XOR k = v XOR k \<Longrightarrow> u = (v :: 'a::len word)"
  by (metis xor.assoc xor_self_eq xor.right_neutral)

lemma crc_bit_inj: "crc_bit c x = crc_bit d x \<Longrightarrow> c = d"
proof -
  assume eq: "crc_bit c x = crc_bit d x"
  then have top: "bit c 15 = bit d 15" using crc_bit_low [of c x] crc_bit_low [of d x] by auto
  with eq have sh: "push_bit 1 c = push_bit 1 d"
    unfolding crc_bit_def by (auto split: if_splits dest: xor_right_cancel)
  have low: "bit c k = bit d k" if "k < 15" for k
    using that bit_push_bit_iff [of 1 c "Suc k"] bit_push_bit_iff [of 1 d "Suc k"] unfolding sh by simp
  show "c = d"
  proof (rule bit_word_eqI)
    fix k assume "k < LENGTH(16)"
    then have "k < 15 \<or> k = 15" by auto
    with top low show "bit c k = bit d k" by blast
  qed
qed

lemma crc_bit_data: "crc_bit c x = crc_bit c y \<Longrightarrow> x = y"
  using crc_bit_low [of c x] crc_bit_low [of c y] by auto

text \<open>A data byte acts as if it were added to the high half of the register.\<close>

lemma crc_byte_shift: "crc_byte c b = crc_byte (c XOR push_bit 8 (ucast b)) 0"
proof -
  define e where "e = c XOR push_bit 8 (ucast b :: u16)"
  define c1 where "c1 = nib_step c (bit b 7) (bit b 6) (bit b 5) (bit b 4)"
  define e1 where "e1 = nib_step e False False False False"
  have eb: "bit e 15 = (bit c 15 \<noteq> bit b 7)" "bit e 14 = (bit c 14 \<noteq> bit b 6)"
    "bit e 13 = (bit c 13 \<noteq> bit b 5)" "bit e 12 = (bit c 12 \<noteq> bit b 4)"
    by (simp_all add: e_def bit_xor_iff bit_push_bit_iff bit_unsigned_iff)
  have "push_bit 4 e = push_bit 4 c XOR push_bit 12 (ucast b)"
    by (simp add: e_def push_bit_xor push_bit_push_bit)
  then have e1: "e1 = c1 XOR push_bit 12 (ucast b)"
    unfolding e1_def c1_def nib_step_def eb by (simp only: ac_simps simp_thms)
  have e1b: "bit e1 15 = (bit c1 15 \<noteq> bit b 3)" "bit e1 14 = (bit c1 14 \<noteq> bit b 2)"
    "bit e1 13 = (bit c1 13 \<noteq> bit b 1)" "bit e1 12 = (bit c1 12 \<noteq> bit b 0)"
    by (simp_all add: e1 bit_xor_iff bit_push_bit_iff bit_unsigned_iff)
  have "push_bit 4 e1 = push_bit 4 c1"
  proof (rule bit_word_eqI)
    fix k assume "k < LENGTH(16)"
    then show "bit (push_bit 4 e1) k = bit (push_bit 4 c1) k"
      by (auto simp: e1 bit_xor_iff bit_push_bit_iff)
  qed
  then have "nib_step c1 (bit b 3) (bit b 2) (bit b 1) (bit b 0) = nib_step e1 False False False False"
    unfolding nib_step_def e1b by (simp only: simp_thms)
  then show ?thesis
    by (simp add: crc_byte_nibbles flip: e_def c1_def e1_def)
qed

lemma foldl_crc_bit_inj: "foldl crc_bit c xs = foldl crc_bit d xs \<Longrightarrow> c = d"
  by (induction xs arbitrary: c d) (auto dest: crc_bit_inj)

lemma crc_byte_inj: "crc_byte c b = crc_byte d b \<Longrightarrow> c = d"
  unfolding crc_byte_serial by (rule foldl_crc_bit_inj)

lemma crc16From_inj: "crc16From c xs = crc16From d xs \<Longrightarrow> c = d"
  by (induction xs arbitrary: c d) (auto dest: crc_byte_inj)

lemma crc_byte_data_inj:
  assumes "crc_byte c a = crc_byte c b"
  shows "a = b"
proof -
  from assms have "crc_byte (c XOR push_bit 8 (ucast a)) 0 = crc_byte (c XOR push_bit 8 (ucast b)) 0"
    by (simp flip: crc_byte_shift)
  then have "push_bit 8 (ucast a) XOR c = push_bit 8 (ucast b :: u16) XOR c"
    by (metis crc_byte_inj xor.commute)
  then have sh: "push_bit 8 (ucast a) = push_bit 8 (ucast b :: u16)" by (rule xor_right_cancel)
  show ?thesis
  proof (rule bit_word_eqI)
    fix k assume k: "k < LENGTH(8)"
    have "bit (push_bit 8 (ucast a) :: u16) (k + 8) = bit (push_bit 8 (ucast b) :: u16) (k + 8)"
      by (simp only: sh)
    with k show "bit a k = bit b k" by (simp add: bit_push_bit_iff bit_unsigned_iff)
  qed
qed

lemma crc_le_bytes: "ucast (ucast c :: byte) OR push_bit 8 (ucast (ucast (drop_bit 8 c) :: byte)) = (c :: u16)"
  by (rule bit_word_eqI) (auto simp: bit_or_iff bit_push_bit_iff bit_unsigned_iff bit_drop_bit_eq)

lemma crc_word_bytes:
  fixes lo hi :: byte
  defines "c \<equiv> ucast lo OR push_bit 8 (ucast hi) :: u16"
  shows "ucast c = lo" "ucast (drop_bit 8 c) = hi"
  unfolding c_def
  by (rule bit_word_eqI; auto simp: bit_or_iff bit_push_bit_iff bit_unsigned_iff bit_drop_bit_eq dest: bit_imp_le_length)+

section \<open>Frames\<close>

text \<open>The bytes \<open>feed\<close> stores between two framing bytes.\<close>

lemma feed_escape_byte:
  assumes "\<not> inDLE d" "length (buf d) < maxFrame"
  shows "feeds d (escape_byte b @ bs) = feeds (d\<lparr>buf := buf d @ [b]\<rparr>) bs"
  using assms
  by (cases d) (auto simp: escape_byte_def feed_def Let_def maxFrame_def soh_def eot_def dle_def
      split: prod.splits)

lemma feeds_append:
  "feeds d (xs @ ys) = (case feeds d xs of (d1, o1) \<Rightarrow> case feeds d1 ys of (d2, o2) \<Rightarrow> (d2, o1 @ o2))"
  by (induction xs arbitrary: d) (auto split: prod.splits option.splits)

lemma feeds_escaped:
  assumes "\<not> inDLE d" "length (buf d) + length body \<le> maxFrame"
  shows "feeds d (concat (map escape_byte body) @ bs) = feeds (d\<lparr>buf := buf d @ body\<rparr>) bs"
  using assms
proof (induction body arbitrary: d)
  case (Cons b body)
  then have "feeds d (escape_byte b @ concat (map escape_byte body) @ bs)
      = feeds (d\<lparr>buf := buf d @ [b]\<rparr>) (concat (map escape_byte body) @ bs)"
    by (intro feed_escape_byte) auto
  also have "\<dots> = feeds (d\<lparr>buf := buf d @ b # body\<rparr>) bs"
    using Cons.prems by (subst Cons.IH) auto
  finally show ?case by simp
qed simp

lemma feed_soh: "\<not> inDLE d \<Longrightarrow> feed d soh = (d\<lparr>buf := []\<rparr>, None)"
  by (cases d) (auto simp: feed_def reset_def Let_def)

lemma feed_eot_frame:
  assumes "\<not> inDLE d" "length (buf d) < maxFrame" "payload \<noteq> []"
    "buf d = payload @ [ucast (CRC16 payload), ucast (drop_bit 8 (CRC16 payload))]"
  shows "feed d eot = (d\<lparr>buf := []\<rparr>, Some payload)"
  using assms by (auto simp: feed_def Let_def nth_append crc_le_bytes eot_def soh_def dle_def)

lemma feed_buf_bound: "length (buf d) \<le> maxFrame \<Longrightarrow> length (buf (fst (feed d b))) \<le> maxFrame"
  by (auto simp: feed_def Let_def reset_def maxFrame_def)

lemma feeds_buf_bound: "length (buf d) \<le> maxFrame \<Longrightarrow> length (buf (fst (feeds d bs))) \<le> maxFrame"
proof (induction bs arbitrary: d)
  case (Cons b bs)
  have "length (buf (fst (feed d b))) \<le> maxFrame" using Cons.prems by (rule feed_buf_bound)
  from Cons.IH [OF this] show ?case by (auto split: prod.splits)
qed simp

lemma feed_roundtrip:
  assumes "\<not> inDLE d" "payload \<noteq> []" "length payload < 251"
  shows "feeds d (encodeFrame payload @ bs)
    = (case feeds (d\<lparr>buf := []\<rparr>) bs of (d', out) \<Rightarrow> (d', payload # out))"
proof -
  define body where "body = payload @ [ucast (CRC16 payload), ucast (drop_bit 8 (CRC16 payload))]"
  have len: "length body < maxFrame" using assms(3) by (simp add: body_def maxFrame_def)
  have "feeds d (encodeFrame payload @ bs)
      = feeds (d\<lparr>buf := []\<rparr>) (concat (map escape_byte body) @ eot # bs)"
    using assms(1) by (simp add: encodeFrame_def Let_def feed_soh body_def split: prod.splits)
  also have "\<dots> = feeds (d\<lparr>buf := body\<rparr>) (eot # bs)"
    using assms(1) len by (subst feeds_escaped) auto
  also have "\<dots> = (case feeds (d\<lparr>buf := []\<rparr>) bs of (d', out) \<Rightarrow> (d', payload # out))"
    using feed_eot_frame [of "d\<lparr>buf := body\<rparr>" payload] assms len by (simp add: body_def)
  finally show ?thesis .
qed

lemma feed_sound:
  assumes "feed d b = (d', Some p)"
  shows "\<exists>lo hi. buf d = p @ [lo, hi] \<and> ucast lo OR push_bit 8 (ucast hi) = CRC16 p \<and> p \<noteq> []
    \<and> b = eot \<and> \<not> inDLE d \<and> length p \<le> 250"
proof -
  from assms have len: "length (buf d) < maxFrame" and "2 < length (buf d)" and b: "b = eot" "\<not> inDLE d"
    and p: "p = take (length (buf d) - 2) (buf d)"
    and crc: "CRC16 p = ucast (buf d ! (length (buf d) - 2)) OR push_bit 8 (ucast (buf d ! (length (buf d) - 1)))"
    by (auto simp: feed_def reset_def Let_def split: if_splits)
  then obtain ys lo hi where "buf d = ys @ [lo, hi]" using length_ge_2_split [of "buf d"] by auto
  with p crc len \<open>2 < length (buf d)\<close> b show ?thesis
    by (auto simp: nth_append maxFrame_def)
qed

section \<open>The framing contract\<close>

text \<open>
  What the session layer relies on: \<open>enc\<close> makes a frame of an acceptable message, and a
  receiver that is \<open>ready\<close> delivers exactly that message and is ready again. A stream of
  frames then delivers the messages in order.
\<close>

locale framing =
  fixes enc :: "'m \<Rightarrow> 'b list"
    and recv :: "'r \<Rightarrow> 'b list \<Rightarrow> 'r \<times> 'm list"
    and ready :: "'r \<Rightarrow> bool"
    and good :: "'m \<Rightarrow> bool"
  assumes recv_Nil: "recv r [] = (r, [])"
    and recv_frame: "ready r \<Longrightarrow> good m \<Longrightarrow>
      \<exists>r'. ready r' \<and> recv r (enc m @ bs) = (fst (recv r' bs), m # snd (recv r' bs))"
begin

lemma recv_stream:
  "ready r \<Longrightarrow> list_all good ms \<Longrightarrow>
    \<exists>r'. ready r' \<and> recv r (concat (map enc ms) @ bs) = (fst (recv r' bs), ms @ snd (recv r' bs))"
proof (induction ms arbitrary: r)
  case Nil
  then show ?case by (intro exI [of _ r]) simp
next
  case (Cons m ms)
  then have "good m" "list_all good ms" by simp_all
  obtain r1 where r1: "ready r1"
    "recv r (enc m @ concat (map enc ms) @ bs)
      = (fst (recv r1 (concat (map enc ms) @ bs)), m # snd (recv r1 (concat (map enc ms) @ bs)))"
    using recv_frame [OF \<open>ready r\<close> \<open>good m\<close>, of "concat (map enc ms) @ bs"] by blast
  from Cons.IH [OF r1(1) \<open>list_all good ms\<close>] r1(2) show ?case by auto
qed

lemma recv_stream_exact:
  assumes "ready r" "list_all good ms"
  shows "snd (recv r (concat (map enc ms))) = ms" "ready (fst (recv r (concat (map enc ms))))"
  using recv_stream [OF assms, of "[]"] by (auto simp: recv_Nil)

end

definition frame_ok :: "byte list \<Rightarrow> bool" where
  "frame_ok p = (p \<noteq> [] \<and> length p < 251)"

interpretation link: framing encodeFrame feeds "\<lambda>d. \<not> inDLE d" frame_ok
proof unfold_locales
  fix r :: decoder and p bs
  assume "\<not> inDLE r" "frame_ok p"
  then show "\<exists>r'. \<not> inDLE r' \<and> feeds r (encodeFrame p @ bs) = (fst (feeds r' bs), p # snd (feeds r' bs))"
    by (intro exI [of _ "r\<lparr>buf := []\<rparr>"]) (auto simp: frame_ok_def feed_roundtrip split: prod.splits)
qed simp

section \<open>Properties of the link layer\<close>

text \<open>C18: the table-driven CRC of \<open>crc16From\<close>, continued from any register value, is the
  bit-serial division by the CCITT polynomial, most significant bit first.\<close>

theorem crc16From_is_serial: "crc16From crc data = crc_serial crc data"
  by (rule crc16From_serial)

text \<open>Changing one byte anywhere in the data always changes \<open>CRC16\<close>.\<close>

theorem CRC16_detects_byte:
  assumes "a \<noteq> b"
  shows "CRC16 (xs @ a # ys) \<noteq> CRC16 (xs @ b # ys)"
  using assms by (auto simp: CRC16_def crc16From_append dest!: crc16From_inj crc_byte_data_inj)

theorem CRC16_detects_byte_witness: "CRC16 ([1] @ 2 # [3]) \<noteq> CRC16 ([1] @ 0x12 # [3])"
  by (rule CRC16_detects_byte) simp

text \<open>C6: a stream of encoded frames, each of 1 to 250 payload bytes and however many of
  them look like framing bytes, is decoded to exactly the payloads in order, from every
  decoder that is not inside an escape, whatever partial frame it holds.\<close>

theorem frames_roundtrip:
  assumes "\<not> inDLE d" "\<forall>p\<in>set ps. p \<noteq> [] \<and> length p < 251"
  shows "snd (feeds d (concat (map encodeFrame ps))) = ps
    \<and> \<not> inDLE (fst (feeds d (concat (map encodeFrame ps))))"
  using link.recv_stream_exact [of d ps] assms by (simp add: frame_ok_def list_all_iff)

theorem frames_roundtrip_witness:
  "snd (feeds \<lparr>buf = [9], inDLE = False\<rparr> (concat (map encodeFrame [[1, 4, 0x10], [2]]))) = [[1, 4, 0x10], [2]]"
  using frames_roundtrip [of "\<lparr>buf = [9], inDLE = False\<rparr>" "[[1, 4, 0x10], [2]]"] by simp

text \<open>C19: whatever bytes arrive, \<open>feed\<close> hands up a payload only on an unescaped end of
  frame, and then the bytes collected are that payload (1 to 250 bytes) followed by its
  own CRC, low byte first.\<close>

theorem feed_delivers_checked:
  assumes "feed d b = (d', Some p)"
  shows "b = eot \<and> \<not> inDLE d \<and> p \<noteq> [] \<and> length p \<le> 250
    \<and> buf d = p @ [ucast (CRC16 p), ucast (drop_bit 8 (CRC16 p))]"
proof -
  from feed_sound [OF assms] obtain lo hi where f: "buf d = p @ [lo, hi]"
    "ucast lo OR push_bit 8 (ucast hi) = CRC16 p" "p \<noteq> []" "b = eot" "\<not> inDLE d" "length p \<le> 250"
    by blast
  from crc_word_bytes [of lo hi] f show ?thesis by simp
qed

theorem feed_delivers_checked_witness:
  "feed \<lparr>buf = [5, 0xa5, 0x50], inDLE = False\<rparr> eot = (\<lparr>buf = [], inDLE = False\<rparr>, Some [5])
   \<and> [5 :: byte, 0xa5, 0x50] = [5] @ [ucast (CRC16 [5]), ucast (drop_bit 8 (CRC16 [5]))]"
proof -
  have f: "feed \<lparr>buf = [5, 0xa5, 0x50], inDLE = False\<rparr> eot = (\<lparr>buf = [], inDLE = False\<rparr>, Some [5])"
    by code_simp
  from feed_delivers_checked [OF f] f show ?thesis by simp
qed

text \<open>The decoder's buffer never exceeds \<open>maxFrame\<close> bytes, however long the noise.\<close>

theorem decoder_bounded:
  "length (buf (fst (feeds \<lparr>buf = [], inDLE = False\<rparr> bs))) \<le> 0xFD"
  using feeds_buf_bound [of "\<lparr>buf = [], inDLE = False\<rparr>" bs] by (simp add: maxFrame_def)

end
