(* ===== verification/BootHex.thy ===== *)
theory BootHex
  imports BootFrame
begin

unbundle bit_operations_syntax

text \<open>
  Intel HEX firmware files (src/rst/boot/hex.go): \<open>decodeRecord\<close>, \<open>ParseHex\<close> and the
  \<open>Image\<close> it builds. The 5 MiB array \<open>flat\<close> is a function from offsets to bytes that is
  \<open>0xFF\<close> where nothing was written. The reader is its text and the error it ends with
  (none for end of file); \<open>bufio.Scanner\<close> splits it into lines of less than 1 MiB.
  The results: a record is accepted exactly when it is a well-formed one, the image is
  aligned and inside program flash, and its CRC is that of the memory which the data
  records describe, the later record winning.
\<close>

section \<open>The functions of hex.go\<close>

definition kseg0 :: u32 where "kseg0 = 0x80000000"
definition bootFlash :: u32 where "bootFlash = 0x9FC00000"
definition imageBase :: u32 where "imageBase = 0x9D000000"
definition imageSize :: u32 where "imageSize = 0x500000"

definition recData :: byte where "recData = 0x00"
definition recEOF :: byte where "recEOF = 0x01"
definition recExtSeg :: byte where "recExtSeg = 0x02"
definition recExtLin :: byte where "recExtLin = 0x04"

record Image =
  Records :: "byte list list"
  Start :: u32
  Length :: u32
  CRC :: u16

definition DataBytes :: "Image \<Rightarrow> nat" where
  "DataBytes img = sum_list (map (\<lambda>r. if r ! 3 = recData then unat (r ! 0) else 0) (Records img))"

text \<open>\<open>hex.DecodeString\<close>: pairs of hexadecimal digits of either case.\<close>

definition hex_digit :: "char \<Rightarrow> byte option" where
  "hex_digit c =
     (let n = of_char c :: nat
      in if 48 \<le> n \<and> n \<le> 57 then Some (of_nat (n - 48))
         else if 97 \<le> n \<and> n \<le> 102 then Some (of_nat (n - 87))
         else if 65 \<le> n \<and> n \<le> 70 then Some (of_nat (n - 55))
         else None)"

definition InvalidByteError :: "char \<Rightarrow> gerr" where
  "InvalidByteError c = Errorf ''encoding/hex: invalid byte: %#U'' [AChr c] None"

definition hexErrLength :: gerr where
  "hexErrLength = ErrNew ''encoding/hex: odd length hex string''"

fun hex_DecodeString :: "string \<Rightarrow> gerr + byte list" where
  "hex_DecodeString [] = Inr []"
| "hex_DecodeString [p] = Inl (if hex_digit p = None then InvalidByteError p else hexErrLength)"
| "hex_DecodeString (p # q # s) =
     (case hex_digit p of None \<Rightarrow> Inl (InvalidByteError p)
      | Some a \<Rightarrow> (case hex_digit q of None \<Rightarrow> Inl (InvalidByteError q)
         | Some b \<Rightarrow> (case hex_DecodeString s of Inl e \<Rightarrow> Inl e
            | Inr bs \<Rightarrow> Inr ((push_bit 4 a OR b) # bs))))"

definition decodeRecord :: "string \<Rightarrow> gerr + byte list" where
  "decodeRecord text =
     (if \<not> HasPrefix text '':'' then Inl (Errorf ''missing ':' start code'' [] None)
      else case hex_DecodeString (drop 1 text) of
        Inl e \<Rightarrow> Inl e
      | Inr rec \<Rightarrow>
          if length rec < 5 then
            Inl (Errorf ''record too short (%d bytes)'' [AInt (int (length rec))] None)
          else if int (unat (rec ! 0)) \<noteq> int (length rec) - 5 then
            Inl (Errorf ''byte count %d does not match %d data bytes''
              [AInt (uint (rec ! 0)), AInt (int (length rec) - 5)] None)
          else if foldl (+) 0 rec \<noteq> 0 then Inl (Errorf ''bad checksum'' [] None)
          else Inr rec)"

text \<open>The variables of \<open>ParseHex\<close>.\<close>

record hexstate =
  recs :: "byte list list"
  flat :: "nat \<Rightarrow> byte"
  extLin :: u32
  extSeg :: u32
  startA :: u32
  endA :: u32
  sawData :: bool

definition hex_init :: hexstate where
  "hex_init = \<lparr>recs = [], flat = (\<lambda>_. 0xFF), extLin = 0, extSeg = 0,
     startA = 0xFFFFFFFF, endA = 0, sawData = False\<rparr>"

text \<open>\<open>copy(flat[i:], data)\<close>, inside the array.\<close>

definition copy_at :: "(nat \<Rightarrow> byte) \<Rightarrow> nat \<Rightarrow> byte list \<Rightarrow> nat \<Rightarrow> byte" where
  "copy_at f i xs = (\<lambda>j. if i \<le> j \<and> j < i + length xs then xs ! (j - i) else f j)"

definition be16 :: "byte \<Rightarrow> byte \<Rightarrow> u32" where
  "be16 hi lo = push_bit 8 (ucast hi) OR ucast lo"

text \<open>The switch on the record type, for one record that \<open>decodeRecord\<close> accepted.\<close>

definition hex_record :: "int \<Rightarrow> byte list \<Rightarrow> hexstate \<Rightarrow> gerr + hexstate" where
  "hex_record line rec s0 =
     (let s = s0\<lparr>recs := recs s0 @ [rec]\<rparr>;
          count = ucast (rec ! 0) :: u32;
          typ = rec ! 3;
          data = take (unat count) (drop 4 rec);
          offset = be16 (rec ! 1) (rec ! 2)
      in if (typ = recExtSeg \<or> typ = recExtLin) \<and> count < 2 then
           Inl (Errorf ''hex line %d: address record type 0x%02X carries %d bytes, want 2''
             [AInt line, AInt (uint typ), AInt (uint count)] None)
         else if typ = recData then
           (let addr = (extLin s OR extSeg s OR offset) OR kseg0
            in if addr \<ge> bootFlash then Inr s
               else if addr < imageBase \<or> uint addr + uint count > uint imageBase + uint imageSize then
                 Inl (Errorf ''hex line %d: data address 0x%08X outside the program-flash window 0x%08X-0x%08X''
                   [AInt line, AInt (uint addr), AInt (uint imageBase), AInt (uint (imageBase + imageSize))] None)
               else Inr (s\<lparr>flat := copy_at (flat s) (unat (addr - imageBase)) data,
                            startA := (if addr < startA s then addr else startA s),
                            endA := (if addr + count > endA s then addr + count else endA s),
                            sawData := True\<rparr>))
         else if typ = recExtSeg then
           Inr (s\<lparr>extSeg := push_bit 4 (be16 (data ! 0) (data ! 1)), extLin := 0\<rparr>)
         else if typ = recExtLin then
           Inr (s\<lparr>extLin := push_bit 16 (be16 (data ! 0) (data ! 1)), extSeg := 0\<rparr>)
         else Inr (s\<lparr>extSeg := 0, extLin := 0\<rparr>))"

text \<open>One turn of the scanner loop: blank lines are skipped.\<close>

definition hex_line :: "int \<Rightarrow> string \<Rightarrow> hexstate \<Rightarrow> gerr + hexstate" where
  "hex_line line raw s =
     (let text = TrimSpace raw
      in if text = [] then Inr s
         else case decodeRecord text of
           Inl e \<Rightarrow> Inl (Errorf ''hex line %d: %w'' [AInt line] (Some e))
         | Inr rec \<Rightarrow> hex_record line rec s)"

text \<open>\<open>bufio.ScanLines\<close>: the text between line feeds; the last line counts when it is not
  empty. A trailing carriage return is white space to \<open>TrimSpace\<close>.\<close>

function scan_lines :: "string \<Rightarrow> string list" where
  "scan_lines s =
     (if s = [] then []
      else takeWhile (\<lambda>c. c \<noteq> CHR 0x0A) s # scan_lines (drop 1 (dropWhile (\<lambda>c. c \<noteq> CHR 0x0A) s)))"
  by pat_completeness auto
termination
proof (relation "measure length")
  fix s :: string
  assume "s \<noteq> []"
  then show "(drop 1 (dropWhile (\<lambda>c. c \<noteq> CHR 0x0A) s), s) \<in> measure length"
    using length_dropWhile_le [of "\<lambda>c. c \<noteq> CHR 0x0A" s] by (cases s) (auto simp: less_Suc_eq_le)
qed simp

declare scan_lines.simps [simp del]

definition bufioErrTooLong :: gerr where
  "bufioErrTooLong = ErrNew ''bufio.Scanner: token too long''"

text \<open>The loop: a line of 1 MiB or more ends it with the scanner's error.\<close>

fun hex_loop :: "int \<Rightarrow> string list \<Rightarrow> gerr option \<Rightarrow> hexstate \<Rightarrow> gerr + hexstate" where
  "hex_loop line [] rerr s = (case rerr of None \<Rightarrow> Inr s | Some e \<Rightarrow> Inl e)"
| "hex_loop line (raw # rest) rerr s =
     (if length raw \<ge> 1024 * 1024 then Inl bufioErrTooLong
      else case hex_line line raw s of
        Inl e \<Rightarrow> Inl e
      | Inr s' \<Rightarrow> hex_loop (line + 1) rest rerr s')"

definition hex_finish :: "hexstate \<Rightarrow> gerr + Image" where
  "hex_finish s =
     (if \<not> sawData s then Inl (Errorf ''hex file has no program-flash data records'' [] None)
      else if last (recs s) ! 3 \<noteq> recEOF then
        Inl (Errorf ''hex file does not end with an EOF record (last type 0x%02X)''
          [AInt (uint (last (recs s) ! 3))] None)
      else
        let start = startA s - startA s mod 4;
            e = endA s + endA s mod 4;
            e = (if e > imageBase + imageSize then imageBase + imageSize else e);
            len = e - start;
            lo = unat (start - imageBase)
        in Inr \<lparr>Records = recs s, Start = start, Length = len,
                CRC = CRC16 (map (flat s) [lo ..< lo + unat len])\<rparr>)"

definition ParseHex :: "string \<Rightarrow> gerr option \<Rightarrow> gerr + Image" where
  "ParseHex r rerr =
     (case hex_loop 1 (scan_lines r) rerr hex_init of
        Inl e \<Rightarrow> Inl e
      | Inr s \<Rightarrow> hex_finish s)"

section \<open>Records\<close>

text \<open>A well-formed record: its count byte matches, and its bytes sum to zero modulo 256.\<close>

definition rec_ok :: "byte list \<Rightarrow> bool" where
  "rec_ok r = (5 \<le> length r \<and> length r = unat (r ! 0) + 5 \<and> sum_list r = 0)"

text \<open>The text of a record, in upper-case digits.\<close>

definition hex_char :: "byte \<Rightarrow> char" where
  "hex_char d = (if d < 10 then char_of (unat d + 48) else char_of (unat d + 55))"

definition hex_text :: "byte list \<Rightarrow> string" where
  "hex_text bs = concat (map (\<lambda>b. [hex_char (drop_bit 4 b), hex_char (b AND 0x0f)]) bs)"

lemma foldl_plus_sum_list: "foldl (+) a xs = a + sum_list (xs :: byte list)"
  by (induction xs arbitrary: a) (auto simp: add.assoc)

lemma hex_digit_hex_char:
  assumes "d < 16" shows "hex_digit (hex_char d) = Some d"
proof -
  have u: "unat d < 16" using assms by (simp add: word_less_nat_alt)
  show ?thesis
  proof (cases "d < 10")
    case True
    then have "unat d < 10" by (simp add: word_less_nat_alt)
    with True show ?thesis by (simp add: hex_digit_def hex_char_def Let_def of_char_of)
  next
    case False
    then have "10 \<le> unat d" by (simp add: word_less_nat_alt)
    with False u show ?thesis by (simp add: hex_digit_def hex_char_def Let_def of_char_of)
  qed
qed

lemma nibbles_join: "push_bit 4 (drop_bit 4 b) OR (b AND 0x0f) = (b :: byte)"
proof -
  have "b AND 0x0f = take_bit 4 b" by (simp add: take_bit_eq_mask mask_numeral)
  then show ?thesis
    by (auto intro!: bit_word_eqI simp: bit_or_iff bit_push_bit_iff bit_drop_bit_eq bit_take_bit_iff)
qed

lemma byte_unat_less: "unat (b :: byte) < 256"
  using unsigned_less [of b] by simp

lemma nibbles_small: "drop_bit 4 b < 16" "b AND 0x0f < (16 :: byte)"
proof -
  have "unat (drop_bit 4 b) < 16"
    using byte_unat_less [of b] by (simp add: drop_bit_eq_div unat_div)
  then show "drop_bit 4 b < 16" by (simp add: word_less_nat_alt)
  have "b AND 0x0f \<le> 0x0f" by (rule word_and_le1)
  then show "b AND 0x0f < 16" by (rule le_less_trans) simp
qed

lemma hex_DecodeString_text: "hex_DecodeString (hex_text bs) = Inr bs"
proof (induction bs)
  case (Cons b bs)
  then show ?case
    by (simp add: hex_text_def hex_digit_hex_char nibbles_small nibbles_join)
qed (simp add: hex_text_def)

lemma decodeRecord_text: "rec_ok r \<Longrightarrow> decodeRecord (CHR '':'' # hex_text r) = Inr r"
  by (auto simp: decodeRecord_def HasPrefix_def hex_DecodeString_text rec_ok_def foldl_plus_sum_list)

lemma decodeRecord_ok:
  assumes "decodeRecord t = Inr r" shows "rec_ok r"
proof -
  from assms have "5 \<le> length r" "int (unat (r ! 0)) = int (length r) - 5" "foldl (+) 0 r = 0"
    by (simp_all add: decodeRecord_def split: if_splits sum.splits)
  moreover from this have "length r = unat (r ! 0) + 5" by linarith
  ultimately show ?thesis by (simp add: rec_ok_def foldl_plus_sum_list)
qed

section \<open>The memory a file describes\<close>

text \<open>
  A reference reading of the records: an upper address half, set by a linear address
  record and cleared by every other record that is no data, and the address of a data
  record as seen by the processor (in KSEG0). Data for boot flash does not count.
\<close>

definition rec_data :: "byte list \<Rightarrow> byte list" where
  "rec_data r = take (unat (r ! 0)) (drop 4 r)"

definition rec_upper :: "nat \<Rightarrow> byte list \<Rightarrow> nat" where
  "rec_upper u r = (if r ! 3 = recData then u
     else if r ! 3 = recExtLin then 256 * unat (r ! 4) + unat (r ! 5) else 0)"

definition rec_addr :: "nat \<Rightarrow> byte list \<Rightarrow> nat" where
  "rec_addr u r = (let a = 65536 * u + 256 * unat (r ! 1) + unat (r ! 2)
     in if a < 2 ^ 31 then a + 2 ^ 31 else a)"

definition rec_writes :: "nat \<Rightarrow> byte list \<Rightarrow> (nat \<times> byte list) list" where
  "rec_writes u r =
     (if r ! 3 = recData \<and> rec_addr u r < unat bootFlash then [(rec_addr u r, rec_data r)] else [])"

fun flash_writes :: "nat \<Rightarrow> byte list list \<Rightarrow> (nat \<times> byte list) list" where
  "flash_writes u [] = []"
| "flash_writes u (r # rs) = rec_writes u r @ flash_writes (rec_upper u r) rs"

text \<open>The byte at an address: of the last write that covers it, else erased flash.\<close>

definition covers :: "nat \<Rightarrow> nat \<times> byte list \<Rightarrow> bool" where
  "covers a w = (fst w \<le> a \<and> a < fst w + length (snd w))"

definition flash_mem :: "(nat \<times> byte list) list \<Rightarrow> nat \<Rightarrow> byte" where
  "flash_mem ws a = (case find (covers a) (rev ws) of None \<Rightarrow> 0xFF | Some w \<Rightarrow> snd w ! (a - fst w))"

lemma flash_writes_snoc:
  "flash_writes u (rs @ [r]) = flash_writes u rs @ rec_writes (foldl rec_upper u rs) r"
  by (induction rs arbitrary: u) auto

lemma flash_mem_Nil [simp]: "flash_mem [] a = 0xFF"
  by (simp add: flash_mem_def)

lemma flash_mem_snoc:
  "flash_mem (ws @ [(b, d)]) a = (if b \<le> a \<and> a < b + length d then d ! (a - b) else flash_mem ws a)"
  by (simp add: flash_mem_def covers_def)

section \<open>Addresses in 32 bits\<close>

lemma unat_be16: "unat (be16 hi lo) = 256 * unat hi + unat lo"
proof -
  have d: "push_bit 8 (ucast hi) AND ucast lo = (0 :: u32)"
    by (rule bit_word_eqI) (auto simp: bit_and_iff bit_push_bit_iff bit_unsigned_iff dest: bit_imp_le_length)
  have "be16 hi lo = push_bit 8 (ucast hi) + ucast lo"
    unfolding be16_def by (rule disjunctive_add_eq_or [OF d, symmetric])
  moreover have "unat hi < 256" "unat lo < 256" by (rule byte_unat_less)+
  ultimately show ?thesis
    by (simp add: push_bit_eq_mult unat_word_ariths unsigned_ucast_eq take_bit_eq_mod)
qed

lemma unat_shift16_be16: "unat (push_bit 16 (be16 hi lo)) = 65536 * (256 * unat hi + unat lo)"
proof -
  have "unat hi < 256" "unat lo < 256" by (rule byte_unat_less)+
  then show ?thesis
    unfolding push_bit_eq_mult by (simp add: unat_word_ariths unat_be16)
qed

lemma u32_less_take_bit: "n \<le> 32 \<Longrightarrow> unat (w :: u32) < 2 ^ n \<longleftrightarrow> take_bit n w = w"
  by (simp add: word_eq_iff_unsigned [where 'a = nat] unsigned_take_bit_eq take_bit_nat_eq_self_iff)

lemma or_bound: "n \<le> 32 \<Longrightarrow> unat (v :: u32) < 2 ^ n \<Longrightarrow> unat (w :: u32) < 2 ^ n \<Longrightarrow> unat (v OR w) < 2 ^ n"
  by (simp add: u32_less_take_bit take_bit_or)

lemma uint_sum_less: "uint a + uint b < uint c + uint d \<longleftrightarrow> unat a + unat b < unat c + unat d"
  for a b c d :: u32
  unfolding uint_nat by linarith

lemma kseg0_bit: "bit kseg0 n \<longleftrightarrow> n = 31"
proof -
  have k: "kseg0 = push_bit 31 1" by (simp add: kseg0_def)
  show ?thesis unfolding k bit_push_bit_iff by (auto simp: bit_1_iff)
qed

lemma unat_or_kseg0: "unat (w OR kseg0) = (if unat w < 2 ^ 31 then unat w + 2 ^ 31 else unat w)"
proof (cases "unat w < 2 ^ 31")
  case True
  then have "take_bit 31 w = w" using u32_less_take_bit [of 31 w] by simp
  then have nb: "\<not> bit w 31" by (metis bit_take_bit_iff less_irrefl)
  have "w AND kseg0 = 0"
    by (rule bit_word_eqI) (use nb in \<open>auto simp: kseg0_bit bit_and_iff\<close>)
  then have "w OR kseg0 = w + kseg0" by (simp add: disjunctive_add_eq_or)
  with True show ?thesis by (simp add: unat_word_ariths kseg0_def)
next
  case False
  then have "take_bit 31 w \<noteq> w" using u32_less_take_bit [of 31 w] by simp
  then have b: "bit w 31"
  proof (rule contrapos_np)
    assume "\<not> bit w 31"
    then show "take_bit 31 w = w"
      by (intro bit_word_eqI) (auto simp: bit_take_bit_iff less_Suc_eq_le numeral_eq_Suc le_less)
  qed
  have "w OR kseg0 = w"
    by (rule bit_word_eqI) (use b in \<open>auto simp: kseg0_bit bit_or_iff\<close>)
  with False show ?thesis by simp
qed


lemma or_shift16:
  assumes "unat v = 65536 * u" "unat w < 65536"
  shows "unat ((v :: u32) OR w) = 65536 * u + unat w"
proof -
  have "take_bit 16 (unat v) = 0" by (simp add: assms(1) take_bit_eq_mod)
  then have "take_bit 16 v = 0"
    by (simp add: word_eq_iff_unsigned [where 'a = nat] unsigned_take_bit_eq)
  then have vb: "\<not> bit v k" if "k < 16" for k using that by (metis bit_0_eq bit_take_bit_iff bot_apply bot_bool_def)
  have "take_bit 16 w = w" using assms(2) u32_less_take_bit [of 16 w] by simp
  then have wb: "bit w k \<Longrightarrow> k < 16" for k by (metis bit_take_bit_iff)
  have "v AND w = 0" by (rule bit_word_eqI) (use vb wb in \<open>auto simp: bit_and_iff\<close>)
  then have e: "v OR w = v + w" by (simp add: disjunctive_add_eq_or)
  have "unat v < 2 ^ 32" using unsigned_less [of v] by simp
  then have "65536 * u + unat w < 2 ^ 32" using assms by simp
  with e assms show ?thesis by (simp add: unat_word_ariths)
qed

lemma unat_be16_less: "unat (be16 hi lo) < 65536"
  using byte_unat_less [of hi] byte_unat_less [of lo] by (simp add: unat_be16)

section \<open>The loop invariant\<close>

definition in_window :: "hexstate \<Rightarrow> bool" where
  "in_window s = (unat imageBase \<le> unat (startA s) \<and> unat (startA s) \<le> unat (endA s)
     \<and> unat (endA s) \<le> unat imageBase + unat imageSize)"

definition addr_inv :: "nat \<Rightarrow> hexstate \<Rightarrow> bool" where
  "addr_inv u s = (unat (extLin s) = 65536 * u
     \<and> (extSeg s = 0 \<or> u = 0 \<and> unat (extSeg s) < 2 ^ 20))"

text \<open>Everything the loop keeps: the variables against the reference reading of the
  records so far.\<close>

definition hex_inv :: "hexstate \<Rightarrow> bool" where
  "hex_inv s =
     (let ws = flash_writes 0 (recs s)
      in list_all rec_ok (recs s)
       \<and> addr_inv (foldl rec_upper 0 (recs s)) s
       \<and> (\<forall>j. flat s j = flash_mem ws (unat imageBase + j))
       \<and> (sawData s \<longleftrightarrow> ws \<noteq> [])
       \<and> (if sawData s then in_window s else startA s = 0xFFFFFFFF \<and> endA s = 0)
       \<and> (\<forall>w\<in>set ws. unat (startA s) \<le> fst w \<and> fst w + length (snd w) \<le> unat (endA s))
       \<and> (ws \<noteq> [] \<longrightarrow> unat (startA s) \<in> fst ` set ws \<and> unat (endA s) \<in> (\<lambda>w. fst w + length (snd w)) ` set ws))"

lemma hex_inv_init: "hex_inv hex_init"
  by (simp add: hex_inv_def hex_init_def addr_inv_def)

text \<open>The address of a data record: below the window with a segment base, else the
  reference address.\<close>

lemma data_addr:
  assumes "addr_inv u s" "addr = (extLin s OR extSeg s OR be16 (r ! 1) (r ! 2)) OR kseg0"
    "\<not> unat addr < unat imageBase"
  shows "unat addr = rec_addr u r"
proof (cases "extSeg s = 0")
  case True
  have "unat (extLin s OR be16 (r ! 1) (r ! 2)) = 65536 * u + (256 * unat (r ! 1) + unat (r ! 2))"
    using assms(1) or_shift16 [OF _ unat_be16_less, of "extLin s" u] by (simp add: addr_inv_def unat_be16)
  moreover have "addr = (extLin s OR be16 (r ! 1) (r ! 2)) OR kseg0" using True assms(2) by simp
  ultimately show ?thesis unfolding rec_addr_def Let_def by (simp only: unat_or_kseg0 add.assoc)
next
  case False
  with assms(1) have "extLin s = 0" "unat (extSeg s) < 2 ^ 20"
    by (auto simp: addr_inv_def unat_eq_zero)
  moreover have "unat (be16 (r ! 1) (r ! 2)) < 2 ^ 20" using unat_be16_less [of "r ! 1" "r ! 2"] by simp
  ultimately have "unat (extLin s OR extSeg s OR be16 (r ! 1) (r ! 2)) < 2 ^ 20"
    using or_bound [of 20 "extSeg s" "be16 (r ! 1) (r ! 2)"] by simp
  then have "unat addr < unat imageBase"
    unfolding assms(2) unat_or_kseg0 by (simp add: imageBase_def)
  with assms(3) show ?thesis by simp
qed


lemma rec_data_length: "rec_ok r \<Longrightarrow> length (rec_data r) = unat (r ! 0)"
  by (simp add: rec_ok_def rec_data_def)

text \<open>An accepted data record of program flash.\<close>

lemma hex_inv_data:
  assumes inv: "hex_inv s" and ok: "rec_ok r" and ty: "r ! 3 = recData"
    and addr: "addr = (extLin s OR extSeg s OR be16 (r ! 1) (r ! 2)) OR kseg0"
    and win: "\<not> bootFlash \<le> addr" "\<not> addr < imageBase"
      "uint addr + uint (ucast (r ! 0) :: u32) \<le> uint imageBase + uint imageSize"
  shows "hex_inv (s\<lparr>recs := recs s @ [r],
      flat := copy_at (flat s) (unat (addr - imageBase)) (rec_data r),
      startA := (if addr < startA s then addr else startA s),
      endA := (if addr + ucast (r ! 0) > endA s then addr + ucast (r ! 0) else endA s),
      sawData := True\<rparr>)"
proof -
  let ?u = "foldl rec_upper 0 (recs s)" and ?ws = "flash_writes 0 (recs s)"
  let ?stop = "addr + ucast (r ! 0)"
  have ge: "unat imageBase \<le> unat addr" using win(2) by (simp add: word_less_nat_alt)
  have lt: "unat addr < unat bootFlash" using win(1) by (simp add: word_le_nat_alt)
  have cnt: "unat (ucast (r ! 0) :: u32) = unat (r ! 0)"
    using byte_unat_less [of "r ! 0"] by (simp add: unsigned_ucast_eq take_bit_eq_mod)
  have le: "unat addr + unat (r ! 0) \<le> unat imageBase + unat imageSize"
    using win(3) unfolding not_less [symmetric] uint_sum_less cnt .
  have e: "unat ?stop = unat addr + unat (r ! 0)"
    using le cnt by (simp add: unat_word_ariths imageBase_def imageSize_def)
  have ra: "rec_addr ?u r = unat addr"
    using data_addr [of ?u s addr r] inv addr ge by (simp add: hex_inv_def Let_def)
  have off: "unat (addr - imageBase) = unat addr - unat imageBase"
    using win(2) by (simp add: unat_sub word_less_nat_alt word_le_nat_alt)
  have ws: "flash_writes 0 (recs s @ [r]) = ?ws @ [(unat addr, rec_data r)]"
    by (simp add: flash_writes_snoc rec_writes_def ty ra lt)
  have up: "rec_upper ?u r = ?u" by (simp add: rec_upper_def ty)
  define t where "t = s\<lparr>recs := recs s @ [r],
      flat := copy_at (flat s) (unat (addr - imageBase)) (rec_data r),
      startA := (if addr < startA s then addr else startA s),
      endA := (if addr + ucast (r ! 0) > endA s then addr + ucast (r ! 0) else endA s),
      sawData := True\<rparr>"
  have sel: "recs t = recs s @ [r]" "flat t = copy_at (flat s) (unat (addr - imageBase)) (rec_data r)"
    "sawData t" "extLin t = extLin s" "extSeg t = extSeg s"
    by (simp_all add: t_def)
  have st: "unat (startA t) = min (unat addr) (unat (startA s))"
    and en: "unat (endA t) = max (unat addr + unat (r ! 0)) (unat (endA s))"
    by (auto simp: t_def word_less_nat_alt e)
  have win': "in_window t"
    using inv ge le by (auto simp: in_window_def st en hex_inv_def Let_def imageBase_def split: if_splits)
  have mem: "flat t j = flash_mem (?ws @ [(unat addr, rec_data r)]) (unat imageBase + j)" for j
    using inv ge by (auto simp: sel hex_inv_def Let_def copy_at_def flash_mem_snoc off add.commute)
  have cov: "\<forall>w\<in>set (?ws @ [(unat addr, rec_data r)]). unat (startA t) \<le> fst w \<and> fst w + length (snd w) \<le> unat (endA t)"
    using inv rec_data_length [OF ok] by (auto simp: hex_inv_def Let_def st en)
  have att: "unat (startA t) \<in> fst ` set (?ws @ [(unat addr, rec_data r)])
      \<and> unat (endA t) \<in> (\<lambda>w. fst w + length (snd w)) ` set (?ws @ [(unat addr, rec_data r)])"
  proof (cases "?ws = []")
    case True
    with inv have "startA s = 0xFFFFFFFF" "endA s = 0" by (auto simp: hex_inv_def Let_def)
    then show ?thesis using lt True rec_data_length [OF ok] by (simp add: st en bootFlash_def)
  next
    case False
    with inv show ?thesis using rec_data_length [OF ok] by (auto simp: hex_inv_def Let_def st en min_def max_def)
  qed
  have "hex_inv t"
    using inv ok win' mem cov att
    by (simp add: hex_inv_def Let_def sel ws up addr_inv_def)
  then show ?thesis by (simp only: t_def)
qed

lemma hex_inv_skip:
  assumes inv: "hex_inv s" and ok: "rec_ok r" and none: "rec_writes (foldl rec_upper 0 (recs s)) r = []"
    and addr: "addr_inv (rec_upper (foldl rec_upper 0 (recs s)) r) (s\<lparr>extLin := l, extSeg := g\<rparr>)"
  shows "hex_inv (s\<lparr>recs := recs s @ [r], extLin := l, extSeg := g\<rparr>)"
  using assms by (simp add: hex_inv_def Let_def flash_writes_snoc addr_inv_def in_window_def split: if_splits)

lemma rec_types [simp]: "recData \<noteq> recExtSeg" "recData \<noteq> recExtLin" "recExtSeg \<noteq> recData"
  "recExtLin \<noteq> recData" "recExtSeg \<noteq> recExtLin" "recExtLin \<noteq> recExtSeg"
  by (simp_all add: recData_def recExtSeg_def recExtLin_def)

lemma hex_record_data:
  assumes "r ! 3 = recData" "addr = (extLin s OR extSeg s OR be16 (r ! 1) (r ! 2)) OR kseg0"
    "take (unat (ucast (r ! 0) :: u32)) (drop 4 r) = d"
  shows "hex_record line r s = (if bootFlash \<le> addr then Inr (s\<lparr>recs := recs s @ [r]\<rparr>)
    else if addr < imageBase \<or> uint addr + uint (ucast (r ! 0) :: u32) > uint imageBase + uint imageSize then
      Inl (Errorf ''hex line %d: data address 0x%08X outside the program-flash window 0x%08X-0x%08X''
        [AInt line, AInt (uint addr), AInt (uint imageBase), AInt (uint (imageBase + imageSize))] None)
    else Inr (s\<lparr>recs := recs s @ [r], flat := copy_at (flat s) (unat (addr - imageBase)) d,
      startA := (if addr < startA s then addr else startA s),
      endA := (if addr + ucast (r ! 0) > endA s then addr + ucast (r ! 0) else endA s),
      sawData := True\<rparr>))"
  unfolding hex_record_def Let_def assms(3) assms(1) by (simp add: assms(2))

lemma hex_inv_record:
  assumes inv: "hex_inv s" and ok: "rec_ok r" and step: "hex_record line r s = Inr t"
  shows "hex_inv t \<and> recs t = recs s @ [r]"
proof -
  let ?u = "foldl rec_upper 0 (recs s)"
  let ?cnt = "ucast (r ! 0) :: u32"
  have cnt: "unat ?cnt = unat (r ! 0)"
    using byte_unat_less [of "r ! 0"] by (simp add: unsigned_ucast_eq take_bit_eq_mod)
  have d: "take (unat ?cnt) (drop 4 r) = rec_data r" by (simp add: rec_data_def cnt)
  have d01: "rec_data r ! 0 = r ! 4" "rec_data r ! 1 = r ! 5" if "\<not> ?cnt < 2"
    using that ok cnt by (auto simp: rec_data_def word_less_nat_alt rec_ok_def)
  have ainv: "addr_inv ?u s" using inv by (simp add: hex_inv_def Let_def)
  define addr where "addr = (extLin s OR extSeg s OR be16 (r ! 1) (r ! 2)) OR kseg0"
  consider (data) "r ! 3 = recData" | (seg) "r ! 3 = recExtSeg" | (lin) "r ! 3 = recExtLin"
    | (other) "r ! 3 \<noteq> recData" "r ! 3 \<noteq> recExtSeg" "r ! 3 \<noteq> recExtLin" by blast
  then show ?thesis
  proof cases
    case data
    show ?thesis
    proof (cases "bootFlash \<le> addr")
      case True
      with step have t: "t = s\<lparr>recs := recs s @ [r]\<rparr>" by (simp add: hex_record_data [OF data addr_def d])
      have "\<not> unat addr < unat imageBase" using True by (simp add: word_le_nat_alt bootFlash_def imageBase_def)
      from data_addr [OF ainv addr_def this] True have "rec_writes ?u r = []"
        by (simp add: rec_writes_def word_le_nat_alt)
      with inv ok ainv data show ?thesis
        using hex_inv_skip [of s r "extSeg s" "extLin s"] by (simp add: t rec_upper_def)
    next
      case False
      with step hex_inv_data [OF inv ok data addr_def] show ?thesis
        unfolding hex_record_data [OF data addr_def d] by (auto simp: not_less split: if_split_asm)
    qed
  next
    case seg
    with step d d01 have t: "t = s\<lparr>recs := recs s @ [r], extLin := 0, extSeg := push_bit 4 (be16 (r ! 4) (r ! 5))\<rparr>"
      by (auto simp: hex_record_def Let_def split: if_splits)
    have "unat (push_bit 4 (be16 (r ! 4) (r ! 5))) < 2 ^ 20"
      using unat_be16_less [of "r ! 4" "r ! 5"] unfolding push_bit_eq_mult by (simp add: unat_word_ariths)
    with inv ok seg show ?thesis
      unfolding t by (intro conjI hex_inv_skip)
        (auto simp: rec_writes_def rec_upper_def addr_inv_def)
  next
    case lin
    with step d d01 have t: "t = s\<lparr>recs := recs s @ [r], extLin := push_bit 16 (be16 (r ! 4) (r ! 5)), extSeg := 0\<rparr>"
      by (auto simp: hex_record_def Let_def split: if_splits)
    with inv ok lin show ?thesis
      unfolding t by (intro conjI hex_inv_skip)
        (auto simp: rec_writes_def rec_upper_def addr_inv_def unat_shift16_be16)
  next
    case other
    with step have t: "t = s\<lparr>recs := recs s @ [r], extLin := 0, extSeg := 0\<rparr>"
      by (auto simp: hex_record_def Let_def split: if_splits)
    from inv ok other show ?thesis
      unfolding t by (intro conjI hex_inv_skip) (auto simp: rec_writes_def rec_upper_def addr_inv_def)
  qed
qed

lemma hex_inv_line: "hex_inv s \<Longrightarrow> hex_line line raw s = Inr t \<Longrightarrow> hex_inv t"
  by (auto simp: hex_line_def Let_def split: if_splits sum.splits dest: hex_inv_record decodeRecord_ok)

lemma hex_inv_loop: "hex_inv s \<Longrightarrow> hex_loop line ls rerr s = Inr t \<Longrightarrow> hex_inv t"
  by (induction ls arbitrary: line s) (auto split: option.splits if_splits sum.splits dest: hex_inv_line)


section \<open>The image\<close>

lemma align_down: "unat (w - w mod 4) = unat w - unat w mod 4" for w :: u32
proof -
  have "w mod 4 \<le> w" by (simp add: word_le_nat_alt unat_mod)
  then show ?thesis by (simp add: unat_sub unat_mod)
qed

text \<open>What \<open>hex_finish\<close> computes, in natural numbers.\<close>

lemma hex_finish_range:
  assumes win: "in_window s" and fin: "hex_finish s = Inr img"
  defines "a \<equiv> unat (startA s) - unat (startA s) mod 4"
    and "b \<equiv> min (unat (endA s) + unat (endA s) mod 4) (unat imageBase + unat imageSize)"
  shows "unat (Start img) = a" "unat (Start img) + unat (Length img) = b" "unat imageBase \<le> a"
    "CRC img = CRC16 (map (flat s) [a - unat imageBase ..< b - unat imageBase])" "Records img = recs s"
    "sawData s" "last (recs s) ! 3 = recEOF"
proof -
  define e0 where "e0 = endA s + endA s mod 4"
  define e where "e = (if e0 > imageBase + imageSize then imageBase + imageSize else e0)"
  define st where "st = startA s - startA s mod 4"
  have img: "img = \<lparr>Records = recs s, Start = st, Length = e - st,
      CRC = CRC16 (map (flat s) [unat (st - imageBase) ..< unat (st - imageBase) + unat (e - st)])\<rparr>"
    and rest: "sawData s" "last (recs s) ! 3 = recEOF"
    using fin by (simp_all add: hex_finish_def Let_def e0_def e_def st_def split: if_splits)
  have "unat imageBase \<le> unat (startA s)" "unat (startA s) \<le> unat (endA s)"
    and hi: "unat (endA s) \<le> unat imageBase + unat imageSize"
    using win by (simp_all add: in_window_def)
  have st: "unat st = a" by (simp add: st_def a_def align_down)
  have ba: "unat imageBase \<le> a"
  proof -
    have "unat imageBase = 4 * (unat imageBase div 4)" by (simp add: imageBase_def)
    also have "\<dots> \<le> 4 * (unat (startA s) div 4)"
      using \<open>unat imageBase \<le> unat (startA s)\<close> by (simp add: div_le_mono)
    also have "\<dots> = a" unfolding a_def by (simp add: minus_mod_eq_mult_div)
    finally show ?thesis .
  qed
  have lim: "unat (imageBase + imageSize) = unat imageBase + unat imageSize"
    by (simp add: imageBase_def imageSize_def)
  have "unat (endA s) mod 4 < 4" by simp
  then have e0: "unat e0 = unat (endA s) + unat (endA s) mod 4"
    using hi by (simp add: e0_def unat_word_ariths unat_mod imageBase_def imageSize_def)
  have e: "unat e = b"
    by (auto simp: e_def b_def e0 lim word_less_nat_alt)
  have "a \<le> unat (startA s)" by (simp add: a_def)
  then have ab: "a \<le> b" using \<open>unat (startA s) \<le> unat (endA s)\<close> hi by (simp add: b_def)
  have len: "unat (e - st) = b - a" using ab by (simp add: unat_sub word_le_nat_alt e st)
  have off: "unat (st - imageBase) = a - unat imageBase"
    using ba by (simp add: unat_sub word_le_nat_alt st)
  show "unat (Start img) = a" by (simp add: img st)
  show "unat (Start img) + unat (Length img) = b" using ab by (simp add: img st len)
  show "unat imageBase \<le> a" by (rule ba)
  have "a - unat imageBase + (b - a) = b - unat imageBase" using ab ba by simp
  then show "CRC img = CRC16 (map (flat s) [a - unat imageBase ..< b - unat imageBase])"
    by (simp add: img len off)
  show "Records img = recs s" "sawData s" "last (recs s) ! 3 = recEOF" using rest by (simp_all add: img)
qed

text \<open>C5: when \<open>ParseHex\<close> accepts a file, its records are well-formed and end with the
  end-of-file record. With \<open>lo\<close> and \<open>hi\<close> the lowest address and the end of what the data records write to
  program flash, the range \<open>Start\<close>, \<open>Length\<close> begins at \<open>lo\<close> rounded down to a multiple of four and ends at
  \<open>hi + hi mod 4\<close>, or where program flash ends: at a multiple of four when \<open>hi\<close> is even, only at an
  even address when it is odd. It lies inside program flash, and \<open>CRC\<close> is the CRC of that range of the
  memory the records describe, the last record that writes a byte winning and unwritten bytes being
  erased flash.\<close>

theorem ParseHex_image:
  assumes "ParseHex text rerr = Inr img"
  defines "ws \<equiv> flash_writes 0 (Records img)"
    and "a \<equiv> unat (Start img)" and "b \<equiv> unat (Start img) + unat (Length img)"
  defines "lo \<equiv> Min (fst ` set ws)" and "hi \<equiv> Max ((\<lambda>w. fst w + length (snd w)) ` set ws)"
  shows "list_all rec_ok (Records img) \<and> last (Records img) ! 3 = recEOF \<and> ws \<noteq> []
    \<and> a = lo - lo mod 4 \<and> b = min (hi + hi mod 4) 0x9D500000
    \<and> a mod 4 = 0 \<and> b mod 2 = 0 \<and> (even hi \<longrightarrow> b mod 4 = 0)
    \<and> 0x9D000000 \<le> a \<and> b \<le> 0x9D500000 \<and> (\<forall>(c, d)\<in>set ws. a \<le> c \<and> c + length d \<le> b)
    \<and> CRC img = CRC16 (map (flash_mem ws) [a ..< b])"
proof -
  obtain s where s: "hex_loop 1 (scan_lines text) rerr hex_init = Inr s" and f: "hex_finish s = Inr img"
    using assms(1) by (auto simp: ParseHex_def split: sum.splits)
  have inv: "hex_inv s" by (rule hex_inv_loop [OF hex_inv_init s])
  have saw: "sawData s" using f by (auto simp: hex_finish_def split: if_splits)
  with inv have win: "in_window s" by (simp add: hex_inv_def Let_def)
  note r = hex_finish_range [OF win f]
  have ws: "ws = flash_writes 0 (recs s)" by (simp add: ws_def r)
  with inv saw have lo: "lo = unat (startA s)" and hi: "hi = unat (endA s)"
    unfolding lo_def hi_def by (auto simp: hex_inv_def Let_def intro!: Min_eqI Max_eqI)
  have a: "a = lo - lo mod 4" using r(1) by (simp add: a_def lo)
  have b: "b = min (hi + hi mod 4) 0x9D500000" using r(2) by (simp add: b_def hi imageBase_def imageSize_def)
  have "a mod 4 = 0" unfolding a by (simp add: minus_mod_eq_mult_div)
  moreover have "b mod 2 = 0" "even hi \<longrightarrow> b mod 4 = 0" unfolding b min_def by presburger+
  moreover have "0x9D000000 \<le> a" using r(1,3) by (simp add: a_def imageBase_def)
  moreover have "hi \<le> b" "b \<le> 0x9D500000" using win by (auto simp: b hi in_window_def imageBase_def imageSize_def)
  moreover have "\<forall>(c, d)\<in>set ws. lo \<le> c \<and> c + length d \<le> hi" using inv by (auto simp: hex_inv_def Let_def ws lo hi)
  moreover have "CRC img = CRC16 (map (flash_mem ws) [a ..< b])"
  proof -
    have "map (flash_mem ws) [a ..< b] = map (flat s) [a - unat imageBase ..< b - unat imageBase]"
      using inv r(1,3) by (intro nth_equalityI) (auto simp: hex_inv_def Let_def ws a_def)
    moreover have "CRC img = CRC16 (map (flat s) [a - unat imageBase ..< b - unat imageBase])"
      using r(4) unfolding b_def r(2) unfolding a_def r(1) .
    ultimately show ?thesis by simp
  qed
  moreover from calculation have "\<forall>(c, d)\<in>set ws. a \<le> c \<and> c + length d \<le> b" unfolding a by fastforce
  moreover have "list_all rec_ok (Records img) \<and> last (Records img) ! 3 = recEOF \<and> ws \<noteq> []"
    using inv saw r(5,7) by (auto simp: hex_inv_def Let_def ws)
  ultimately show ?thesis using a b by blast
qed


section \<open>Acceptance\<close>

text \<open>The file of a list of records, one line each with the vendor's line ends.\<close>

definition hex_file :: "byte list list \<Rightarrow> string" where
  "hex_file rs = concat (map (\<lambda>r. CHR '':'' # hex_text r @ [CHR 0x0D, CHR 0x0A]) rs)"

text \<open>Well-formed records whose address records are linear and whose data lies in the
  program-flash window or in boot flash.\<close>

fun file_ok :: "nat \<Rightarrow> byte list list \<Rightarrow> bool" where
  "file_ok u [] = True"
| "file_ok u (r # rs) =
     (rec_ok r \<and> r ! 3 \<noteq> recExtSeg \<and> (r ! 3 = recExtLin \<longrightarrow> 2 \<le> unat (r ! 0))
      \<and> (r ! 3 = recData \<longrightarrow> rec_addr u r \<ge> unat bootFlash
           \<or> unat imageBase \<le> rec_addr u r \<and> rec_addr u r + unat (r ! 0) \<le> unat imageBase + unat imageSize)
      \<and> file_ok (rec_upper u r) rs)"

lemma hex_char_plain:
  assumes "d < 16" shows "plain_char (hex_char d)" "hex_char d \<noteq> CHR 0x0A"
proof -
  have u: "unat d < 16" using assms by (simp add: word_less_nat_alt)
  then show "plain_char (hex_char d)" by (auto simp: plain_char_def hex_char_def of_char_of)
  have "hex_digit (CHR 0x0A) = None" by (simp add: hex_digit_def)
  with hex_digit_hex_char [OF assms] show "hex_char d \<noteq> CHR 0x0A" by auto
qed

lemma hex_text_plain: "\<forall>c\<in>set (hex_text bs). plain_char c \<and> c \<noteq> CHR 0x0A"
  by (induction bs) (auto simp: hex_text_def hex_char_plain nibbles_small)

lemma hex_text_length: "length (hex_text bs) = 2 * length bs"
  by (induction bs) (auto simp: hex_text_def)

lemma scan_lines_Nil [simp]: "scan_lines [] = []"
  by (subst scan_lines.simps) simp

lemma scan_lines_line:
  assumes "CHR 0x0A \<notin> set l"
  shows "scan_lines (l @ CHR 0x0A # rest) = l # scan_lines rest"
proof -
  have "\<forall>c\<in>set l. c \<noteq> CHR 0x0A" using assms by auto
  then show ?thesis
    by (subst scan_lines.simps) (simp add: takeWhile_all_append dropWhile_all_append)
qed

lemma TrimSpace_CR:
  assumes "l \<noteq> []" "plain_char (hd l)" "plain_char (last l)"
  shows "TrimSpace (l @ [CHR 0x0D]) = l"
proof -
  have "trim_left wide_spaces (l @ [CHR 0x0D]) = l @ [CHR 0x0D]"
    using assms(1,2) by (cases l) (auto intro!: trim_left_id simp: lead_space_plain wide_spaces_high)
  moreover have "trim_left (map rev wide_spaces) (CHR 0x0D # rev l) = trim_left (map rev wide_spaces) (rev l)"
    by (subst trim_left.simps) (simp add: lead_space_def ascii_space_def)
  ultimately have "TrimSpace (l @ [CHR 0x0D]) = rev (trim_left (map rev wide_spaces) (rev l))"
    by (simp add: TrimSpace_def)
  moreover obtain d t where rs: "rev l = d # t" using assms(1) by (cases "rev l") auto
  moreover from rs have "d = last l" by (metis assms(1) hd_rev list.sel(1))
  then have "trim_left (map rev wide_spaces) (rev l) = rev l"
    using assms(3) rs wide_spaces_high(2) by (intro trim_left_id) (simp only: rs lead_space_plain simp_thms)
  ultimately show ?thesis by simp
qed

lemma hex_line_text:
  assumes "rec_ok r"
  shows "hex_line n (CHR '':'' # hex_text r @ [CHR 0x0D]) s = hex_record n r s"
proof -
  have "r \<noteq> []" using assms by (auto simp: rec_ok_def)
  then have "hex_text r \<noteq> []" using hex_text_length [of r] by auto
  then have "plain_char (last (CHR '':'' # hex_text r))" using hex_text_plain [of r] by simp
  then have "TrimSpace ((CHR '':'' # hex_text r) @ [CHR 0x0D]) = CHR '':'' # hex_text r"
    by (intro TrimSpace_CR) (auto simp: plain_char_def)
  with assms show ?thesis by (simp add: hex_line_def decodeRecord_text)
qed

lemma hex_record_accepts:
  assumes ok: "file_ok u (r # rs)" and seg: "extSeg s = 0" and lin: "unat (extLin s) = 65536 * u"
  shows "\<exists>t. hex_record n r s = Inr t \<and> extSeg t = 0 \<and> unat (extLin t) = 65536 * rec_upper u r"
proof -
  have cnt: "unat (ucast (r ! 0) :: u32) = unat (r ! 0)"
    using byte_unat_less [of "r ! 0"] by (simp add: unsigned_ucast_eq take_bit_eq_mod)
  have d01: "take (unat (r ! 0)) (drop 4 r) ! 0 = r ! 4" "take (unat (r ! 0)) (drop 4 r) ! 1 = r ! 5" if "2 \<le> unat (r ! 0)"
    using that ok by (auto simp: rec_ok_def)
  consider (data) "r ! 3 = recData" | (lin) "r ! 3 = recExtLin"
    | (other) "r ! 3 \<noteq> recData" "r ! 3 \<noteq> recExtSeg" "r ! 3 \<noteq> recExtLin" using ok by auto
  then show ?thesis
  proof cases
    case data
    define addr where "addr = (extLin s OR extSeg s OR be16 (r ! 1) (r ! 2)) OR kseg0"
    have "unat (extLin s OR be16 (r ! 1) (r ! 2)) = 65536 * u + (256 * unat (r ! 1) + unat (r ! 2))"
      using or_shift16 [OF lin unat_be16_less] by (simp add: unat_be16)
    moreover have "addr = (extLin s OR be16 (r ! 1) (r ! 2)) OR kseg0" using seg by (simp add: addr_def)
    ultimately have a: "unat addr = rec_addr u r"
      unfolding rec_addr_def Let_def by (simp only: unat_or_kseg0 add.assoc)
    have "bootFlash \<le> addr \<or> \<not> (addr < imageBase \<or> uint addr + uint (ucast (r ! 0) :: u32) > uint imageBase + uint imageSize)"
      using ok data unfolding uint_sum_less cnt word_le_nat_alt word_less_nat_alt a by auto
    with data seg lin show ?thesis
      unfolding hex_record_data [OF data addr_def refl] by (auto simp: rec_upper_def)
  next
    case lin
    with ok d01 show ?thesis
      by (auto simp: hex_record_def Let_def cnt word_less_nat_alt rec_upper_def unat_shift16_be16)
  qed (simp add: hex_record_def Let_def rec_upper_def)
qed

lemma hex_loop_accepts:
  assumes "file_ok u rs" "hex_inv s" "extSeg s = 0" "unat (extLin s) = 65536 * u"
  shows "\<exists>t. hex_loop n (map (\<lambda>r. CHR '':'' # hex_text r @ [CHR 0x0D]) rs) None s = Inr t
    \<and> hex_inv t \<and> recs t = recs s @ rs"
  using assms
proof (induction rs arbitrary: u n s)
  case (Cons r rs)
  have ok: "rec_ok r" using Cons.prems by simp
  obtain t where t: "hex_record n r s = Inr t" "extSeg t = 0" "unat (extLin t) = 65536 * rec_upper u r"
    using hex_record_accepts [OF Cons.prems(1,3,4)] by blast
  then have inv: "hex_inv t" "recs t = recs s @ [r]" using hex_inv_record [OF Cons.prems(2) ok] by auto
  have len: "length (CHR '':'' # hex_text r @ [CHR 0x0D]) < 1024 * 1024"
    using ok byte_unat_less [of "r ! 0"] by (simp add: hex_text_length rec_ok_def)
  have "\<exists>t'. hex_loop (n + 1) (map (\<lambda>r. CHR '':'' # hex_text r @ [CHR 0x0D]) rs) None t = Inr t'
      \<and> hex_inv t' \<and> recs t' = recs t @ rs"
    using Cons.prems(1) by (intro Cons.IH [OF _ inv(1) t(2,3)]) simp
  with len ok t(1) inv(2) show ?case by (simp add: hex_line_text del: length_Cons)
qed simp

lemma scan_hex_file: "scan_lines (hex_file rs) = map (\<lambda>r. CHR '':'' # hex_text r @ [CHR 0x0D]) rs"
proof (induction rs)
  case (Cons r rs)
  have "scan_lines ((CHR '':'' # hex_text r @ [CHR 0x0D]) @ CHR 0x0A # hex_file rs)
      = (CHR '':'' # hex_text r @ [CHR 0x0D]) # scan_lines (hex_file rs)"
    using hex_text_plain [of r] by (intro scan_lines_line) auto
  with Cons show ?case by (simp add: hex_file_def)
qed (simp add: hex_file_def)

lemma hex_file_accepted:
  assumes "file_ok 0 rs" "flash_writes 0 rs \<noteq> []" "last rs ! 3 = recEOF"
  shows "\<exists>img. ParseHex (hex_file rs) None = Inr img \<and> Records img = rs"
proof -
  obtain t where t: "hex_loop 1 (scan_lines (hex_file rs)) None hex_init = Inr t" "hex_inv t" "recs t = rs"
    using hex_loop_accepts [OF assms(1) hex_inv_init, of 1] by (auto simp: scan_hex_file hex_init_def)
  with assms(2) have "sawData t" by (simp add: hex_inv_def Let_def)
  with t assms(3) show ?thesis by (simp add: ParseHex_def hex_finish_def Let_def)
qed

text \<open>A two-record image at the start of program flash.\<close>

definition sample_recs :: "byte list list" where
  "sample_recs = [[2, 0, 0, 4, 0x1D, 0, 0xDD], [4, 0, 0, 0, 0x12, 0x34, 0x56, 0x78, 0xE8],
     [4, 0, 4, 0, 0x9A, 0xBC, 0xDE, 0xF0, 0xD4], [0, 0, 0, 1, 0xFF]]"

lemma sample_recs_ok: "file_ok 0 sample_recs" "flash_writes 0 sample_recs \<noteq> []" "last sample_recs ! 3 = recEOF"
  by (simp_all add: sample_recs_def rec_ok_def rec_addr_def rec_upper_def rec_writes_def
      recData_def recExtLin_def recExtSeg_def recEOF_def bootFlash_def imageBase_def imageSize_def nth_Cons_numeral)

theorem ParseHex_image_witness:
  "\<exists>img. ParseHex (hex_file sample_recs) None = Inr img \<and> last (Records img) ! 3 = recEOF
     \<and> CRC img = CRC16 (map (flash_mem (flash_writes 0 (Records img))) [unat (Start img) ..< unat (Start img) + unat (Length img)])"
proof -
  obtain img where img: "ParseHex (hex_file sample_recs) None = Inr img"
    using hex_file_accepted [OF sample_recs_ok] by blast
  from ParseHex_image [OF img] img show ?thesis by auto
qed

text \<open>The text of well-formed records whose data lies in flash, at least one of them in
  the program-flash window, and which ends with an end-of-file record, is accepted, and
  \<open>Records\<close> are exactly those records in order (boot-flash records included).\<close>

theorem ParseHex_accepts:
  assumes "file_ok 0 rs" "flash_writes 0 rs \<noteq> []" "last rs ! 3 = recEOF"
  shows "\<exists>img. ParseHex (hex_file rs) None = Inr img \<and> Records img = rs"
  by (rule hex_file_accepted [OF assms])

theorem ParseHex_accepts_witness:
  "\<exists>img. ParseHex (hex_file sample_recs) None = Inr img \<and> Records img = sample_recs"
  by (rule ParseHex_accepts [OF sample_recs_ok])

text \<open>\<open>decodeRecord\<close> accepts the text of a byte sequence exactly when the count byte
  matches its length and the bytes sum to zero modulo 256, and then returns the bytes.\<close>

theorem decodeRecord_exact: "decodeRecord (CHR '':'' # hex_text r) = Inr r \<longleftrightarrow> rec_ok r"
  using decodeRecord_ok decodeRecord_text by blast

text \<open>The end of an image is not rounded up to a multiple of four: an odd end becomes 2 modulo 4.\<close>

theorem odd_end_misaligned:
  assumes "hex_finish s = Inr img" "endA s + endA s mod 4 \<le> imageBase + imageSize" "odd (uint (endA s))"
  shows "uint (Start img + Length img) mod 4 = 2"
proof -
  have "Start img + Length img = endA s + endA s mod 4"
    using assms(1,2) by (auto simp: hex_finish_def Let_def split: if_splits)
  then have "uint (Start img + Length img) mod 4 = (uint (endA s) + uint (endA s) mod 4) mod 2 ^ 32 mod 4"
    by (simp add: uint_word_ariths uint_mod)
  also have "\<dots> = (uint (endA s) + uint (endA s) mod 4) mod 4" by (rule mod_mod_cancel) simp
  also have "\<dots> = 2" using assms(3) by presburger
  finally show ?thesis .
qed

end
