(* ===== verification/BootClient.thy ===== *)
theory BootClient
  imports BootHex Transport
begin

unbundle bit_operations_syntax

text \<open>
  The bootloader session (src/rst/boot/boot.go) and \<open>flash\<close> and \<open>connect\<close> of the flashing tool
  above it (src/cmd/rstflash/main.go; its other commands are in theory \<open>BootTool\<close>). A
  \<open>Client\<close> is the decoder and the byte pipe; the calls of the progress callback are kept
  in the order they are made, what the tool prints is left out. The results: a command
  is sent at most as often as its retry count and nothing else is sent; a reply is found
  behind stale frames and however it is cut into reads; \<open>Program\<close> streams exactly the
  records of the image; \<open>flash\<close> erases only after the family check, and reports success
  only after the device's CRC equals that of the image.
\<close>

section \<open>The functions of boot.go\<close>

definition ReadBootInfo :: byte where "ReadBootInfo = 0x01"
definition EraseFlash :: byte where "EraseFlash = 0x02"
definition ProgramFlash :: byte where "ProgramFlash = 0x03"
definition ReadCRCcmd :: byte where "ReadCRCcmd = 0x04"
definition JumpToApp :: byte where "JumpToApp = 0x05"

definition connectRetryEvery :: int where "connectRetryEvery = 200 * ms"
definition eraseTimeout :: int where "eraseTimeout = 5000 * ms"
definition programTimeout :: int where "programTimeout = 500 * ms"
definition verifyTimeout :: int where "verifyTimeout = 5000 * ms"
definition commandRetries :: int where "commandRetries = 3"

definition recordsPerFrame :: nat where "recordsPerFrame = 11"

definition bootErrTimeout :: gerr where
  "bootErrTimeout = ErrNew ''rst/boot: no response from the device''"

record Info =
  Major :: byte
  Minor :: byte

definition IsHuboI :: "Info \<Rightarrow> bool" where
  "IsHuboI i = (Major i = 1 \<and> Minor i = 0)"

record client =
  dec :: decoder
  rw :: "byte transport"
  progress :: "(nat \<times> nat) list"

text \<open>\<open>New\<close>: a fresh decoder on an open pipe.\<close>

definition newClient :: "byte transport \<Rightarrow> client" where
  "newClient t = \<lparr>dec = \<lparr>buf = [], inDLE = False\<rparr>, rw = t, progress = []\<rparr>"

definition bwrite :: "byte \<Rightarrow> byte list \<Rightarrow> (client, unit) io" where
  "bwrite cmd args = (\<lambda>c.
     case tr_write (encodeFrame (cmd # args)) (rw c) of
       (None, t) \<Rightarrow> (Inr (), c\<lparr>rw := t\<rparr>)
     | (Some e, t) \<Rightarrow> (Inl (Errorf ''rst/boot: write command 0x%02X: %w'' [AInt (uint cmd)] (Some e)), c\<lparr>rw := t\<rparr>))"

text \<open>The inner loop of \<open>await\<close>: feed the bytes read until a frame echoes the command; the
  bytes behind that frame are dropped.\<close>

fun feed_until :: "byte \<Rightarrow> decoder \<Rightarrow> byte list \<Rightarrow> decoder \<times> byte list option" where
  "feed_until cmd d [] = (d, None)"
| "feed_until cmd d (b # bs) =
     (case feed d b of
        (d', Some (x # reply)) \<Rightarrow> if x = cmd then (d', Some reply) else feed_until cmd d' bs
      | (d', _) \<Rightarrow> feed_until cmd d' bs)"

function await_loop :: "byte \<Rightarrow> int \<Rightarrow> (client, byte list) io" where
  "await_loop cmd deadline c =
     (if now (rw c) < deadline then
        (case tr_read 256 (rw c) of
           ((bs, Some e), t) \<Rightarrow> (Inl (Errorf ''rst/boot: read: %w'' [] (Some e)), c\<lparr>rw := t\<rparr>)
         | ((bs, None), t) \<Rightarrow>
             if bs = [] then await_loop cmd deadline (c\<lparr>rw := tr_sleep (2 * ms) t\<rparr>)
             else (case feed_until cmd (dec c) bs of
                     (d, Some reply) \<Rightarrow> (Inr reply, c\<lparr>rw := t, dec := d\<rparr>)
                   | (d, None) \<Rightarrow> await_loop cmd deadline (c\<lparr>rw := t, dec := d\<rparr>)))
      else (Inl bootErrTimeout, c))"
  by pat_completeness auto
termination
proof (relation "measure (\<lambda>(cmd, deadline, c). backlog (rw c) + nat (deadline - now (rw c)))", goal_cases)
  case 1
  then show ?case by simp
next
  case (2 cmd deadline c r t bs e)
  then have r: "tr_read 256 (rw c) = (([], None), t)" by simp
  have "backlog t \<le> backlog (rw c)" "now (rw c) \<le> now t"
    using tr_read_backlog [OF r] tr_read_frame [OF r] by auto
  then show ?case using 2(1) by (auto simp: tr_sleep_def backlog_def ms_def)
next
  case (3 cmd deadline c r t p e d y)
  then have r: "tr_read 256 (rw c) = ((p, None), t)" "p \<noteq> []" by simp_all
  have "backlog t < backlog (rw c)" "now (rw c) \<le> now t"
    using tr_read_backlog [OF r(1)] tr_read_frame [OF r(1)] r(2) by auto
  then show ?case by (simp add: backlog_def)
qed

declare await_loop.simps [simp del]

definition await :: "byte \<Rightarrow> int \<Rightarrow> (client, byte list) io" where
  "await cmd timeout = (\<lambda>c. await_loop cmd (now (rw c) + timeout) c)"

text \<open>The retry loop of \<open>do\<close>; \<open>err\<close> is the variable of that name.\<close>

fun do_loop :: "byte \<Rightarrow> byte list \<Rightarrow> int \<Rightarrow> int \<Rightarrow> nat \<Rightarrow> gerr option \<Rightarrow> (client, byte list) io" where
  "do_loop cmd args timeout retries 0 err c =
     (Inl (Errorf ''rst/boot: command 0x%02X failed after %d attempts: %w''
        [AInt (uint cmd), AInt retries] err), c)"
| "do_loop cmd args timeout retries (Suc k) err c =
     (case bwrite cmd args (c\<lparr>dec := reset (dec c)\<rparr>) of
        (Inl e, c1) \<Rightarrow> (Inl e, c1)
      | (Inr _, c1) \<Rightarrow>
          (case await cmd timeout c1 of
             (Inr reply, c2) \<Rightarrow> (Inr reply, c2)
           | (Inl e, c2) \<Rightarrow>
               if \<not> errors_is e bootErrTimeout then (Inl e, c2)
               else do_loop cmd args timeout retries k (Some e) c2))"

definition bdo :: "byte \<Rightarrow> byte list \<Rightarrow> int \<Rightarrow> int \<Rightarrow> (client, byte list) io" where
  "bdo cmd args retries timeout =
     (let retries = (if retries < 1 then 1 else retries)
      in do_loop cmd args timeout retries (nat retries) None)"

definition Connect :: "int \<Rightarrow> (client, Info) io" where
  "Connect timeout =
     (let attempts = go_quot timeout connectRetryEvery;
          attempts = (if attempts < 1 then 1 else attempts)
      in bindE (bdo ReadBootInfo [] attempts connectRetryEvery) (\<lambda>reply.
           if length reply < 2 then
             errE (Errorf ''rst/boot: short boot-info reply (%d bytes)'' [AInt (int (length reply))] None)
           else okE \<lparr>Major = reply ! 0, Minor = reply ! 1\<rparr>))"

definition Erase :: "(client, unit) io" where
  "Erase = bindE (bdo EraseFlash [] commandRetries eraseTimeout) (\<lambda>_. okE ())"

function program_loop :: "byte list list \<Rightarrow> nat \<Rightarrow> (client, unit) io" where
  "program_loop records i =
     (let total = length records
      in if i < total then
           let e = min (i + recordsPerFrame) total;
               args = concat (take (e - i) (drop i records))
           in tryE (bdo ProgramFlash args commandRetries programTimeout) (\<lambda>r.
                case r of
                  Inl er \<Rightarrow> errE (Errorf ''programming records %d-%d: %w'' [AInt (int i), AInt (int e - 1)] (Some er))
                | Inr _ \<Rightarrow> bindE (modE (\<lambda>c. c\<lparr>progress := progress c @ [(e, total)]\<rparr>)) (\<lambda>_.
                    program_loop records (i + recordsPerFrame)))
         else okE ())"
  by pat_completeness auto
termination
  by (relation "measure (\<lambda>(records, i). length records - i)") (auto simp: recordsPerFrame_def)

declare program_loop.simps [simp del]

definition Program :: "Image \<Rightarrow> (client, unit) io" where
  "Program img = program_loop (Records img) 0"

definition le32 :: "u32 \<Rightarrow> byte list" where
  "le32 w = [ucast w, ucast (drop_bit 8 w), ucast (drop_bit 16 w), ucast (drop_bit 24 w)]"

definition ReadCRC :: "u32 \<Rightarrow> u32 \<Rightarrow> u16 \<Rightarrow> (client, u16) io" where
  "ReadCRC start len expected =
     bindE (bdo ReadCRCcmd (le32 start @ le32 len @ [ucast expected, ucast (drop_bit 8 expected)])
              commandRetries verifyTimeout) (\<lambda>reply.
       if length reply < 2 then
         errE (Errorf ''rst/boot: short CRC reply (%d bytes)'' [AInt (int (length reply))] None)
       else okE (ucast (reply ! 0) OR push_bit 8 (ucast (reply ! 1))))"

function erased_loop :: "u32 \<Rightarrow> u16 \<Rightarrow> u16" where
  "erased_loop n crc =
     (if n > 0 then
        let step = (if n < 8192 then n else 8192)
        in erased_loop (n - step) (crc16From crc (replicate (unat step) 0xFF))
      else crc)"
  by pat_completeness auto
termination
proof (relation "measure (\<lambda>(n, crc). unat n)", goal_cases)
  case (2 n crc step)
  then have "step \<le> n" "0 < step" by auto
  then show ?case by (simp add: unat_sub word_le_nat_alt word_less_nat_alt)
qed simp

declare erased_loop.simps [simp del]

definition ErasedCRC :: "u32 \<Rightarrow> u16" where
  "ErasedCRC len = erased_loop len 0"

definition AppBase135 :: u32 where "AppBase135 = 0x9D000000"
definition AppBase150 :: u32 where "AppBase150 = 0x9D006100"

definition DetectAppBase :: "(client, u32) io" where
  "DetectAppBase =
     (let span = AppBase150 - AppBase135
      in bindE (ReadCRC AppBase135 span 0) (\<lambda>got.
           if got = ErasedCRC span then okE AppBase150 else okE AppBase135))"

definition Verify :: "Image \<Rightarrow> (client, u16) io" where
  "Verify img = bindE (ReadCRC (Start img) (Length img) (CRC img)) (\<lambda>got.
     if got \<noteq> CRC img then
       errE (Errorf ''rst/boot: verification failed: device CRC 0x%04X, image CRC 0x%04X''
         [AInt (uint got), AInt (uint (CRC img))] None)
     else okE got)"

definition Run :: "(client, unit) io" where
  "Run = bwrite JumpToApp []"

section \<open>The flashing tool\<close>

definition emdash :: string where "emdash = [CHR 0xE2, CHR 0x80, CHR 0x94]"

definition connect :: "int \<Rightarrow> (client, unit) io" where
  "connect wait = tryE (Connect wait) (\<lambda>r.
     case r of
       Inl e \<Rightarrow> errE (Errorf (''%w'' @ [CHR 0x0A] @
         ''(the controller only enters its bootloader when powered on with PREV+NEXT held)'') [] (Some e))
     | Inr nfo \<Rightarrow> okE ())"

definition no_firmware :: "gerr \<Rightarrow> gerr" where
  "no_firmware e = Errorf (''%w'' @ [CHR 0x0A] @ ''the mount has no working firmware '' @ emdash
     @ '' power-cycle with PREV+NEXT held and run rstflash again'') [] (Some e)"

definition want_base :: "Image \<Rightarrow> u32" where
  "want_base img = (if Start img \<ge> AppBase150 then AppBase150 else AppBase135)"

definition family_mismatch :: "u32 \<Rightarrow> u32 \<Rightarrow> gerr" where
  "family_mismatch base want = Errorf (''family mismatch: the device runs from 0x%08X but this image targets 0x%08X ''
     @ emdash @ '' flashing it would aim config-word writes into boot flash; pass the correct model's file'')
     [AInt (uint base), AInt (uint want)] None"

definition flash :: "Image \<Rightarrow> int \<Rightarrow> bool \<Rightarrow> (client, unit) io" where
  "flash img wait run =
     bindE (connect wait) (\<lambda>_.
     tryE DetectAppBase (\<lambda>r. case r of
       Inl e \<Rightarrow> errE (Errorf ''detecting application base: %w'' [] (Some e))
     | Inr base \<Rightarrow>
         if base \<noteq> want_base img then errE (family_mismatch base (want_base img))
         else tryE Erase (\<lambda>r. case r of
           Inl e \<Rightarrow> errE (Errorf ''erase failed (the mount still has its old firmware): %w'' [] (Some e))
         | Inr _ \<Rightarrow> tryE (Program img) (\<lambda>r. case r of
             Inl e \<Rightarrow> errE (no_firmware e)
           | Inr _ \<Rightarrow> tryE (Verify img) (\<lambda>r. case r of
               Inl e \<Rightarrow> errE (no_firmware e)
             | Inr _ \<Rightarrow> if run then Run else okE ())))))"

section \<open>Erased flash\<close>

lemma erased_loop_crc: "erased_loop n crc = crc16From crc (replicate (unat n) 0xFF)"
proof (induction n crc rule: erased_loop.induct)
  case (1 n crc)
  show ?case
  proof (cases "n > 0")
    case True
    define step where "step = (if n < 8192 then n else 8192 :: u32)"
    have le: "step \<le> n" by (auto simp: step_def)
    have "unat n = unat step + unat (n - step)"
      using le by (simp add: unat_sub word_le_nat_alt)
    then have "replicate (unat n) (0xFF :: byte) = replicate (unat step) 0xFF @ replicate (unat (n - step)) 0xFF"
      by (simp add: replicate_add)
    moreover have "erased_loop n crc = erased_loop (n - step) (crc16From crc (replicate (unat step) 0xFF))"
      using True by (subst erased_loop.simps) (simp add: step_def)
    ultimately show ?thesis using 1 [OF True step_def] by (simp add: crc16From_append)
  next
    case False
    then have "n = 0" by (simp add: word_gt_0)
    then show ?thesis by (subst erased_loop.simps) simp
  qed
qed

section \<open>What a command sends\<close>

definition frame :: "byte \<Rightarrow> byte list \<Rightarrow> byte list" where
  "frame cmd args = encodeFrame (cmd # args)"

text \<open>\<open>sends c fs c'\<close>: between the two states exactly the frames \<open>fs\<close> were written.\<close>

definition sends :: "client \<Rightarrow> byte list list \<Rightarrow> client \<Rightarrow> bool" where
  "sends c fs c' = (tx (rw c') = tx (rw c) @ fs)"

lemma sends_refl [simp]: "sends c [] c"
  by (simp add: sends_def)

lemma sends_trans: "sends c fs c1 \<Longrightarrow> sends c1 gs c2 \<Longrightarrow> sends c (fs @ gs) c2"
  by (simp add: sends_def)

lemma bwrite_sends:
  "bwrite cmd args c = (r, c') \<Longrightarrow> sends c (case r of Inr _ \<Rightarrow> [frame cmd args] | Inl _ \<Rightarrow> []) c'"
  by (auto simp: bwrite_def sends_def frame_def split: prod.splits option.splits elim!: tr_write_cases)

lemma await_loop_sends: "await_loop cmd deadline c = (r, c') \<Longrightarrow> sends c [] c'"
proof (induction cmd deadline c rule: await_loop.induct)
  case (1 cmd deadline c)
  obtain bs e t where rd: "tr_read 256 (rw c) = ((bs, e), t)" by (metis surj_pair)
  note t = tr_read_frame(2) [OF rd]
  show ?case
    using 1 rd t by (subst (asm) (3) await_loop.simps)
      (auto simp: sends_def tr_sleep_def split: if_splits option.splits prod.splits)
qed

lemma await_sends: "await cmd timeout c = (r, c') \<Longrightarrow> sends c [] c'"
  by (auto simp: await_def dest: await_loop_sends)

lemma do_loop_sends:
  "do_loop cmd args timeout retries k err c = (r, c') \<Longrightarrow>
    \<exists>j\<le>k. sends c (replicate j (frame cmd args)) c' \<and> (isl r \<or> 0 < j)"
proof (induction k arbitrary: err c)
  case (Suc k)
  obtain w c1 where w: "bwrite cmd args (c\<lparr>dec := reset (dec c)\<rparr>) = (w, c1)" by fastforce
  note sw = bwrite_sends [OF w]
  show ?case
  proof (cases w)
    case (Inl e)
    with Suc.prems w sw show ?thesis by (auto simp: sends_def intro!: exI [of _ 0])
  next
    case (Inr u)
    obtain a c2 where a: "await cmd timeout c1 = (a, c2)" by fastforce
    note sa = await_sends [OF a]
    show ?thesis
    proof (cases "\<exists>e. a = Inl e \<and> errors_is e bootErrTimeout")
      case True
      then obtain e where e: "a = Inl e" "errors_is e bootErrTimeout" by blast
      with Suc.prems w Inr a have "do_loop cmd args timeout retries k (Some e) c2 = (r, c')" by simp
      from Suc.IH [OF this] obtain j where "j \<le> k" "sends c2 (replicate j (frame cmd args)) c'" "isl r \<or> 0 < j" by blast
      with sw sa Inr show ?thesis by (intro exI [of _ "Suc j"]) (simp add: sends_def)
    next
      case False
      with Suc.prems w Inr a have "c' = c2" by (auto split: sum.splits if_splits)
      with sw sa Inr show ?thesis by (intro exI [of _ 1]) (simp add: sends_def)
    qed
  qed
qed (auto intro: exI [of _ 0])

lemma bdo_sends:
  assumes "bdo cmd args retries timeout c = (r, c')"
  shows "\<exists>j. j \<le> nat (max 1 retries) \<and> sends c (replicate j (frame cmd args)) c' \<and> (isl r \<or> 0 < j)"
  using do_loop_sends [of cmd args timeout "max 1 retries" "nat (max 1 retries)" None c r c'] assms
  by (auto simp: bdo_def Let_def max_def split: if_splits)

text \<open>The same for the commands built on \<open>do\<close>.\<close>

lemma bindE_bdo_sends:
  assumes "bindE (bdo cmd args retries timeout) f c = (r, c')" "\<And>x d. snd (f x d) = d"
  shows "\<exists>j. j \<le> nat (max 1 retries) \<and> sends c (replicate j (frame cmd args)) c' \<and> (isl r \<or> 0 < j)"
proof -
  obtain b c1 where b: "bdo cmd args retries timeout c = (b, c1)" by fastforce
  have "c' = c1" using assms b by (cases b) (auto simp: bindE_def dest: arg_cong [where f = snd] split: sum.splits)
  moreover have "isl b \<Longrightarrow> isl r" using assms(1) b by (auto simp: bindE_def split: sum.splits)
  ultimately show ?thesis using bdo_sends [OF b] by auto
qed

definition crc_args :: "u32 \<Rightarrow> u32 \<Rightarrow> u16 \<Rightarrow> byte list" where
  "crc_args start len e = le32 start @ le32 len @ [ucast e, ucast (drop_bit 8 e)]"

lemma ReadCRC_sends:
  "ReadCRC start len e c = (r, c') \<Longrightarrow>
    \<exists>j\<le>3. sends c (replicate j (frame ReadCRCcmd (crc_args start len e))) c' \<and> (isl r \<or> 0 < j)"
  unfolding ReadCRC_def by (drule bindE_bdo_sends) (auto simp: commandRetries_def crc_args_def)

lemma Connect_sends:
  "Connect timeout c = (r, c') \<Longrightarrow> \<exists>j. sends c (replicate j (frame ReadBootInfo [])) c' \<and> (isl r \<or> 0 < j)"
  unfolding Connect_def Let_def by (drule bindE_bdo_sends) auto

lemma Erase_sends:
  "Erase c = (r, c') \<Longrightarrow> \<exists>j\<le>3. sends c (replicate j (frame EraseFlash [])) c' \<and> (isl r \<or> 0 < j)"
  unfolding Erase_def by (drule bindE_bdo_sends) (auto simp: commandRetries_def)


lemma DetectAppBase_sends:
  assumes "DetectAppBase c = (r, c')"
  shows "\<exists>j\<le>3. sends c (replicate j (frame ReadCRCcmd (crc_args AppBase135 (AppBase150 - AppBase135) 0))) c' \<and> (isl r \<or> 0 < j)"
proof -
  obtain b c1 where b: "ReadCRC AppBase135 (AppBase150 - AppBase135) 0 c = (b, c1)" by fastforce
  with assms have "c' = c1" "isl b \<Longrightarrow> isl r"
    by (auto simp: DetectAppBase_def Let_def bindE_def split: sum.splits if_splits)
  with ReadCRC_sends [OF b] show ?thesis by auto
qed

lemma Verify_sends:
  assumes "Verify img c = (r, c')"
  shows "\<exists>j\<le>3. sends c (replicate j (frame ReadCRCcmd (crc_args (Start img) (Length img) (CRC img)))) c' \<and> (isl r \<or> 0 < j)"
proof -
  obtain b c1 where b: "ReadCRC (Start img) (Length img) (CRC img) c = (b, c1)" by fastforce
  with assms have "c' = c1" "isl b \<Longrightarrow> isl r"
    by (auto simp: Verify_def bindE_def split: sum.splits if_splits)
  with ReadCRC_sends [OF b] show ?thesis by auto
qed

lemma Verify_match: "Verify img c = (Inr got, c') \<Longrightarrow> got = CRC img \<and> ReadCRC (Start img) (Length img) (CRC img) c = (Inr (CRC img), c')"
  by (auto simp: Verify_def bindE_def split: sum.splits prod.splits if_splits)

section \<open>Programming\<close>

text \<open>The arguments of the \<open>PROGRAM_FLASH\<close> commands: the records in groups of eleven.\<close>

function batches :: "byte list list \<Rightarrow> byte list list" where
  "batches records = (if records = [] then [] else concat (take 11 records) # batches (drop 11 records))"
  by pat_completeness auto
termination by (relation "measure length") auto

declare batches.simps [simp del]

lemma concat_batches: "concat (batches records) = concat records"
proof (induction records rule: batches.induct)
  case (1 records)
  then show ?case
    by (subst batches.simps) (auto simp flip: concat_append)
qed

text \<open>\<open>retried n fs sent\<close>: each frame of \<open>fs\<close> in turn, once and up to \<open>n\<close> times.\<close>

fun retried :: "nat \<Rightarrow> 'a list \<Rightarrow> 'a list \<Rightarrow> bool" where
  "retried n [] sent = (sent = [])"
| "retried n (f # fs) sent =
     (\<exists>j\<in>{1..n}. take j sent = replicate j f \<and> j \<le> length sent \<and> retried n fs (drop j sent))"

lemma retried_Cons: "1 \<le> j \<Longrightarrow> j \<le> n \<Longrightarrow> retried n fs sent \<Longrightarrow> retried n (f # fs) (replicate j f @ sent)"
  by (auto intro!: bexI [of _ j])

lemma program_loop_frames:
  assumes "program_loop records i c = (Inr u, c')"
  shows "\<exists>sent. sends c sent c' \<and> retried 3 (map (frame ProgramFlash) (batches (drop i records))) sent"
  using assms
proof (induction records i arbitrary: c rule: program_loop.induct)
  case (1 records i)
  show ?case
  proof (cases "i < length records")
    case False
    with 1 show ?thesis by (subst (asm) (2) program_loop.simps) (auto simp: batches.simps intro!: exI [of _ "[]"])
  next
    case True
    define args where "args = concat (take 11 (drop i records))"
    have tk: "take (min (i + recordsPerFrame) (length records) - i) (drop i records) = take 11 (drop i records)"
      by (auto simp: recordsPerFrame_def min_def)
    from True have b: "batches (drop i records) = args # batches (drop (i + 11) records)"
      by (subst batches.simps) (simp add: args_def add.commute)
    obtain x c1 where x: "bdo ProgramFlash args commandRetries programTimeout c = (x, c1)" by fastforce
    obtain y c2 where y: "x = Inr y" "c2 = c1\<lparr>progress := progress c1 @ [(min (i + recordsPerFrame) (length records), length records)]\<rparr>"
      "program_loop records (i + recordsPerFrame) c2 = (Inr u, c')"
      using 1(2) True x by (subst (asm) program_loop.simps)
        (auto simp: Let_def tryE_def bindE_def tk simp flip: args_def split: sum.splits)
    obtain sent where s: "sends c2 sent c'" "retried 3 (map (frame ProgramFlash) (batches (drop (i + 11) records))) sent"
      using 1(1) [OF refl True refl refl y(3)] by (auto simp: recordsPerFrame_def)
    obtain j where j: "j \<le> 3" "0 < j" "sends c (replicate j (frame ProgramFlash args)) c1"
      using bdo_sends [OF x] y(1) by (auto simp: commandRetries_def)
    have "sends c1 sent c'" using s(1) by (simp add: sends_def y(2))
    with j have "sends c (replicate j (frame ProgramFlash args) @ sent) c'" by (blast intro: sends_trans)
    moreover have "retried 3 (map (frame ProgramFlash) (batches (drop i records))) (replicate j (frame ProgramFlash args) @ sent)"
      unfolding b using j s(2) by (simp del: retried.simps add: retried_Cons)
    ultimately show ?thesis by blast
  qed
qed


section \<open>Finding the reply\<close>

text \<open>The reply among the payloads received: the first one that echoes the command.\<close>

fun first_reply :: "byte \<Rightarrow> byte list list \<Rightarrow> byte list option" where
  "first_reply cmd [] = None"
| "first_reply cmd (p # ps) = (if p \<noteq> [] \<and> hd p = cmd then Some (tl p) else first_reply cmd ps)"

lemma feed_until_feeds:
  "snd (feed_until cmd d bs) = first_reply cmd (snd (feeds d bs))"
  "snd (feed_until cmd d bs) = None \<Longrightarrow> fst (feed_until cmd d bs) = fst (feeds d bs)"
  by (induction bs arbitrary: d) (auto split: prod.splits option.splits list.splits if_splits)

lemma first_reply_append:
  "first_reply cmd (ps @ qs) = (case first_reply cmd ps of Some r \<Rightarrow> Some r | None \<Rightarrow> first_reply cmd qs)"
  by (induction ps) auto

lemma first_reply_stale: "\<forall>p\<in>set ps. p = [] \<or> hd p \<noteq> cmd \<Longrightarrow> first_reply cmd ps = None"
  by (induction ps) auto

text \<open>Reads that arrive in time and in whatever pieces; nothing is lost between them.\<close>

fun arrives :: "byte rd list \<Rightarrow> nat \<Rightarrow> byte list \<Rightarrow> bool" where
  "arrives [] t bs = (bs = [])"
| "arrives (Rd dt c e # rest) t bs =
     (e = None \<and> c \<noteq> [] \<and> length c \<le> 256 \<and> dt < t \<and> take (length c) bs = c \<and> arrives rest (t - dt) (drop (length c) bs))"

lemma await_loop_finds:
  assumes "arrives rds t bs" "rx (rw c) = rds @ later" "read_limit (rw c) = None"
    "now (rw c) + int t \<le> deadline" "0 < t"
    "first_reply cmd (snd (feeds (dec c) bs)) = Some reply"
  shows "fst (await_loop cmd deadline c) = Inr reply"
  using assms
proof (induction rds arbitrary: t bs c)
  case (Cons r rds)
  obtain dt ch e where r: "r = Rd dt ch e" by (cases r)
  from Cons.prems(1) have ar: "e = None" "ch \<noteq> []" "length ch \<le> 256" "dt < t"
    "take (length ch) bs = ch" "arrives rds (t - dt) (drop (length ch) bs)" by (simp_all add: r)
  then have bs: "bs = ch @ drop (length ch) bs" by (metis append_take_drop_id)
  define tr where "tr = (rw c)\<lparr>rx := rds @ later, now := now (rw c) + int dt\<rparr>"
  have rd: "tr_read 256 (rw c) = ((ch, None), tr)"
    using Cons.prems(2,3) ar by (simp add: r tr_def)
  obtain d o1 where f: "feeds (dec c) ch = (d, o1)" by fastforce
  have lt: "now (rw c) < deadline" using Cons.prems(4,5) by linarith
  show ?case
  proof (cases "first_reply cmd o1")
    case (Some x)
    have "first_reply cmd (snd (feeds (dec c) bs)) = Some x"
      by (subst bs) (simp add: feeds_append f first_reply_append Some split: prod.splits)
    with Cons.prems(6) Some f feed_until_feeds(1) [of cmd "dec c" ch] show ?thesis
      using lt rd ar(2) by (subst await_loop.simps) (auto split: prod.splits)
  next
    case None
    have fu: "feed_until cmd (dec c) ch = (d, None)"
      using feed_until_feeds [of cmd "dec c" ch] None f by (metis fst_conv prod.collapse snd_conv)
    have step: "await_loop cmd deadline c = await_loop cmd deadline (c\<lparr>rw := tr, dec := d\<rparr>)"
      using lt rd ar(2) fu by (subst await_loop.simps) simp
    have "first_reply cmd (snd (feeds (dec c) bs)) = first_reply cmd (snd (feeds d (drop (length ch) bs)))"
      by (subst bs) (simp add: feeds_append f first_reply_append None split: prod.splits)
    then show ?thesis
      unfolding step using Cons.prems ar
      by (intro Cons.IH [OF ar(6)]) (auto simp: tr_def read_limit_def)
  qed
qed simp

lemma bdo_finds:
  assumes dev: "wx (rw c) = []" "read_limit (rw c) = None"
    and reads: "rx (rw c) @ react (rw c) (tx (rw c) @ [frame cmd args]) = rds @ later"
    and ar: "arrives rds (nat timeout) (concat (map encodeFrame (stale @ [cmd # reply])))"
    and ok: "\<forall>p\<in>set stale. frame_ok p \<and> hd p \<noteq> cmd" "length reply < 250" "0 < timeout"
  shows "\<exists>c'. bdo cmd args retries timeout c = (Inr reply, c') \<and> sends c [frame cmd args] c'"
proof -
  define c1 where "c1 = c\<lparr>dec := reset (dec c), rw := (rw c)\<lparr>tx := tx (rw c) @ [frame cmd args], rx := rds @ later\<rparr>\<rparr>"
  have w: "bwrite cmd args (c\<lparr>dec := reset (dec c)\<rparr>) = (Inr (), c1)"
    using dev reads by (simp add: bwrite_def tr_write_ok frame_def c1_def)
  have "snd (feeds (dec c1) (concat (map encodeFrame (stale @ [cmd # reply])))) = stale @ [cmd # reply]"
    using ok by (intro link.recv_stream_exact) (auto simp: c1_def reset_def list_all_iff frame_ok_def)
  moreover have "first_reply cmd (stale @ [cmd # reply]) = Some reply"
    using ok(1) by (simp add: first_reply_append first_reply_stale)
  ultimately have "fst (await_loop cmd (now (rw c1) + timeout) c1) = Inr reply"
    using ar dev ok(3) by (intro await_loop_finds) (auto simp: c1_def read_limit_def)
  then obtain c2 where a: "await cmd timeout c1 = (Inr reply, c2)" by (metis await_def prod.collapse)
  obtain k where k: "nat (if retries < 1 then 1 else retries) = Suc k"
    by (cases "nat (if retries < 1 then 1 else retries)") (auto split: if_splits)
  have "bdo cmd args retries timeout c = (Inr reply, c2)"
    unfolding bdo_def Let_def k using w a by simp
  moreover have "sends c [frame cmd args] c2"
    using await_sends [OF a] by (simp add: sends_def c1_def)
  ultimately show ?thesis by blast
qed


section \<open>A flashing session\<close>

abbreviation info_frame :: "byte list" where "info_frame \<equiv> frame ReadBootInfo []"
abbreviation base_frame :: "byte list" where
  "base_frame \<equiv> frame ReadCRCcmd (crc_args AppBase135 (AppBase150 - AppBase135) 0)"
abbreviation erase_frame :: "byte list" where "erase_frame \<equiv> frame EraseFlash []"
abbreviation verify_frame :: "Image \<Rightarrow> byte list" where
  "verify_frame img \<equiv> frame ReadCRCcmd (crc_args (Start img) (Length img) (CRC img))"

lemma connect_sends:
  assumes "connect wait c = (r, c')"
  shows "\<exists>j. sends c (replicate j info_frame) c' \<and> (isl r \<or> 0 < j)"
proof -
  obtain x c1 where x: "Connect wait c = (x, c1)" by fastforce
  with assms have "c' = c1" "isl x = isl r" by (auto simp: connect_def tryE_def split: sum.splits)
  with Connect_sends [OF x] show ?thesis by auto
qed

text \<open>Up to the family check only the two read commands are sent.\<close>

lemma probe_sends:
  assumes "connect wait c = (Inr (), c1)" "DetectAppBase c1 = (r, c2)"
  shows "\<exists>a b. 0 < a \<and> b \<le> 3 \<and> (isl r \<or> 0 < b) \<and> sends c (replicate a info_frame @ replicate b base_frame) c2"
proof -
  obtain a where a: "0 < a" "sends c (replicate a info_frame) c1" using connect_sends [OF assms(1)] by auto
  obtain b where b: "b \<le> 3" "isl r \<or> 0 < b" "sends c1 (replicate b base_frame) c2"
    using DetectAppBase_sends [OF assms(2)] by auto
  from sends_trans [OF a(2) b(3)] a(1) b(1,2) show ?thesis by blast
qed

lemma flash_cases:
  assumes "flash img wait run c = (r, c')"
  obtains (no_device) e where "connect wait c = (Inl e, c')" "r = Inl e"
  | (no_base) c1 e where "connect wait c = (Inr (), c1)" "DetectAppBase c1 = (Inl e, c')" "isl r"
  | (mismatch) c1 base where "connect wait c = (Inr (), c1)" "DetectAppBase c1 = (Inr base, c')"
      "base \<noteq> want_base img" "r = Inl (family_mismatch base (want_base img))"
  | (match) c1 c2 where "connect wait c = (Inr (), c1)" "DetectAppBase c1 = (Inr (want_base img), c2)"
  using assms by (auto simp: flash_def bindE_def tryE_def split: prod.splits sum.splits if_splits)

lemma flash_matched:
  assumes "connect wait c = (Inr (), c1)" "DetectAppBase c1 = (Inr (want_base img), c2)"
    "flash img wait run c = (Inr u, c')"
  obtains c3 c4 c5 where "Erase c2 = (Inr (), c3)" "Program img c3 = (Inr (), c4)"
    "Verify img c4 = (Inr (CRC img), c5)" "if run then Run c5 = (Inr (), c') else c' = c5"
proof -
  obtain x c3 where e: "Erase c2 = (x, c3)" by fastforce
  obtain y c4 where p: "Program img c3 = (y, c4)" by fastforce
  obtain z c5 where v: "Verify img c4 = (z, c5)" by fastforce
  from assms e p v have "x = Inr ()" "y = Inr ()" "z = Inr (CRC img)" "if run then Run c5 = (Inr (), c') else c' = c5"
    by (auto simp: flash_def bindE_def tryE_def dest: Verify_match split: sum.splits if_splits)
  with e p v that show ?thesis by blast
qed

lemma flash_sends:
  assumes "flash img wait run c = (Inr u, c')"
  shows "\<exists>a b e prog v c4 c5. 0 < a \<and> 0 < b \<and> 0 < e \<and> e \<le> 3 \<and> 0 < v
    \<and> retried 3 (map (frame ProgramFlash) (batches (Records img))) prog
    \<and> sends c (replicate a info_frame @ replicate b base_frame @ replicate e erase_frame @ prog) c4
    \<and> sends c4 (replicate v (verify_frame img)) c5
    \<and> ReadCRC (Start img) (Length img) (CRC img) c4 = (Inr (CRC img), c5)
    \<and> sends c5 (if run then [frame JumpToApp []] else []) c'"
proof -
  obtain c1 c2 where m: "connect wait c = (Inr (), c1)" "DetectAppBase c1 = (Inr (want_base img), c2)"
    using assms by (cases rule: flash_cases) auto
  obtain c3 c4 c5 where s: "Erase c2 = (Inr (), c3)" "Program img c3 = (Inr (), c4)"
    "Verify img c4 = (Inr (CRC img), c5)" "if run then Run c5 = (Inr (), c') else c' = c5"
    using flash_matched [OF m assms] by blast
  obtain a b where ab: "0 < a" "0 < b" "sends c (replicate a info_frame @ replicate b base_frame) c2"
    using probe_sends [OF m] by auto
  obtain e where e: "0 < e" "e \<le> 3" "sends c2 (replicate e erase_frame) c3" using Erase_sends [OF s(1)] by auto
  obtain prog where p: "sends c3 prog c4" "retried 3 (map (frame ProgramFlash) (batches (Records img))) prog"
    using program_loop_frames [of "Records img" 0 c3 "()" c4] s(2) by (auto simp: Program_def)
  obtain v where v: "0 < v" "sends c4 (replicate v (verify_frame img)) c5" using Verify_sends [OF s(3)] by auto
  have "sends c5 (if run then [frame JumpToApp []] else []) c'"
    using s(4) bwrite_sends [of JumpToApp "[]" c5 "Inr ()" c'] by (cases run) (auto simp: Run_def)
  moreover have "sends c (replicate a info_frame @ replicate b base_frame @ replicate e erase_frame @ prog) c4"
    using ab(3) e(3) p(1) unfolding sends_def by simp
  ultimately show ?thesis using ab(1,2) e(1,2) p(2) v Verify_match [OF s(3)] by blast
qed

section \<open>A device that answers\<close>

text \<open>
  The bootloader as AN1388 documents it: a pipe on which every command frame but the jump
  is answered, within \<open>d\<close> ns and in one read, by a frame that echoes the command and
  carries \<open>reply cmd args\<close>.
\<close>

definition answers :: "nat \<Rightarrow> (byte \<Rightarrow> byte list \<Rightarrow> byte list) \<Rightarrow> byte transport \<Rightarrow> bool" where
  "answers d reply t = (rx t = [] \<and> wx t = [] \<and> read_limit t = None
     \<and> (\<forall>h cmd args. cmd \<noteq> JumpToApp \<and> length args < 250 \<longrightarrow>
          react t (h @ [frame cmd args]) = [Rd d (frame cmd (reply cmd args)) None]))"

lemma escape_length: "length (concat (map escape_byte bs)) \<le> 2 * length bs"
  by (induction bs) (auto simp: escape_byte_def)

lemma frame_length: "length (frame cmd args) \<le> 2 * length args + 8"
  using escape_length [of "(cmd # args) @ [ucast (CRC16 (cmd # args)), ucast (drop_bit 8 (CRC16 (cmd # args)))]"]
  by (simp add: frame_def encodeFrame_def Let_def)

lemma frame_nonempty: "frame cmd args \<noteq> []"
  by (simp add: frame_def encodeFrame_def Let_def)

lemma bdo_answered:
  assumes dev: "answers d reply (rw c)" and cmd: "cmd \<noteq> JumpToApp" "length args < 250"
    and fits: "length (reply cmd args) \<le> 120" and time: "0 < timeout"
  shows "\<exists>c'. bdo cmd args retries timeout c = (Inr (reply cmd args), c')
    \<and> sends c [frame cmd args] c' \<and> answers d reply (rw c')"
proof -
  let ?rd = "Rd d (frame cmd (reply cmd args)) None"
  define c1 where "c1 = c\<lparr>dec := reset (dec c), rw := (rw c)\<lparr>tx := tx (rw c) @ [frame cmd args], rx := [?rd]\<rparr>\<rparr>"
  have w: "bwrite cmd args (c\<lparr>dec := reset (dec c)\<rparr>) = (Inr (), c1)"
    using dev cmd by (simp add: bwrite_def tr_write_ok answers_def c1_def flip: frame_def)
  define t where "t = (rw c1)\<lparr>rx := [], now := now (rw c1) + int d\<rparr>"
  have rd: "tr_read 256 (rw c1) = ((frame cmd (reply cmd args), None), t)"
  proof -
    have "rx (rw c1) = [?rd]" "read_limit (rw c1) = None"
      using dev by (auto simp: c1_def answers_def read_limit_def)
    moreover have "length (frame cmd (reply cmd args)) \<le> 256"
      using frame_length [of cmd "reply cmd args"] fits by simp
    ultimately show ?thesis by (simp add: t_def)
  qed
  have "snd (feeds (dec c1) (concat (map encodeFrame [cmd # reply cmd args]))) = [cmd # reply cmd args]"
    using fits by (intro link.recv_stream_exact) (auto simp: c1_def reset_def frame_ok_def)
  then have "snd (feed_until cmd (dec c1) (frame cmd (reply cmd args))) = Some (reply cmd args)"
    by (simp add: feed_until_feeds frame_def)
  then obtain e where fu: "feed_until cmd (dec c1) (frame cmd (reply cmd args)) = (e, Some (reply cmd args))"
    by (metis prod.collapse)
  have a: "await cmd timeout c1 = (Inr (reply cmd args), c1\<lparr>rw := t, dec := e\<rparr>)"
    unfolding await_def using rd fu time frame_nonempty by (subst await_loop.simps) simp
  obtain k where k: "nat (if retries < 1 then 1 else retries) = Suc k"
    by (cases "nat (if retries < 1 then 1 else retries)") (auto split: if_splits)
  have "bdo cmd args retries timeout c = (Inr (reply cmd args), c1\<lparr>rw := t, dec := e\<rparr>)"
    unfolding bdo_def Let_def k using w a by simp
  moreover have "answers d reply t" using dev by (auto simp: answers_def t_def c1_def read_limit_def)
  ultimately show ?thesis by (auto simp: sends_def t_def c1_def)
qed

lemma program_answered:
  assumes "answers d reply (rw c)" "\<forall>a\<in>set (batches (drop i records)). length a < 250"
    "\<And>args. length (reply ProgramFlash args) \<le> 120"
  shows "\<exists>c'. program_loop records i c = (Inr (), c') \<and> answers d reply (rw c')
    \<and> sends c (map (frame ProgramFlash) (batches (drop i records))) c'"
  using assms(1,2)
proof (induction records i arbitrary: c rule: program_loop.induct)
  case (1 records i)
  show ?case
  proof (cases "i < length records")
    case False
    with 1 show ?thesis by (subst program_loop.simps) (auto simp: batches.simps)
  next
    case True
    define args where "args = concat (take 11 (drop i records))"
    have tk: "take (min (i + recordsPerFrame) (length records) - i) (drop i records) = take 11 (drop i records)"
      by (auto simp: recordsPerFrame_def min_def)
    from True have b: "batches (drop i records) = args # batches (drop (i + 11) records)"
      by (subst batches.simps) (simp add: args_def add.commute)
    obtain c1 where c1: "bdo ProgramFlash args commandRetries programTimeout c = (Inr (reply ProgramFlash args), c1)"
      "sends c [frame ProgramFlash args] c1" "answers d reply (rw c1)"
      using bdo_answered [OF 1(2), of ProgramFlash args programTimeout commandRetries] 1(3) assms(3)
      by (auto simp: b ProgramFlash_def JumpToApp_def programTimeout_def ms_def)
    define c2 where "c2 = c1\<lparr>progress := progress c1 @ [(min (i + recordsPerFrame) (length records), length records)]\<rparr>"
    have step: "program_loop records i c = program_loop records (i + recordsPerFrame) c2"
      using True c1(1) by (subst program_loop.simps)
        (simp add: Let_def tryE_def bindE_def tk c2_def flip: args_def)
    obtain c' where c': "program_loop records (i + recordsPerFrame) c2 = (Inr (), c')" "answers d reply (rw c')"
      "sends c2 (map (frame ProgramFlash) (batches (drop (i + recordsPerFrame) records))) c'"
      using 1(1) [OF refl True refl refl, of c2] 1(3) c1(3) by (auto simp: b c2_def recordsPerFrame_def)
    show ?thesis
      unfolding step b using c' c1(2) by (auto simp: sends_def c2_def recordsPerFrame_def)
  qed
qed


lemma ReadCRC_answered:
  assumes "answers d reply (rw c)" "reply ReadCRCcmd (crc_args start len e) = [ucast v, ucast (drop_bit 8 v)]"
  shows "\<exists>c'. ReadCRC start len e c = (Inr v, c') \<and> answers d reply (rw c')
    \<and> sends c [frame ReadCRCcmd (crc_args start len e)] c'"
proof -
  obtain c' where c': "bdo ReadCRCcmd (crc_args start len e) commandRetries verifyTimeout c
      = (Inr [ucast v, ucast (drop_bit 8 v)], c')"
    "sends c [frame ReadCRCcmd (crc_args start len e)] c'" "answers d reply (rw c')"
    using bdo_answered [OF assms(1), of ReadCRCcmd "crc_args start len e" verifyTimeout commandRetries] assms(2)
    by (auto simp: ReadCRCcmd_def JumpToApp_def verifyTimeout_def ms_def crc_args_def le32_def)
  have "ReadCRC start len e c = (Inr v, c')"
    unfolding ReadCRC_def crc_args_def [symmetric] using c'(1) by (simp add: bindE_def crc_le_bytes)
  with c' show ?thesis by blast
qed

lemma connect_answered:
  assumes dev: "answers d reply (rw c)"
    and sizes: "\<And>cmd args. length (reply cmd args) \<le> 120" "2 \<le> length (reply ReadBootInfo [])"
  shows "\<exists>c1. connect wait c = (Inr (), c1) \<and> answers d reply (rw c1) \<and> sends c [info_frame] c1"
proof -
  define n where "n = (if go_quot wait connectRetryEvery < 1 then 1 else go_quot wait connectRetryEvery)"
  obtain c1 where b: "bdo ReadBootInfo [] n connectRetryEvery c = (Inr (reply ReadBootInfo []), c1)"
    "sends c [info_frame] c1" "answers d reply (rw c1)"
    using bdo_answered [OF dev, of ReadBootInfo "[]" connectRetryEvery n] sizes(1)
    by (auto simp: ReadBootInfo_def JumpToApp_def connectRetryEvery_def ms_def)
  have "\<exists>i. Connect wait c = (Inr i, c1)"
    unfolding Connect_def Let_def n_def [symmetric] using b(1) sizes(2) by (simp add: bindE_def)
  then have "connect wait c = (Inr (), c1)" by (auto simp: connect_def tryE_def)
  with b show ?thesis by blast
qed

lemma flash_answered:
  assumes dev: "answers d reply (rw c)"
    and sizes: "\<And>cmd args. length (reply cmd args) \<le> 120" "2 \<le> length (reply ReadBootInfo [])"
    and base: "reply ReadCRCcmd (crc_args AppBase135 (AppBase150 - AppBase135) 0) = [ucast b, ucast (drop_bit 8 b)]"
      "(b = ErasedCRC (AppBase150 - AppBase135)) = (AppBase150 \<le> Start img)"
    and crc: "reply ReadCRCcmd (crc_args (Start img) (Length img) (CRC img)) = [ucast (CRC img), ucast (drop_bit 8 (CRC img))]"
    and fits: "\<forall>a\<in>set (batches (Records img)). length a < 250"
  shows "\<exists>c'. flash img wait run c = (Inr (), c')
    \<and> sends c ([info_frame, base_frame, erase_frame] @ map (frame ProgramFlash) (batches (Records img))
        @ [verify_frame img] @ (if run then [frame JumpToApp []] else [])) c'"
proof -
  obtain c1 where c1: "connect wait c = (Inr (), c1)" "answers d reply (rw c1)" "sends c [info_frame] c1"
    using connect_answered [of d reply c, OF dev sizes] by blast
  obtain c2 where c2: "DetectAppBase c1 = (Inr (want_base img), c2)" "answers d reply (rw c2)" "sends c1 [base_frame] c2"
  proof -
    obtain c2 where r: "ReadCRC AppBase135 (AppBase150 - AppBase135) 0 c1 = (Inr b, c2)" "answers d reply (rw c2)"
      "sends c1 [base_frame] c2" using ReadCRC_answered [OF c1(2) base(1)] by blast
    then have "DetectAppBase c1 = (Inr (want_base img), c2)"
      using base(2) by (auto simp: DetectAppBase_def Let_def bindE_def want_base_def)
    with r that show thesis by blast
  qed
  obtain c3 where c3: "Erase c2 = (Inr (), c3)" "answers d reply (rw c3)" "sends c2 [erase_frame] c3"
    using bdo_answered [OF c2(2), of EraseFlash "[]" eraseTimeout commandRetries] sizes(1)
    by (auto simp: Erase_def bindE_def EraseFlash_def JumpToApp_def eraseTimeout_def ms_def)
  obtain c4 where c4: "Program img c3 = (Inr (), c4)" "answers d reply (rw c4)"
    "sends c3 (map (frame ProgramFlash) (batches (Records img))) c4"
    using program_answered [OF c3(2), of 0 "Records img"] fits sizes(1) by (auto simp: Program_def)
  obtain c5 where c5: "Verify img c4 = (Inr (CRC img), c5)" "answers d reply (rw c5)" "sends c4 [verify_frame img] c5"
    using ReadCRC_answered [OF c4(2) crc] by (auto simp: Verify_def bindE_def)
  obtain c6 where c6: "(if run then Run else okE ()) c5 = (Inr (), c6)"
    "sends c5 (if run then [frame JumpToApp []] else []) c6"
    using c5(2) by (cases run) (auto simp: Run_def bwrite_def tr_write_ok answers_def sends_def frame_def)
  have "flash img wait run c = (Inr (), c6)"
    using c1(1) c2(1) c3(1) c4(1) c5(1) c6(1) by (simp add: flash_def bindE_def tryE_def)
  moreover have "sends c ([info_frame, base_frame, erase_frame] @ map (frame ProgramFlash) (batches (Records img))
        @ [verify_frame img] @ (if run then [frame JumpToApp []] else [])) c6"
    using c1(3) c2(3) c3(3) c4(3) c5(3) c6(2) by (simp add: sends_def)
  ultimately show ?thesis by blast
qed


text \<open>A concrete bootloader: it decodes the last frame written and answers it.\<close>

definition boot_device :: "(byte \<Rightarrow> byte list \<Rightarrow> byte list) \<Rightarrow> byte transport" where
  "boot_device reply = \<lparr>rx = [], wx = [],
     react = (\<lambda>h. case snd (feeds \<lparr>buf = [], inDLE = False\<rparr> (last h)) of
        [p] \<Rightarrow> [Rd 1000000 (frame (hd p) (reply (hd p) (tl p))) None] | _ \<Rightarrow> []),
     tx = [], now = 0, isDeadliner = False, readDeadline = None\<rparr>"

lemma boot_device_answers: "answers 1000000 reply (boot_device reply)"
proof -
  have "snd (feeds \<lparr>buf = [], inDLE = False\<rparr> (frame cmd args)) = [cmd # args]" if "length args < 250" for cmd args
    using link.recv_stream_exact(1) [of "\<lparr>buf = [], inDLE = False\<rparr>" "[cmd # args]"] that
    by (simp add: frame_ok_def frame_def)
  then show ?thesis by (simp add: answers_def boot_device_def read_limit_def)
qed

definition sample_img :: Image where
  "sample_img = \<lparr>Records = sample_recs, Start = AppBase150, Length = 8, CRC = 0x1234\<rparr>"

text \<open>Flash below the upper base is erased; the image's range has the image's CRC.\<close>

definition sample_reply :: "byte \<Rightarrow> byte list \<Rightarrow> byte list" where
  "sample_reply cmd args =
     (if cmd = ReadBootInfo then [1, 0]
      else if cmd = ReadCRCcmd then
        (let v = (if args = crc_args AppBase150 8 0x1234 then 0x1234 else ErasedCRC (AppBase150 - AppBase135))
         in [ucast v, ucast (drop_bit 8 v)])
      else [])"

lemma sample_reply_facts:
  "length (sample_reply cmd args) \<le> 120" "2 \<le> length (sample_reply ReadBootInfo [])"
  "sample_reply ReadCRCcmd (crc_args AppBase135 (AppBase150 - AppBase135) 0)
     = [ucast (ErasedCRC (AppBase150 - AppBase135)), ucast (drop_bit 8 (ErasedCRC (AppBase150 - AppBase135)))]"
  "sample_reply ReadCRCcmd (crc_args (Start sample_img) (Length sample_img) (CRC sample_img))
     = [ucast (CRC sample_img), ucast (drop_bit 8 (CRC sample_img))]"
  "\<forall>a\<in>set (batches (Records sample_img)). length a < 250"
  by (simp_all add: sample_reply_def ReadBootInfo_def ReadCRCcmd_def Let_def crc_args_def le32_def
      sample_img_def AppBase135_def AppBase150_def batches.simps sample_recs_def)

abbreviation sample_client :: client where
  "sample_client \<equiv> newClient (boot_device sample_reply)"

lemma sample_answers: "answers 1000000 sample_reply (rw sample_client)"
  by (simp add: newClient_def boot_device_answers)

lemma sample_flash: "\<exists>c'. flash sample_img 0 True sample_client = (Inr (), c')"
  using flash_answered [OF sample_answers sample_reply_facts(1-3) _ sample_reply_facts(4,5)]
  by (auto simp: sample_img_def)

section \<open>Properties of the session\<close>

text \<open>C10: on a device that answers every command, reports the application base the image is
  linked for and then the CRC of the image, \<open>flash\<close> succeeds, and it sends each command
  exactly once: the boot info, the family query, the erase, all the groups of records in
  order, the CRC query and, when asked for, the jump.\<close>

theorem flash_on_answering_device:
  assumes dev: "answers d reply (rw c)"
    and sizes: "\<And>cmd args. length (reply cmd args) \<le> 120" "2 \<le> length (reply ReadBootInfo [])"
    and base: "reply ReadCRCcmd (crc_args AppBase135 (AppBase150 - AppBase135) 0) = [ucast b, ucast (drop_bit 8 b)]"
      "(b = ErasedCRC (AppBase150 - AppBase135)) = (AppBase150 \<le> Start img)"
    and crc: "reply ReadCRCcmd (crc_args (Start img) (Length img) (CRC img)) = [ucast (CRC img), ucast (drop_bit 8 (CRC img))]"
    and fits: "\<forall>a\<in>set (batches (Records img)). length a < 250"
  shows "\<exists>c'. flash img wait run c = (Inr (), c')
    \<and> sends c ([info_frame, base_frame, erase_frame] @ map (frame ProgramFlash) (batches (Records img))
        @ [verify_frame img] @ (if run then [frame JumpToApp []] else [])) c'"
  by (rule flash_answered [OF assms])

theorem flash_on_answering_device_witness:
  "\<exists>c'. flash sample_img 0 True sample_client = (Inr (), c')
    \<and> sends sample_client ([info_frame, base_frame, erase_frame]
        @ map (frame ProgramFlash) (batches sample_recs) @ [verify_frame sample_img] @ [frame JumpToApp []]) c'"
  using flash_on_answering_device [OF sample_answers sample_reply_facts(1-3) _ sample_reply_facts(4,5), of 0 True]
  by (simp add: sample_img_def)

text \<open>C4: \<open>flash\<close> sends anything beyond the two read commands only when the device's
  application base is the one the image is linked for.\<close>

theorem flash_family_guard:
  assumes "flash img wait run c = (r, c')"
  shows "(\<exists>a b. sends c (replicate a info_frame @ replicate b base_frame) c' \<and> isl r)
    \<or> (\<exists>c1 c2. connect wait c = (Inr (), c1) \<and> DetectAppBase c1 = (Inr (want_base img), c2))"
  using assms
proof (cases rule: flash_cases)
  case no_device
  with connect_sends [of wait c "Inl e" c' for e] show ?thesis
    by (metis append_Nil2 isl_def replicate_0)
next
  case no_base
  with probe_sends [of wait c] show ?thesis by blast
next
  case mismatch
  with probe_sends [of wait c] show ?thesis by (metis isl_def)
qed blast

theorem flash_family_guard_witness:
  "\<exists>r c'. flash (sample_img\<lparr>Start := AppBase135\<rparr>) 0 True sample_client = (r, c') \<and>
    ((\<exists>a b. sends sample_client (replicate a info_frame @ replicate b base_frame) c' \<and> isl r)
    \<or> (\<exists>c1 c2. connect 0 sample_client = (Inr (), c1) \<and> DetectAppBase c1 = (Inr AppBase135, c2)))"
proof -
  obtain r c' where f: "flash (sample_img\<lparr>Start := AppBase135\<rparr>) 0 True sample_client = (r, c')" by fastforce
  have "want_base (sample_img\<lparr>Start := AppBase135\<rparr>) = AppBase135"
    by (simp add: want_base_def AppBase135_def AppBase150_def)
  with flash_family_guard [OF f] f show ?thesis by metis
qed

text \<open>C3: a flashing session that reports success, on whatever device, has sent, in this
  order and nothing else: polls for the boot info, the family query, the erase command,
  every group of records of the image in sequence (each at most three times), the CRC
  query of the image, and the jump when asked for; and the device answered that query
  with the CRC of the image. The groups together are the records of the image.\<close>

theorem flash_success:
  assumes "flash img wait run c = (Inr u, c')"
  shows "concat (batches (Records img)) = concat (Records img) \<and> (\<exists>a b e prog v c4 c5.
      0 < a \<and> 0 < b \<and> 0 < e \<and> e \<le> 3 \<and> 0 < v
    \<and> retried 3 (map (frame ProgramFlash) (batches (Records img))) prog
    \<and> sends c (replicate a info_frame @ replicate b base_frame @ replicate e erase_frame @ prog) c4
    \<and> sends c4 (replicate v (verify_frame img)) c5
    \<and> ReadCRC (Start img) (Length img) (CRC img) c4 = (Inr (CRC img), c5)
    \<and> sends c5 (if run then [frame JumpToApp []] else []) c')"
  using flash_sends [OF assms] concat_batches by blast

theorem flash_success_witness:
  "\<exists>c' prog. flash sample_img 0 True sample_client = (Inr (), c')
    \<and> retried 3 (map (frame ProgramFlash) (batches (Records sample_img))) prog"
proof -
  obtain c' where f: "flash sample_img 0 True sample_client = (Inr (), c')" using sample_flash by blast
  from flash_success [OF f] f show ?thesis by blast
qed

text \<open>\<open>do\<close> finds its reply behind replies to other commands, wherever the reads cut the
  frames, as long as they arrive before the timeout; it then has sent its command once.\<close>

theorem do_finds_reply:
  assumes dev: "wx (rw c) = []" "read_limit (rw c) = None"
    and reads: "rx (rw c) @ react (rw c) (tx (rw c) @ [frame cmd args]) = rds @ later"
    and ar: "arrives rds (nat timeout) (concat (map encodeFrame (stale @ [cmd # reply])))"
    and ok: "\<forall>p\<in>set stale. frame_ok p \<and> hd p \<noteq> cmd" "length reply < 250" "0 < timeout"
  shows "\<exists>c'. bdo cmd args retries timeout c = (Inr reply, c') \<and> sends c [frame cmd args] c'"
  by (rule bdo_finds [OF assms])

theorem do_finds_reply_witness:
  "\<exists>c'. bdo EraseFlash [] 3 (5 * ms)
      (newClient ((boot_device (\<lambda>_ _. []))\<lparr>rx := [Rd 7 (take 3 (frame 4 [9])) None, Rd 0 (drop 3 (frame 4 [9])) None]\<rparr>))
    = (Inr [], c')"
proof -
  let ?c = "newClient ((boot_device (\<lambda>_ _. []))\<lparr>rx := [Rd 7 (take 3 (frame 4 [9])) None, Rd 0 (drop 3 (frame 4 [9])) None]\<rparr>)"
  let ?rds = "[Rd 7 (take 3 (frame 4 [9])) None, Rd 0 (drop 3 (frame 4 [9])) None, Rd 1000000 (frame EraseFlash []) None]"
  have fr: "frame 4 [9] = [1, 0x10, 4, 9, 0xed, 0x5d, 4]" "frame EraseFlash [] = [1,2,0x42,0x20,4]" by code_simp+
  have "\<forall>h cmd args. cmd \<noteq> JumpToApp \<and> length args < 250 \<longrightarrow>
      react (boot_device (\<lambda>_ _. [])) (h @ [frame cmd args]) = [Rd 1000000 (frame cmd []) None]"
    using boot_device_answers [of "\<lambda>_ _. []"] by (simp add: answers_def)
  from this [rule_format, of EraseFlash "[]" "[]"]
  have "react (boot_device (\<lambda>_ _. [])) [frame EraseFlash []] = [Rd 1000000 (frame EraseFlash []) None]"
    by (simp add: EraseFlash_def JumpToApp_def)
  then have reads: "rx (rw ?c) @ react (rw ?c) (tx (rw ?c) @ [frame EraseFlash []]) = ?rds @ []"
    by (simp add: newClient_def boot_device_def)
  have ar: "arrives ?rds (nat (5 * ms)) (concat (map encodeFrame ([[4, 9]] @ [EraseFlash # []])))"
    unfolding fr frame_def [symmetric] list.map append.simps concat.simps by (simp add: ms_def)
  have "wx (rw ?c) = []" "read_limit (rw ?c) = None"
    by (simp_all add: newClient_def boot_device_def read_limit_def)
  moreover have "\<forall>p\<in>set [[4, 9]]. frame_ok p \<and> hd p \<noteq> EraseFlash" "length ([] :: byte list) < 250" "0 < 5 * ms"
    by (simp_all add: frame_ok_def EraseFlash_def ms_def)
  ultimately show ?thesis using do_finds_reply [OF _ _ reads ar] by blast
qed

text \<open>\<open>ErasedCRC\<close> of a length, computed in chunks of 8 KiB, is the CRC of that many
  erased bytes.\<close>

theorem ErasedCRC_correct: "ErasedCRC len = CRC16 (replicate (unat len) 0xFF)"
  by (simp add: ErasedCRC_def CRC16_def erased_loop_crc)

end
