(* ===== verification/GoNum.thy ===== *)
theory GoNum
  imports GoErr
begin

text \<open>
  Numbers and fields in replies: \<open>strconv.Atoi\<close> and \<open>strconv.ParseFloat\<close> on arbitrary text,
  the verbs \<open>%f\<close> and \<open>%d\<close> of \<open>fmt.Sscanf\<close>, and the functions of package \<open>strings\<close> that cut a
  reply apart. A function whose value is used although it also returns an error gives the
  pair of both; \<open>val_err\<close> is the usual reading, error or value.
\<close>

section \<open>Package strings\<close>

text \<open>\<open>Split\<close> at every occurrence of one character, and \<open>SplitN\<close> with at most two parts.\<close>

fun Split :: "char \<Rightarrow> string \<Rightarrow> string list" where
  "Split c [] = [[]]"
| "Split c (d # s) =
     (if d = c then [] # Split c s
      else case Split c s of [] \<Rightarrow> [[d]] | f # fs \<Rightarrow> (d # f) # fs)"

definition IndexByte :: "string \<Rightarrow> char \<Rightarrow> nat option" where
  "IndexByte s c = (if c \<in> set s then Some (length (takeWhile (\<lambda>d. d \<noteq> c) s)) else None)"

definition SplitN2 :: "char \<Rightarrow> string \<Rightarrow> string list" where
  "SplitN2 c s = (case IndexByte s c of None \<Rightarrow> [s] | Some i \<Rightarrow> [take i s, drop (Suc i) s])"

fun Contains :: "string \<Rightarrow> string \<Rightarrow> bool" where
  "Contains [] p = (p = [])"
| "Contains (c # s) p = (HasPrefix (c # s) p \<or> Contains s p)"

fun Index :: "string \<Rightarrow> string \<Rightarrow> nat option" where
  "Index [] p = (if p = [] then Some 0 else None)"
| "Index (c # s) p = (if HasPrefix (c # s) p then Some 0 else map_option Suc (Index s p))"

text \<open>\<open>TrimRight\<close> with a set of ASCII characters.\<close>

definition TrimRight :: "string \<Rightarrow> string \<Rightarrow> string" where
  "TrimRight s cutset = rev (dropWhile (\<lambda>c. c \<in> set cutset) (rev s))"

text \<open>\<open>ToLower\<close> and \<open>EqualFold\<close> on ASCII text, the only letters that occur in serial numbers.\<close>

definition to_lower :: "char \<Rightarrow> char" where
  "to_lower c = (let n = of_char c :: nat in if 65 \<le> n \<and> n \<le> 90 then char_of (n + 32) else c)"

definition ToLower :: "string \<Rightarrow> string" where
  "ToLower s = map to_lower s"

definition EqualFold :: "string \<Rightarrow> string \<Rightarrow> bool" where
  "EqualFold s t = (ToLower s = ToLower t)"

section \<open>Values with errors\<close>

definition val_err :: "'a \<times> gerr option \<Rightarrow> gerr + 'a" where
  "val_err r = (case snd r of None \<Rightarrow> Inr (fst r) | Some e \<Rightarrow> Inl e)"

definition NumError :: "string \<Rightarrow> string \<Rightarrow> gerr \<Rightarrow> gerr" where
  "NumError f s e = Errorf (''strconv.'' @ f @ '': parsing %q: %w'') [AStr s] (Some e)"

section \<open>strconv.Atoi\<close>

text \<open>Decimal digits after an optional sign. A number that does not fit into 64 bits gives
  the nearest one that does, with the error, even when other characters follow.\<close>

definition split_sign :: "string \<Rightarrow> bool \<times> string" where
  "split_sign s = (case s of c # r \<Rightarrow> if c = CHR ''-'' then (True, r) else if c = CHR ''+'' then (False, r) else (False, s)
     | [] \<Rightarrow> (False, []))"

definition ParseInt :: "string \<Rightarrow> string \<Rightarrow> int \<times> gerr option" where
  "ParseInt f s =
     (case split_sign s of (neg, d) \<Rightarrow>
        if d = [] \<or> \<not> list_all is_digit d \<and> digits_val (takeWhile is_digit d) < 2 ^ 64 then (0, Some (NumError f s ErrSyntax))
        else let n = digits_val (takeWhile is_digit d); n = (if neg then - int n else int n)
             in if n < - (2 ^ 63) then (- (2 ^ 63), Some (NumError f s ErrRange))
                else if n \<ge> 2 ^ 63 then (2 ^ 63 - 1, Some (NumError f s ErrRange))
                else (n, None))"

definition Atoi :: "string \<Rightarrow> int \<times> gerr option" where
  "Atoi s = ParseInt ''Atoi'' s"

section \<open>strconv.ParseFloat\<close>

definition is_hex :: "char \<Rightarrow> bool" where
  "is_hex c = (is_digit c \<or> to_lower c \<in> set ''abcdef'')"

definition hex_val :: "char \<Rightarrow> nat" where
  "hex_val c = (if is_digit c then digit_val c else of_char (to_lower c) - 87)"

definition base_val :: "nat \<Rightarrow> string \<Rightarrow> nat" where
  "base_val b s = foldl (\<lambda>a c. b * a + hex_val c) 0 s"

text \<open>The infinities and the undefined number, whatever the case of the letters.\<close>

definition special_float :: "string \<Rightarrow> f64 option" where
  "special_float s =
     (case split_sign s of (neg, r) \<Rightarrow>
        if ToLower r \<in> {''inf'', ''infinity''} then Some (finf neg)
        else if ToLower s = ''nan'' then Some NaN else None)"

text \<open>The digits before and after the point, without the underscores, and what follows.\<close>

fun scan_mantissa :: "bool \<Rightarrow> bool \<Rightarrow> string \<Rightarrow> (string \<times> string) \<times> string" where
  "scan_mantissa hex dot [] = (([], []), [])"
| "scan_mantissa hex dot (c # r) =
     (if c = CHR ''_'' then scan_mantissa hex dot r
      else if c = CHR ''.'' \<and> \<not> dot then scan_mantissa hex True r
      else if is_digit c \<or> hex \<and> is_hex c then
        (case scan_mantissa hex dot r of ((i, f), rest) \<Rightarrow> (if dot then (i, c # f) else (c # i, f), rest))
      else (([], []), c # r))"

definition exp_digit :: "int \<Rightarrow> char \<Rightarrow> int" where
  "exp_digit e c = (if c = CHR ''_'' then e else if e < 10000 then e * 10 + int (digit_val c) else e)"

definition scan_exponent :: "string \<Rightarrow> int option" where
  "scan_exponent s =
     (case split_sign s of (neg, d) \<Rightarrow>
        if d = [] \<or> \<not> is_digit (hd d) \<or> \<not> list_all (\<lambda>c. is_digit c \<or> c = CHR ''_'') d then None
        else let e = foldl exp_digit 0 d in Some (if neg then - e else e))"

text \<open>Underscores stand between digits, the base prefix counting as one: \<open>p\<close> is the kind of
  the previous character, a digit (\<open>0\<close>), an underscore or something else.\<close>

fun underscores :: "bool \<Rightarrow> char \<Rightarrow> string \<Rightarrow> bool" where
  "underscores hex p [] = (p \<noteq> CHR ''_'')"
| "underscores hex p (c # r) =
     (if is_digit c \<or> hex \<and> is_hex c then underscores hex CHR ''0'' r
      else if c = CHR ''_'' then p = CHR ''0'' \<and> underscores hex CHR ''_'' r
      else p \<noteq> CHR ''_'' \<and> underscores hex CHR ''!'' r)"

definition underscoreOK :: "string \<Rightarrow> bool" where
  "underscoreOK s =
     (case snd (split_sign s) of
        c # d # r \<Rightarrow> if c = CHR ''0'' \<and> to_lower d \<in> set ''box''
                    then underscores (to_lower d = CHR ''x'') CHR ''0'' r
                    else underscores False CHR ''^'' (c # d # r)
      | r \<Rightarrow> underscores False CHR ''^'' r)"

text \<open>The value of a decimal or hexadecimal numeral.\<close>

definition readFloat :: "string \<Rightarrow> (bool \<times> rat) option" where
  "readFloat s =
     (case split_sign s of (neg, r) \<Rightarrow>
        let hex = (length r \<ge> 3 \<and> r ! 0 = CHR ''0'' \<and> to_lower (r ! 1) = CHR ''x'');
            base = (if hex then 16 else 10);
            ((i, f), rest) = scan_mantissa hex False (if hex then drop 2 r else r);
            m = of_nat (base_val base (i @ f)) / of_nat base ^ length f
        in if i @ f = [] \<or> CHR ''_'' \<in> set s \<and> \<not> underscoreOK s then None
           else case rest of
                  [] \<Rightarrow> if hex then None else Some (neg, m)
                | c # e \<Rightarrow>
                    if to_lower c \<noteq> (if hex then CHR ''p'' else CHR ''e'') then None
                    else map_option (\<lambda>x. (neg, m * (if hex then 2 else 10) powi x)) (scan_exponent e))"

definition signed_float :: "bool \<Rightarrow> f64 \<Rightarrow> f64" where
  "signed_float neg f = (if neg then fneg f else f)"

definition ParseFloat64 :: "string \<Rightarrow> f64 \<times> gerr option" where
  "ParseFloat64 s =
     (case special_float s of
        Some f \<Rightarrow> (f, None)
      | None \<Rightarrow>
          case readFloat s of
            None \<Rightarrow> (Fin 0, Some (NumError ''ParseFloat'' s ErrSyntax))
          | Some (neg, q) \<Rightarrow>
              (let f = signed_float neg (rnd q)
               in if is_fin f then (f, None) else (f, Some (NumError ''ParseFloat'' s ErrRange))))"

section \<open>fmt.Sscanf\<close>

definition errUnexpectedEOF :: gerr where "errUnexpectedEOF = ErrNew ''unexpected EOF''"

text \<open>\<open>SkipSpace\<close>: white space but no newline.\<close>

function skip_space :: "string \<Rightarrow> gerr + string" where
  "skip_space s =
     (let n = lead_space wide_spaces s
      in if n = 0 then Inr s
         else if hd s = CHR 0x0A then Inl (ErrNew ''unexpected newline'')
         else skip_space (drop n s))"
  by pat_completeness auto
termination
proof (relation "measure length")
  fix s and n :: nat
  assume "n = lead_space wide_spaces s" "n \<noteq> 0"
  moreover from this have "s \<noteq> []" by (cases s) auto
  ultimately show "(drop n s, s) \<in> measure length" by simp
qed simp

declare skip_space.simps [simp del]

text \<open>The token buffer and the input left. \<open>tok_opt\<close> accepts one character of a set.\<close>

type_synonym tok = "string \<times> string"

fun tok_opt :: "string \<Rightarrow> tok \<Rightarrow> bool \<times> tok" where
  "tok_opt cs (buf, c # r) = (if c \<in> set cs then (True, buf @ [c], r) else (False, buf, c # r))"
| "tok_opt cs (buf, []) = (False, buf, [])"

definition tok_many :: "string \<Rightarrow> tok \<Rightarrow> tok" where
  "tok_many cs t = (fst t @ takeWhile (\<lambda>c. c \<in> set cs) (snd t), dropWhile (\<lambda>c. c \<in> set cs) (snd t))"

text \<open>Three characters in a row, stopping at the first that is missing.\<close>

definition tok_three :: "string \<Rightarrow> string \<Rightarrow> string \<Rightarrow> tok \<Rightarrow> bool \<times> tok" where
  "tok_three a b c t =
     (case tok_opt a t of (False, t) \<Rightarrow> (False, t)
      | (True, t) \<Rightarrow> case tok_opt b t of (False, t) \<Rightarrow> (False, t) | (True, t) \<Rightarrow> tok_opt c t)"

definition floatToken :: "string \<Rightarrow> string \<times> string" where
  "floatToken inp =
     (case tok_three ''nN'' ''aA'' ''nN'' ([], inp) of (True, t) \<Rightarrow> t
      | (False, t) \<Rightarrow>
          let t = snd (tok_opt ''+-'' t)
          in case tok_three ''iI'' ''nN'' ''fF'' t of (True, t) \<Rightarrow> t
             | (False, t) \<Rightarrow>
                 let (z, t) = tok_opt ''0'' t;
                     (x, t) = (if z then tok_opt ''xX'' t else (False, t));
                     digits = (if x then ''0123456789aAbBcCdDeEfF_'' else ''0123456789_'');
                     t = tok_many digits t;
                     (p, t) = tok_opt ''.'' t;
                     t = (if p then tok_many digits t else t);
                     (e, t) = tok_opt (if x then ''pP'' else ''eEpP'') t
                 in if e then tok_many ''0123456789_'' (snd (tok_opt ''+-'' t)) else t)"

text \<open>A decimal number with a binary exponent is the scanner's own.\<close>

definition Ldexp :: "f64 \<Rightarrow> int \<Rightarrow> f64" where
  "Ldexp f n = (if is_fin f \<and> fval f \<noteq> 0 then signed_float (fsign f) (rnd (\<bar>fval f\<bar> * 2 powi n)) else f)"

definition convertFloat :: "string \<Rightarrow> gerr + f64" where
  "convertFloat str =
     (case IndexByte str CHR ''p'' of
        Some p \<Rightarrow>
          if CHR ''x'' \<in> set str \<or> CHR ''X'' \<in> set str then val_err (ParseFloat64 str)
          else (case ParseFloat64 (take p str) of
                  (_, Some (Errorf m _ w)) \<Rightarrow> Inl (Errorf m [AStr str] w)
                | (_, Some e) \<Rightarrow> Inl e
                | (f, None) \<Rightarrow>
                    (case Atoi (drop (Suc p) str) of
                       (_, Some (Errorf m _ w)) \<Rightarrow> Inl (Errorf m [AStr str] w)
                     | (_, Some e) \<Rightarrow> Inl e
                     | (n, None) \<Rightarrow> Inr (Ldexp f n)))
      | None \<Rightarrow> val_err (ParseFloat64 str))"

definition scan_f :: "string \<Rightarrow> gerr + f64 \<times> string" where
  "scan_f inp =
     (case skip_space inp of
        Inl e \<Rightarrow> Inl e
      | Inr s \<Rightarrow>
          if s = [] then Inl errUnexpectedEOF
          else case floatToken s of (t, r) \<Rightarrow> map_sum id (\<lambda>f. (f, r)) (convertFloat t))"

definition scan_d :: "string \<Rightarrow> gerr + int \<times> string" where
  "scan_d inp =
     (case skip_space inp of
        Inl e \<Rightarrow> Inl e
      | Inr s \<Rightarrow>
          if s = [] then Inl errUnexpectedEOF
          else let (buf, r) = snd (tok_opt ''+-'' ([], s))
               in if r = [] then Inl errUnexpectedEOF
                  else if \<not> is_digit (hd r) then Inl (ErrNew ''expected integer'')
                  else map_sum id (\<lambda>n. (n, dropWhile is_digit r))
                         (val_err (ParseInt ''ParseInt'' (buf @ takeWhile is_digit r))))"

text \<open>The formats the program scans with: \<open>%f\<close>, \<open>%d\<close> and \<open>%f|%f\<close>. Input that is left over is
  ignored.\<close>

definition Sscanf_f :: "string \<Rightarrow> gerr + f64" where
  "Sscanf_f s = map_sum id fst (scan_f s)"

definition Sscanf_d :: "string \<Rightarrow> gerr + int" where
  "Sscanf_d s = map_sum id fst (scan_d s)"

definition Sscanf_f_bar_f :: "string \<Rightarrow> gerr + f64 \<times> f64" where
  "Sscanf_f_bar_f s =
     (case scan_f s of
        Inl e \<Rightarrow> Inl e
      | Inr (a, []) \<Rightarrow> Inl errUnexpectedEOF
      | Inr (a, c # r) \<Rightarrow>
          if c \<noteq> CHR ''|'' then Inl (ErrNew ''input does not match format'')
          else map_sum id (\<lambda>(b, _). (a, b)) (scan_f r))"

section \<open>Facts\<close>

lemma Split_not_Nil [simp]: "Split c s \<noteq> []"
  by (induction s) (auto split: list.splits)

lemma Split_none: "c \<notin> set s \<Longrightarrow> Split c s = [s]"
  by (induction s) auto

lemma Split_append: "c \<notin> set s \<Longrightarrow> Split c (s @ c # r) = s # Split c r"
  by (induction s) auto

lemma Split_no_sep: "f \<in> set (Split c s) \<Longrightarrow> c \<notin> set f"
  by (induction s arbitrary: f) (auto split: list.splits if_splits)

text \<open>On text of digits and points the general \<open>ParseFloat64\<close> is the \<open>ParseFloat\<close> of theory
  \<open>GoFmt\<close>.\<close>

definition dot_digit :: "char \<Rightarrow> bool" where
  "dot_digit c = (is_digit c \<or> c = CHR ''.'')"

lemma base_val_digits: "list_all is_digit s \<Longrightarrow> base_val 10 s = digits_val s"
  unfolding base_val_def digits_val_def
  by (induction s rule: rev_induct) (auto simp: hex_val_def)


lemma digit_not: "is_digit c \<Longrightarrow> c \<noteq> CHR ''.'' \<and> c \<noteq> CHR ''_'' \<and> c \<noteq> CHR ''+'' \<and> c \<noteq> CHR ''-''"
  by (auto simp: is_digit_iff)

lemma scan_mantissa_fraction:
  assumes "list_all dot_digit s"
  shows "scan_mantissa False True s = (([], takeWhile is_digit s), dropWhile is_digit s)"
  using assms by (induction s) (auto simp: dot_digit_def dest: digit_not)

lemma scan_mantissa_plain:
  assumes "list_all dot_digit s"
  shows "scan_mantissa False False s = (let i = takeWhile is_digit s in
    case dropWhile is_digit s of [] \<Rightarrow> ((i, []), []) | _ # r \<Rightarrow> ((i, takeWhile is_digit r), dropWhile is_digit r))"
  using assms
proof (induction s)
  case (Cons c s)
  show ?case
  proof (cases "is_digit c")
    case True
    then show ?thesis using Cons digit_not [OF True]
      by (cases "dropWhile is_digit s") (simp_all add: Let_def del: dropWhile_eq_Nil_conv)
  next
    case False
    then have "c = CHR ''.''" using Cons.prems by (simp add: dot_digit_def)
    with False show ?thesis using Cons.prems by (simp add: scan_mantissa_fraction)
  qed
qed simp

lemma to_lower_digit: "dot_digit c \<Longrightarrow> to_lower c = c"
  by (auto simp: dot_digit_def is_digit_iff to_lower_def Let_def)

lemma ToLower_digits: "list_all dot_digit s \<Longrightarrow> ToLower s = s"
  by (induction s) (auto simp: ToLower_def to_lower_digit)

lemma split_sign_digits: "list_all dot_digit s \<Longrightarrow> split_sign s = (False, s)"
  by (cases s) (auto simp: split_sign_def dot_digit_def is_digit_iff)

lemma special_float_digits: "list_all dot_digit s \<Longrightarrow> special_float s = None"
proof -
  assume a: "list_all dot_digit s"
  have "CHR ''i'' \<notin> set s" "CHR ''n'' \<notin> set s" using a by (auto simp: list_all_iff dot_digit_def is_digit_iff)
  then have "s \<noteq> ''inf''" "s \<noteq> ''infinity''" "s \<noteq> ''nan''" by auto
  with a show ?thesis by (simp only: special_float_def split_sign_digits prod.case ToLower_digits insert_iff empty_iff if_False simp_thms)
qed

lemma dot_digit_split: "list_all dot_digit s \<Longrightarrow> takeWhile (\<lambda>c. c \<noteq> CHR ''.'') s = takeWhile is_digit s"
  "list_all dot_digit s \<Longrightarrow> dropWhile (\<lambda>c. c \<noteq> CHR ''.'') s = dropWhile is_digit s"
  by (induction s) (auto simp: dot_digit_def dest: digit_not)

lemma dropWhile_all_Nil: "list_all P xs \<Longrightarrow> dropWhile P xs = [] \<and> takeWhile P xs = xs"
  by (induction xs) auto

lemma takeWhile_digits: "list_all is_digit (takeWhile is_digit s)"
  by (induction s) auto

lemma readFloat_digits:
  assumes "list_all dot_digit s"
  shows "readFloat s = (case scan_mantissa False False s of ((i, f), rest) \<Rightarrow>
    if i @ f = [] then None
    else case rest of [] \<Rightarrow> Some (False, of_nat (base_val 10 (i @ f)) / 10 ^ length f)
      | c # e \<Rightarrow> if to_lower c \<noteq> CHR ''e'' then None
          else map_option (\<lambda>x. (False, of_nat (base_val 10 (i @ f)) / 10 ^ length f * 10 powi x)) (scan_exponent e))"
proof -
  have x: "(length s \<ge> 3 \<and> s ! 0 = CHR ''0'' \<and> to_lower (s ! 1) = CHR ''x'') = False"
  proof -
    have "dot_digit (s ! 1)" if "length s \<ge> 3" using assms that by (simp add: list_all_length)
    then show ?thesis by (auto simp: to_lower_digit dot_digit_def is_digit_iff)
  qed
  have u: "CHR ''_'' \<notin> set s" using assms by (auto simp: list_all_iff dot_digit_def is_digit_iff)
  show ?thesis
    unfolding readFloat_def split_sign_digits [OF assms] prod.case x Let_def
    using u by (auto split: prod.split list.split)
qed

lemma readFloat_plain:
  assumes "list_all dot_digit s"
  shows "readFloat s = map_option (Pair False) (decimal_value s)"
proof -
  define i where "i = takeWhile is_digit s"
  have i: "list_all is_digit i" by (simp add: i_def takeWhile_digits)
  note unfold = readFloat_digits [OF assms] scan_mantissa_plain [OF assms] decimal_value_def
    dot_digit_split [OF assms] Let_def i_def [symmetric]
  show ?thesis
  proof (cases "dropWhile is_digit s")
    case Nil
    then show ?thesis using base_val_digits [OF i] i unfolding unfold Nil by simp
  next
    case (Cons c r)
    obtain p where p: "s = p @ c # r" using Cons by (metis takeWhile_dropWhile_id)
    have r: "list_all dot_digit r" using p assms by simp
    show ?thesis
    proof (cases "list_all is_digit r")
      case True
      then have "base_val 10 (i @ r) = digits_val (i @ r)" using i by (simp add: base_val_digits)
      have w: "dropWhile is_digit r = []" "takeWhile is_digit r = r" using dropWhile_all_Nil [OF True] by blast+
      have "list_all is_digit (i @ r)" using i True by simp
      with \<open>base_val 10 (i @ r) = _\<close> show ?thesis unfolding unfold Cons list.case w by simp
    next
      case False
      then obtain d t where d: "dropWhile is_digit r = d # t" by (metis dropWhile_eq_Nil_conv list_all_iff neq_Nil_conv)
      then obtain q where "r = q @ d # t" by (metis takeWhile_dropWhile_id)
      with r have "dot_digit d" by simp
      then have "to_lower d \<noteq> CHR ''e''" by (auto simp: to_lower_digit dot_digit_def is_digit_iff)
      then show ?thesis using d False unfolding unfold Cons by simp
    qed
  qed
qed

lemma ParseFloat64_plain:
  assumes "list_all dot_digit s"
  shows "val_err (ParseFloat64 s) = ParseFloat s"
  using assms by (auto simp: ParseFloat64_def special_float_digits readFloat_plain ParseFloat_def val_err_def
      signed_float_def NumError_def Let_def split: option.splits)

text \<open>A decimal number is read back, and holds no dot.\<close>

lemma Atoi_fmt_d:
  assumes "0 \<le> n" "n < 2 ^ 63"
  shows "Atoi (fmt_d w n) = (n, None)"
proof -
  have d: "list_all is_digit (fmt_d w n)" using assms by (simp add: fmt_d_digits)
  then have "list_all dot_digit (fmt_d w n)" by (auto simp: list_all_iff dot_digit_def)
  then have "split_sign (fmt_d w n) = (False, fmt_d w n)" by (rule split_sign_digits)
  moreover have "\<forall>c\<in>set (fmt_d w n). is_digit c" using d by (simp add: list_all_iff)
  ultimately show ?thesis using d assms
    by (simp add: Atoi_def ParseInt_def fmt_d_val Let_def takeWhile_eq_all_conv [THEN iffD2])
qed

lemma digit_text: "0 \<le> n \<Longrightarrow> CHR ''.'' \<notin> set (fmt_d w n)"
  by (auto simp: is_digit_iff dest!: fmt_d_chars)

end
