(* ===== verification/Ports.thy ===== *)
theory Ports
  imports GoNum Transport
begin

text \<open>
  Serial ports and TCP connections (package \<open>serial\<close>, and \<open>DialTCP\<close> of src/lx200.go) as the
  drivers see them. The operating system is the parameter: \<open>'w\<close> is the state of the machine,
  \<open>bugst\<close> the operations of the serial library \<open>go.bug.st/serial\<close>, \<open>tcp\<close> those of package
  \<open>net\<close>. \<open>ports\<close> is what package \<open>serial\<close> offers on top of them; the drivers take it as a
  parameter, and \<open>darwinPorts\<close> and \<open>otherPorts\<close> are its two implementations.
\<close>

record PortInfo =
  pName :: string
  pIsUSB :: bool
  pVID :: string
  pPID :: string
  pSerialNumber :: string

record ('b, 'w) portsOf =
  listPorts :: "'w \<Rightarrow> (gerr + PortInfo list) \<times> 'w"
  openPort :: "string \<Rightarrow> int \<Rightarrow> 'w \<Rightarrow> (gerr + 'b transport) \<times> 'w"
  closePort :: "'b transport \<Rightarrow> 'w \<Rightarrow> 'w"

text \<open>The mounts speak text, the bootloader bytes.\<close>

type_synonym 'w ports = "(char, 'w) portsOf"

record ('b, 'w) bugst =
  GetPortsList :: "'w \<Rightarrow> (gerr + string list) \<times> 'w"
  GetDetailedPortsList :: "'w \<Rightarrow> (gerr + PortInfo list) \<times> 'w"
  bugstOpen :: "string \<Rightarrow> int \<Rightarrow> 'w \<Rightarrow> (gerr + 'b transport) \<times> 'w"
  SetReadTimeout :: "int \<Rightarrow> 'b transport \<Rightarrow> 'w \<Rightarrow> (gerr + 'b transport) \<times> 'w"
  bugstClose :: "'b transport \<Rightarrow> 'w \<Rightarrow> 'w"

definition ReadTimeout :: int where "ReadTimeout = 100 * ms"

definition serialOpen :: "('b, 'w) bugst \<Rightarrow> string \<Rightarrow> int \<Rightarrow> 'w \<Rightarrow> (gerr + 'b transport) \<times> 'w" where
  "serialOpen B name baud w =
     (case bugstOpen B name baud w of
        (Inl e, w) \<Rightarrow> (Inl (Errorf ''lx200/serial: open %s @ %d: %w'' [AStr name, AInt baud] (Some e)), w)
      | (Inr port, w) \<Rightarrow>
          (case SetReadTimeout B ReadTimeout port w of
             (Inl e, w) \<Rightarrow>
               (Inl (Errorf ''lx200/serial: set read timeout on %s: %w'' [AStr name] (Some e)), bugstClose B port w)
           | (Inr port, w) \<Rightarrow> (Inr port, w)))"

text \<open>On macOS only the names of the ports are known.\<close>

definition serialFromName :: "string \<Rightarrow> string" where
  "serialFromName name =
     (case Index name ''usbserial-'' of
        Some i \<Rightarrow> drop (i + length ''usbserial-'') name
      | None \<Rightarrow> (case Index name ''usbmodem'' of
          Some i \<Rightarrow> drop (i + length ''usbmodem'') name
        | None \<Rightarrow> []))"

definition darwinInfo :: "string \<Rightarrow> PortInfo" where
  "darwinInfo n = \<lparr>pName = n, pIsUSB = Contains n ''usbserial'' \<or> Contains n ''usbmodem'', pVID = [], pPID = [],
     pSerialNumber = serialFromName n\<rparr>"

definition listDarwin :: "('b, 'w) bugst \<Rightarrow> 'w \<Rightarrow> (gerr + PortInfo list) \<times> 'w" where
  "listDarwin B w =
     (case GetPortsList B w of
        (Inl e, w) \<Rightarrow> (Inl (Errorf ''lx200/serial: list ports: %w'' [] (Some e)), w)
      | (Inr names, w) \<Rightarrow> (Inr (map darwinInfo names), w))"

definition listOther :: "('b, 'w) bugst \<Rightarrow> 'w \<Rightarrow> (gerr + PortInfo list) \<times> 'w" where
  "listOther B w =
     (case GetDetailedPortsList B w of
        (Inl e, w) \<Rightarrow> (Inl (Errorf ''lx200/serial: enumerate ports: %w'' [] (Some e)), w)
      | (Inr ps, w) \<Rightarrow> (Inr ps, w))"

definition darwinPorts :: "('b, 'w) bugst \<Rightarrow> ('b, 'w) portsOf" where
  "darwinPorts B = \<lparr>listPorts = listDarwin B, openPort = serialOpen B, closePort = bugstClose B\<rparr>"

definition otherPorts :: "('b, 'w) bugst \<Rightarrow> ('b, 'w) portsOf" where
  "otherPorts B = \<lparr>listPorts = listOther B, openPort = serialOpen B, closePort = bugstClose B\<rparr>"

section \<open>TCP\<close>

record 'w tcp =
  netDial :: "string \<Rightarrow> int \<Rightarrow> 'w \<Rightarrow> (gerr + char transport) \<times> 'w"
  netClose :: "char transport \<Rightarrow> 'w \<Rightarrow> 'w"

definition DialTCP :: "'w tcp \<Rightarrow> string \<Rightarrow> int \<Rightarrow> 'w \<Rightarrow> (gerr + char transport) \<times> 'w" where
  "DialTCP N addr dialTimeout w =
     (let dialTimeout = (if dialTimeout \<le> 0 then 5000 * ms else dialTimeout)
      in case netDial N addr dialTimeout w of
           (Inl e, w) \<Rightarrow> (Inl (Errorf ''lx200: dial %s: %w'' [AStr addr] (Some e)), w)
         | (Inr c, w) \<Rightarrow> (Inr c, w))"

section \<open>The serial number in a port's name\<close>

lemma Index_missing: "c \<in> set p \<Longrightarrow> c \<notin> set s \<Longrightarrow> Index s p = None"
proof (induction s)
  case (Cons a s)
  have "\<not> HasPrefix (a # s) p"
  proof
    assume "HasPrefix (a # s) p"
    then obtain r where "a # s = p @ r" by (elim HasPrefixE)
    with Cons.prems show False by (metis Un_iff set_append)
  qed
  with Cons show ?case by simp
qed auto

text \<open>A CDC device appears as \<open>usbmodem\<close>, its serial number and an interface digit.\<close>

lemma serialFromName_cdc:
  assumes "CHR ''-'' \<notin> set sn"
  shows "serialFromName (''/dev/cu.usbmodem'' @ sn) = sn" "serialFromName (''/dev/tty.usbmodem'' @ sn) = sn"
proof -
  have "Index (''/dev/cu.usbmodem'' @ sn) ''usbserial-'' = None" "Index (''/dev/tty.usbmodem'' @ sn) ''usbserial-'' = None"
    using assms by (intro Index_missing [of "CHR ''-''"]; simp)+
  moreover have "Index (''/dev/cu.usbmodem'' @ sn) ''usbmodem'' = Some 8" "Index (''/dev/tty.usbmodem'' @ sn) ''usbmodem'' = Some 9"
    by (simp_all add: HasPrefix_def)
  ultimately show "serialFromName (''/dev/cu.usbmodem'' @ sn) = sn" "serialFromName (''/dev/tty.usbmodem'' @ sn) = sn"
    by (simp_all add: serialFromName_def)
qed

end
