(* ===== verification/BootTool.thy ===== *)
theory BootTool
  imports BootClient Ports
begin

text \<open>
  The commands of the flashing tool around \<open>flash\<close> (src/cmd/rstflash/main.go): \<open>-identify\<close>, \<open>-crc\<close> and
  \<open>-info\<close>, with the choice of the port and the parsing of a range. What a command prints after it
  has connected is kept in \<open>said\<close>, a list of formats with their arguments; \<open>load\<close> is
  \<open>boot.LoadHexFile\<close>, which reads the file and parses it with \<open>ParseHex\<close>. \<open>rstflash\<close> is \<open>main\<close>
  after the flags are parsed; the progress display is left out. The results: \<open>-identify\<close> names
  exactly the files whose CRC the device has, and asks the device once for each range; and firmware
  is erased only for one parsed file, confirmed by the user.
\<close>

section \<open>strconv.ParseUint with base 0\<close>

fun uint_loop :: "nat \<Rightarrow> nat \<Rightarrow> nat \<Rightarrow> string \<Rightarrow> gerr + nat" where
  "uint_loop b maxVal n [] = Inr n"
| "uint_loop b maxVal n (c # s) =
     (if c = CHR ''_'' then uint_loop b maxVal n s
      else if \<not> is_digit c \<and> \<not> (CHR ''a'' \<le> to_lower c \<and> to_lower c \<le> CHR ''z'') then Inl ErrSyntax
      else let d = hex_val c
           in if d \<ge> b then Inl ErrSyntax
              else if n \<ge> (2 ^ 64 - 1) div b + 1 \<or> n * b + d > maxVal then Inl ErrRange
              else uint_loop b maxVal (n * b + d) s)"

definition uint_base :: "string \<Rightarrow> nat \<times> string" where
  "uint_base s =
     (case s of
        c # d # e # r \<Rightarrow>
          if c \<noteq> CHR ''0'' then (10, s)
          else if to_lower d = CHR ''b'' then (2, e # r)
          else if to_lower d = CHR ''o'' then (8, e # r)
          else if to_lower d = CHR ''x'' then (16, e # r)
          else (8, d # e # r)
      | c # r \<Rightarrow> if c = CHR ''0'' then (8, r) else (10, s)
      | [] \<Rightarrow> (10, s))"

definition ParseUint0 :: "string \<Rightarrow> nat \<Rightarrow> gerr + nat" where
  "ParseUint0 s bits =
     (if s = [] then Inl (NumError ''ParseUint'' s ErrSyntax)
      else case uint_base s of (b, digits) \<Rightarrow>
        (case uint_loop b (2 ^ bits - 1) 0 digits of
           Inl e \<Rightarrow> Inl (NumError ''ParseUint'' s e)
         | Inr n \<Rightarrow> if CHR ''_'' \<in> set digits \<and> \<not> underscoreOK s then Inl (NumError ''ParseUint'' s ErrSyntax) else Inr n))"

definition parseRange :: "string \<Rightarrow> gerr + u32 \<times> u32" where
  "parseRange s =
     (case SplitN2 CHR '':'' s of
        [a, b] \<Rightarrow>
          (case ParseUint0 (TrimSpace a) 32 of
             Inl e \<Rightarrow> Inl (Errorf ''bad -range address %q: %w'' [AStr a] (Some e))
           | Inr av \<Rightarrow>
               (case ParseUint0 (TrimSpace b) 32 of
                  Inl e \<Rightarrow> Inl (Errorf ''bad -range length %q: %w'' [AStr b] (Some e))
                | Inr bv \<Rightarrow> Inr (word_of_nat av, word_of_nat bv)))
      | _ \<Rightarrow> Inl (Errorf ''bad -range %q, want ADDR:LEN'' [AStr s] None))"

section \<open>The port\<close>

definition flash_findPort :: "('b, 'w) portsOf \<Rightarrow> 'w \<Rightarrow> (gerr + string) \<times> 'w" where
  "flash_findPort P w =
     (case listPorts P w of
        (Inl e, w) \<Rightarrow> (Inl e, w)
      | (Inr ps, w) \<Rightarrow>
          (case filter (\<lambda>p. pIsUSB p \<and> pVID p = ''0403'' \<and> pPID p = ''6001'') ps of
             p # _ \<Rightarrow> (Inr (pName p), w)
           | [] \<Rightarrow> (case filter (\<lambda>p. pVID p = [] \<and> pIsUSB p \<and> Contains (pName p) ''usbserial'') ps of
               p # _ \<Rightarrow> (Inr (pName p), w)
             | [] \<Rightarrow> (Inl (Errorf ''no RST serial port found (FTDI 0403:6001); pass -serial'' [] None), w))))"

definition choosePort :: "('b, 'w) portsOf \<Rightarrow> string \<Rightarrow> 'w \<Rightarrow> (gerr + string) \<times> 'w" where
  "choosePort P portName w = (if portName = [] then flash_findPort P w else (Inr portName, w))"

definition bootOpen :: "(byte, 'w) portsOf \<Rightarrow> string \<Rightarrow> int \<Rightarrow> 'w \<Rightarrow> (gerr + client) \<times> 'w" where
  "bootOpen P name baud w =
     (case openPort P name baud w of (Inl e, w) \<Rightarrow> (Inl e, w) | (Inr t, w) \<Rightarrow> (Inr (newClient t), w))"

section \<open>The conversation\<close>

record tool =
  tclient :: client
  said :: "(string \<times> farg list) list"

definition onBoot :: "(client, 'a) io \<Rightarrow> (tool, 'a) io" where
  "onBoot m = (\<lambda>s. case m (tclient s) of (r, c) \<Rightarrow> (r, s\<lparr>tclient := c\<rparr>))"

definition say :: "string \<Rightarrow> farg list \<Rightarrow> (tool, unit) io" where
  "say f args = modE (\<lambda>s. s\<lparr>said := said s @ [(f, args)]\<rparr>)"

definition pathBase :: "string \<Rightarrow> string" where
  "pathBase p =
     (let q = TrimRight p ''/''
      in if p = [] then ''.'' else if q = [] then ''/''
         else rev (takeWhile (\<lambda>c. c \<noteq> CHR ''/'') (rev q)))"

definition familyName :: "u32 \<Rightarrow> string" where
  "familyName base = (if base = AppBase150 then ''RST-150H / RST400'' else ''RST-135 / 135E / 300'')"

fun identify_loop :: "(string \<times> Image) list \<Rightarrow> ((u32 \<times> u32) \<times> u16) list \<Rightarrow> string list \<Rightarrow> (tool, string list) io" where
  "identify_loop [] seen matched = okE matched"
| "identify_loop ((path, img) # cands) seen matched =
     (let key = (Start img, Length img);
          report = (\<lambda>got seen.
            bindE (say ''  %s %-32s 0x%08X+%-7d file 0x%04X  device 0x%04X''
                [AStr (if got = CRC img then ''*'' else '' ''), AStr (pathBase path), AInt (uint (Start img)),
                 AInt (uint (Length img)), AInt (uint (CRC img)), AInt (uint got)]) (\<lambda>_.
            identify_loop cands seen (if got = CRC img then matched @ [path] else matched)))
      in case map_of seen key of
           Some got \<Rightarrow> report got seen
         | None \<Rightarrow> tryE (onBoot (ReadCRC (Start img) (Length img) (CRC img))) (\<lambda>r.
             case r of
               Inl e \<Rightarrow> errE (Errorf ''%s: %w'' [AStr path] (Some e))
             | Inr got \<Rightarrow> report got ((key, got) # seen)))"

text \<open>What is said of the matches. \<open>matched\<close> prints as Go prints a slice of strings.\<close>

definition verdict :: "string list \<Rightarrow> string \<times> farg list" where
  "verdict matched =
     (case matched of
        [] \<Rightarrow> (''no candidate matches '' @ emdash @ '' the installed build is not among these files'', [])
      | [p] \<Rightarrow> (''INSTALLED: %s'', [AStr (pathBase p)])
      | ps \<Rightarrow> (''ambiguous: %v'', map AStr ps))"

definition identify :: "(string \<times> Image) list \<Rightarrow> int \<Rightarrow> (tool, unit) io" where
  "identify cands wait =
     bindE (onBoot (connect wait)) (\<lambda>_.
     tryE (onBoot DetectAppBase) (\<lambda>r. case r of
       Inl e \<Rightarrow> errE (Errorf ''detecting application base: %w'' [] (Some e))
     | Inr base \<Rightarrow>
         bindE (say ''application base 0x%08X -> %s family'' [AInt (uint base), AStr (familyName base)]) (\<lambda>_.
         if cands = [] then say ''(pass hex files to also identify the exact installed build)'' []
         else
           bindE (say ''matching installed firmware against candidates:'' []) (\<lambda>_.
           bindE (identify_loop cands [] []) (\<lambda>matched.
           case verdict matched of (f, args) \<Rightarrow> say f args)))))"

fun loadAll :: "(string \<Rightarrow> gerr + Image) \<Rightarrow> string list \<Rightarrow> gerr + (string \<times> Image) list" where
  "loadAll load [] = Inr []"
| "loadAll load (f # fs) =
     (case load f of
        Inl e \<Rightarrow> Inl e
      | Inr img \<Rightarrow> (case loadAll load fs of Inl e \<Rightarrow> Inl e | Inr cs \<Rightarrow> Inr ((f, img) # cs)))"

definition doIdentify :: "(byte, 'w) portsOf \<Rightarrow> (string \<Rightarrow> gerr + Image) \<Rightarrow> string \<Rightarrow> int \<Rightarrow> int \<Rightarrow> string list \<Rightarrow> 'w
    \<Rightarrow> ((gerr + unit) \<times> (string \<times> farg list) list) \<times> 'w" where
  "doIdentify P load portName baud wait files w =
     (case loadAll load files of
        Inl e \<Rightarrow> ((Inl e, []), w)
      | Inr cands \<Rightarrow>
          (case choosePort P portName w of
             (Inl e, w) \<Rightarrow> ((Inl e, []), w)
           | (Inr port, w) \<Rightarrow>
               (case bootOpen P port baud w of
                  (Inl e, w) \<Rightarrow> ((Inl e, []), w)
                | (Inr c, w) \<Rightarrow>
                    (case identify cands wait \<lparr>tclient = c, said = []\<rparr> of
                       (r, s) \<Rightarrow> ((r, said s), closePort P (rw (tclient s)) w)))))"

definition crcCompare :: "Image option \<Rightarrow> string \<Rightarrow> u16 \<Rightarrow> (tool, unit) io" where
  "crcCompare img rng got =
     (case img of
        Some i \<Rightarrow>
          if rng \<noteq> [] then okE ()
          else if got = CRC i then say (''MATCHES the hex file '' @ emdash @ '' this firmware is already installed'') []
          else say (''differs from the hex file (0x%04X) '' @ emdash @ '' the device holds other firmware'') [AInt (uint (CRC i))]
      | None \<Rightarrow> okE ())"

definition crcRange :: "Image option \<Rightarrow> string \<Rightarrow> gerr + u32 \<times> u32 \<times> u16" where
  "crcRange img rng =
     (if rng \<noteq> [] then (case parseRange rng of Inl e \<Rightarrow> Inl e | Inr (start, len) \<Rightarrow> Inr (start, len, 0))
      else case img of
        Some i \<Rightarrow> Inr (Start i, Length i, CRC i)
      | None \<Rightarrow> Inl (Errorf ''-crc needs either a hex file or -range ADDR:LEN'' [] None))"

definition crcSession :: "Image option \<Rightarrow> string \<Rightarrow> u32 \<Rightarrow> u32 \<Rightarrow> u16 \<Rightarrow> int \<Rightarrow> (tool, unit) io" where
  "crcSession img rng start len expected wait =
     bindE (onBoot (connect wait)) (\<lambda>_.
     bindE (say ''reading device CRC over 0x%08X + %d bytes... '' [AInt (uint start), AInt (uint len)]) (\<lambda>_.
     bindE (onBoot (ReadCRC start len expected)) (\<lambda>got.
     bindE (say ''0x%04X'' [AInt (uint got)]) (\<lambda>_.
     crcCompare img rng got))))"

definition doCRC :: "(byte, 'w) portsOf \<Rightarrow> string \<Rightarrow> int \<Rightarrow> int \<Rightarrow> Image option \<Rightarrow> string \<Rightarrow> 'w
    \<Rightarrow> ((gerr + unit) \<times> (string \<times> farg list) list) \<times> 'w" where
  "doCRC P portName baud wait img rng w =
     (case crcRange img rng of
        Inl e \<Rightarrow> ((Inl e, []), w)
      | Inr (start, len, expected) \<Rightarrow>
          (case choosePort P portName w of
             (Inl e, w) \<Rightarrow> ((Inl e, []), w)
           | (Inr port, w) \<Rightarrow>
               (case bootOpen P port baud w of
                  (Inl e, w) \<Rightarrow> ((Inl e, []), w)
                | (Inr c, w) \<Rightarrow>
                    (case crcSession img rng start len expected wait \<lparr>tclient = c, said = []\<rparr> of
                       (r, s) \<Rightarrow> ((r, said s), closePort P (rw (tclient s)) w)))))"

text \<open>A failed \<open>-info\<close> ends the process without closing the port.\<close>

definition doInfo :: "(byte, 'w) portsOf \<Rightarrow> string \<Rightarrow> int \<Rightarrow> int \<Rightarrow> 'w \<Rightarrow> (gerr + unit) \<times> 'w" where
  "doInfo P portName baud wait w =
     (case choosePort P portName w of
        (Inl e, w) \<Rightarrow> (Inl e, w)
      | (Inr port, w) \<Rightarrow>
          (case bootOpen P port baud w of
             (Inl e, w) \<Rightarrow> (Inl e, w)
           | (Inr c, w) \<Rightarrow>
               (case connect wait c of
                  (Inl e, c) \<Rightarrow> (Inl e, w)
                | (Inr _, c) \<Rightarrow> (Inr (), closePort P (rw c) w))))"

section \<open>The tool\<close>

record flags =
  flSerial :: string
  flBaud :: int
  flWait :: int
  flCheck :: bool
  flInfo :: bool
  flCrc :: bool
  flIdentify :: bool
  flRange :: string
  flRun :: bool
  flYes :: bool

text \<open>How the process ends: normally, with a message of \<open>log.Fatalf\<close>, with the usage, or in a panic
  on the \<open>nil\<close> image.\<close>

datatype ending = Ended | Fatal gerr | Usage | NilImage

definition ended :: "gerr + 'a \<Rightarrow> ending" where
  "ended r = (case r of Inl e \<Rightarrow> Fatal e | Inr _ \<Rightarrow> Ended)"

text \<open>The line typed at the prompt, if there is one.\<close>

definition confirm :: "string option \<Rightarrow> bool" where
  "confirm line =
     (case line of
        None \<Rightarrow> False
      | Some l \<Rightarrow> (let answer = ToLower (TrimSpace l) in answer = ''y'' \<or> answer = ''yes''))"

text \<open>The session in which firmware is written, with the client it leaves behind.\<close>

definition flashSession :: "(byte, 'w) portsOf \<Rightarrow> flags \<Rightarrow> Image option \<Rightarrow> string option \<Rightarrow> 'w \<Rightarrow> (ending \<times> client option) \<times> 'w" where
  "flashSession P fl img line w =
     (case choosePort P (flSerial fl) w of
        (Inl e, w) \<Rightarrow> ((Fatal e, None), w)
      | (Inr port, w) \<Rightarrow>
          if \<not> flYes fl \<and> \<not> confirm line then ((Ended, None), w)
          else case bootOpen P port (flBaud fl) w of
            (Inl e, w) \<Rightarrow> ((Fatal e, None), w)
          | (Inr c, w) \<Rightarrow>
              (case img of
                 None \<Rightarrow> ((NilImage, None), w)
               | Some i \<Rightarrow>
                   (case flash i (flWait fl) (flRun fl) c of
                      (Inl e, c) \<Rightarrow> ((Fatal e, Some c), w)
                    | (Inr _, c) \<Rightarrow> ((Ended, Some c), closePort P (rw c) w))))"

definition rstflash :: "(byte, 'w) portsOf \<Rightarrow> (string \<Rightarrow> gerr + Image) \<Rightarrow> flags \<Rightarrow> string list \<Rightarrow> string option \<Rightarrow> 'w
    \<Rightarrow> (ending \<times> client option) \<times> 'w" where
  "rstflash P load fl args line w =
     (if flInfo fl then (case doInfo P (flSerial fl) (flBaud fl) (flWait fl) w of (r, w) \<Rightarrow> ((ended r, None), w))
      else if flIdentify fl then
        (case doIdentify P load (flSerial fl) (flBaud fl) (flWait fl) args w of ((r, _), w) \<Rightarrow> ((ended r, None), w))
      else
        (let img = (if length args = 1 then Some (load (args ! 0)) else None)
         in case img of
              Some (Inl e) \<Rightarrow> ((Fatal e, None), w)
            | _ \<Rightarrow>
                (let img = (case img of Some (Inr i) \<Rightarrow> Some i | _ \<Rightarrow> None)
                 in if img = None \<and> \<not> (flCrc fl \<and> flRange fl \<noteq> []) then ((Usage, None), w)
                    else if flCheck fl then ((Ended, None), w)
                    else if flCrc fl then
                      (case doCRC P (flSerial fl) (flBaud fl) (flWait fl) img (flRange fl) w of ((r, _), w) \<Rightarrow> ((ended r, None), w))
                    else flashSession P fl img line w)))"

lemma flashSession_flashes:
  assumes "flashSession P fl (Some img) line w = ((e, c), w')"
  shows "e \<noteq> NilImage \<and> (c \<noteq> None \<longrightarrow> (flYes fl \<or> confirm line)
    \<and> (\<exists>port c0 c1 r w1 w2. choosePort P (flSerial fl) w = (Inr port, w1) \<and> bootOpen P port (flBaud fl) w1 = (Inr c0, w2)
        \<and> flash img (flWait fl) (flRun fl) c0 = (r, c1) \<and> c = Some c1 \<and> e = ended r
        \<and> w' = (if isl r then w2 else closePort P (rw c1) w2)))"
proof (cases "\<exists>port w1 c0 w2. choosePort P (flSerial fl) w = (Inr port, w1) \<and> (flYes fl \<or> confirm line)
    \<and> bootOpen P port (flBaud fl) w1 = (Inr c0, w2)")
  case True
  then obtain port w1 c0 w2 where p: "choosePort P (flSerial fl) w = (Inr port, w1)" "flYes fl \<or> confirm line"
    "bootOpen P port (flBaud fl) w1 = (Inr c0, w2)" by blast
  obtain r c1 where r: "flash img (flWait fl) (flRun fl) c0 = (r, c1)" by fastforce
  have "e = ended r" "c = Some c1" "w' = (if isl r then w2 else closePort P (rw c1) w2)"
    using assms p r by (cases r; auto simp: flashSession_def ended_def)+
  moreover from this have "e \<noteq> NilImage" by (simp add: ended_def split: sum.splits)
  ultimately show ?thesis using p r by blast
next
  case False
  with assms have "e \<noteq> NilImage \<and> c = None"
    by (fastforce simp: flashSession_def split: prod.splits sum.splits if_splits)
  then show ?thesis by simp
qed

text \<open>C35: firmware is written only on purpose. Whatever the flags, the files and the device, \<open>main\<close>
  does not panic, and it reaches \<open>flash\<close> only with exactly one file, which parsed, without
  \<open>-check\<close>, \<open>-crc\<close>, \<open>-info\<close> or \<open>-identify\<close>, and after \<open>-y\<close> or a typed yes; the port is then one
  that was named or found, and it is closed again when \<open>flash\<close> succeeds.\<close>

theorem rstflash_on_purpose:
  assumes "rstflash P load fl args line w = ((e, c), w')"
  shows "e \<noteq> NilImage \<and> (c \<noteq> None \<longrightarrow>
      (\<exists>f img port c0 c1 r w1 w2. args = [f] \<and> load f = Inr img \<and> (flYes fl \<or> confirm line)
        \<and> \<not> flCheck fl \<and> \<not> flCrc fl \<and> \<not> flInfo fl \<and> \<not> flIdentify fl
        \<and> choosePort P (flSerial fl) w = (Inr port, w1) \<and> bootOpen P port (flBaud fl) w1 = (Inr c0, w2)
        \<and> flash img (flWait fl) (flRun fl) c0 = (r, c1) \<and> c = Some c1 \<and> e = ended r
        \<and> w' = (if isl r then w2 else closePort P (rw c1) w2)))"
proof (cases "flInfo fl \<or> flIdentify fl")
  case True
  with assms show ?thesis by (auto simp: rstflash_def ended_def split: prod.splits if_splits sum.splits)
next
  case False
  show ?thesis
  proof (cases "\<exists>f img. args = [f] \<and> load f = Inr img \<and> \<not> flCheck fl \<and> \<not> flCrc fl")
    case True
    then obtain f img where f: "args = [f]" "load f = Inr img" "\<not> flCheck fl" "\<not> flCrc fl" by blast
    with False assms have "flashSession P fl (Some img) line w = ((e, c), w')" by (simp add: rstflash_def)
    from flashSession_flashes [OF this] f False show ?thesis by blast
  next
    case no: False
    have "e \<noteq> NilImage \<and> c = None"
    proof (cases "length args = 1")
      case True
      then obtain f where "args = [f]" by (auto simp: length_Suc_conv)
      with False no assms show ?thesis
        by (cases "load f") (auto simp: rstflash_def ended_def Let_def split: prod.splits if_splits sum.splits)
    next
      case len: False
      with False assms show ?thesis
        by (auto simp: rstflash_def ended_def Let_def split: prod.splits if_splits sum.splits)
    qed
    then show ?thesis by simp
  qed
qed

section \<open>What -identify finds\<close>

text \<open>The images whose range no earlier one has.\<close>

fun new_ranges :: "(u32 \<times> u32) list \<Rightarrow> Image list \<Rightarrow> Image list" where
  "new_ranges seen [] = []"
| "new_ranges seen (i # is) =
     (if (Start i, Length i) \<in> set seen then new_ranges seen is
      else i # new_ranges ((Start i, Length i) # seen) is)"

abbreviation crc_query :: "Image \<Rightarrow> byte list" where
  "crc_query i \<equiv> frame ReadCRCcmd (crc_args (Start i) (Length i) (CRC i))"

definition installed :: "(u32 \<Rightarrow> u32 \<Rightarrow> u16) \<Rightarrow> (string \<times> Image) list \<Rightarrow> string list" where
  "installed dcrc cands = map fst (filter (\<lambda>(p, i). dcrc (Start i) (Length i) = CRC i) cands)"

lemma installed_simps [simp]:
  "installed dcrc [] = []"
  "installed dcrc ((p, i) # cs) = (if dcrc (Start i) (Length i) = CRC i then [p] else []) @ installed dcrc cs"
  by (simp_all add: installed_def)

lemma identify_loop_answered:
  assumes "answers d reply (rw (tclient s))"
    and dev: "\<And>a l e. reply ReadCRCcmd (crc_args a l e) = [ucast (dcrc a l), ucast (drop_bit 8 (dcrc a l))]"
    and "\<forall>((a, l), v)\<in>set seen. v = dcrc a l"
  shows "\<exists>s'. identify_loop cands seen matched s = (Inr (matched @ installed dcrc cands), s')
    \<and> sends (tclient s) (map crc_query (new_ranges (map fst seen) (map snd cands))) (tclient s')"
  using assms(1,3)
proof (induction cands arbitrary: seen matched s)
  case Nil
  then show ?case by (simp add: sends_def)
next
  case (Cons c cands)
  obtain path img where c: "c = (path, img)" by fastforce
  let ?key = "(Start img, Length img)" and ?v = "dcrc (Start img) (Length img)"
  let ?m = "if ?v = CRC img then matched @ [path] else matched"
  have "\<exists>s1 seen1. identify_loop (c # cands) seen matched s = identify_loop cands seen1 ?m s1
      \<and> answers d reply (rw (tclient s1)) \<and> (\<forall>((a, l), v)\<in>set seen1. v = dcrc a l)
      \<and> (if ?key \<in> set (map fst seen) then seen1 = seen \<and> tclient s1 = tclient s
         else seen1 = (?key, ?v) # seen \<and> sends (tclient s) [crc_query img] (tclient s1))"
  proof (cases "map_of seen ?key")
    case (Some v)
    then have "(?key, v) \<in> set seen" by (rule map_of_SomeD)
    then have "v = ?v" "?key \<in> set (map fst seen)" using Cons.prems(2) by force+
    then show ?thesis using Some Cons.prems unfolding c by (auto simp: say_def bindE_def Let_def)
  next
    case None
    then have new: "?key \<notin> set (map fst seen)" by (simp add: map_of_eq_None_iff)
    obtain c1 where c1: "ReadCRC (Start img) (Length img) (CRC img) (tclient s) = (Inr ?v, c1)"
      "answers d reply (rw c1)" "sends (tclient s) [crc_query img] c1"
      using ReadCRC_answered [OF Cons.prems(1) dev] by blast
    then show ?thesis using None new Cons.prems(2) unfolding c
      by (auto simp: say_def bindE_def tryE_def onBoot_def Let_def)
  qed
  then obtain s1 seen1 where s1: "identify_loop (c # cands) seen matched s = identify_loop cands seen1 ?m s1"
    "answers d reply (rw (tclient s1))" "\<forall>((a, l), v)\<in>set seen1. v = dcrc a l"
    "if ?key \<in> set (map fst seen) then seen1 = seen \<and> tclient s1 = tclient s
     else seen1 = (?key, ?v) # seen \<and> sends (tclient s) [crc_query img] (tclient s1)" by blast
  from Cons.IH [OF s1(2,3)] obtain s' where "identify_loop cands seen1 ?m s1 = (Inr (?m @ installed dcrc cands), s')"
    "sends (tclient s1) (map crc_query (new_ranges (map fst seen1) (map snd cands))) (tclient s')" by blast
  with s1(1,4) show ?case unfolding c by (auto simp: sends_def split: if_splits)
qed

lemma identify_answered:
  assumes dev: "answers d reply (rw c)"
    and sizes: "\<And>cmd args. length (reply cmd args) \<le> 120" "2 \<le> length (reply ReadBootInfo [])"
    and crc: "\<And>a l e. reply ReadCRCcmd (crc_args a l e) = [ucast (dcrc a l), ucast (drop_bit 8 (dcrc a l))]"
    and "cands \<noteq> []"
  shows "\<exists>s'. identify cands wait \<lparr>tclient = c, said = []\<rparr> = (Inr (), s') \<and> last (said s') = verdict (installed dcrc cands)
    \<and> sends c ([info_frame, base_frame] @ map crc_query (new_ranges [] (map snd cands))) (tclient s')"
proof -
  obtain c1 where c1: "connect wait c = (Inr (), c1)" "answers d reply (rw c1)" "sends c [info_frame] c1"
    using connect_answered [of d reply c, OF dev sizes] by blast
  obtain c2 where r: "ReadCRC AppBase135 (AppBase150 - AppBase135) 0 c1 = (Inr (dcrc AppBase135 (AppBase150 - AppBase135)), c2)"
    "answers d reply (rw c2)" "sends c1 [base_frame] c2"
    using ReadCRC_answered [OF c1(2) crc] by blast
  then obtain base where c2: "DetectAppBase c1 = (Inr base, c2)" "answers d reply (rw c2)" "sends c1 [base_frame] c2"
    by (cases "dcrc AppBase135 (AppBase150 - AppBase135) = ErasedCRC (AppBase150 - AppBase135)")
      (auto simp: DetectAppBase_def bindE_def Let_def)
  define s2 where "s2 = \<lparr>tclient = c2, said = [(''application base 0x%08X -> %s family'', [AInt (uint base), AStr (familyName base)]),
    (''matching installed firmware against candidates:'', [])]\<rparr>"
  obtain s' where s': "identify_loop cands [] [] s2 = (Inr (installed dcrc cands), s')"
    "sends c2 (map crc_query (new_ranges [] (map snd cands))) (tclient s')"
    using identify_loop_answered [of d reply s2 dcrc "[]" cands "[]"] c2(2) crc by (auto simp: s2_def)
  obtain f args where v: "verdict (installed dcrc cands) = (f, args)" by fastforce
  have "identify cands wait \<lparr>tclient = c, said = []\<rparr> = (Inr (), s'\<lparr>said := said s' @ [(f, args)]\<rparr>)"
    using c1(1) c2(1) s'(1) v assms(5) by (simp add: identify_def bindE_def tryE_def onBoot_def say_def s2_def)
  moreover have "sends c ([info_frame, base_frame] @ map crc_query (new_ranges [] (map snd cands))) (tclient s')"
    using c1(3) c2(3) s'(2) by (simp add: sends_def)
  ultimately show ?thesis using v by auto
qed

text \<open>C36: \<open>-identify\<close> names exactly the firmware files the device holds. On a device that answers,
  with the CRC of its own flash whatever CRC is expected, the last line printed names the files
  whose CRC is that of the device over their range, or says that there is none; and the device
  is asked once for each range, however many files share it.\<close>

theorem identify_exact:
  assumes "answers d reply (rw c)" "\<And>cmd args. length (reply cmd args) \<le> 120" "2 \<le> length (reply ReadBootInfo [])"
    "\<And>a l e. reply ReadCRCcmd (crc_args a l e) = [ucast (dcrc a l), ucast (drop_bit 8 (dcrc a l))]" "cands \<noteq> []"
  shows "\<exists>s'. identify cands wait \<lparr>tclient = c, said = []\<rparr> = (Inr (), s')
    \<and> last (said s') = verdict (map fst (filter (\<lambda>(p, i). dcrc (Start i) (Length i) = CRC i) cands))
    \<and> sends c ([info_frame, base_frame] @ map crc_query (new_ranges [] (map snd cands))) (tclient s')"
  using identify_answered [OF assms] by (simp add: installed_def)

definition plain_reply :: "byte \<Rightarrow> byte list \<Rightarrow> byte list" where
  "plain_reply cmd args = (if cmd = ReadBootInfo then [1, 0] else if cmd = ReadCRCcmd then [0x34, 0x12] else [])"

definition two_files :: "(string \<times> Image) list" where
  "two_files = [(''fw/old.hex'', \<lparr>Records = [], Start = AppBase150, Length = 8, CRC = 0x5678\<rparr>),
     (''fw/new.hex'', \<lparr>Records = [], Start = AppBase150, Length = 8, CRC = 0x1234\<rparr>)]"

theorem identify_exact_witness:
  "\<exists>s'. identify two_files 0 \<lparr>tclient = newClient (boot_device plain_reply), said = []\<rparr> = (Inr (), s')
    \<and> last (said s') = (''INSTALLED: %s'', [AStr ''new.hex''])"
proof -
  have a: "answers 1000000 plain_reply (rw (newClient (boot_device plain_reply)))"
    by (simp add: newClient_def boot_device_answers)
  have "\<exists>s'. identify two_files 0 \<lparr>tclient = newClient (boot_device plain_reply), said = []\<rparr> = (Inr (), s')
    \<and> last (said s') = verdict (map fst (filter (\<lambda>(p, i). 0x1234 = CRC i) two_files))"
  proof -
    have "length (plain_reply cmd args) \<le> 120" "2 \<le> length (plain_reply ReadBootInfo [])"
      "plain_reply ReadCRCcmd (crc_args a l e) = [ucast (0x1234 :: u16), ucast (drop_bit 8 (0x1234 :: u16))]" "two_files \<noteq> []"
      for cmd args a l e
      by (simp_all add: plain_reply_def ReadBootInfo_def ReadCRCcmd_def two_files_def)
    from identify_exact [OF a this, of 0] show ?thesis by blast
  qed
  moreover have "verdict (map fst (filter (\<lambda>(p, i). 0x1234 = CRC i) two_files)) = (''INSTALLED: %s'', [AStr ''new.hex''])"
    by code_simp
  ultimately show ?thesis by simp
qed

definition boot_port :: "(byte, unit) portsOf" where
  "boot_port = \<lparr>listPorts = (\<lambda>w. (Inr [], w)), openPort = (\<lambda>n b w. (Inr (boot_device sample_reply), w)), closePort = (\<lambda>t w. w)\<rparr>"

definition plain_flags :: flags where
  "plain_flags = \<lparr>flSerial = ''COM1'', flBaud = 115200, flWait = 0, flCheck = False, flInfo = False, flCrc = False,
     flIdentify = False, flRange = [], flRun = True, flYes = False\<rparr>"

theorem rstflash_on_purpose_witness:
  "\<exists>e c w'. rstflash boot_port (\<lambda>f. Inr sample_img) plain_flags [''fw.hex''] (Some ''Yes'') () = ((e, Some c), w')
    \<and> confirm (Some ''Yes'') \<and> e = Ended"
proof -
  obtain c' where fl: "flash sample_img 0 True sample_client = (Inr (), c')" using sample_flash by blast
  have "confirm (Some ''Yes'')" by code_simp
  then obtain e c w' where r: "rstflash boot_port (\<lambda>f. Inr sample_img) plain_flags [''fw.hex''] (Some ''Yes'') () = ((e, Some c), w')"
    using fl by (simp add: rstflash_def flashSession_def choosePort_def bootOpen_def boot_port_def plain_flags_def Let_def)
  from rstflash_on_purpose [OF r] have "confirm (Some ''Yes'') \<and> e = Ended"
    using fl by (auto simp: plain_flags_def bootOpen_def boot_port_def choosePort_def ended_def)
  with r show ?thesis by blast
qed

end
