(* ===== verification/GoPart.thy ===== *)
theory GoPart
  imports Mount Calendar GoNum
begin

text \<open>
  Code that may never return. \<open>('s, 'a) pio\<close> is the type of a method whose value is \<open>None\<close> when
  it does not return; a recursive one is a \<open>partial_function\<close> of this type, for which the
  sequencing operators are monotone. \<open>runP\<close> embeds the methods that always return.
\<close>

type_synonym ('s, 'a) pio = "'s \<Rightarrow> ((gerr + 'a) \<times> 's) option"

definition runP :: "('s, 'a) io \<Rightarrow> ('s, 'a) pio" where
  "runP m = (\<lambda>s. Some (m s))"

definition tryP :: "('s, 'a) pio \<Rightarrow> (gerr + 'a \<Rightarrow> ('s, 'b) pio) \<Rightarrow> ('s, 'b) pio" where
  "tryP m f = (\<lambda>s. Option.bind (m s) (\<lambda>(r, s'). f r s'))"

definition bindP :: "('s, 'a) pio \<Rightarrow> ('a \<Rightarrow> ('s, 'b) pio) \<Rightarrow> ('s, 'b) pio" where
  "bindP m f = tryP m (\<lambda>r. case r of Inl e \<Rightarrow> runP (errE e) | Inr x \<Rightarrow> f x)"

abbreviation okP :: "'a \<Rightarrow> ('s, 'a) pio" where "okP x \<equiv> runP (okE x)"
abbreviation errP :: "gerr \<Rightarrow> ('s, 'a) pio" where "errP e \<equiv> runP (errE e)"
abbreviation modP :: "('s \<Rightarrow> 's) \<Rightarrow> ('s, unit) pio" where "modP f \<equiv> runP (modE f)"
abbreviation liftP :: "gerr + 'a \<Rightarrow> ('s, 'a) pio" where "liftP r \<equiv> runP (liftE r)"

text \<open>The error of \<open>m\<close> is dropped, \<^verbatim>\<open>_ = m()\<close>, or replaced, \<^verbatim>\<open>fmt.Errorf("...: %w", err)\<close>.\<close>

definition ignoreP :: "('s, 'a) pio \<Rightarrow> ('s, unit) pio" where
  "ignoreP m = tryP m (\<lambda>_. okP ())"

definition mapErrP :: "(gerr \<Rightarrow> gerr) \<Rightarrow> ('s, 'a) pio \<Rightarrow> ('s, 'a) pio" where
  "mapErrP f m = tryP m (\<lambda>r. liftP (map_sum f id r))"

definition ignoreE :: "('s, 'a) io \<Rightarrow> ('s, unit) io" where
  "ignoreE m = tryE m (\<lambda>_. okE ())"

definition mapErrE :: "(gerr \<Rightarrow> gerr) \<Rightarrow> ('s, 'a) io \<Rightarrow> ('s, 'a) io" where
  "mapErrE f m = tryE m (\<lambda>r. liftE (map_sum f id r))"

definition readE :: "('s \<Rightarrow> 'a) \<Rightarrow> ('s, 'a) io" where
  "readE f = (\<lambda>s. (Inr (f s), s))"

lemma readE_apply [simp, go_simps]: "readE f s = (Inr (f s), s)"
  by (simp add: readE_def)

lemma runP_apply [simp, go_simps]: "runP m s = Some (m s)"
  by (simp add: runP_def)

lemma tryP_apply [go_simps]: "tryP m f s = Option.bind (m s) (\<lambda>(r, s'). f r s')"
  by (simp add: tryP_def)

lemma bindP_apply [go_simps]:
  "bindP m f s = (case m s of None \<Rightarrow> None | Some (Inl e, s') \<Rightarrow> Some (Inl e, s') | Some (Inr x, s') \<Rightarrow> f x s')"
  by (auto simp: bindP_def tryP_def split: option.splits sum.splits)

lemma runP_bind: "bindP (runP m) (\<lambda>x. runP (f x)) = runP (bindE m f)"
  by (auto simp: fun_eq_iff bindP_apply bindE_def split: prod.splits sum.splits)

lemma tryP_mono [partial_function_mono]:
  assumes "\<And>s. mono_option (\<lambda>F. m F s)" "\<And>r s. mono_option (\<lambda>F. f F r s)"
  shows "mono_option (\<lambda>F. tryP (m F) (f F) s)"
proof -
  have "mono_option (\<lambda>F. Option.bind (m F s) (\<lambda>p. f F (fst p) (snd p)))"
    by (rule bind_mono [OF assms(1) assms(2)])
  then show ?thesis by (simp add: tryP_def case_prod_unfold)
qed

lemma bindP_mono [partial_function_mono]:
  assumes "\<And>s. mono_option (\<lambda>F. m F s)" "\<And>x s. mono_option (\<lambda>F. f F x s)"
  shows "mono_option (\<lambda>F. bindP (m F) (f F) s)"
  unfolding bindP_def
proof (rule tryP_mono [OF assms(1)])
  fix r s
  show "mono_option (\<lambda>F. (case r of Inl e \<Rightarrow> errP e | Inr x \<Rightarrow> f F x) s)"
    using assms(2) by (cases r) (auto intro: partial_function_mono)
qed

text \<open>A method that returns from every state.\<close>

definition returns :: "('s, 'a) pio \<Rightarrow> bool" where
  "returns m = (\<forall>s. m s \<noteq> None)"

lemma returns_runP [simp]: "returns (runP m)"
  by (simp add: returns_def)

lemma returns_tryP: "returns m \<Longrightarrow> (\<And>r. returns (f r)) \<Longrightarrow> returns (tryP m f)"
  by (auto simp: returns_def tryP_def split: bind_splits)

lemma returns_bindP: "returns m \<Longrightarrow> (\<And>x. returns (f x)) \<Longrightarrow> returns (bindP m f)"
  unfolding bindP_def by (rule returns_tryP) (auto split: sum.split)

end
