(* ===== verification/RstState.thy ===== *)
theory RstState
  imports GoPart
begin

text \<open>
  The state of the Rainbow RST driver (src/rst/rst.go): \<open>Mount\<close> with its latches, the
  completion and fault tokens that drive them, and the query \<open>get\<close> every reading goes
  through. \<open>get\<close> first does the work a token left behind; recording the home position reads
  four coordinates and so calls \<open>get\<close> again, which makes it a \<open>partial_function\<close>. Each
  critical section of the source is one update of the record.
\<close>

section \<open>Constants and state\<close>

definition commandTimeout :: int where "commandTimeout = 3000 * ms"
definition probeTimeout :: int where "probeTimeout = 700 * ms"
definition slewFaultWindow :: int where "slewFaultWindow = 400 * ms"
definition syncReplyWindow :: int where "syncReplyWindow = 400 * ms"
definition peekTimeout :: int where "peekTimeout = 120 * ms"
definition peekTTL :: int where "peekTTL = 100 * ms"

record homePosition =
  hvalid :: bool
  hra :: f64
  hdec :: f64
  haz :: f64
  halt :: f64

text \<open>\<open>lastPeek\<close> is absent for the zero time. \<open>pulses\<close> holds the instants at which the
  goroutines started by \<open>PulseGuide\<close> wake up.\<close>

record rst =
  rconn :: conn
  slewing :: bool
  lastPeek :: "int option"
  lastFault :: string
  targetRA :: f64
  targetDec :: f64
  pulsing :: bool
  homeFound :: bool
  homePos :: homePosition
  siteLat :: f64
  siteLatOK :: bool
  unparked :: bool
  parking :: bool
  moving :: bool
  homeCapturePending :: bool
  parkStopPending :: bool
  pulses :: "int list"

definition newRst :: "conn \<Rightarrow> rst" where
  "newRst c = \<lparr>rconn = c, slewing = False, lastPeek = None, lastFault = [], targetRA = Fin 0, targetDec = Fin 0,
     pulsing = False, homeFound = False,
     homePos = \<lparr>hvalid = False, hra = Fin 0, hdec = Fin 0, haz = Fin 0, halt = Fin 0\<rparr>,
     siteLat = Fin 0, siteLatOK = False, unparked = False, parking = False, moving = False,
     homeCapturePending = False, parkStopPending = False, pulses = []\<rparr>"

definition onConn :: "(conn, 'a) io \<Rightarrow> (rst, 'a) io" where
  "onConn m = (\<lambda>s. case m (rconn s) of (r, c) \<Rightarrow> (r, s\<lparr>rconn := c\<rparr>))"

definition clockNow :: "rst \<Rightarrow> int" where
  "clockNow s = now (wire (rconn s))"

section \<open>Tokens\<close>

definition faultTokens :: "string list" where
  "faultTokens = [''MML'', ''MMU'', ''MME'', ''CH0'', ''CH<'']"

definition applyToken :: "string \<Rightarrow> rst \<Rightarrow> rst" where
  "applyToken tok s =
     (let t = TrimPrefix tok '':''
      in if HasPrefix t ''CM'' then (if HasPrefix t ''CMF'' then s\<lparr>lastFault := tok\<rparr> else s)
         else if t = ''MM0'' then
           (let s = s\<lparr>slewing := False\<rparr>
            in if parking s then s\<lparr>parking := False, parkStopPending := True\<rparr> else s)
         else if t = ''CHO'' then s\<lparr>slewing := False, homeFound := True, homeCapturePending := True\<rparr>
         else if t \<in> set faultTokens then s\<lparr>slewing := False, lastFault := tok\<rparr>
         else s)"

definition setSlewing :: "bool \<Rightarrow> rst \<Rightarrow> rst" where
  "setSlewing v s =
     (let s = s\<lparr>slewing := v, lastPeek := None\<rparr>
      in if v then s\<lparr>lastFault := [], unparked := False, homeCapturePending := False, parking := False,
                    parkStopPending := False\<rparr>
         else s)"

definition setMoving :: "bool \<Rightarrow> rst \<Rightarrow> rst" where
  "setMoving v s = s\<lparr>moving := v\<rparr>"

definition Fault :: "rst \<Rightarrow> string" where
  "Fault s = lastFault s"

section \<open>Reading\<close>

text \<open>\<open>drainStale\<close> reads up to eight frames until one is missing.\<close>

fun drain_loop :: "nat \<Rightarrow> (rst, unit) io" where
  "drain_loop 0 = okE ()"
| "drain_loop (Suc n) = tryE (onConn (Await (150 * ms))) (\<lambda>r. case r of Inl _ \<Rightarrow> okE () | Inr _ \<Rightarrow> drain_loop n)"

definition drainStale :: "(rst, unit) io" where
  "drainStale = drain_loop 8"

definition drainToken :: "(rst, unit) io" where
  "drainToken = (\<lambda>s.
     if \<not> slewing s \<or> (case lastPeek s of None \<Rightarrow> False | Some t \<Rightarrow> clockNow s - t < peekTTL) then okE () s
     else tryE (onConn (Await peekTimeout)) (\<lambda>r. case r of Inl _ \<Rightarrow> okE () | Inr tok \<Rightarrow> modE (applyToken tok))
            (s\<lparr>lastPeek := Some (clockNow s)\<rparr>))"

definition track :: "string \<Rightarrow> (rst, unit) io" where
  "track cmd = bindE (onConn (Get cmd)) (\<lambda>_. okE ())"

definition rstSetTracking :: "bool \<Rightarrow> (rst, unit) io" where
  "rstSetTracking b = track (if b then '':CtA#'' else '':CtL#'')"

definition maybeFinishPark :: "(rst, unit) io" where
  "maybeFinishPark = (\<lambda>s.
     let pending = parkStopPending s; s = s\<lparr>parkStopPending := False\<rparr>
     in if pending then ignoreE (rstSetTracking False) s else okE () s)"

text \<open>One query; the frames skipped on the way are tokens.\<close>

definition getTokens :: "string \<Rightarrow> string \<Rightarrow> (rst, string) io" where
  "getTokens cmd pre = (\<lambda>s.
     case GetMatching cmd (\<lambda>r. HasPrefix r pre) 3 (rconn s) of
       (r, skipped, c) \<Rightarrow> (r, fold applyToken skipped (s\<lparr>rconn := c\<rparr>)))"

fun get_attempts :: "nat \<Rightarrow> string \<Rightarrow> string \<Rightarrow> (rst, string) io" where
  "get_attempts 0 cmd pre =
     errE (Errorf ''rainbow: %s: no matching reply after retry: %w'' [AStr cmd] (Some ErrNoMatch))"
| "get_attempts (Suc n) cmd pre =
     tryE (getTokens cmd pre) (\<lambda>r.
       case r of
         Inr s \<Rightarrow> okE (TrimPrefix s pre)
       | Inl e \<Rightarrow> if \<not> errors_is e ErrNoMatch then errE e
                 else bindE drainStale (\<lambda>_. get_attempts n cmd pre))"

text \<open>The parts of \<open>get\<close> that call it again, over the query \<open>g\<close>.\<close>

definition coordBy :: "(string \<Rightarrow> string \<Rightarrow> (rst, string) pio) \<Rightarrow> string \<Rightarrow> string \<Rightarrow> (rst, f64) pio" where
  "coordBy g cmd pre = bindP (runP drainToken) (\<lambda>_. bindP (g cmd pre) (\<lambda>s. liftP (ParseSexagesimal s)))"

definition captureHomeBy :: "(string \<Rightarrow> string \<Rightarrow> (rst, string) pio) \<Rightarrow> (rst, unit) pio" where
  "captureHomeBy g =
     tryP (coordBy g '':GR#'' '':GR'') (\<lambda>ra.
     tryP (coordBy g '':GD#'' '':GD'') (\<lambda>dec.
     tryP (coordBy g '':GZ#'' '':GZ'') (\<lambda>az.
     tryP (coordBy g '':GA#'' '':GA'') (\<lambda>alt.
       case (ra, dec, az, alt) of
         (Inr ra, Inr dec, Inr az, Inr alt) \<Rightarrow>
           modP (\<lambda>s. s\<lparr>homePos := \<lparr>hvalid = True, hra = ra, hdec = dec, haz = az, halt = alt\<rparr>\<rparr>)
       | _ \<Rightarrow> okP ()))))"

definition maybeCaptureHomeBy :: "(string \<Rightarrow> string \<Rightarrow> (rst, string) pio) \<Rightarrow> (rst, unit) pio" where
  "maybeCaptureHomeBy g = (\<lambda>s.
     let pending = homeCapturePending s; s = s\<lparr>homeCapturePending := False\<rparr>
     in if pending then captureHomeBy g s else okP () s)"

lemma coordBy_mono:
  assumes "\<And>c p s. mono_option (\<lambda>F. g F c p s)"
  shows "mono_option (\<lambda>F. coordBy (g F) cmd pre s)"
  unfolding coordBy_def by (intro partial_function_mono bindP_mono assms)

lemma captureHomeBy_mono:
  assumes "\<And>c p s. mono_option (\<lambda>F. g F c p s)"
  shows "mono_option (\<lambda>F. captureHomeBy (g F) s)"
  unfolding captureHomeBy_def by (intro tryP_mono coordBy_mono assms partial_function_mono)

lemma maybeCaptureHomeBy_mono [partial_function_mono]:
  assumes "\<And>c p s. mono_option (\<lambda>F. g F c p s)"
  shows "mono_option (\<lambda>F. maybeCaptureHomeBy (g F) s)"
  using captureHomeBy_mono [OF assms] unfolding maybeCaptureHomeBy_def Let_def
  by (auto intro: partial_function_mono)

partial_function (option) rst_get :: "string \<Rightarrow> string \<Rightarrow> (rst, string) pio" where
  "rst_get cmd pre s =
     bindP (maybeCaptureHomeBy (\<lambda>c p t. rst_get c p t))
       (\<lambda>_. runP (bindE maybeFinishPark (\<lambda>_. get_attempts 2 cmd pre))) s"

definition coord :: "string \<Rightarrow> string \<Rightarrow> (rst, f64) pio" where
  "coord = coordBy rst_get"

definition captureHome :: "(rst, unit) pio" where
  "captureHome = captureHomeBy rst_get"

definition maybeCaptureHome :: "(rst, unit) pio" where
  "maybeCaptureHome = maybeCaptureHomeBy rst_get"

lemma rst_get_code:
  "rst_get cmd pre = bindP maybeCaptureHome (\<lambda>_. bindP (runP maybeFinishPark) (\<lambda>_. runP (get_attempts 2 cmd pre)))"
  by (intro ext, subst rst_get.simps) (simp only: runP_bind maybeCaptureHome_def)

end
