(* ===== verification/Rst.thy ===== *)
theory Rst
  imports RstState
begin

text \<open>
  The operations of the Rainbow RST driver (src/rst/rst.go) in the order of the source:
  opening and homing, targets and slews, tracking, parking, site and clock, rates and
  status. Operations that read go through \<open>rst_get\<close> and have the type \<open>pio\<close>.
\<close>

definition em_dash :: string where "em_dash = [CHR 0xE2, CHR 0x80, CHR 0x94]"

section \<open>Opening\<close>

definition homeLatched :: "(rst, bool) pio" where
  "homeLatched = bindP (rst_get '':GH#'' '':GH'') (\<lambda>s. okP (HasPrefix s ''O''))"

definition rstSiteLatitude :: "(rst, f64) pio" where
  "rstSiteLatitude = bindP (rst_get '':Gt#'' '':Gt'') (\<lambda>s. liftP (ParseSexagesimal s))"

definition inRainbowMode :: "(rst, bool) io" where
  "inRainbowMode = tryE (onConn (Get '':GR#'')) (\<lambda>r.
     case r of Inl _ \<Rightarrow> okE False | Inr s \<Rightarrow> okE (HasPrefix s '':GR''))"

definition selectDialect :: "(rst, unit) io" where
  "selectDialect = bindE inRainbowMode (\<lambda>b.
     if b then drainStale
     else bindE (ignoreE (onConn (Blind '':AU#''))) (\<lambda>_.
          bindE (ignoreE (onConn (Blind '':AR#''))) (\<lambda>_. drainStale)))"

definition rst_init :: "(rst, unit) pio" where
  "rst_init = bindP (runP selectDialect) (\<lambda>_.
     tryP homeLatched (\<lambda>h.
       bindP (if h = Inr True then modP (\<lambda>s. s\<lparr>homeFound := True\<rparr>) else okP ()) (\<lambda>_.
       tryP rstSiteLatitude (\<lambda>lat.
         case lat of Inr lat \<Rightarrow> modP (\<lambda>s. s\<lparr>siteLat := lat, siteLatOK := True\<rparr>) | Inl _ \<Rightarrow> okP ()))))"

definition HomeFound :: "(rst, bool) io" where
  "HomeFound = readE homeFound"

definition HomePosition :: "(rst, homePosition) io" where
  "HomePosition = readE homePos"

definition requireHome :: "string \<Rightarrow> (rst, unit) io" where
  "requireHome op = bindE HomeFound (\<lambda>f.
     if f then okE ()
     else errE (Errorf (''rainbow: %s requires the mount to be homed first '' @ em_dash
       @ '' run FindHome (the mount seeks its West-horizon mechanical home)'') [AStr op] None))"

definition axisNear :: "f64 \<Rightarrow> f64 \<Rightarrow> f64 \<Rightarrow> bool" where
  "axisNear got want tol =
     (let d = fmod (f_abs (fsub got want)) (Fin 360);
          d = (if flt (Fin 180) d then fsub (Fin 360) d else d)
      in fle d tol)"

definition polePosition :: "(rst, f64 \<times> f64) pio" where
  "polePosition =
     bindP (\<lambda>s. if siteLatOK s then okP (siteLat s) s
        else bindP rstSiteLatitude (\<lambda>lat. bindP (modP (\<lambda>s. s\<lparr>siteLat := lat, siteLatOK := True\<rparr>)) (\<lambda>_. okP lat)) s)
       (\<lambda>lat. if flt lat (Fin 0) then okP (Fin 180, fneg lat) else okP (Fin 0, lat))"

definition rstVersion :: "(rst, string) pio" where "rstVersion = rst_get '':AV#'' '':AV''"
definition rstSerial :: "(rst, string) pio" where "rstSerial = rst_get '':AS#'' '':AS''"

section \<open>Coordinates and targets\<close>

definition rstRA :: "(rst, f64) pio" where "rstRA = coord '':GR#'' '':GR''"
definition rstDec :: "(rst, f64) pio" where "rstDec = coord '':GD#'' '':GD''"
definition rstAltitude :: "(rst, f64) pio" where "rstAltitude = coord '':GA#'' '':GA''"
definition rstAzimuth :: "(rst, f64) pio" where "rstAzimuth = coord '':GZ#'' '':GZ''"

definition hms :: "f64 \<Rightarrow> int \<times> int \<times> f64" where
  "hms hours =
     (let t = fdiv (f_round (fmul hours (Fin 36000))) (Fin 10);
          t = (if fle (Fin 86400) t then fsub t (Fin 86400) else t);
          h = go_quot (int_of_f64 t) 3600;
          t = fsub t (f64_of_int (h * 3600));
          m = go_quot (int_of_f64 t) 60
      in (h, m, fsub t (f64_of_int (m * 60))))"

definition dmsParts :: "f64 \<Rightarrow> char \<times> int \<times> int \<times> f64" where
  "dmsParts deg =
     (let (sign, deg) = (if flt deg (Fin 0) then (CHR ''-'', fneg deg) else (CHR ''+'', deg));
          t = fdiv (f_round (fmul deg (Fin 36000))) (Fin 10);
          d = go_quot (int_of_f64 t) 3600;
          t = fsub t (f64_of_int (d * 3600));
          m = go_quot (int_of_f64 t) 60
      in (sign, d, m, fsub t (f64_of_int (m * 60))))"

definition hmsText :: "f64 \<Rightarrow> string" where
  "hmsText hours = (case hms hours of (h, m, s) \<Rightarrow>
     fmt_d 2 h @ '':'' @ fmt_d 2 m @ '':'' @ fmt_f False 4 1 s)"

definition dmsText :: "f64 \<Rightarrow> string" where
  "dmsText deg = (case dmsParts deg of (sign, d, m, s) \<Rightarrow>
     [sign] @ fmt_d 2 d @ ''*'' @ fmt_d 2 m @ [CHR 0x27] @ fmt_f False 4 1 s)"

definition rstSetTargetRA :: "f64 \<Rightarrow> (rst, bool) io" where
  "rstSetTargetRA hours = bindE (modE (\<lambda>s. s\<lparr>targetRA := hours\<rparr>)) (\<lambda>_.
     onConn (Ack ('':Sr'' @ hmsText hours @ ''#'')))"

definition rstSetTargetDec :: "f64 \<Rightarrow> (rst, bool) io" where
  "rstSetTargetDec deg = bindE (modE (\<lambda>s. s\<lparr>targetDec := deg\<rparr>)) (\<lambda>_.
     onConn (Ack ('':Sd'' @ dmsText deg @ ''#'')))"

section \<open>Slews\<close>

definition slewCmd :: "string \<Rightarrow> string \<Rightarrow> (rst, unit) io" where
  "slewCmd cmd verb = bindE (onConn (SlewNack cmd slewFaultWindow)) (\<lambda>reply.
     if reply = [] then okE ()
     else let t = TrimPrefix reply '':''
          in if HasPrefix t verb then errE (Errorf ''rainbow: slew refused: %s'' [AStr t] None)
             else modE (applyToken reply))"

definition rstSlewToTarget :: "(rst, unit) io" where
  "rstSlewToTarget = bindE (requireHome ''goto'') (\<lambda>_.
     bindE (slewCmd '':MS#'' ''MS'') (\<lambda>_. modE (setSlewing True)))"

text \<open>The two loops that bring an azimuth into range; they need not end.\<close>

partial_function (option) az_down :: "f64 \<Rightarrow> f64 option" where
  "az_down az = (if fle (Fin 360) az then az_down (fsub az (Fin 360)) else Some az)"

partial_function (option) az_up :: "f64 \<Rightarrow> f64 option" where
  "az_up az = (if flt az (Fin 0) then az_up (fadd az (Fin 360)) else Some az)"

definition azText :: "f64 \<Rightarrow> string" where
  "azText azDeg =
     (let aD = int_of_f64 azDeg;
          aM = int_of_f64 (fmul (fsub azDeg (f64_of_int aD)) (Fin 60));
          aS = fsub (fmul (fsub azDeg (f64_of_int aD)) (Fin 60)) (f64_of_int aM)
      in fmt_d 3 aD @ ''*'' @ fmt_d 2 aM @ [CHR 0x27] @ fmt_f False 4 1 (fmul aS (Fin 60)))"

definition SlewToAltAz :: "f64 \<Rightarrow> f64 \<Rightarrow> (rst, unit) pio" where
  "SlewToAltAz azDeg altDeg = bindP (runP (requireHome ''alt/az goto'')) (\<lambda>_ s.
     Option.bind (az_down azDeg) (\<lambda>azDeg. Option.bind (az_up azDeg) (\<lambda>azDeg.
       runP (bindE (onConn (Blind ('':Sz'' @ azText azDeg @ ''#''))) (\<lambda>_.
             bindE (onConn (Blind ('':Sa'' @ dmsText altDeg @ ''#''))) (\<lambda>_.
             bindE (slewCmd '':MA#'' ''MA'') (\<lambda>_. modE (setSlewing True))))) s)))"

definition SlewToPole :: "(rst, unit) pio" where
  "SlewToPole = bindP (runP (requireHome ''polar-axis slew'')) (\<lambda>_.
     bindP polePosition (\<lambda>(az, alt). SlewToAltAz az alt))"

section \<open>Sync\<close>

definition syncCmd :: "string \<Rightarrow> rst \<Rightarrow> string" where
  "syncCmd verb s =
     (let ra = targetRA s; dec = targetDec s;
          (sign, dec) = (if flt dec (Fin 0) then (CHR ''-'', fneg dec) else (CHR ''+'', dec))
      in verb @ fmt_f False 7 3 (fmul ra (Fin 15)) @ [sign] @ fmt_f False 6 3 dec @ ''#'')"

definition syncAck :: "string \<Rightarrow> (rst, string) io" where
  "syncAck cmd = bindE (onConn (SlewNack cmd syncReplyWindow)) (\<lambda>reply.
     let t = TrimPrefix reply '':''
     in if t = [] then okE []
        else if \<not> HasPrefix t ''CM'' then bindE (modE (applyToken t)) (\<lambda>_. okE [])
        else if HasPrefix (TrimPrefix t ''CM'') ''F'' then
          errE (Errorf ''rainbow: alignment refused: %s'' [AStr t] None)
        else okE (TrimPrefix t ''CM''))"

definition rstSyncToTarget :: "(rst, string) io" where
  "rstSyncToTarget = bindE (requireHome ''sync'') (\<lambda>_ s. syncAck (syncCmd '':Ck'' s) s)"

definition AddAlignmentPoint :: "(rst, unit) io" where
  "AddAlignmentPoint = bindE (requireHome ''add alignment point'') (\<lambda>_ s.
     bindE (syncAck (syncCmd '':CN'' s)) (\<lambda>_. okE ()) s)"

section \<open>Homing and halting\<close>

definition ErrHoming :: gerr where "ErrHoming = ErrNew ''rainbow: a home seek is already running''"

definition Homing :: "(rst, bool) pio" where
  "Homing = bindP (rst_get '':AH#'' '':AH'') (\<lambda>s. okP (HasPrefix s ''1''))"

definition refuseWhileHoming :: "string \<Rightarrow> (rst, unit) pio" where
  "refuseWhileHoming op = tryP Homing (\<lambda>busy.
     if busy \<noteq> Inr True then okP ()
     else errP (Errorf (''rainbow: %s refused: %w '' @ em_dash @ '' interrupting a seek can wedge the mount''
       @ [CHR 0x27] @ ''s homing flag until it is power-cycled; wait for it to finish'') [AStr op] (Some ErrHoming)))"

definition rstHalt :: "(rst, unit) pio" where
  "rstHalt = bindP (refuseWhileHoming ''halt'') (\<lambda>_.
     runP (bindE (onConn (Blind '':Q#'')) (\<lambda>_. modE (\<lambda>s. setMoving False (setSlewing False s)))))"

definition rstSlewing :: "(rst, bool) io" where
  "rstSlewing = bindE drainToken (\<lambda>_. bindE maybeFinishPark (\<lambda>_. readE (\<lambda>s. slewing s \<or> moving s)))"

definition FindHome :: "(rst, unit) pio" where
  "FindHome = tryP Homing (\<lambda>busy.
     case busy of
       Inl e \<Rightarrow> errP (Errorf ''rainbow: cannot tell whether a home seek is running: %w'' [] (Some e))
     | Inr True \<Rightarrow> errP (Errorf (''%w (:AH1); it clears when the seek returns, and a seek interrupted ''
         @ ''part-way can leave it set until the mount is power-cycled'') [] (Some ErrHoming))
     | Inr False \<Rightarrow> runP (bindE (ignoreE (track '':CtL#'')) (\<lambda>_.
         bindE (onConn (Blind '':Ch#'')) (\<lambda>_. modE (setSlewing True)))))"

section \<open>Tracking\<close>

definition rstTracking :: "(rst, bool) pio" where
  "rstTracking = bindP (rst_get '':AT#'' '':AT'') (\<lambda>s. okP (HasPrefix s ''1''))"

definition rstTrackSidereal :: "(rst, unit) io" where "rstTrackSidereal = track '':CtR#''"
definition rstTrackSolar :: "(rst, unit) io" where "rstTrackSolar = track '':CtS#''"
definition rstTrackLunar :: "(rst, unit) io" where "rstTrackLunar = track '':CtM#''"

datatype TrackMode = TrackModeSidereal | TrackModeSolar | TrackModeLunar | TrackModeCustom

definition readTrackMode :: "(rst, TrackMode) pio" where
  "readTrackMode = bindP (rst_get '':Ct?#'' '':CT'') (\<lambda>s.
     if HasPrefix s ''3'' then okP TrackModeCustom
     else if HasPrefix s ''2'' then okP TrackModeLunar
     else if HasPrefix s ''1'' then okP TrackModeSolar
     else okP TrackModeSidereal)"

section \<open>Axis angles, home and park\<close>

definition AxisAngles :: "(rst, f64 \<times> f64) pio" where
  "AxisAngles = bindP (rst_get '':CY#'' '':CY'') (\<lambda>raw.
     case IndexByte raw CHR ''/'' of
       None \<Rightarrow> errP (Errorf (''rainbow: :CY#: no '' @ [CHR 0x27] @ ''/'' @ [CHR 0x27] @ '' in %q'') [AStr raw] None)
     | Some i \<Rightarrow>
         case Sscanf_f (take i raw) of
           Inl e \<Rightarrow> errP (Errorf ''rainbow: :CY# dec axis %q: %w'' [AStr (take i raw)] (Some e))
         | Inr decAxis \<Rightarrow>
             case Sscanf_f (drop (Suc i) raw) of
               Inl e \<Rightarrow> errP (Errorf ''rainbow: :CY# ra axis %q: %w'' [AStr (drop (Suc i) raw)] (Some e))
             | Inr raAxis \<Rightarrow> okP (decAxis, raAxis))"

definition homeDecAxis :: f64 where "homeDecAxis = Fin 0"
definition homeRAAxis :: f64 where "homeRAAxis = Fin 0"
definition homeDecAxisTolDeg :: f64 where "homeDecAxisTolDeg = Fin 1"
definition homeRAAxisTolDeg :: f64 where "homeRAAxisTolDeg = Fin 5"

definition AtHome :: "(rst, bool) pio" where
  "AtHome = bindP (runP HomeFound) (\<lambda>f.
     if \<not> f then okP False
     else bindP AxisAngles (\<lambda>(decAxis, raAxis).
       okP (axisNear decAxis homeDecAxis homeDecAxisTolDeg \<and> axisNear raAxis homeRAAxis homeRAAxisTolDeg)))"

definition parkDecAxisMin :: f64 where "parkDecAxisMin = rnd (899 / 10)"
definition parkDecAxisMax :: f64 where "parkDecAxisMax = Fin 90"
definition parkRAAxis :: f64 where "parkRAAxis = Fin 0"
definition parkRAAxisTol :: f64 where "parkRAAxisTol = rnd (1 / 10)"

definition AtPark :: "(rst, bool) pio" where
  "AtPark = bindP (runP HomeFound) (\<lambda>f.
     if \<not> f then okP False
     else bindP AxisAngles (\<lambda>(decAxis, raAxis).
       okP (fle parkDecAxisMin decAxis \<and> fle decAxis parkDecAxisMax \<and> axisNear raAxis parkRAAxis parkRAAxisTol)))"

definition rstSiderealTime :: "(rst, f64) pio" where "rstSiderealTime = coord '':GS#'' '':GS''"

definition parkHourAngle :: f64 where "parkHourAngle = Fin 6"
definition parkDec :: f64 where "parkDec = rnd (89 + 59 / 60)"

definition parkTarget :: "f64 \<Rightarrow> (rst, unit) io" where
  "parkTarget lst =
     (let ra = fmod (fadd (fsub lst parkHourAngle) (Fin 24)) (Fin 24)
      in bindE (rstSetTargetRA ra) (\<lambda>ok.
           if \<not> ok then errE (Errorf ''rainbow: park: mount rejected target RA %.4fh'' [AFlt ra] None)
           else bindE (rstSetTargetDec parkDec) (\<lambda>ok.
             if \<not> ok then errE (Errorf ''rainbow: park: mount rejected target Dec %.4f'' [AFlt parkDec] None)
             else bindE rstSlewToTarget (\<lambda>_. modE (\<lambda>s. s\<lparr>parking := True\<rparr>)))))"

definition Park :: "(rst, unit) pio" where
  "Park = bindP (runP (requireHome ''park'')) (\<lambda>_.
     bindP (refuseWhileHoming ''park'') (\<lambda>_.
     bindP (runP (ignoreE (rstSetTracking False))) (\<lambda>_.
     tryP AtPark (\<lambda>parked.
       if parked = Inr True then modP (\<lambda>s. s\<lparr>unparked := False\<rparr>)
       else tryP rstSiderealTime (\<lambda>lst.
         case lst of
           Inl e \<Rightarrow> errP (Errorf (''rainbow: park needs the mount'' @ [CHR 0x27]
             @ ''s sidereal time to place the RA axis: %w'') [] (Some e))
         | Inr lst \<Rightarrow> runP (parkTarget lst))))))"

definition Unpark :: "(rst, unit) io" where
  "Unpark = modE (\<lambda>s. s\<lparr>unparked := True\<rparr>)"

definition rstPierSide :: "(rst, PierSide) pio" where
  "rstPierSide = bindP (runP drainToken) (\<lambda>_.
     bindP (rst_get '':CG3#'' '':CG3'') (\<lambda>offRaw.
     bindP (rst_get '':CY#'' '':CY'') (\<lambda>cyRaw.
       let cyRaw = (case IndexByte cyRaw CHR ''/'' of Some i \<Rightarrow> take i cyRaw | None \<Rightarrow> cyRaw)
       in case (Sscanf_f offRaw, Sscanf_f cyRaw) of
            (Inr alignOff, Inr decAxis) \<Rightarrow>
              if flt (Fin 90) (fsub decAxis alignOff) then okP PierWest else okP PierEast
          | _ \<Rightarrow> okP PierUnknown)))"

section \<open>Guiding\<close>

text \<open>\<open>PulseGuide\<close> leaves a goroutine behind that stops the move; \<open>pulseEnd\<close> is its body, run
  when the instant it sleeps until has come.\<close>

definition rstPulseGuide :: "Direction \<Rightarrow> int \<Rightarrow> (rst, unit) io" where
  "rstPulseGuide d t = bindE (track '':CtU#'') (\<lambda>_.
     bindE (onConn (SetRate RateGuide)) (\<lambda>_.
     bindE (onConn (Move d)) (\<lambda>_.
       modE (\<lambda>s. s\<lparr>pulsing := True, pulses := pulses s @ [clockNow s + wrap64 (t * ms)]\<rparr>))))"

definition pulseEnd :: "(rst, unit) io" where
  "pulseEnd = bindE (ignoreE (onConn (Blind '':Q#''))) (\<lambda>_. modE (\<lambda>s. s\<lparr>pulsing := False\<rparr>))"

definition IsPulseGuiding :: "(rst, bool) io" where
  "IsPulseGuiding = readE pulsing"

definition rstStopAxis :: "Axis \<Rightarrow> (rst, unit) io" where
  "rstStopAxis a = bindE (modE (setMoving False)) (\<lambda>_. onConn (Blind '':Q#''))"

section \<open>Site and clock\<close>

definition siteText :: "nat \<Rightarrow> f64 \<Rightarrow> string" where
  "siteText w deg = (case dmsParts deg of (sign, d, m, s) \<Rightarrow>
     [sign] @ fmt_d w d @ ''*'' @ fmt_d 2 m @ [CHR 0x27] @ fmt_d 2 (int_of_f64 s))"

definition rstSetSiteLatitude :: "f64 \<Rightarrow> (rst, unit) io" where
  "rstSetSiteLatitude deg = onConn (Blind ('':St'' @ siteText 2 deg @ ''#''))"

definition rstSetSiteLongitude :: "f64 \<Rightarrow> (rst, unit) io" where
  "rstSetSiteLongitude deg = onConn (Blind ('':Sg'' @ siteText 3 (fneg deg) @ ''#''))"

definition rstSetSiteElevation :: "f64 \<Rightarrow> (rst, unit) io" where
  "rstSetSiteElevation meters = okE ()"

definition Voltage :: "(rst, f64) pio" where
  "Voltage = bindP (rst_get '':Cv#'' '':Cv'') (\<lambda>s. liftP (Sscanf_f s))"

definition rstLocalTime :: "(rst, f64) pio" where "rstLocalTime = coord '':GL#'' '':GL''"
definition rstDate :: "(rst, string) pio" where "rstDate = rst_get '':GC#'' '':GC''"

definition dateReplyWindow :: int where "dateReplyWindow = 400 * ms"

definition rstUTCOffset :: "(rst, f64) pio" where
  "rstUTCOffset = bindP (rst_get '':GG#'' '':GG'') (\<lambda>s. liftP (Sscanf_f s))"

definition rstSetLocalTime :: "gotime \<Rightarrow> (rst, unit) io" where
  "rstSetLocalTime t = onConn (Blind ('':SL'' @ Format_clock (wall t) @ ''#''))"

text \<open>The error prints the duration, given here as its nanoseconds.\<close>

definition rstSetUTCOffset :: "int \<Rightarrow> (rst, unit) io" where
  "rstSetUTCOffset off =
     (if go_rem off hour_ns \<noteq> 0 then
        errE (Errorf ''rainbow: UTC offset %v is not a whole number of hours; the RST has no minutes field'' [AInt off] None)
      else let (sign, off) = (if off < 0 then (CHR ''-'', wrap64 (- off)) else (CHR ''+'', off))
           in onConn (Blind ('':SG'' @ [sign] @ fmt_d 2 (go_quot off hour_ns) @ ''#'')))"

fun date_frames :: "nat \<Rightarrow> (rst, unit) io" where
  "date_frames 0 = okE ()"
| "date_frames (Suc n) = tryE (onConn (Await dateReplyWindow)) (\<lambda>r. case r of Inl _ \<Rightarrow> okE () | Inr _ \<Rightarrow> date_frames n)"

definition SetDate :: "int \<Rightarrow> int \<Rightarrow> int \<Rightarrow> (rst, unit) pio" where
  "SetDate mm dd yy =
     (let want = fmt_d 2 mm @ ''/'' @ fmt_d 2 dd @ ''/'' @ fmt_d 2 yy
      in bindP (runP (tryE (onConn (Ack ('':SC'' @ want @ ''#''))) (\<lambda>r.
             case r of Inl e \<Rightarrow> if errors_is e ErrTimeout then okE () else errE e | Inr _ \<Rightarrow> okE ()))) (\<lambda>_.
         bindP (runP (date_frames 2)) (\<lambda>_.
         bindP (mapErrP (\<lambda>e. Errorf ''rainbow: :SC#: cannot read the date back: %w'' [] (Some e)) rstDate) (\<lambda>got.
           if TrimSpace got \<noteq> want then
             errP (Errorf ''rainbow: :SC#: asked for %s, the mount reports %s'' [AStr want, AStr got] None)
           else okP ()))))"

definition rstSetUTC :: "gotime \<Rightarrow> (rst, unit) pio" where
  "rstSetUTC t =
     bindP (mapErrP (\<lambda>e. Errorf (''rainbow: cannot set the clock without the mount'' @ [CHR 0x27] @ ''s UTC offset: %w'') []
         (Some e)) rstUTCOffset) (\<lambda>off.
       let loc = fst t + wrap64 (- hours_dur off); want = Format_date loc
       in bindP (runP (rstSetLocalTime (loc, 0))) (\<lambda>_.
          bindP (mapErrP (\<lambda>e. Errorf ''rainbow: clock set, but the date could not be checked: %w'' [] (Some e)) rstDate) (\<lambda>got.
            if TrimSpace got = want then okP ()
            else case civil loc of (y, m, d) \<Rightarrow> SetDate m d (go_rem y 100))))"

definition rstSiteLongitude :: "(rst, f64) pio" where
  "rstSiteLongitude = bindP (rst_get '':Gg#'' '':Gg'') (\<lambda>s.
     bindP (liftP (ParseSexagesimal s)) (\<lambda>deg. okP (fneg deg)))"

definition SiteName :: "int \<Rightarrow> (rst, string) io" where
  "SiteName n =
     (case map_of [(1, '':GM#''), (2, '':GN#''), (3, '':GO#'')] n of
        None \<Rightarrow> errE (Errorf ''rainbow: site name index %d out of range 1..3'' [AInt n] None)
      | Some cmd \<Rightarrow> bindE (onConn (Get cmd)) (\<lambda>s. okE (TrimSpace s)))"

definition Precision :: "(rst, string) io" where
  "Precision = bindE (onConn (Get '':GP#'')) (\<lambda>s. okE (TrimSpace s))"

definition SetPrecision :: "bool \<Rightarrow> (rst, unit) io" where
  "SetPrecision high = (if high then onConn (Blind '':SPH#'') else onConn (Blind '':SPL#''))"

definition EchoPrefix :: "bool \<Rightarrow> (rst, unit) io" where
  "EchoPrefix b = (if b then onConn (Blind '':SPE#'') else onConn (Blind '':SPF#''))"

section \<open>Registers and status\<close>

definition SerialNumber :: "(rst, string) pio" where "SerialNumber = rst_get '':AS#'' '':AS''"

definition pairInts :: "string \<Rightarrow> string \<Rightarrow> (rst, int \<times> int) pio" where
  "pairInts cmd pre = bindP (rst_get cmd pre) (\<lambda>s.
     let f = SplitN2 CHR ''*'' s
     in if length f \<noteq> 2 then
          errP (Errorf (''rainbow: %s: cannot split %q on '' @ [CHR 0x27] @ ''*'' @ [CHR 0x27]) [AStr cmd, AStr s] None)
        else let wrap = (\<lambda>e. Errorf ''rainbow: %s: %w'' [AStr cmd] (Some e))
             in bindP (liftP (map_sum wrap id (val_err (Atoi (TrimSpace (f ! 0)))))) (\<lambda>a.
                bindP (liftP (map_sum wrap id (val_err (Atoi (TrimSpace (f ! 1)))))) (\<lambda>b. okP (a, b))))"

definition GearRatio :: "(rst, int \<times> int) pio" where "GearRatio = pairInts '':AG#'' '':AG''"
definition WormCount :: "(rst, int \<times> int) pio" where "WormCount = pairInts '':AP#'' '':AP''"

definition rstTargetRA :: "(rst, f64) pio" where "rstTargetRA = coord '':Gr#'' '':Gr''"
definition rstTargetDec :: "(rst, f64) pio" where "rstTargetDec = coord '':Gd#'' '':Gd''"

definition TargetAltAz :: "(rst, f64 \<times> f64) pio" where
  "TargetAltAz = bindP (coord '':Gz#'' '':Gz'') (\<lambda>az. bindP (coord '':Ga#'' '':Ga'') (\<lambda>alt. okP (az, alt)))"

fun slew_limits :: "string list \<Rightarrow> (rst, f64 list) pio" where
  "slew_limits [] = okP []"
| "slew_limits (c # cs) = bindP (rst_get ('':C'' @ c @ ''#'') ('':C'' @ c)) (\<lambda>s.
     bindP (liftP (map_sum (\<lambda>e. Errorf ''rainbow: :C%s#: %w'' [AStr c] (Some e)) id
         (val_err (ParseFloat64 (TrimSpace s))))) (\<lambda>v.
     bindP (slew_limits cs) (\<lambda>vs. okP (v # vs))))"

definition SlewLimits :: "(rst, f64 list) pio" where
  "SlewLimits = slew_limits [''A'', ''B'', ''C'', ''D'', ''E'', ''F'']"

type_synonym GPSState = char

definition GPSNone :: GPSState where "GPSNone = CHR ''X''"
definition GPSTimeOnly :: GPSState where "GPSTimeOnly = CHR ''T''"
definition GPSFix :: GPSState where "GPSFix = CHR ''O''"

definition GPSString :: "GPSState \<Rightarrow> string" where
  "GPSString g =
     (if g = GPSNone then ''none'' else if g = GPSTimeOnly then ''time-only'' else if g = GPSFix then ''fix''
      else ''unknown('' @ rune_str g @ '')'')"

record SystemStatus =
  TCS :: bool
  GPS :: GPSState
  DecMotor :: bool
  RAMotor :: bool
  Raw :: string

definition decodeStatus :: "string \<Rightarrow> SystemStatus" where
  "decodeStatus s =
     (let ok = (\<lambda>i. i < length s \<and> s ! i = CHR ''O'');
          gps = (if length s > 1 then s ! 1 else CHR ''?'')
      in \<lparr>TCS = ok 0, GPS = gps, DecMotor = ok 2, RAMotor = ok 3, Raw = s\<rparr>)"

definition readSystemStatus :: "(rst, SystemStatus) pio" where
  "readSystemStatus = bindP (rst_get '':GY#'' '':GY'') (\<lambda>s. okP (decodeStatus s))"

definition MotorLoad :: "(rst, f64 \<times> f64) pio" where
  "MotorLoad = bindP (rst_get '':CP#'' '':CP'') (\<lambda>s. liftP (Sscanf_f_bar_f s))"

definition AutoResume :: "(rst, bool) pio" where
  "AutoResume = bindP (rst_get '':CR#'' '':CR'') (\<lambda>s. okP (HasPrefix s ''R''))"

definition rstGuideRate :: "(rst, f64) pio" where
  "rstGuideRate = bindP (rst_get '':CU0#'' '':CU0='') (\<lambda>s. liftP (Sscanf_f s))"

section \<open>Rates\<close>

definition rstSetGuideRate :: "f64 \<Rightarrow> (rst, unit) io" where
  "rstSetGuideRate x = onConn (Blind ('':Cu0='' @ fmt_f False 0 1 x @ ''#''))"

definition AxisRateMax :: f64 where "AxisRateMax = rnd (83333 / 10000)"
definition AxisRateFast :: f64 where "AxisRateFast = Fin (5 / 2)"
definition AxisRateMedium :: f64 where "AxisRateMedium = rnd (8333 / 10000)"
definition AxisRateSlow :: f64 where "AxisRateSlow = rnd (41667 / 10000000)"
definition siderealPerDegSec :: f64 where "siderealPerDegSec = Fin 240"

definition AxisRates :: "f64 list" where
  "AxisRates = [AxisRateMax, AxisRateFast, AxisRateMedium, AxisRateSlow]"

definition SetSlewSpeed :: "int \<Rightarrow> int \<Rightarrow> (rst, unit) io" where
  "SetSlewSpeed n x =
     (if n < 1 \<or> n > 3 then errE (Errorf ''rainbow: slew-speed preset %d out of range 1..3'' [AInt n] None)
      else if x < 0 \<or> x > 9999 then
        errE (Errorf ''rainbow: slew speed %d out of range 0..9999 (the field is 4 digits)'' [AInt x] None)
      else onConn (Blind ('':Cu'' @ fmt_d 0 n @ ''='' @ fmt_d 4 x @ ''#'')))"

definition SetAxisRate :: "f64 \<Rightarrow> (rst, unit) pio" where
  "SetAxisRate degPerSec =
     (if fle degPerSec (Fin 0) then rstHalt
      else let mult = int_of_f64 (fadd (fmul degPerSec siderealPerDegSec) (Fin (1 / 2)))
           in runP (if fle AxisRateMax degPerSec then
                      bindE (onConn (Blind '':Cu3=2000#'')) (\<lambda>_. onConn (SetRate RateMax))
                    else if fle AxisRateFast degPerSec then
                      bindE (SetSlewSpeed 3 mult) (\<lambda>_. onConn (SetRate RateMax))
                    else if fle AxisRateMedium degPerSec then
                      bindE (SetSlewSpeed 2 mult) (\<lambda>_. onConn (SetRate RateFind))
                    else if fle AxisRateSlow degPerSec then
                      bindE (SetSlewSpeed 1 mult) (\<lambda>_. onConn (SetRate RateCenter))
                    else bindE (rstSetGuideRate (fmul degPerSec siderealPerDegSec)) (\<lambda>_. onConn (SetRate RateGuide))))"

definition degPerSecForPreset :: "Rate \<Rightarrow> f64" where
  "degPerSecForPreset r =
     (if r = RateMax then AxisRateMax
      else if r = RateFind then AxisRateMedium
      else if r = RateCenter then AxisRateSlow
      else rnd (41667 / 10000000 / 2))"

definition axisDirection :: "Axis \<Rightarrow> bool \<Rightarrow> Direction" where
  "axisDirection a positive =
     (if a = AxisPrimary then (if positive then East else West)
      else if positive then North else South)"

definition MoveAxisRate :: "Axis \<Rightarrow> bool \<Rightarrow> f64 \<Rightarrow> (rst, unit) pio" where
  "MoveAxisRate a positive degPerSec =
     (if fle degPerSec (Fin 0) then runP (rstStopAxis a)
      else bindP (SetAxisRate degPerSec) (\<lambda>_.
        runP (bindE (onConn (Move (axisDirection a positive))) (\<lambda>_. modE (setMoving True)))))"

definition rstMoveAxis :: "Axis \<Rightarrow> bool \<Rightarrow> Rate \<Rightarrow> (rst, unit) pio" where
  "rstMoveAxis a positive rate = MoveAxisRate a positive (degPerSecForPreset rate)"

definition SlewSpeed :: "int \<Rightarrow> (rst, int) pio" where
  "SlewSpeed n =
     (if n < 1 \<or> n > 3 then errP (Errorf ''rainbow: slew-speed index %d out of range 1..3'' [AInt n] None)
      else bindP (rst_get ('':CU'' @ fmt_d 0 n @ ''#'') ('':CU'' @ fmt_d 0 n @ ''='')) (\<lambda>s. liftP (Sscanf_d s)))"

definition SetForcePierFlip :: "bool \<Rightarrow> (rst, unit) io" where
  "SetForcePierFlip b = (if b then onConn (Blind '':Af1#'') else onConn (Blind '':Af0#''))"

end
