(* ===== verification/RstMisc.thy ===== *)
theory RstMisc
  imports Rst
begin

text \<open>
  The remaining files of the RST driver: the settings of misc.go, the Alpaca view of parking
  and homing (alpaca.go), object browsing (browse.go, catalog.go), the satellite table
  (satellite.go), the site slots (sites.go) and the write-only factory commands (unsafe.go).
\<close>

abbreviation rblind :: "string \<Rightarrow> (rst, unit) io" where
  "rblind cmd \<equiv> onConn (Blind cmd)"

section \<open>misc.go and browse.go\<close>

definition trimmed :: "(rst, string) io \<Rightarrow> (rst, string) io" where
  "trimmed m = bindE m (\<lambda>s. okE (TrimSpace s))"

definition trimmedP :: "(rst, string) pio \<Rightarrow> (rst, string) pio" where
  "trimmedP m = bindP m (\<lambda>s. okP (TrimSpace s))"

definition trimUnit :: "string \<Rightarrow> gerr + f64" where
  "trimUnit s = val_err (ParseFloat64 (TrimRight (TrimSpace s) [CHR 0x27, CHR ''*'', CHR 0x22]))"

definition bareFloat :: "string \<Rightarrow> (rst, f64) io" where
  "bareFloat cmd = bindE (onConn (Get cmd)) (\<lambda>s.
     liftE (map_sum (\<lambda>e. Errorf ''rainbow: %s: %q: %w'' [AStr cmd, AStr s] (Some e)) id (trimUnit s)))"

definition must1 :: "(rst, bool) io \<Rightarrow> (rst, unit) io" where
  "must1 m = bindE m (\<lambda>b. if b then okE () else errE (Errorf ''rainbow: the mount rejected the value'' [] None))"

definition ForcePierFlip :: "(rst, bool) pio" where
  "ForcePierFlip = bindP (rst_get '':AF#'' '':AF'') (\<lambda>s. okP (HasPrefix s ''1''))"

definition SetAutoResume :: "bool \<Rightarrow> (rst, unit) io" where
  "SetAutoResume b = (if b then rblind '':CrR#'' else rblind '':CrX#'')"

definition TrackingRateHz :: "(rst, f64) io" where "TrackingRateHz = bareFloat '':GT#''"
definition ModelName :: "(rst, string) pio" where "ModelName = trimmedP (rst_get '':AM#'' '':AM'')"

definition ClockFormat :: "(rst, int) io" where
  "ClockFormat = bindE (onConn (Get '':Gc#'')) (\<lambda>s.
     liftE (map_sum (\<lambda>e. Errorf ''rainbow: :Gc#: %q: %w'' [AStr s] (Some e)) id (val_err (Atoi (TrimSpace s)))))"

definition ToggleClockFormat :: "(rst, unit) io" where "ToggleClockFormat = rblind '':H#''"

definition SetClockFormat :: "int \<Rightarrow> (rst, unit) io" where
  "SetClockFormat hours =
     (if hours \<noteq> 12 \<and> hours \<noteq> 24 then
        errE (Errorf ''rainbow: clock format must be 12 or 24, not %d'' [AInt hours] None)
      else bindE ClockFormat (\<lambda>cur. if cur = hours then okE () else ToggleClockFormat))"

definition SyncCurrent :: "(rst, string) io" where "SyncCurrent = syncAck '':CM#''"
definition StarAlign :: "(rst, unit) io" where "StarAlign = rblind '':CS#''"

definition SetDecAxisOffset :: "f64 \<Rightarrow> (rst, unit) io" where
  "SetDecAxisOffset deg = rblind ('':Cg'' @ fmt_f True 8 4 deg @ ''#'')"

definition PierSideOffset :: "(rst, f64) pio" where
  "PierSideOffset = bindP (rst_get '':CG3#'' '':CG3'') (\<lambda>s. liftP (val_err (ParseFloat64 (TrimSpace s))))"

definition GotoOffsetFlag :: "(rst, string) pio" where "GotoOffsetFlag = trimmedP (rst_get '':CL#'' '':CL'')"

definition SetSlewLimit :: "int \<Rightarrow> f64 \<Rightarrow> (rst, unit) io" where
  "SetSlewLimit i v =
     (if i < 0 \<or> i > 5 then errE (Errorf ''rainbow: slew-limit index %d out of range 0..5'' [AInt i] None)
      else rblind ('':C'' @ [char_of (97 + nat i)] @ fmt_f False 0 3 v @ ''#''))"

definition SlewToTargetAlt :: "(rst, unit) io" where "SlewToTargetAlt = slewCmd '':MD#'' ''MD''"
definition MotionP :: "(rst, string) pio" where "MotionP = trimmedP (rst_get '':MP#'' '':MP'')"

definition SetRateRegister :: "bool \<Rightarrow> int \<Rightarrow> (rst, unit) io" where
  "SetRateRegister upper v = rblind ('':M'' @ (if upper then ''B'' else ''C'') @ fmt_d 4 v @ ''#'')"

definition SetEncoderRate :: "char \<Rightarrow> string \<Rightarrow> (rst, unit) io" where
  "SetEncoderRate lower arg =
     (if lower \<noteq> CHR ''b'' \<and> lower \<noteq> CHR ''c'' then
        errE (Errorf ''rainbow: :M%c is not an encoder-rate command (b or c)'' [AChr lower] None)
      else rblind ('':M'' @ rune_str lower @ arg @ ''#''))"

definition CounterI :: "(rst, string) pio" where "CounterI = trimmedP (rst_get '':CI#'' '':CI'')"
definition CounterJ :: "(rst, string) pio" where "CounterJ = trimmedP (rst_get '':CJ#'' '':CJ'')"

definition DebugDumpZ :: "(rst, string) io" where
  "DebugDumpZ = bindE (onConn (Get '':CZ#'')) (\<lambda>_. bindE (onConn (Get '':GR#'')) (\<lambda>s.
     case Index s '':GR'' of Some i \<Rightarrow> okE (TrimSpace (take i s)) | None \<Rightarrow> okE (TrimSpace s)))"

definition SetDebugZ :: "string \<Rightarrow> (rst, unit) io" where "SetDebugZ arg = rblind ('':Cz'' @ arg @ ''#'')"
definition StatusW :: "string \<Rightarrow> (rst, string) io" where "StatusW arg = onConn (Get ('':CW'' @ arg @ ''#''))"
definition SetInitFlags :: "string \<Rightarrow> (rst, unit) io" where "SetInitFlags arg = rblind ('':Cw'' @ arg @ ''#'')"
definition SetQ :: "string \<Rightarrow> (rst, unit) io" where "SetQ arg = rblind ('':CQ'' @ arg @ ''#'')"
definition SetTrackingRelatedO :: "string \<Rightarrow> (rst, unit) io" where
  "SetTrackingRelatedO arg = rblind ('':Co'' @ arg @ ''#'')"
definition SetTemperatureCal :: "string \<Rightarrow> (rst, unit) io" where
  "SetTemperatureCal arg = rblind ('':Cj'' @ arg @ ''#'')"
definition GetX :: "string \<Rightarrow> (rst, unit) io" where "GetX arg = rblind ('':GX'' @ arg @ ''#'')"
definition AdjustDateTime :: "int \<Rightarrow> (rst, unit) io" where
  "AdjustDateTime delta = rblind ('':SM'' @ fmt_plus_d 3 delta @ ''#'')"
definition ResetDateTimeField :: "string \<Rightarrow> (rst, unit) io" where
  "ResetDateTimeField arg = rblind ('':SN'' @ arg @ ''#'')"
definition SetSS :: "string \<Rightarrow> (rst, unit) io" where "SetSS arg = rblind ('':SS'' @ arg @ ''#'')"
definition SetSm :: "string \<Rightarrow> (rst, unit) io" where "SetSm arg = rblind ('':Sm'' @ arg @ ''#'')"
definition SetSn :: "string \<Rightarrow> (rst, unit) io" where "SetSn arg = rblind ('':Sn'' @ arg @ ''#'')"

type_synonym FindQuality = string

definition magTenths :: "f64 \<Rightarrow> string" where
  "magTenths mag = fmt_plus_d 4 (int_of_f64 (f_round (fmul mag (Fin 10))))"

definition FieldDiameter :: "(rst, f64) io" where "FieldDiameter = bareFloat '':GF#''"
definition SetFieldDiameter :: "int \<Rightarrow> (rst, unit) io" where
  "SetFieldDiameter arcmin = must1 (onConn (Ack ('':SF'' @ fmt_d 3 arcmin @ ''#'')))"
definition BrightMagnitudeLimit :: "(rst, f64) io" where "BrightMagnitudeLimit = bareFloat '':Gb#''"
definition SetBrightMagnitudeLimit :: "f64 \<Rightarrow> (rst, unit) io" where
  "SetBrightMagnitudeLimit mag = must1 (onConn (Ack ('':Sb'' @ magTenths mag @ ''#'')))"
definition FaintMagnitudeLimit :: "(rst, f64) io" where "FaintMagnitudeLimit = bareFloat '':Gf#''"
definition SetFaintMagnitudeLimit :: "f64 \<Rightarrow> (rst, unit) io" where
  "SetFaintMagnitudeLimit mag = must1 (onConn (Ack ('':Sf'' @ magTenths mag @ ''#'')))"
definition HigherAltitudeLimit :: "(rst, f64) io" where "HigherAltitudeLimit = bareFloat '':Gh#''"
definition SetHigherAltitudeLimit :: "int \<Rightarrow> (rst, unit) io" where
  "SetHigherAltitudeLimit deg = must1 (onConn (Ack ('':Sh'' @ fmt_d 2 deg @ ''#'')))"
definition SmallerSizeLimit :: "(rst, f64) io" where "SmallerSizeLimit = bareFloat '':Gs#''"
definition SetSmallerSizeLimit :: "int \<Rightarrow> (rst, unit) io" where
  "SetSmallerSizeLimit arcmin = must1 (onConn (Ack ('':Sl'' @ fmt_d 3 arcmin @ ''#'')))"
definition LargerSizeLimit :: "(rst, f64) io" where "LargerSizeLimit = bareFloat '':Gl#''"
definition SetLargerSizeLimit :: "int \<Rightarrow> (rst, unit) io" where
  "SetLargerSizeLimit arcmin = must1 (onConn (Ack ('':Ss'' @ fmt_d 3 arcmin @ ''#'')))"
definition MinimumQuality :: "(rst, FindQuality) io" where "MinimumQuality = trimmed (onConn (Get '':Gq#''))"
definition SetMinimumQuality :: "FindQuality \<Rightarrow> (rst, unit) io" where
  "SetMinimumQuality q = rblind ('':Sq'' @ q @ ''#'')"
definition SearchString :: "(rst, string) io" where "SearchString = trimmed (onConn (Get '':Gy#''))"
definition SetSearchString :: "string \<Rightarrow> (rst, unit) io" where
  "SetSearchString flags = rblind ('':Sy'' @ flags @ ''#'')"

section \<open>catalog.go and sites.go\<close>

definition SelectMessier :: "int \<Rightarrow> (rst, unit) io" where "SelectMessier n = rblind ('':LM'' @ fmt_d 0 n @ ''#'')"
definition SelectNGC :: "int \<Rightarrow> (rst, unit) io" where "SelectNGC n = rblind ('':LC'' @ fmt_d 0 n @ ''#'')"
definition SelectStar :: "int \<Rightarrow> (rst, unit) io" where "SelectStar n = rblind ('':LS'' @ fmt_d 0 n @ ''#'')"
definition FindObject :: "(rst, unit) io" where "FindObject = rblind '':LF#''"
definition FindAlt :: "(rst, unit) io" where "FindAlt = rblind '':Lf#''"
definition SelectLibrary :: "int \<Rightarrow> (rst, unit) io" where "SelectLibrary n = rblind ('':Lo'' @ fmt_d 0 n @ ''#'')"
definition SelectStarCatalog :: "int \<Rightarrow> (rst, unit) io" where
  "SelectStarCatalog n = rblind ('':Ls'' @ fmt_d 0 n @ ''#'')"

definition SiteSlot :: "(rst, string) io" where "SiteSlot = trimmed (onConn (Get '':WA#''))"
definition SelectSiteSlot :: "int \<Rightarrow> (rst, unit) io" where "SelectSiteSlot n = rblind ('':W'' @ fmt_d 0 n @ ''#'')"
definition SelectSiteSlotA :: "(rst, unit) io" where "SelectSiteSlotA = rblind '':Wa#''"
definition SiteStatusQ :: "(rst, string) io" where "SiteStatusQ = trimmed (onConn (Get '':WQ#''))"
definition SiteInfoI :: "(rst, string) io" where "SiteInfoI = trimmed (onConn (Get '':WI#''))"
definition SiteInfoJ :: "(rst, string) io" where "SiteInfoJ = trimmed (onConn (Get '':WJ#''))"

definition wSet :: "char \<Rightarrow> char \<Rightarrow> int \<Rightarrow> bool \<Rightarrow> (rst, unit) io" where
  "wSet up low v upper = rblind ('':W'' @ rune_str (if upper then up else low) @ fmt_d 4 v @ ''#'')"

definition SetSiteValueL :: "int \<Rightarrow> bool \<Rightarrow> (rst, unit) io" where
  "SetSiteValueL v upper = wSet CHR ''L'' CHR ''l'' v upper"
definition SetSiteValueM :: "int \<Rightarrow> bool \<Rightarrow> (rst, unit) io" where
  "SetSiteValueM v upper = wSet CHR ''M'' CHR ''m'' v upper"

section \<open>alpaca.go\<close>

definition ErrNotImplemented :: gerr where "ErrNotImplemented = ErrNew ''rainbow: not implemented on this mount''"
definition ErrParked :: gerr where "ErrParked = ErrNew ''rainbow: the mount is parked''"

definition AlpacaAtPark :: "(rst, bool) pio" where
  "AlpacaAtPark = bindP (runP rstSlewing) (\<lambda>sl.
     if sl then okP False
     else bindP (runP (readE unparked)) (\<lambda>u. if u then okP False else AtPark))"

definition AlpacaFindHome :: "(rst, unit) pio" where
  "AlpacaFindHome = bindP AlpacaAtPark (\<lambda>parked.
     if parked then errP (Errorf ''%w: unpark before homing'' [] (Some ErrParked)) else FindHome)"

definition AlpacaAtHome :: "(rst, bool) pio" where
  "AlpacaAtHome = bindP (runP rstSlewing) (\<lambda>sl. if sl then okP False else AtHome)"

definition AlpacaPark :: "(rst, unit) pio" where
  "AlpacaPark = bindP AlpacaAtPark (\<lambda>parked. if parked then okP () else Park)"

definition AlpacaUnpark :: "(rst, unit) pio" where
  "AlpacaUnpark = bindP AlpacaAtPark (\<lambda>parked. if \<not> parked then okP () else runP Unpark)"

definition AlpacaCanFindHome :: bool where "AlpacaCanFindHome = True"
definition AlpacaCanPark :: bool where "AlpacaCanPark = True"
definition AlpacaCanUnpark :: bool where "AlpacaCanUnpark = True"
definition AlpacaCanSetPark :: bool where "AlpacaCanSetPark = False"

definition AlpacaSetPark :: "(rst, unit) io" where
  "AlpacaSetPark = errE (Errorf ''%w: this mount parks at the polar axis, a mechanical stow position'' []
     (Some ErrNotImplemented))"

section \<open>satellite.go\<close>

definition MaxSatellites :: int where "MaxSatellites = 14"

record Satellite =
  SatName :: string
  EpochYear :: string
  EpochDay :: string
  FirstDerivative :: string
  Inclination :: string
  RightAscension :: string
  Eccentricity :: string
  ArgumentOfPerigee :: string
  MeanAnomaly :: string
  MeanMotion :: string
  Magnitude :: string

definition slotError :: "int \<Rightarrow> gerr" where
  "slotError slot = Errorf ''rainbow: satellite slot %d out of range 0..%d'' [AInt slot, AInt (MaxSatellites - 1)] None"

definition satelliteSteps :: "int \<Rightarrow> Satellite \<Rightarrow> string list" where
  "satelliteSteps slot s =
     ['':Vn'' @ fmt_d 2 slot @ ''#'',
      '':VE'' @ EpochYear s @ EpochDay s @ ''#'',
      '':VP'' @ EpochDay s @ ''#'',
      '':Vd'' @ FirstDerivative s @ ''#'',
      '':Vi'' @ Inclination s @ ''#'',
      '':Vo'' @ RightAscension s @ ''#'',
      '':Ve'' @ TrimPrefix (Eccentricity s) ''0.'' @ ''#'',
      '':VO'' @ ArgumentOfPerigee s @ ''#'',
      '':VM'' @ MeanAnomaly s @ ''#'',
      '':VR'' @ MeanMotion s @ ''#'',
      '':VN'' @ SatName s @ ''#'',
      '':Vm'' @ Magnitude s @ ''#'',
      '':VA'' @ fmt_d 2 slot @ ''#'']"

fun upload_steps :: "string list \<Rightarrow> (rst, unit) io" where
  "upload_steps [] = okE ()"
| "upload_steps (cmd # cmds) = bindE (mapErrE (\<lambda>e. Errorf ''rainbow: satellite upload %s: %w'' [AStr cmd] (Some e))
     (rblind cmd)) (\<lambda>_. upload_steps cmds)"

definition UploadSatellite :: "int \<Rightarrow> Satellite \<Rightarrow> (rst, unit) io" where
  "UploadSatellite slot s =
     (if slot < 0 \<or> slot \<ge> MaxSatellites then errE (slotError slot) else upload_steps (satelliteSteps slot s))"

definition SelectSatelliteSlot :: "int \<Rightarrow> (rst, unit) io" where
  "SelectSatelliteSlot slot =
     (if slot < 0 \<or> slot \<ge> MaxSatellites then errE (slotError slot) else rblind ('':Vn'' @ fmt_d 2 slot @ ''#''))"

definition CommitSatellite :: "int \<Rightarrow> (rst, unit) io" where
  "CommitSatellite slot =
     (if slot < 0 \<or> slot \<ge> MaxSatellites then errE (slotError slot) else rblind ('':VA'' @ fmt_d 2 slot @ ''#''))"

definition SatelliteValueB :: "int \<Rightarrow> (rst, unit) io" where "SatelliteValueB v = rblind ('':VB'' @ fmt_d 2 v @ ''#'')"
definition SatelliteValueC :: "int \<Rightarrow> (rst, unit) io" where "SatelliteValueC v = rblind ('':VC'' @ fmt_d 2 v @ ''#'')"
definition SatelliteValueD :: "int \<Rightarrow> (rst, unit) io" where "SatelliteValueD v = rblind ('':VD'' @ fmt_d 2 v @ ''#'')"
definition SatelliteValueF :: "int \<Rightarrow> (rst, unit) io" where "SatelliteValueF v = rblind ('':VF'' @ fmt_d 0 v @ ''#'')"
definition SatelliteValueLowerB :: "int \<Rightarrow> (rst, unit) io" where
  "SatelliteValueLowerB v = rblind ('':Vb'' @ fmt_d 8 v @ ''#'')"

definition SatelliteFlag :: "char \<Rightarrow> (rst, unit) io" where
  "SatelliteFlag c =
     (if c \<in> set ''TtUuV'' then rblind ('':V'' @ rune_str c @ ''#'')
      else errE (Errorf ''rainbow: :V%c is not one of the argument-less satellite flags (T t U u V)'' [AChr c] None))"

section \<open>unsafe.go\<close>

definition SetGearRatio :: "int \<Rightarrow> int \<Rightarrow> (rst, unit) io" where
  "SetGearRatio ra dec = rblind ('':Ag'' @ fmt_d 9 ra @ ''*'' @ fmt_d 9 dec @ ''#'')"
definition SetWormCount :: "int \<Rightarrow> int \<Rightarrow> (rst, unit) io" where
  "SetWormCount ra dec = rblind ('':Ap'' @ fmt_d 4 ra @ ''*'' @ fmt_d 4 dec @ ''#'')"
definition SetSerialNumber :: "int \<Rightarrow> (rst, unit) io" where
  "SetSerialNumber n = rblind ('':As'' @ fmt_d 6 n @ ''#'')"
definition SetModelName :: "string \<Rightarrow> (rst, unit) io" where "SetModelName s = rblind ('':Am'' @ s @ ''#'')"
definition WriteFactoryBlockA :: "string \<Rightarrow> (rst, unit) io" where
  "WriteFactoryBlockA raw = rblind ('':Aa'' @ raw @ ''#'')"
definition WriteFactoryBlockB :: "string \<Rightarrow> (rst, unit) io" where
  "WriteFactoryBlockB raw = rblind ('':Ab'' @ raw @ ''#'')"
definition SetDebugReport :: "bool \<Rightarrow> (rst, unit) io" where
  "SetDebugReport b = (if b then rblind '':AX#'' else rblind '':Ax#'')"
definition SelectLX200Dialect :: "(rst, unit) io" where "SelectLX200Dialect = rblind '':AL#''"
definition SelectWiFiTransport :: "(rst, unit) io" where "SelectWiFiTransport = rblind '':AW#''"
definition SetTransmitFlag :: "int \<Rightarrow> (rst, unit) io" where
  "SetTransmitFlag v = rblind ('':Ba'' @ fmt_d 0 v @ ''#'')"
definition SPIWriteA :: "int \<Rightarrow> int \<Rightarrow> (rst, unit) io" where
  "SPIWriteA addr data = rblind ('':Fa'' @ fmt_d 6 addr @ ''?'' @ fmt_d 4 data @ ''#'')"
definition SPIWriteD :: "int \<Rightarrow> int \<Rightarrow> (rst, unit) io" where
  "SPIWriteD addr data = rblind ('':Fd'' @ fmt_d 6 addr @ ''?'' @ fmt_d 4 data @ ''#'')"

definition SPIRaw :: "char \<Rightarrow> string \<Rightarrow> (rst, unit) io" where
  "SPIRaw c arg =
     (if c \<notin> set ''BbCcEeFgrt'' then errE (Errorf ''rainbow: :F%c is not a known SPI-memory command'' [AChr c] None)
      else rblind ('':F'' @ rune_str c @ arg @ ''#''))"

definition Diagnostic :: "char \<Rightarrow> string \<Rightarrow> (rst, unit) io" where
  "Diagnostic c arg =
     (if c \<notin> set ''ABCDEeFGHPR'' then errE (Errorf ''rainbow: :X%c is not a known diagnostic command'' [AChr c] None)
      else rblind ('':X'' @ rune_str c @ arg @ ''#''))"

definition PEC :: "char \<Rightarrow> (rst, unit) io" where
  "PEC c =
     (if c \<notin> set ''AaDFPpUu'' then errE (Errorf ''rainbow: :P%c is not a known PEC command'' [AChr c] None)
      else rblind ('':P'' @ rune_str c @ ''#''))"

end
