(* ===== verification/Keeps.thy ===== *)
theory Keeps
  imports GoPart
begin

text \<open>
  Properties of a driver state that an operation keeps: \<open>keepsE\<close> for the operations that always
  return, \<open>keepsP\<close> for those that may not, and the collection \<open>keeps\<close> of rules that follow the
  structure of an operation. The locales on a driver's invariants are proved with it.
\<close>

section \<open>Keeping a property\<close>

definition keepsE :: "('s \<Rightarrow> bool) \<Rightarrow> ('s, 'a) io \<Rightarrow> bool" where
  "keepsE I m = (\<forall>s r s'. I s \<longrightarrow> m s = (r, s') \<longrightarrow> I s')"

definition keepsP :: "('s \<Rightarrow> bool) \<Rightarrow> ('s, 'a) pio \<Rightarrow> bool" where
  "keepsP I m = (\<forall>s r s'. I s \<longrightarrow> m s = Some (r, s') \<longrightarrow> I s')"

lemma keepsED: "keepsE I m \<Longrightarrow> I s \<Longrightarrow> m s = (r, s') \<Longrightarrow> I s'"
  by (simp add: keepsE_def)

lemma keepsPD: "keepsP I m \<Longrightarrow> I s \<Longrightarrow> m s = Some (r, s') \<Longrightarrow> I s'"
  by (simp add: keepsP_def)

named_theorems keeps \<open>operations that keep the property\<close>

lemma keepsE_pure [keeps]:
  "keepsE I (okE x)" "keepsE I (errE e)" "keepsE I (liftE r)" "keepsE I (readE f)"
  by (simp_all add: keepsE_def)

lemma keepsE_modE: "(\<And>s. I s \<Longrightarrow> I (f s)) \<Longrightarrow> keepsE I (modE f)"
  by (simp add: keepsE_def)

lemma keepsE_tryE [keeps]: "keepsE I m \<Longrightarrow> (\<And>r. keepsE I (f r)) \<Longrightarrow> keepsE I (tryE m f)"
proof -
  assume m: "keepsE I m" and f: "\<And>r. keepsE I (f r)"
  show ?thesis unfolding keepsE_def
  proof (intro allI impI)
    fix s r s'
    assume "I s" and t: "tryE m f s = (r, s')"
    obtain a u where u: "m s = (a, u)" by fastforce
    with t have "f a u = (r, s')" by (simp add: tryE_def)
    moreover have "I u" by (rule keepsED [OF m \<open>I s\<close> u])
    ultimately show "I s'" by (rule keepsED [OF f, rotated])
  qed
qed

lemma keepsE_bindE [keeps]:
  assumes "keepsE I m" "\<And>x. keepsE I (f x)"
  shows "keepsE I (bindE m f)"
proof -
  have "bindE m f = tryE m (\<lambda>r. case r of Inl e \<Rightarrow> errE e | Inr x \<Rightarrow> f x)"
    by (auto simp: fun_eq_iff bindE_def tryE_def split: prod.split sum.split)
  moreover have "keepsE I (case r of Inl e \<Rightarrow> errE e | Inr x \<Rightarrow> f x)" for r
    using assms(2) keepsE_pure(2) by (cases r) simp_all
  ultimately show ?thesis using keepsE_tryE [OF assms(1), of "\<lambda>r. case r of Inl e \<Rightarrow> errE e | Inr x \<Rightarrow> f x"] by simp
qed

lemma keepsE_ignoreE [keeps]: "keepsE I m \<Longrightarrow> keepsE I (ignoreE m)"
  unfolding ignoreE_def by (intro keeps)

lemma keepsE_mapErrE [keeps]: "keepsE I m \<Longrightarrow> keepsE I (mapErrE f m)"
  unfolding mapErrE_def by (intro keeps)

lemma keepsE_if [keeps]: "keepsE I m \<Longrightarrow> keepsE I n \<Longrightarrow> keepsE I (if b then m else n)"
  by simp

lemma keepsP_runP [keeps]: "keepsE I m \<Longrightarrow> keepsP I (runP m)"
  by (simp add: keepsE_def keepsP_def)

lemma keepsP_tryP [keeps]: "keepsP I m \<Longrightarrow> (\<And>r. keepsP I (f r)) \<Longrightarrow> keepsP I (tryP m f)"
proof -
  assume m: "keepsP I m" and f: "\<And>r. keepsP I (f r)"
  show ?thesis unfolding keepsP_def
  proof (intro allI impI)
    fix s r s'
    assume "I s" "tryP m f s = Some (r, s')"
    then obtain a u where u: "m s = Some (a, u)" "f a u = Some (r, s')" by (auto simp: tryP_def bind_eq_Some_conv)
    show "I s'" by (rule keepsPD [OF f keepsPD [OF m \<open>I s\<close> u(1)] u(2)])
  qed
qed

lemma keepsP_bindP [keeps]:
  assumes "keepsP I m" "\<And>x. keepsP I (f x)"
  shows "keepsP I (bindP m f)"
  unfolding bindP_def
  by (rule keepsP_tryP [OF assms(1)]) (auto split: sum.split intro!: assms(2) keeps)

lemma keepsP_mapErrP [keeps]: "keepsP I m \<Longrightarrow> keepsP I (mapErrP f m)"
  unfolding mapErrP_def by (intro keeps)

lemma keepsP_if [keeps]: "keepsP I m \<Longrightarrow> keepsP I n \<Longrightarrow> keepsP I (if b then m else n)"
  by simp

lemma keepsE_sum [keeps]:
  "(\<And>e. keepsE I (m e)) \<Longrightarrow> (\<And>x. keepsE I (n x)) \<Longrightarrow> keepsE I (case r of Inl e \<Rightarrow> m e | Inr x \<Rightarrow> n x)"
  by (cases r) simp_all

lemma keepsP_sum [keeps]:
  "(\<And>e. keepsP I (m e)) \<Longrightarrow> (\<And>x. keepsP I (n x)) \<Longrightarrow> keepsP I (case r of Inl e \<Rightarrow> m e | Inr x \<Rightarrow> n x)"
  by (cases r) simp_all

lemma keepsP_option [keeps]:
  "keepsP I m \<Longrightarrow> (\<And>x. keepsP I (n x)) \<Longrightarrow> keepsP I (case r of None \<Rightarrow> m | Some x \<Rightarrow> n x)"
  by (cases r) simp_all

lemma keepsE_option [keeps]:
  "keepsE I m \<Longrightarrow> (\<And>x. keepsE I (n x)) \<Longrightarrow> keepsE I (case r of None \<Rightarrow> m | Some x \<Rightarrow> n x)"
  by (cases r) simp_all

lemma keepsP_prod [keeps]: "(\<And>x y. keepsP I (m x y)) \<Longrightarrow> keepsP I (case p of (x, y) \<Rightarrow> m x y)"
  by (cases p) simp

lemma keepsE_prod [keeps]: "(\<And>x y. keepsE I (m x y)) \<Longrightarrow> keepsE I (case p of (x, y) \<Rightarrow> m x y)"
  by (cases p) simp

lemma keepsE_state: "(\<And>t. keepsE I (m t)) \<Longrightarrow> keepsE I (\<lambda>s. m s s)"
  by (simp add: keepsE_def)

lemma keepsP_cached: "keepsP I m \<Longrightarrow> keepsP I (\<lambda>s. if b s then okP (f s) s else m s)"
  by (simp add: keepsP_def)

end
