(* ===== verification/RstInv.thy ===== *)
theory RstInv
  imports RstMisc Keeps
begin

text \<open>
  What every operation of the RST driver keeps. The locale \<open>rst_keeps\<close> lists the elementary
  updates of the driver state and proves once that a property closed under them is kept by
  every operation, the recursive query included; it is interpreted for the state invariant
  and for the home latch. The runs of the driver are the inductive predicate \<open>rst_run\<close>.
\<close>

section \<open>Every operation\<close>

locale rst_keeps =
  fixes I :: "rst \<Rightarrow> bool"
  assumes conn: "I s \<Longrightarrow> I (s\<lparr>rconn := c\<rparr>)"
    and token: "I s \<Longrightarrow> I (applyToken t s)"
    and slew: "I s \<Longrightarrow> I (setSlewing v s)"
    and park: "I s \<Longrightarrow> I ((setSlewing True s)\<lparr>parking := True\<rparr>)"
    and move: "I s \<Longrightarrow> I (s\<lparr>moving := v\<rparr>)"
    and peek: "I s \<Longrightarrow> I (s\<lparr>lastPeek := p\<rparr>)"
    and ra: "I s \<Longrightarrow> I (s\<lparr>targetRA := x\<rparr>)"
    and dec: "I s \<Longrightarrow> I (s\<lparr>targetDec := x\<rparr>)"
    and pulse: "I s \<Longrightarrow> I (s\<lparr>pulsing := v, pulses := ps\<rparr>)"
    and found: "I s \<Longrightarrow> I (s\<lparr>homeFound := True\<rparr>)"
    and position: "I s \<Longrightarrow> I (s\<lparr>homePos := h\<rparr>)"
    and site: "I s \<Longrightarrow> I (s\<lparr>siteLat := x, siteLatOK := v\<rparr>)"
    and unpark: "I s \<Longrightarrow> I (s\<lparr>unparked := v\<rparr>)"
    and captured: "I s \<Longrightarrow> I (s\<lparr>homeCapturePending := False\<rparr>)"
    and stopped: "I s \<Longrightarrow> I (s\<lparr>parkStopPending := False\<rparr>)"
begin

lemma tokens: "I s \<Longrightarrow> I (fold applyToken ts s)"
  by (induction ts arbitrary: s) (simp_all add: token)

lemma onConn: "keepsE I (onConn m)"
  by (auto simp: keepsE_def onConn_def conn split: prod.splits)

lemma mods:
  "keepsE I (modE (applyToken t))" "keepsE I (modE (setSlewing v))" "keepsE I (modE (setMoving v))"
  "keepsE I (modE (\<lambda>s. s\<lparr>targetRA := x\<rparr>))" "keepsE I (modE (\<lambda>s. s\<lparr>targetDec := x\<rparr>))"
  "keepsE I (modE (\<lambda>s. s\<lparr>homeFound := True\<rparr>))" "keepsE I (modE (\<lambda>s. s\<lparr>homePos := h\<rparr>))"
  "keepsE I (modE (\<lambda>s. s\<lparr>siteLat := x, siteLatOK := v\<rparr>))" "keepsE I (modE (\<lambda>s. s\<lparr>unparked := v\<rparr>))"
  "keepsE I (modE (\<lambda>s. setMoving False (setSlewing False s)))"
  by (auto intro!: keepsE_modE token slew ra dec found position site unpark simp: setMoving_def intro: move)

lemma drain_loop: "keepsE I (drain_loop n)"
  by (induction n) (simp_all only: drain_loop.simps, (intro keeps onConn | assumption)+)

lemma drainStale: "keepsE I drainStale"
  unfolding drainStale_def by (rule drain_loop)

lemma drainToken: "keepsE I drainToken"
proof -
  define m where "m = tryE (onConn (Await peekTimeout)) (\<lambda>r. case r of Inl _ \<Rightarrow> okE () | Inr tok \<Rightarrow> modE (applyToken tok))"
  have "keepsE I m" unfolding m_def by (intro keeps onConn mods)
  from keepsED [OF this peek] show ?thesis unfolding drainToken_def m_def [symmetric] by (auto simp: keepsE_def)
qed

lemma track: "keepsE I (track cmd)"
  unfolding track_def by (intro keeps onConn)

lemma tracking: "keepsE I (rstSetTracking b)"
  unfolding rstSetTracking_def by (rule track)

lemma maybeFinishPark: "keepsE I maybeFinishPark"
  using keepsE_ignoreE [OF tracking] stopped
  by (auto simp: maybeFinishPark_def keepsE_def Let_def split: if_splits)

lemma getTokens: "keepsE I (getTokens cmd pre)"
  by (auto simp: keepsE_def getTokens_def intro!: tokens conn split: prod.splits)

lemma get_attempts: "keepsE I (get_attempts n cmd pre)"
  by (induction n) (simp_all only: get_attempts.simps, (intro keeps getTokens drainStale | assumption)+)

lemma coordBy:
  assumes "\<And>c p. keepsP I (g c p)"
  shows "keepsP I (coordBy g cmd pre)"
  unfolding coordBy_def by (intro keeps drainToken assms)

lemma captureHomeBy:
  assumes "\<And>c p. keepsP I (g c p)"
  shows "keepsP I (captureHomeBy g)"
  unfolding captureHomeBy_def by (intro keeps coordBy assms mods)

lemma maybeCaptureHomeBy:
  assumes "\<And>c p. keepsP I (g c p)"
  shows "keepsP I (maybeCaptureHomeBy g)"
proof -
  have c: "keepsP I (captureHomeBy g)" by (rule captureHomeBy [OF assms])
  show ?thesis unfolding keepsP_def
    by (auto simp: maybeCaptureHomeBy_def Let_def intro: captured keepsPD [OF c captured])
qed

lemma rst_get: "keepsP I (rst_get cmd pre)"
proof -
  have "I s \<longrightarrow> I (snd y)" if "rst_get cmd pre s = Some y" for cmd pre s y
  proof (rule rst_get.raw_induct [OF _ that])
    fix g :: "string \<Rightarrow> string \<Rightarrow> (rst, string) pio" and cmd pre s y
    assume IH: "\<And>c p s y. g c p s = Some y \<Longrightarrow> I s \<longrightarrow> I (snd y)"
      and b: "bindP (maybeCaptureHomeBy (\<lambda>c p t. g c p t))
          (\<lambda>_. runP (bindE maybeFinishPark (\<lambda>_. get_attempts 2 cmd pre))) s = Some y"
    have "keepsP I (g c p)" for c p using IH by (auto simp: keepsP_def)
    then have "keepsP I (bindP (maybeCaptureHomeBy g) (\<lambda>_. runP (bindE maybeFinishPark (\<lambda>_. get_attempts 2 cmd pre))))"
      by (intro keeps maybeCaptureHomeBy maybeFinishPark get_attempts)
    with b show "I s \<longrightarrow> I (snd y)" by (cases y) (auto simp: keepsP_def)
  qed
  then show ?thesis by (auto simp: keepsP_def)
qed

lemmas reading = onConn mods drainStale drainToken track tracking maybeFinishPark rst_get

lemma coord: "keepsP I (coord cmd pre)"
  unfolding coord_def by (rule coordBy [OF rst_get])

lemma starting: "keepsE I selectDialect" "keepsP I homeLatched" "keepsP I rstSiteLatitude" "keepsP I rst_init"
proof -
  show d: "keepsE I selectDialect" unfolding selectDialect_def inRainbowMode_def by (intro keeps reading)
  show h: "keepsP I homeLatched" unfolding homeLatched_def by (intro keeps reading)
  show l: "keepsP I rstSiteLatitude" unfolding rstSiteLatitude_def by (intro keeps reading)
  show "keepsP I rst_init" unfolding rst_init_def by (intro keeps reading d h l)
qed

lemma requireHome: "keepsE I (requireHome op)"
  unfolding requireHome_def HomeFound_def by (intro keeps)

lemma slewCmd: "keepsE I (slewCmd cmd verb)"
  unfolding slewCmd_def Let_def by (intro keeps reading)

lemma targets: "keepsE I (rstSetTargetRA x)" "keepsE I (rstSetTargetDec x)"
  unfolding rstSetTargetRA_def rstSetTargetDec_def by (intro keeps reading)+

lemma slews: "keepsE I rstSlewToTarget" "keepsP I (SlewToAltAz az alt)"
proof -
  show "keepsE I rstSlewToTarget" unfolding rstSlewToTarget_def by (intro keeps requireHome slewCmd mods)
  have g: "keepsE I (bindE (onConn (Blind a)) (\<lambda>_. bindE (onConn (Blind b)) (\<lambda>_.
      bindE (slewCmd c v) (\<lambda>_. modE (setSlewing True)))))" for a b c v
    by (intro keeps reading slewCmd)
  have "keepsP I (\<lambda>s. Option.bind (az_down az) (\<lambda>az. Option.bind (az_up az) (\<lambda>az.
      runP (bindE (onConn (Blind (a az))) (\<lambda>_. bindE (onConn (Blind b)) (\<lambda>_.
      bindE (slewCmd c v) (\<lambda>_. modE (setSlewing True))))) s)))" for a b c v
    using keepsP_runP [OF g] unfolding keepsP_def by (auto simp: bind_eq_Some_conv)
  then show "keepsP I (SlewToAltAz az alt)" unfolding SlewToAltAz_def by (intro keeps requireHome)
qed

lemma pole: "keepsP I polePosition" "keepsP I SlewToPole"
proof -
  show p: "keepsP I polePosition" unfolding polePosition_def
    by (intro keepsP_bindP keepsP_cached) (intro keeps starting mods)+
  show "keepsP I SlewToPole" unfolding SlewToPole_def by (intro keeps requireHome p slews)
qed

lemma syncs: "keepsE I (syncAck cmd)" "keepsE I rstSyncToTarget" "keepsE I AddAlignmentPoint"
proof -
  show a: "keepsE I (syncAck cmd)" for cmd unfolding syncAck_def Let_def by (intro keeps reading)
  show "keepsE I rstSyncToTarget" unfolding rstSyncToTarget_def
    by (intro keeps requireHome keepsE_state [where m = "\<lambda>t. syncAck (syncCmd _ t)"] a)
  show "keepsE I AddAlignmentPoint" unfolding AddAlignmentPoint_def
    by (intro keepsE_bindE requireHome keepsE_state [where m = "\<lambda>t. bindE (syncAck (syncCmd _ t)) _"]) (intro keeps a)+
qed

lemma homing: "keepsP I Homing" "keepsP I (refuseWhileHoming op)" "keepsP I rstHalt" "keepsP I FindHome"
proof -
  show h: "keepsP I Homing" unfolding Homing_def by (intro keeps reading)
  show r: "keepsP I (refuseWhileHoming op)" for op unfolding refuseWhileHoming_def by (intro keeps h)
  show "keepsP I rstHalt" unfolding rstHalt_def by (intro keeps r reading)
  show "keepsP I FindHome" unfolding FindHome_def
    by (intro keeps h) (auto split: bool.split intro!: keeps reading)
qed

lemma status: "keepsE I rstSlewing" "keepsP I AtHome" "keepsP I AtPark" "keepsP I rstPierSide"
proof -
  show "keepsE I rstSlewing" unfolding rstSlewing_def by (intro keeps reading)
  have a: "keepsP I AxisAngles" unfolding AxisAngles_def by (intro keeps reading)
  show "keepsP I AtHome" unfolding AtHome_def HomeFound_def by (intro keeps a)
  show "keepsP I AtPark" unfolding AtPark_def HomeFound_def by (intro keeps a)
  show "keepsP I rstPierSide" unfolding rstPierSide_def Let_def
    by (intro keeps reading)
qed

text \<open>A goto that succeeds ends with \<open>setSlewing\<close>, which is why parking may be armed then.\<close>

lemma slew_ends: "rstSlewToTarget s = (Inr u, s') \<Longrightarrow> I s \<Longrightarrow> \<exists>t. I t \<and> s' = setSlewing True t"
  unfolding rstSlewToTarget_def
  by (elim bindE_InrD) (auto intro: keepsED [OF slewCmd keepsED [OF requireHome]])

lemma parkTarget: "keepsE I (parkTarget lst)"
proof -
  have arm: "keepsE I (bindE rstSlewToTarget (\<lambda>_. modE (\<lambda>s. s\<lparr>parking := True\<rparr>)))"
    unfolding keepsE_def
  proof (intro allI impI)
    fix s r s'
    assume i: "I s" and b: "bindE rstSlewToTarget (\<lambda>_. modE (\<lambda>s. s\<lparr>parking := True\<rparr>)) s = (r, s')"
    obtain a u where u: "rstSlewToTarget s = (a, u)" by fastforce
    show "I s'"
    proof (cases a)
      case (Inl e)
      with u b have "s' = u" by (simp add: bindE_def)
      with keepsED [OF slews(1) i u] show ?thesis by simp
    next
      case (Inr x)
      with slew_ends i u obtain t where "I t" "u = setSlewing True t" by blast
      with u b Inr park show ?thesis by (auto simp: bindE_def)
    qed
  qed
  show ?thesis unfolding parkTarget_def Let_def
    by (intro arm targets keepsE_pure keepsE_if keepsE_bindE [OF targets(1)] keepsE_bindE [OF targets(2)])
qed

lemma parks: "keepsP I Park" "keepsE I Unpark" "keepsP I AlpacaPark" "keepsP I AlpacaUnpark" "keepsP I AlpacaFindHome"
proof -
  show p: "keepsP I Park" unfolding Park_def rstSiderealTime_def
    by (intro keeps requireHome homing reading status coord parkTarget)
  show u: "keepsE I Unpark" unfolding Unpark_def by (rule mods)
  have a: "keepsP I AlpacaAtPark" unfolding AlpacaAtPark_def by (intro keeps status)
  show "keepsP I AlpacaPark" "keepsP I AlpacaUnpark" "keepsP I AlpacaFindHome"
    unfolding AlpacaPark_def AlpacaUnpark_def AlpacaFindHome_def by (intro keeps a p u homing)+
qed

lemma guiding: "keepsE I (rstPulseGuide d t)" "keepsE I pulseEnd" "keepsE I (rstStopAxis a)"
proof -
  have "keepsE I (modE (\<lambda>s. s\<lparr>pulsing := True, pulses := f s\<rparr>))" for f by (intro keepsE_modE pulse)
  then show "keepsE I (rstPulseGuide d t)" unfolding rstPulseGuide_def by (intro keeps reading)
  have "I (s\<lparr>pulsing := v\<rparr>)" if "I s" for s v using pulse [OF that, where v = v and ps = "pulses s"] by simp
  then show "keepsE I pulseEnd" unfolding pulseEnd_def by (intro keeps reading keepsE_modE)
  show "keepsE I (rstStopAxis a)" unfolding rstStopAxis_def by (intro keeps reading)
qed

lemma rates: "keepsP I (SetAxisRate x)" "keepsP I (MoveAxisRate a b x)"
proof -
  have s: "keepsE I (SetSlewSpeed n k)" for n k unfolding SetSlewSpeed_def by (intro keeps reading)
  show r: "keepsP I (SetAxisRate x)" for x
    unfolding SetAxisRate_def Let_def rstSetGuideRate_def by (intro keeps homing reading s)
  show "keepsP I (MoveAxisRate a b x)" unfolding MoveAxisRate_def by (intro keeps r guiding reading)
qed

lemma clock: "keepsP I (rstSetUTC t)"
proof -
  have d: "keepsE I (date_frames n)" for n
    by (induction n) (simp_all only: date_frames.simps, (intro keeps onConn | assumption)+)
  have s: "keepsP I (SetDate mm dd yy)" for mm dd yy
    unfolding SetDate_def Let_def rstDate_def by (intro keeps reading d)
  show ?thesis unfolding rstSetUTC_def Let_def rstDate_def rstUTCOffset_def rstSetLocalTime_def
    by (intro keeps reading s)
qed

end

end
