(* ===== verification/RstFind.thy ===== *)
theory RstFind
  imports Rst Ports
begin

text \<open>
  Finding an RST (src/rst/rst.go: \<open>Open\<close>, \<open>Find\<close>, \<open>FindMatching\<close>, \<open>Discover\<close> and their helpers).
  The serial ports are the parameter \<open>ports\<close> of theory \<open>Ports\<close>. A probe converses with whatever is on the port, so its
  value is \<open>None\<close> when that conversation does not end.
\<close>

definition rstBaud :: int where "rstBaud = 115200"

record Filter =
  fSerial :: string
  fMountSerial :: string

record Report =
  rSerial :: string
  rMountSerial :: string
  rVersion :: string

record Discovered =
  dPort :: string
  dSerial :: string
  dVersion :: string
  dMountSerial :: string

record identity =
  idVersion :: string
  idSerial :: string

definition openRaw :: "'w ports \<Rightarrow> string \<Rightarrow> int \<Rightarrow> 'w \<Rightarrow> (gerr + rst) \<times> 'w" where
  "openRaw P name t w =
     (case openPort P name rstBaud w of
        (Inl e, w) \<Rightarrow> (Inl e, w)
      | (Inr tr, w) \<Rightarrow> (Inr (newRst (New tr t)), w))"

definition rstOpen :: "'w ports \<Rightarrow> string \<Rightarrow> 'w \<Rightarrow> ((gerr + rst) \<times> 'w) option" where
  "rstOpen P name w =
     (case openRaw P name commandTimeout w of
        (Inl e, w) \<Rightarrow> Some (Inl e, w)
      | (Inr m, w) \<Rightarrow> Option.bind (rst_init m) (\<lambda>(_, m). Some (Inr m, w)))"

definition keep :: "Filter \<Rightarrow> PortInfo \<Rightarrow> bool" where
  "keep f p = (fSerial f = [] \<or> ToLower (TrimSpace (pSerialNumber p)) = ToLower (TrimSpace (fSerial f)))"

definition candidates :: "PortInfo list \<Rightarrow> Filter \<Rightarrow> PortInfo list" where
  "candidates ps f =
     filter (\<lambda>p. pIsUSB p \<and> pVID p = ''0403'' \<and> pPID p = ''6001'' \<and> keep f p) ps
     @ filter (\<lambda>p. pVID p = [] \<and> pIsUSB p \<and> Contains (pName p) ''usbserial'' \<and> keep f p) ps"

definition candidatePorts :: "PortInfo list \<Rightarrow> string list" where
  "candidatePorts ps = map pName (candidates ps \<lparr>fSerial = [], fMountSerial = []\<rparr>)"

definition rst_findPort :: "PortInfo list \<Rightarrow> string" where
  "rst_findPort ps = (case candidatePorts ps of c # _ \<Rightarrow> c | [] \<Rightarrow> [])"

definition callouts :: "PortInfo list \<Rightarrow> string set" where
  "callouts ps = set (map (\<lambda>p. TrimPrefix (pName p) ''/dev/cu.'') (filter (\<lambda>p. HasPrefix (pName p) ''/dev/cu.'') ps))"

definition dedupeAliases :: "PortInfo list \<Rightarrow> PortInfo list" where
  "dedupeAliases ps =
     filter (\<lambda>p. \<not> (HasPrefix (pName p) ''/dev/tty.'' \<and> TrimPrefix (pName p) ''/dev/tty.'' \<in> callouts ps)) ps"

text \<open>The conversation of a probe, and the probe with its port opened and closed.\<close>

definition askIdentity :: "(rst, identity) pio" where
  "askIdentity =
     bindP (tryP rstVersion (\<lambda>v.
         case v of Inr v \<Rightarrow> okP v | Inl _ \<Rightarrow> bindP (runP selectDialect) (\<lambda>_. rstVersion))) (\<lambda>v.
       tryP rstSerial (\<lambda>sn. okP \<lparr>idVersion = v, idSerial = (case sn of Inr sn \<Rightarrow> sn | Inl _ \<Rightarrow> [])\<rparr>))"

definition probeIdentity :: "'w ports \<Rightarrow> string \<Rightarrow> 'w \<Rightarrow> (identity option \<times> 'w) option" where
  "probeIdentity P name w =
     (case openRaw P name probeTimeout w of
        (Inl e, w) \<Rightarrow> Some (None, w)
      | (Inr m, w) \<Rightarrow>
          Option.bind (askIdentity m) (\<lambda>(r, m).
            Some (case r of Inl _ \<Rightarrow> None | Inr i \<Rightarrow> Some i, closePort P (wire (rconn m)) w)))"

definition probeRST :: "'w ports \<Rightarrow> string \<Rightarrow> 'w \<Rightarrow> (bool \<times> 'w) option" where
  "probeRST P name w = map_option (\<lambda>(i, w). (i \<noteq> None, w)) (probeIdentity P name w)"

definition Report0 :: Report where
  "Report0 = \<lparr>rSerial = [], rMountSerial = [], rVersion = []\<rparr>"

text \<open>The loop over the candidates; \<open>n\<close> is their number and \<open>answered\<close> counts the mounts heard.\<close>

fun find_loop ::
  "'w ports \<Rightarrow> Filter \<Rightarrow> nat \<Rightarrow> int \<Rightarrow> PortInfo list \<Rightarrow> 'w \<Rightarrow> (((gerr + rst) \<times> Report) \<times> 'w) option" where
  "find_loop P f n answered [] w = Some
     ((Inl (if fMountSerial f \<noteq> [] \<and> answered > 0
            then Errorf ''rainbow: %d RST mount(s) answered, none with serial %q'' [AInt answered, AStr (fMountSerial f)] None
            else Errorf ''rainbow: no RST mount answered on %d candidate port(s) (FTDI 0403:6001)'' [AInt (int n)] None),
       Report0), w)"
| "find_loop P f n answered (c # cs) w =
     Option.bind (probeIdentity P (pName c) w) (\<lambda>(r, w).
       case r of
         None \<Rightarrow> find_loop P f n answered cs w
       | Some i \<Rightarrow>
           if fMountSerial f \<noteq> [] \<and> \<not> EqualFold (idSerial i) (fMountSerial f)
           then find_loop P f n (answered + 1) cs w
           else map_option (\<lambda>(m, w). ((m, \<lparr>rSerial = pSerialNumber c, rMountSerial = idSerial i, rVersion = idVersion i\<rparr>), w))
                  (rstOpen P (pName c) w))"

definition FindMatching :: "'w ports \<Rightarrow> Filter \<Rightarrow> 'w \<Rightarrow> (((gerr + rst) \<times> Report) \<times> 'w) option" where
  "FindMatching P f w =
     (case listPorts P w of
        (Inl e, w) \<Rightarrow> Some ((Inl e, Report0), w)
      | (Inr ps, w) \<Rightarrow>
          (let cands = candidates ps f
           in if cands = [] then
                Some ((Inl (if fSerial f \<noteq> []
                            then Errorf ''rainbow: no port with USB serial %q (FTDI 0403:6001)'' [AStr (fSerial f)] None
                            else Errorf ''rainbow: no RST mount found (FTDI 0403:6001)'' [] None), Report0), w)
              else find_loop P f (length cands) 0 cands w))"

definition rstFind :: "'w ports \<Rightarrow> 'w \<Rightarrow> ((gerr + rst) \<times> 'w) option" where
  "rstFind P w = map_option (\<lambda>((m, _), w). (m, w)) (FindMatching P \<lparr>fSerial = [], fMountSerial = []\<rparr> w)"

fun discover_loop :: "'w ports \<Rightarrow> PortInfo list \<Rightarrow> 'w \<Rightarrow> (Discovered list \<times> 'w) option" where
  "discover_loop P [] w = Some ([], w)"
| "discover_loop P (c # cs) w =
     Option.bind (probeIdentity P (pName c) w) (\<lambda>(r, w).
       map_option (\<lambda>(ds, w).
           (case r of
              None \<Rightarrow> ds
            | Some i \<Rightarrow> \<lparr>dPort = pName c, dSerial = pSerialNumber c, dVersion = idVersion i, dMountSerial = idSerial i\<rparr> # ds, w))
         (discover_loop P cs w))"

definition Discover :: "'w ports \<Rightarrow> 'w \<Rightarrow> ((gerr + Discovered list) \<times> 'w) option" where
  "Discover P w =
     (case listPorts P w of
        (Inl e, w) \<Rightarrow> Some (Inl e, w)
      | (Inr ps, w) \<Rightarrow>
          map_option (\<lambda>(ds, w). (Inr ds, w))
            (discover_loop P (dedupeAliases (candidates ps \<lparr>fSerial = [], fMountSerial = []\<rparr>)) w))"

end
