(* ===== verification/RstProps.thy ===== *)
theory RstProps
  imports RstInv RstFind
begin

text \<open>
  What the RST driver guarantees: the gate on homing, the life of the parking and homing
  latches, queries in the presence of pushed tokens, and discovery. The runs of the driver
  are the inductive predicate \<open>rst_run\<close>, any operation after any other.
\<close>

section \<open>The driver as a state machine\<close>

text \<open>\<open>talk\<close> covers the operations that only use the connection: the setters sent blind, the
  plain queries, and the passing of time.\<close>

inductive rst_op :: "rst \<Rightarrow> rst \<Rightarrow> bool" where
  talk: "rst_op s (s\<lparr>rconn := c\<rparr>)"
| initialise: "rst_init s = Some (r, s') \<Longrightarrow> rst_op s s'"
| query: "rst_get cmd pre s = Some (r, s') \<Longrightarrow> rst_op s s'"
| coordinate: "coord cmd pre s = Some (r, s') \<Longrightarrow> rst_op s s'"
| set_ra: "rstSetTargetRA x s = (r, s') \<Longrightarrow> rst_op s s'"
| set_dec: "rstSetTargetDec x s = (r, s') \<Longrightarrow> rst_op s s'"
| goto: "rstSlewToTarget s = (u, s') \<Longrightarrow> rst_op s s'"
| goto_altaz: "SlewToAltAz az alt s = Some (u, s') \<Longrightarrow> rst_op s s'"
| goto_pole: "SlewToPole s = Some (u, s') \<Longrightarrow> rst_op s s'"
| sync: "rstSyncToTarget s = (r, s') \<Longrightarrow> rst_op s s'"
| align: "AddAlignmentPoint s = (u, s') \<Longrightarrow> rst_op s s'"
| stop: "rstHalt s = Some (u, s') \<Longrightarrow> rst_op s s'"
| poll: "rstSlewing s = (b, s') \<Longrightarrow> rst_op s s'"
| set_tracking: "rstSetTracking b s = (u, s') \<Longrightarrow> rst_op s s'"
| home: "FindHome s = Some (u, s') \<Longrightarrow> rst_op s s'"
| at_home: "AtHome s = Some (b, s') \<Longrightarrow> rst_op s s'"
| park: "Park s = Some (u, s') \<Longrightarrow> rst_op s s'"
| alpaca_park: "AlpacaPark s = Some (u, s') \<Longrightarrow> rst_op s s'"
| unpark: "Unpark s = (u, s') \<Longrightarrow> rst_op s s'"
| at_park: "AtPark s = Some (b, s') \<Longrightarrow> rst_op s s'"
| pier: "rstPierSide s = Some (p, s') \<Longrightarrow> rst_op s s'"
| pulse: "rstPulseGuide d t s = (u, s') \<Longrightarrow> rst_op s s'"
| pulse_over: "pulseEnd s = (u, s') \<Longrightarrow> rst_op s s'"
| move: "MoveAxisRate a b x s = Some (u, s') \<Longrightarrow> rst_op s s'"
| stop_axis: "rstStopAxis a s = (u, s') \<Longrightarrow> rst_op s s'"
| set_clock: "rstSetUTC t s = Some (u, s') \<Longrightarrow> rst_op s s'"

inductive_cases rst_opE: "rst_op s s'"

inductive rst_run :: "rst \<Rightarrow> bool" where
  opened: "rst_run (newRst c)"
| then_op: "rst_run s \<Longrightarrow> rst_op s s' \<Longrightarrow> rst_run s'"

context rst_keeps
begin

lemmas every_op = starting(4) [THEN keepsPD] rst_get [THEN keepsPD] coord [THEN keepsPD] targets [THEN keepsED]
  slews(1) [THEN keepsED] slews(2) [THEN keepsPD] pole [THEN keepsPD] syncs [THEN keepsED] homing [THEN keepsPD]
  status(1) [THEN keepsED] status(2-4) [THEN keepsPD] tracking [THEN keepsED] parks(1,3) [THEN keepsPD]
  parks(2) [THEN keepsED] guiding [THEN keepsED] rates [THEN keepsPD] clock [THEN keepsPD]

lemma step: "rst_op s s' \<Longrightarrow> I s \<Longrightarrow> I s'"
proof (induction rule: rst_op.induct)
  case (talk s c) then show ?case by (rule conn)
qed (rule every_op, assumption, assumption)+

lemma run: "rst_run s \<Longrightarrow> (\<And>c. I (newRst c)) \<Longrightarrow> I s"
  by (induction rule: rst_run.induct) (auto intro: step)

end

text \<open>A park in flight and its tracking-off are never armed together, and the home position is
  only to be captured once a home was found.\<close>

definition rst_inv :: "rst \<Rightarrow> bool" where
  "rst_inv s = (\<not> (parking s \<and> parkStopPending s) \<and> (homeCapturePending s \<longrightarrow> homeFound s))"

interpretation latches: rst_keeps rst_inv
  by unfold_locales (auto simp: rst_inv_def applyToken_def setSlewing_def Let_def)

interpretation latched: rst_keeps homeFound
  by unfold_locales (auto simp: applyToken_def setSlewing_def Let_def)


section \<open>Silence and tokens\<close>

text \<open>A slew command that meets silence is accepted.\<close>

lemma SlewNack_silent:
  assumes "answering d ans c" "ans (sent c @ [cmd]) = []"
  shows "\<exists>c'. SlewNack cmd w c = (Inr [], c') \<and> steps d ans c [cmd] c'"
proof -
  define c1 where "c1 = c\<lparr>wire := (wire c)\<lparr>tx := sent c @ [cmd], rx := []\<rparr>\<rparr>"
  have w: "connWrite cmd c = (Inr (), c1)" using assms by (simp add: connWrite_ok answering_def c1_def)
  have "rx (wire c1) = []" by (simp add: c1_def)
  from readFrame_silent [OF this] obtain c' where c': "readFrame (if w \<le> 0 then timeout c1 else w) c1 = (Inl ErrTimeout, c')"
    "rx (wire c') = []" "same_out (wire c1) (wire c')" "timeout c' = timeout c1" by blast
  have "SlewNack cmd w c = (Inr [], c')" using w c'(1) by (simp add: SlewNack_def bindE_def tryE_def)
  moreover have "steps d ans c [cmd] c'" using assms(1) c'(2-4)
    by (simp add: steps_def answering_def same_out_def sent_def c1_def)
  ultimately show ?thesis by blast
qed

lemma maybeCaptureHome_idle: "\<not> homeCapturePending s \<Longrightarrow> maybeCaptureHome s = Some (Inr (), s)"
  by (simp add: maybeCaptureHome_def maybeCaptureHomeBy_def)

lemma maybeFinishPark_idle: "\<not> parkStopPending s \<Longrightarrow> maybeFinishPark s = (Inr (), s)"
  by (simp add: maybeFinishPark_def)

text \<open>Without a home capture pending a query always returns.\<close>

lemma rst_get_no_capture:
  "\<not> homeCapturePending s \<Longrightarrow> rst_get cmd pre s = Some (bindE maybeFinishPark (\<lambda>_. get_attempts 2 cmd pre) s)"
  unfolding rst_get_code runP_bind by (simp add: bindP_apply maybeCaptureHome_idle)

lemma rst_get_idle:
  "\<not> homeCapturePending s \<Longrightarrow> \<not> parkStopPending s \<Longrightarrow> rst_get cmd pre s = Some (get_attempts 2 cmd pre s)"
  by (simp add: rst_get_no_capture bindE_def maybeFinishPark_idle)

lemma get_attempts_answered:
  assumes "answering d ans (rconn s)" "ans (sent (rconn s) @ [cmd]) = frames (toks @ [pre @ v])"
    "\<forall>g\<in>set (toks @ [pre @ v]). CHR ''#'' \<notin> set g \<and> int d + 2 * ms * int (length g) \<le> timeout (rconn s)"
    "\<forall>g\<in>set toks. \<not> HasPrefix g pre" "length toks \<le> 3"
  shows "\<exists>c'. get_attempts (Suc n) cmd pre s = (Inr v, fold applyToken toks (s\<lparr>rconn := c'\<rparr>))
    \<and> steps d ans (rconn s) [cmd] c'"
proof -
  obtain c' where c': "GetMatching cmd (\<lambda>r. HasPrefix r pre) 3 (rconn s) = (Inr (pre @ v), toks, c')"
    "steps d ans (rconn s) [cmd] c'"
    using GetMatching_answered [OF assms(1-3), of "\<lambda>r. HasPrefix r pre" 3] assms(4,5) by auto
  then show ?thesis by (auto simp: tryE_def getTokens_def)
qed

text \<open>What each token does, with and without its colon.\<close>

lemma token_texts:
  "TrimPrefix '':MM0'' '':'' = ''MM0''" "TrimPrefix ''MM0'' '':'' = ''MM0''"
  "TrimPrefix '':CHO'' '':'' = ''CHO''" "TrimPrefix ''CHO'' '':'' = ''CHO''"
  "TrimPrefix '':CMF'' '':'' = ''CMF''"
  "\<not> HasPrefix ''MM0'' ''CM''" "\<not> HasPrefix ''CHO'' ''CM''" "HasPrefix ''CMF'' ''CM''" "HasPrefix ''CMF'' ''CMF''"
  by (simp_all add: TrimPrefix_def HasPrefix_def)

lemma applyToken_MM0:
  "applyToken '':MM0'' s = (if parking s then s\<lparr>slewing := False, parking := False, parkStopPending := True\<rparr>
     else s\<lparr>slewing := False\<rparr>)"
  unfolding applyToken_def token_texts Let_def by (simp add: token_texts)

lemma applyToken_CHO:
  "applyToken '':CHO'' s = s\<lparr>slewing := False, homeFound := True, homeCapturePending := True\<rparr>"
  unfolding applyToken_def token_texts Let_def by (simp add: token_texts)

lemma applyToken_CMF: "applyToken '':CMF'' s = s\<lparr>lastFault := '':CMF''\<rparr>"
  unfolding applyToken_def token_texts Let_def by (simp add: token_texts)

section \<open>Properties\<close>

text \<open>C25: tokens that the mount pushes ahead of a reply are no obstacle: up to three of them
  are applied to the state in the order they came, the query is sent once, and its value is
  the reply without the echoed prefix.\<close>

theorem get_applies_tokens:
  assumes "\<not> homeCapturePending s" "\<not> parkStopPending s" "answering d ans (rconn s)"
    "ans (sent (rconn s) @ [cmd]) = frames (toks @ [pre @ v])"
    "\<forall>g\<in>set (toks @ [pre @ v]). CHR ''#'' \<notin> set g \<and> int d + 2 * ms * int (length g) \<le> timeout (rconn s)"
    "\<forall>g\<in>set toks. \<not> HasPrefix g pre" "length toks \<le> 3"
  shows "\<exists>c'. rst_get cmd pre s = Some (Inr v, fold applyToken toks (s\<lparr>rconn := c'\<rparr>)) \<and> steps d ans (rconn s) [cmd] c'"
  using get_attempts_answered [OF assms(3-7), of 1] assms(1,2) by (auto simp: rst_get_idle numeral_2_eq_2)

theorem get_applies_tokens_witness:
  "\<exists>s'. rst_get '':GR#'' '':GR'' (newRst (mount_conn 1000000 (\<lambda>h. '':MM0#:CHO#:GR05:00:00#''))) = Some (Inr ''05:00:00'', s')
    \<and> homeFound s'"
proof -
  let ?a = "\<lambda>h :: string list. '':MM0#:CHO#:GR05:00:00#''"
  let ?s = "newRst (mount_conn 1000000 ?a)"
  have "\<exists>c'. rst_get '':GR#'' '':GR'' ?s = Some (Inr ''05:00:00'', fold applyToken ['':MM0'', '':CHO''] (?s\<lparr>rconn := c'\<rparr>))
      \<and> steps 1000000 ?a (rconn ?s) ['':GR#''] c'"
    by (rule get_applies_tokens) (simp_all add: newRst_def frames_def ms_def HasPrefix_def)
  moreover have "homeFound (fold applyToken ['':MM0'', '':CHO''] x)" for x
    by (simp only: fold_simps applyToken_CHO) simp
  ultimately show ?thesis by blast
qed

text \<open>The refusal of the homing gate.\<close>

definition homeErr :: "string \<Rightarrow> gerr" where
  "homeErr op = Errorf (''rainbow: %s requires the mount to be homed first '' @ em_dash
     @ '' run FindHome (the mount seeks its West-horizon mechanical home)'') [AStr op] None"

lemma requireHome_refused:
  "\<not> homeFound s \<Longrightarrow> bindE (requireHome op) f s = (Inl (homeErr op), s)"
  "\<not> homeFound s \<Longrightarrow> bindP (runP (requireHome op)) g s = Some (Inl (homeErr op), s)"
  by (simp_all add: requireHome_def HomeFound_def bindE_def bindP_apply homeErr_def)

lemma gated:
  assumes "\<not> homeFound s"
  shows "rstSlewToTarget s = (Inl (homeErr ''goto''), s)" "SlewToAltAz az alt s = Some (Inl (homeErr ''alt/az goto''), s)"
    "SlewToPole s = Some (Inl (homeErr ''polar-axis slew''), s)" "Park s = Some (Inl (homeErr ''park''), s)"
    "rstSyncToTarget s = (Inl (homeErr ''sync''), s)" "AddAlignmentPoint s = (Inl (homeErr ''add alignment point''), s)"
  unfolding rstSlewToTarget_def SlewToAltAz_def SlewToPole_def Park_def rstSyncToTarget_def AddAlignmentPoint_def
  by (rule requireHome_refused [OF assms])+

text \<open>C26: the homing gate. On a mount that has not been homed the six operations behind
  \<open>requireHome\<close>, the goto to the target, the horizontal goto, the slew to the pole, the park, the sync
  and the alignment point, fail with the error that names the operation, send nothing and leave the
  driver as it was; and the latch that opens the gate is set by a home seek and no operation takes it
  back. The vendor commands of src/rst/misc.go are outside the gate: \<open>SlewToTargetAlt\<close> sends its goto on
  a mount that was not homed (\<open>alternative_goto_ungated\<close>), and \<open>SyncCurrent\<close> and \<open>StarAlign\<close> do not ask
  either.\<close>

theorem unhomed_refuses:
  "(\<not> homeFound s \<longrightarrow>
      rstSlewToTarget s = (Inl (homeErr ''goto''), s) \<and> SlewToAltAz az alt s = Some (Inl (homeErr ''alt/az goto''), s)
      \<and> SlewToPole s = Some (Inl (homeErr ''polar-axis slew''), s) \<and> Park s = Some (Inl (homeErr ''park''), s)
      \<and> rstSyncToTarget s = (Inl (homeErr ''sync''), s) \<and> AddAlignmentPoint s = (Inl (homeErr ''add alignment point''), s))
   \<and> (homeFound s \<and> rst_op s s' \<longrightarrow> homeFound s')"
  by (intro conjI impI gated) (auto intro: latched.step)

theorem unhomed_refuses_witness:
  "Park (newRst (mount_conn 0 (\<lambda>h. []))) = Some (Inl (homeErr ''park''), newRst (mount_conn 0 (\<lambda>h. [])))"
proof -
  have "\<not> homeFound (newRst (mount_conn 0 (\<lambda>h. [])))" by (simp add: newRst_def)
  with unhomed_refuses [of "newRst (mount_conn 0 (\<lambda>h. []))"] show ?thesis by blast
qed

text \<open>C27: whatever is done with the driver and whatever tokens arrive, a park in flight and
  the tracking-off that follows it are never armed at once, and the home position is only
  to be captured after a home was found.\<close>

theorem rst_latches:
  "rst_run s \<Longrightarrow> \<not> (parking s \<and> parkStopPending s) \<and> (homeCapturePending s \<longrightarrow> homeFound s)"
  using latches.run [of s] by (simp add: rst_inv_def newRst_def)

theorem rst_latches_witness:
  "\<not> (parking (snd (Unpark (newRst (mount_conn 0 (\<lambda>h. []))))) \<and> parkStopPending (snd (Unpark (newRst (mount_conn 0 (\<lambda>h. []))))))"
proof -
  obtain u s' where u: "Unpark (newRst (mount_conn 0 (\<lambda>h. []))) = (u, s')" by fastforce
  have "rst_run s'" by (rule then_op [OF opened unpark [OF u]])
  from conjunct1 [OF rst_latches [OF this]] show ?thesis unfolding u snd_conv .
qed

definition fresh_move :: "rst \<Rightarrow> bool" where
  "fresh_move s = (slewing s \<and> Fault s = [] \<and> \<not> parking s \<and> \<not> parkStopPending s \<and> \<not> homeCapturePending s \<and> \<not> unparked s)"

lemma fresh_setSlewing: "fresh_move (setSlewing True s)"
  by (simp add: fresh_move_def setSlewing_def Fault_def)

lemma fresh_goto: "rstSlewToTarget s = (Inr u, s') \<Longrightarrow> fresh_move s'"
  unfolding rstSlewToTarget_def by (elim bindE_InrD) (auto simp: fresh_setSlewing)

lemma bindP_InrD:
  assumes "bindP m f s = Some (Inr y, t)"
  obtains x u where "m s = Some (Inr x, u)" "f x u = Some (Inr y, t)"
  using assms by (auto simp: bindP_apply split: option.splits sum.splits)

lemma fresh_altaz: "SlewToAltAz az alt s = Some (Inr u, s') \<Longrightarrow> fresh_move s'"
  unfolding SlewToAltAz_def
  by (erule bindP_InrD, clarsimp simp: bind_eq_Some_conv, elim bindE_InrD) (auto simp: fresh_setSlewing)

lemma fresh_home:
  assumes "FindHome s = Some (Inr u, s')"
  shows "fresh_move s'"
proof -
  obtain r t where h: "Homing s = Some (r, t)"
    using assms by (cases "Homing s") (auto simp: FindHome_def tryP_def)
  show ?thesis
  proof (cases "r = Inr False")
    case True
    with assms h have "bindE (ignoreE (track '':CtL#'')) (\<lambda>_. bindE (onConn (Blind '':Ch#'')) (\<lambda>_. modE (setSlewing True))) t
        = (Inr u, s')" by (simp add: FindHome_def tryP_def)
    then show ?thesis by (elim bindE_InrD) (auto simp: fresh_setSlewing)
  next
    case False
    with assms h show ?thesis by (cases r) (auto simp: FindHome_def tryP_def split: bool.splits)
  qed
qed

text \<open>A move that was accepted starts afresh: the driver reports it as slewing, with no
  fault, and a park in flight, its tracking-off, a pending home capture and an explicit
  unpark are all forgotten.\<close>

theorem move_starts_afresh:
  assumes "rstSlewToTarget s = (Inr u, s') \<or> SlewToAltAz az alt s = Some (Inr u, s') \<or> FindHome s = Some (Inr u, s')"
  shows "slewing s' \<and> Fault s' = [] \<and> \<not> parking s' \<and> \<not> parkStopPending s' \<and> \<not> homeCapturePending s' \<and> \<not> unparked s'"
proof -
  have "fresh_move s'" using assms fresh_goto fresh_altaz fresh_home by (elim disjE) auto
  then show ?thesis unfolding fresh_move_def by blast
qed

theorem move_starts_afresh_witness:
  "\<exists>s'. rstSlewToTarget ((newRst (mount_conn 0 (\<lambda>h. [])))\<lparr>homeFound := True, parking := True, unparked := True\<rparr>) = (Inr (), s')
    \<and> slewing s' \<and> \<not> parking s' \<and> \<not> unparked s'"
proof -
  let ?c = "mount_conn 0 (\<lambda>h. [])"
  let ?s = "(newRst ?c)\<lparr>homeFound := True, parking := True, unparked := True\<rparr>"
  obtain c' where "SlewNack '':MS#'' slewFaultWindow ?c = (Inr [], c')"
    using SlewNack_silent [of 0 "\<lambda>h. []" ?c "'':MS#''" slewFaultWindow] by auto
  then have r: "rstSlewToTarget ?s = (Inr (), setSlewing True (?s\<lparr>rconn := c'\<rparr>))"
    by (simp add: rstSlewToTarget_def requireHome_def HomeFound_def slewCmd_def onConn_def bindE_def newRst_def)
  with move_starts_afresh [of ?s "()" "setSlewing True (?s\<lparr>rconn := c'\<rparr>)"] show ?thesis by blast
qed

section \<open>Deferred work\<close>

lemma drainToken_idle: "\<not> slewing s \<Longrightarrow> drainToken s = (Inr (), s)"
  by (simp add: drainToken_def)

lemma coordBy_state:
  assumes "coordBy g cmd pre s = Some (r, s')" "\<not> slewing s"
  shows "\<exists>a. g cmd pre s = Some (a, s')"
  using assms by (auto simp: coordBy_def bindP_apply drainToken_idle split: option.splits sum.splits)

lemma captureHomeBy_reads:
  assumes "captureHomeBy g s = Some y"
  obtains r s' r' s'' where "coordBy g '':GR#'' '':GR'' s = Some (r, s')" "coordBy g '':GD#'' '':GD'' s' = Some (r', s'')"
  using assms unfolding captureHomeBy_def tryP_def by (auto simp: bind_eq_Some_conv)

text \<open>A mount that announces a completed home ahead of every reply.\<close>

definition eager_home :: "string list \<Rightarrow> string" where
  "eager_home h = frames ['':CHO'', butlast (last h) @ ''00:00:00'']"

definition eager :: "rst \<Rightarrow> bool" where
  "eager s = (\<not> slewing s \<and> \<not> parkStopPending s \<and> answering 1000000 eager_home (rconn s) \<and> timeout (rconn s) = 3000000000)"

definition short_query :: "string \<Rightarrow> string \<Rightarrow> bool" where
  "short_query cmd pre = (cmd = pre @ ''#'' \<and> CHR ''#'' \<notin> set pre \<and> length pre \<le> 3 \<and> \<not> HasPrefix '':CHO'' pre)"

lemma eager_rearms:
  assumes "eager s" "short_query cmd pre"
  shows "\<exists>r s'. get_attempts 2 cmd pre s = (r, s') \<and> eager s' \<and> homeCapturePending s'"
proof -
  have cmd: "cmd = pre @ ''#''" "CHR ''#'' \<notin> set pre" "length pre \<le> 3" "\<not> HasPrefix '':CHO'' pre"
    using assms(2) by (simp_all add: short_query_def)
  have s: "answering 1000000 eager_home (rconn s)" "timeout (rconn s) = 3000000000"
    using assms(1) by (simp_all add: eager_def)
  obtain c' where c': "get_attempts 2 cmd pre s = (Inr ''00:00:00'', fold applyToken ['':CHO''] (s\<lparr>rconn := c'\<rparr>))"
    "steps 1000000 eager_home (rconn s) [cmd] c'"
    using get_attempts_answered [OF s(1), of cmd "['':CHO'']" pre "''00:00:00''" 1] cmd s(2)
    by (auto simp: eager_home_def frames_def ms_def numeral_2_eq_2)
  with assms(1) s show ?thesis by (auto simp: applyToken_CHO eager_def steps_def)
qed

lemma eager_diverges_step:
  assumes "rst_get cmd pre s = Some y"
  shows "eager s \<and> short_query cmd pre \<longrightarrow> \<not> homeCapturePending s \<and> eager (snd y) \<and> homeCapturePending (snd y)"
proof (rule rst_get.raw_induct [OF _ assms])
  fix g :: "string \<Rightarrow> string \<Rightarrow> (rst, string) pio" and cmd pre s y
  assume IH: "\<And>c p s y. g c p s = Some y \<Longrightarrow>
      eager s \<and> short_query c p \<longrightarrow> \<not> homeCapturePending s \<and> eager (snd y) \<and> homeCapturePending (snd y)"
    and b: "bindP (maybeCaptureHomeBy (\<lambda>c p t. g c p t))
        (\<lambda>_. runP (bindE maybeFinishPark (\<lambda>_. get_attempts 2 cmd pre))) s = Some y"
  show "eager s \<and> short_query cmd pre \<longrightarrow> \<not> homeCapturePending s \<and> eager (snd y) \<and> homeCapturePending (snd y)"
  proof (cases "homeCapturePending s")
    case False
    then have "maybeCaptureHomeBy (\<lambda>c p t. g c p t) s = Some (Inr (), s)" by (simp add: maybeCaptureHomeBy_def)
    with b have "y = bindE maybeFinishPark (\<lambda>_. get_attempts 2 cmd pre) s" by (simp add: bindP_apply)
    moreover have "maybeFinishPark s = (Inr (), s)" if "eager s" using that by (simp add: eager_def maybeFinishPark_idle)
    ultimately show ?thesis using eager_rearms [of s cmd pre] False by (auto simp: bindE_def)
  next
    case True
    have "\<not> eager s"
    proof
      assume e: "eager s"
      let ?s = "s\<lparr>homeCapturePending := False\<rparr>"
      from True b obtain z where "captureHomeBy g ?s = Some z"
        by (auto simp: maybeCaptureHomeBy_def bindP_apply Let_def split: option.splits)
      then obtain r s1 r' s2 where c: "coordBy g '':GR#'' '':GR'' ?s = Some (r, s1)" "coordBy g '':GD#'' '':GD'' s1 = Some (r', s2)"
        by (rule captureHomeBy_reads)
      have e1: "eager ?s" using e by (simp add: eager_def)
      have q: "short_query '':GR#'' '':GR''" "short_query '':GD#'' '':GD''" by (simp_all add: short_query_def HasPrefix_def)
      have "\<not> slewing ?s" using e1 by (simp add: eager_def)
      from coordBy_state [OF c(1) this] IH e1 q(1) have s1: "eager s1" "homeCapturePending s1" by fastforce+
      then have "\<not> slewing s1" by (simp add: eager_def)
      from coordBy_state [OF c(2) this] IH s1 q(2) show False by blast
    qed
    then show ?thesis by simp
  qed
qed

text \<open>C28: a query returns whenever no home capture is pending. With one pending it need not:
  on a mount that announces a completed home ahead of every reply, recording the home
  position queries for ever.\<close>

theorem query_returns:
  "(\<not> homeCapturePending s \<longrightarrow> (\<exists>r s'. rst_get cmd pre s = Some (r, s')))
   \<and> rst_get '':GR#'' '':GR'' (applyToken '':CHO'' (newRst (mount_conn 1000000 eager_home))) = None"
proof -
  let ?s = "applyToken '':CHO'' (newRst (mount_conn 1000000 eager_home))"
  have "eager ?s" "homeCapturePending ?s" by (simp_all add: applyToken_CHO eager_def newRst_def)
  moreover have "short_query '':GR#'' '':GR''" by (simp add: short_query_def HasPrefix_def)
  ultimately have "rst_get '':GR#'' '':GR'' ?s = None"
    using eager_diverges_step [of "'':GR#''" "'':GR''" ?s] by (metis option.exhaust)
  then show ?thesis by (auto simp: rst_get_no_capture intro: prod.collapse [symmetric])
qed

theorem query_returns_witness:
  "\<exists>r s'. rst_get '':GR#'' '':GR'' (newRst (mount_conn 1000000 eager_home)) = Some (r, s')"
proof -
  have "\<not> homeCapturePending (newRst (mount_conn 1000000 eager_home))" by (simp add: newRst_def)
  then show ?thesis by (rule mp [OF conjunct1 [OF query_returns]])
qed

text \<open>When a park has arrived, the next poll of \<open>Slewing\<close> sees the token, reports that the
  mount stands (unless it is moved by hand), and turns the tracking off that the goto
  turned on; it does so once.\<close>

theorem park_arrival_stops_tracking:
  assumes "slewing s" "parking s" "lastPeek s = None" "rx (wire (rconn s)) = [Rd w '':MM0#'' None]" "int w \<le> 100 * ms"
    "answering d ans ((rconn s)\<lparr>wire := (wire (rconn s))\<lparr>rx := []\<rparr>\<rparr>)"
    "ans (sent (rconn s) @ ['':CtL#'']) = e @ ''#''" "CHR ''#'' \<notin> set e"
    "int d + 2 * ms * int (length e) \<le> timeout (rconn s)"
  shows "\<exists>s'. rstSlewing s = (Inr (moving s), s') \<and> sent (rconn s') = sent (rconn s) @ ['':CtL#'']
    \<and> \<not> slewing s' \<and> \<not> parking s' \<and> \<not> parkStopPending s' \<and> (\<exists>s''. rstSlewing s' = (Inr (moving s), s'') \<and> rconn s'' = rconn s')"
proof -
  obtain rds c1 where r: "readFrame peekTimeout (rconn s) = (Inr '':MM0'', c1)" "rx (wire c1) = rds @ []" "list_all rd_clean rds"
    "bytes rds = []" "timeout c1 = timeout (rconn s)" "same_out (wire (rconn s)) (wire c1)"
    using readFrame_arrives [of "[Rd w '':MM0#'' None]" "'':MM0''" "[]" "rconn s" "[]" peekTimeout] assms(4,5)
    by (auto simp: bytes_def waits_def peekTimeout_def ms_def)
  have a1: "answering d ans c1" "sent c1 = sent (rconn s)"
    using assms(6) r(2,6) clean_empty [OF r(3,4)] by (simp_all add: answering_def same_out_def sent_def)
  define s1 where "s1 = s\<lparr>lastPeek := Some (clockNow s), rconn := c1, slewing := False, parking := False, parkStopPending := True\<rparr>"
  have dt: "drainToken s = (Inr (), s1)"
    using assms(1-3) r(1)
    by (simp add: drainToken_def tryE_def onConn_def Await_def peekTimeout_def ms_def applyToken_MM0 s1_def)
  obtain c2 where c2: "Get '':CtL#'' c1 = (Inr e, c2)" "steps d ans c1 ['':CtL#''] c2"
    using Get_answered [OF a1(1), of "'':CtL#''" e] a1(2) assms(7-9) r(5) by auto
  let ?s = "s1\<lparr>parkStopPending := False, rconn := c2\<rparr>"
  have "maybeFinishPark s1 = (Inr (), ?s)"
    using c2(1) by (simp add: maybeFinishPark_def s1_def Let_def ignoreE_def tryE_def rstSetTracking_def track_def
        onConn_def bindE_def)
  with dt have "rstSlewing s = (Inr (moving s), ?s)" by (simp add: rstSlewing_def bindE_def s1_def)
  moreover have "rstSlewing ?s = (Inr (moving s), ?s)"
    by (simp add: rstSlewing_def bindE_def drainToken_idle maybeFinishPark_idle s1_def)
  ultimately show ?thesis using c2(2) a1(2) by (intro exI [of _ ?s]) (simp add: steps_def s1_def)
qed

lemma parked_sample:
  fixes c :: conn
  defines "c \<equiv> (mount_conn 1000000 (\<lambda>h. '':CTL#''))\<lparr>wire := (wire (mount_conn 1000000 (\<lambda>h. '':CTL#'')))\<lparr>rx := [Rd 1000000 '':MM0#'' None]\<rparr>\<rparr>"
  shows "rx (wire c) = [Rd 1000000 '':MM0#'' None]" "sent c = []" "timeout c = 3000000000"
    "answering 1000000 (\<lambda>h. '':CTL#'') (c\<lparr>wire := (wire c)\<lparr>rx := []\<rparr>\<rparr>)"
  by (simp_all add: c_def mount_conn_def New_def sent_def answering_def DefaultTimeout_def ms_def)

theorem park_arrival_stops_tracking_witness:
  "\<exists>s'. rstSlewing ((newRst ((mount_conn 1000000 (\<lambda>h. '':CTL#''))\<lparr>wire :=
      (wire (mount_conn 1000000 (\<lambda>h. '':CTL#'')))\<lparr>rx := [Rd 1000000 '':MM0#'' None]\<rparr>\<rparr>))\<lparr>slewing := True, parking := True\<rparr>)
    = (Inr False, s') \<and> sent (rconn s') = ['':CtL#''] \<and> \<not> parking s'"
proof -
  let ?c = "(mount_conn 1000000 (\<lambda>h. '':CTL#''))\<lparr>wire := (wire (mount_conn 1000000 (\<lambda>h. '':CTL#'')))\<lparr>rx := [Rd 1000000 '':MM0#'' None]\<rparr>\<rparr>"
  let ?s = "(newRst ?c)\<lparr>slewing := True, parking := True\<rparr>"
  have c: "rconn ?s = ?c" "moving ?s = False" "lastPeek ?s = None" by (simp_all add: newRst_def)
  have "\<exists>s'. rstSlewing ?s = (Inr (moving ?s), s') \<and> sent (rconn s') = sent (rconn ?s) @ ['':CtL#'']
    \<and> \<not> slewing s' \<and> \<not> parking s' \<and> \<not> parkStopPending s' \<and> (\<exists>s''. rstSlewing s' = (Inr (moving ?s), s'') \<and> rconn s'' = rconn s')"
    by (rule park_arrival_stops_tracking [of ?s 1000000 1000000 "\<lambda>h. '':CTL#''" "'':CTL''"], unfold c parked_sample)
       (simp_all add: ms_def answering_def mount_conn_def New_def)
  then show ?thesis unfolding c parked_sample by auto
qed

section \<open>Discovery\<close>

lemma find_loop_found:
  assumes "find_loop P f n k cs w = Some ((Inr m, rep), w')"
  shows "\<exists>c\<in>set cs. rSerial rep = pSerialNumber c
    \<and> (fMountSerial f \<noteq> [] \<longrightarrow> EqualFold (rMountSerial rep) (fMountSerial f))
    \<and> (\<exists>w1 w2 w3 i. probeIdentity P (pName c) w1 = Some (Some i, w2) \<and> rstOpen P (pName c) w2 = Some (Inr m, w3)
         \<and> rVersion rep = idVersion i \<and> rMountSerial rep = idSerial i)"
  using assms
proof (induction P f n k cs w rule: find_loop.induct)
  case (2 P f n k c cs w)
  obtain r w2 where pr: "probeIdentity P (pName c) w = Some (r, w2)"
    using "2.prems" by (auto simp: bind_eq_Some_conv)
  show ?case
  proof (cases "r = None \<or> (fMountSerial f \<noteq> [] \<and> \<not> EqualFold (idSerial (the r)) (fMountSerial f))")
    case True
    then have "\<exists>k'. find_loop P f n k' cs w2 = Some ((Inr m, rep), w')"
      using "2.prems" pr by (cases r) auto
    with True 2(1,2) pr "2.prems" show ?thesis by (cases r) fastforce+
  next
    case False
    then obtain i where i: "r = Some i" "fMountSerial f \<noteq> [] \<longrightarrow> EqualFold (idSerial i) (fMountSerial f)" by auto
    with "2.prems" pr have "rstOpen P (pName c) w2 = Some (Inr m, w')"
      "rep = \<lparr>rSerial = pSerialNumber c, rMountSerial = idSerial i, rVersion = idVersion i\<rparr>"
      by (auto split: if_splits)
    with pr i show ?thesis by fastforce
  qed
qed simp

text \<open>The mount discovery binds to answered on a USB port that carries the FTDI identity, or
  the name convention where the system tells no identity; the port has the bridge serial
  asked for, and the mount gave the serial number asked for.\<close>

theorem FindMatching_respects_filter:
  assumes "FindMatching P f w = Some ((Inr m, rep), w')" "listPorts P w = (Inr ps, w0)"
  shows "\<exists>c\<in>set ps. rSerial rep = pSerialNumber c \<and> pIsUSB c
      \<and> (pVID c = ''0403'' \<and> pPID c = ''6001'' \<or> pVID c = [] \<and> Contains (pName c) ''usbserial'')
      \<and> (fSerial f \<noteq> [] \<longrightarrow> ToLower (TrimSpace (pSerialNumber c)) = ToLower (TrimSpace (fSerial f)))
      \<and> (fMountSerial f \<noteq> [] \<longrightarrow> EqualFold (rMountSerial rep) (fMountSerial f))
      \<and> (\<exists>w1 w2 w3 i. probeIdentity P (pName c) w1 = Some (Some i, w2) \<and> rstOpen P (pName c) w2 = Some (Inr m, w3)
           \<and> rVersion rep = idVersion i \<and> rMountSerial rep = idSerial i)"
proof -
  have "find_loop P f (length (candidates ps f)) 0 (candidates ps f) w0 = Some ((Inr m, rep), w')"
    using assms by (auto simp: FindMatching_def Let_def split: if_splits)
  from find_loop_found [OF this] show ?thesis by (force simp: candidates_def keep_def)
qed

text \<open>A mount that answers every query with its prefix and the same text, for the examples.\<close>

definition parrot :: "string list \<Rightarrow> string" where
  "parrot h = butlast (last h) @ ''1.0#''"

definition parroting :: "rst \<Rightarrow> bool" where
  "parroting s = (\<not> homeCapturePending s \<and> \<not> parkStopPending s \<and> answering 1000000 parrot (rconn s)
     \<and> 100000000 \<le> timeout (rconn s))"

lemma parroting_step: "parroting s \<Longrightarrow> steps 1000000 parrot (rconn s) cmds c' \<Longrightarrow> parroting (s\<lparr>rconn := c'\<rparr>)"
  by (simp add: parroting_def steps_def)

lemma parrot_get:
  assumes "parroting s" "cmd = pre @ ''#''" "CHR ''#'' \<notin> set pre" "length pre \<le> 3"
  shows "\<exists>c'. rst_get cmd pre s = Some (Inr ''1.0'', s\<lparr>rconn := c'\<rparr>) \<and> parroting (s\<lparr>rconn := c'\<rparr>)"
  using get_attempts_answered [of 1000000 parrot s cmd "[]" pre "''1.0''" 1] assms parroting_step [OF assms(1)]
  by (auto simp: parroting_def rst_get_idle parrot_def frames_def ms_def numeral_2_eq_2)

lemma parrot_dialect:
  assumes "parroting s"
  shows "\<exists>c'. selectDialect s = (Inr (), s\<lparr>rconn := c'\<rparr>) \<and> parroting (s\<lparr>rconn := c'\<rparr>)"
proof -
  obtain c1 where c1: "Get '':GR#'' (rconn s) = (Inr '':GR1.0'', c1)" "steps 1000000 parrot (rconn s) ['':GR#''] c1"
    using Get_answered [of 1000000 parrot "rconn s" "'':GR#''" "'':GR1.0''"] assms
    by (auto simp: parroting_def parrot_def ms_def)
  have "rx (wire c1) = []" using c1(2) by (simp add: steps_def answering_def)
  from readFrame_silent [OF this] obtain c2 where c2: "readFrame (150 * ms) c1 = (Inl ErrTimeout, c2)" "rx (wire c2) = []"
    "same_out (wire c1) (wire c2)" "timeout c2 = timeout c1" by blast
  have "selectDialect s = (Inr (), s\<lparr>rconn := c2\<rparr>)"
    using c1(1) c2(1) by (simp add: selectDialect_def inRainbowMode_def onConn_def tryE_def bindE_def HasPrefix_def
        drainStale_def numeral_eq_Suc Await_def ms_def)
  moreover have "steps 1000000 parrot (rconn s) ['':GR#''] c2"
    using c1(2) c2(2-4) by (simp add: steps_def answering_def same_out_def sent_def)
  ultimately show ?thesis using parroting_step [OF assms] by blast
qed

lemma parrot_init:
  assumes "parroting s"
  shows "\<exists>r s'. rst_init s = Some (r, s')"
proof -
  obtain c1 where c1: "selectDialect s = (Inr (), s\<lparr>rconn := c1\<rparr>)" "parroting (s\<lparr>rconn := c1\<rparr>)"
    using parrot_dialect [OF assms] by blast
  obtain c2 where c2: "rst_get '':GH#'' '':GH'' (s\<lparr>rconn := c1\<rparr>) = Some (Inr ''1.0'', s\<lparr>rconn := c2\<rparr>)" "parroting (s\<lparr>rconn := c2\<rparr>)"
    using parrot_get [OF c1(2), of "'':GH#''" "'':GH''"] by auto
  obtain c3 where c3: "rst_get '':Gt#'' '':Gt'' (s\<lparr>rconn := c2\<rparr>) = Some (Inr ''1.0'', s\<lparr>rconn := c3\<rparr>)"
    using parrot_get [OF c2(2), of "'':Gt#''" "'':Gt''"] by auto
  show ?thesis using c1(1) c2(1) c3
    by (auto simp: rst_init_def homeLatched_def rstSiteLatitude_def bindP_apply tryP_apply HasPrefix_def split: sum.split)
qed

lemma parrot_identity:
  assumes "parroting s"
  shows "\<exists>s'. askIdentity s = Some (Inr \<lparr>idVersion = ''1.0'', idSerial = ''1.0''\<rparr>, s')"
proof -
  obtain c1 where c1: "rst_get '':AV#'' '':AV'' s = Some (Inr ''1.0'', s\<lparr>rconn := c1\<rparr>)" "parroting (s\<lparr>rconn := c1\<rparr>)"
    using parrot_get [OF assms, of "'':AV#''" "'':AV''"] by auto
  obtain c2 where c2: "rst_get '':AS#'' '':AS'' (s\<lparr>rconn := c1\<rparr>) = Some (Inr ''1.0'', s\<lparr>rconn := c2\<rparr>)"
    using parrot_get [OF c1(2), of "'':AS#''" "'':AS''"] by auto
  show ?thesis using c1(1) c2 by (simp add: askIdentity_def rstVersion_def rstSerial_def bindP_apply tryP_apply)
qed

definition one_port :: "unit ports" where
  "one_port = \<lparr>listPorts = (\<lambda>w. (Inr [\<lparr>pName = ''/dev/ttyUSB0'', pIsUSB = True, pVID = ''0403'', pPID = ''6001'', pSerialNumber = ''A1''\<rparr>], w)),
     openPort = (\<lambda>n b w. (Inr (wire (mount_conn 1000000 parrot)), w)), closePort = (\<lambda>t w. w)\<rparr>"

lemma one_port_opens: "openRaw one_port n t () = (Inr (newRst (New (wire (mount_conn 1000000 parrot)) t)), ())"
  by (simp add: openRaw_def one_port_def)

lemma one_port_parroting: "100000000 \<le> t \<Longrightarrow> parroting (newRst (New (wire (mount_conn 1000000 parrot)) t))"
  by (simp add: parroting_def newRst_def New_def answering_def mount_conn_def)

lemma one_port_found:
  "\<exists>m rep. FindMatching one_port \<lparr>fSerial = ''a1'', fMountSerial = []\<rparr> () = Some ((Inr m, rep), ())"
proof -
  obtain s1 where s1: "askIdentity (newRst (New (wire (mount_conn 1000000 parrot)) probeTimeout))
      = Some (Inr \<lparr>idVersion = ''1.0'', idSerial = ''1.0''\<rparr>, s1)"
    using parrot_identity [OF one_port_parroting [of probeTimeout]] by (auto simp: probeTimeout_def ms_def)
  obtain r s2 where s2: "rst_init (newRst (New (wire (mount_conn 1000000 parrot)) commandTimeout)) = Some (r, s2)"
    using parrot_init [OF one_port_parroting [of commandTimeout]] by (auto simp: commandTimeout_def ms_def)
  have "candidates [\<lparr>pName = ''/dev/ttyUSB0'', pIsUSB = True, pVID = ''0403'', pPID = ''6001'', pSerialNumber = ''A1''\<rparr>]
      \<lparr>fSerial = ''a1'', fMountSerial = []\<rparr> = [\<lparr>pName = ''/dev/ttyUSB0'', pIsUSB = True, pVID = ''0403'', pPID = ''6001'', pSerialNumber = ''A1''\<rparr>]"
  proof -
    have "TrimSpace ''A1'' = ''A1''" "TrimSpace ''a1'' = ''a1''" by (rule TrimSpace_plain; simp add: plain_char_def)+
    moreover have "ToLower ''A1'' = ''a1''" "ToLower ''a1'' = ''a1''" by code_simp+
    ultimately show ?thesis by (simp add: candidates_def keep_def)
  qed
  moreover have "listPorts one_port () = (Inr [\<lparr>pName = ''/dev/ttyUSB0'', pIsUSB = True, pVID = ''0403'', pPID = ''6001'', pSerialNumber = ''A1''\<rparr>], ())"
    by (simp add: one_port_def)
  ultimately show ?thesis using s1 s2
    by (simp add: FindMatching_def probeIdentity_def rstOpen_def one_port_opens)
qed

theorem FindMatching_respects_filter_witness:
  "\<exists>m rep w'. FindMatching one_port \<lparr>fSerial = ''a1'', fMountSerial = []\<rparr> () = Some ((Inr m, rep), w') \<and> rSerial rep = ''A1''"
proof -
  obtain m rep where m: "FindMatching one_port \<lparr>fSerial = ''a1'', fMountSerial = []\<rparr> () = Some ((Inr m, rep), ())"
    using one_port_found by blast
  have l: "listPorts one_port () = (Inr [\<lparr>pName = ''/dev/ttyUSB0'', pIsUSB = True, pVID = ''0403'', pPID = ''6001'', pSerialNumber = ''A1''\<rparr>], ())"
    by (simp add: one_port_def)
  from FindMatching_respects_filter [OF m l] have "rSerial rep = ''A1''" by auto
  with m show ?thesis by blast
qed

section \<open>Two tokens and a goto\<close>

text \<open>The refusal of an earlier synchronisation that arrives during a slew is kept as the fault
  of that slew, which then arrives with \<open>Slewing\<close> false and \<open>Fault\<close> not empty.\<close>

theorem late_refusal_reported_as_fault:
  "Fault (applyToken '':MM0'' (applyToken '':CMF'' (setSlewing True s))) = '':CMF''
   \<and> \<not> slewing (applyToken '':MM0'' (applyToken '':CMF'' (setSlewing True s)))"
  by (simp add: applyToken_MM0 applyToken_CMF Fault_def setSlewing_def)

text \<open>\<open>SlewToTargetAlt\<close> starts a goto on a mount that was not homed, and the driver does not
  take it for slewing.\<close>

theorem alternative_goto_ungated:
  "\<exists>s'. SlewToTargetAlt (newRst (mount_conn 0 (\<lambda>h. []))) = (Inr (), s') \<and> sent (rconn s') = ['':MD#'']
    \<and> \<not> homeFound s' \<and> \<not> slewing s'"
proof -
  obtain c' where "SlewNack '':MD#'' slewFaultWindow (mount_conn 0 (\<lambda>h. [])) = (Inr [], c')"
    "steps 0 (\<lambda>h. []) (mount_conn 0 (\<lambda>h. [])) ['':MD#''] c'"
    using SlewNack_silent [of 0 "\<lambda>h. []" "mount_conn 0 (\<lambda>h. [])" "'':MD#''" slewFaultWindow] by auto
  then show ?thesis
    by (simp add: SlewToTargetAlt_def slewCmd_def onConn_def bindE_def newRst_def steps_def)
qed

end
