(* ===== verification/RstText.thy ===== *)
theory RstText
  imports RstProps
begin

text \<open>
  The coordinates the RST driver sends. \<open>hms\<close> and \<open>dmsParts\<close> round to tenths of a second before
  they split, in binary64; \<open>tenth e q k\<close> says that the number \<open>q\<close> stands for \<open>k\<close> tenths: it is
  within \<open>e\<close> of them, and exact when they make whole seconds. The texts are shown to be those
  of the exact integer split. The azimuth of \<open>SlewToAltAz\<close> is not rounded before it is split,
  and its loops are studied last.
\<close>

section \<open>Tenths of a second\<close>

definition tenth :: "rat \<Rightarrow> rat \<Rightarrow> int \<Rightarrow> bool" where
  "tenth e q k = (\<bar>q - of_int k / 10\<bar> \<le> e \<and> (k mod 10 = 0 \<longrightarrow> q = of_int (k div 10)))"

lemma rnd_small:
  assumes "0 \<le> x" "x \<le> 2 ^ 21"
  shows "\<exists>q. rnd x = Fin q \<and> 0 \<le> q \<and> \<bar>q - x\<bar> \<le> 1 / 2 ^ 32"
proof -
  have n: "near (rnd x) x (2 powi (21 - 53))" using assms by (intro fin_rnd_near) simp_all
  have e: "(2 :: rat) powi (21 - 53) = 1 / 2 ^ 32" by (simp add: powi_neg_numeral)
  show ?thesis
  proof (cases "x = 0")
    case False
    with assms have p: "0 < x" by simp
    have "rnd x \<noteq> NZero" using p by (simp add: rnd_def Let_def signed_zero_def)
    then obtain q where "rnd x = Fin q" using nearD(1) [OF n] by (cases "rnd x") auto
    moreover have "0 \<le> fval (rnd x)" using assms(1) by (rule fval_rnd_nonneg)
    ultimately show ?thesis using nearD(2) [OF n] by (simp only: e) simp
  qed simp
qed

lemma tenth_div_mod: "(of_int k :: rat) / 10 = of_int (k div 10) + of_int (k mod 10) / 10"
proof -
  have "k = 10 * (k div 10) + k mod 10" by simp
  then have "(of_int k :: rat) = 10 * of_int (k div 10) + of_int (k mod 10)"
    by (metis of_int_add of_int_mult of_int_numeral)
  then show ?thesis by simp
qed

lemma mod10_cases:
  fixes k :: int
  shows "k mod 10 = 0 \<or> (1 :: rat) \<le> of_int (k mod 10) \<and> of_int (k mod 10) \<le> (9 :: rat)"
proof -
  have "0 \<le> k mod 10" "k mod 10 < 10" by simp_all
  then have "k mod 10 = 0 \<or> 1 \<le> k mod 10 \<and> k mod 10 \<le> 9" by linarith
  then show ?thesis by (metis of_int_1_le_iff of_int_le_numeral_iff)
qed

lemma rnd_int_small: "\<bar>n\<bar> \<le> 10000000 \<Longrightarrow> rnd (of_int n) = Fin (of_int n)"
  by (rule rnd_of_int, erule order.strict_trans1) simp

lemma tenth_rnd:
  assumes "0 \<le> k" "k \<le> 13000000"
  shows "\<exists>q. rnd (of_int k / 10) = Fin q \<and> 0 \<le> q \<and> tenth (1 / 2 ^ 32) q k"
proof (cases "k mod 10 = 0")
  case True
  then have x: "of_int k / 10 = (of_int (k div 10) :: rat)" using tenth_div_mod [of k] by simp
  have "rnd (of_int (k div 10)) = Fin (of_int (k div 10))" using assms by (intro rnd_int_small) simp
  then show ?thesis using assms True unfolding x tenth_def by simp
next
  case False
  have "(of_int k :: rat) \<le> 13000000" "0 \<le> (of_int k :: rat)" using assms by simp_all
  then have "0 \<le> (of_int k :: rat) / 10" "(of_int k :: rat) / 10 \<le> 2 ^ 21" by simp_all
  from rnd_small [OF this] False show ?thesis unfolding tenth_def by simp
qed

lemma tenth_floor:
  assumes "tenth e q k" "e < 1 / 10"
  shows "\<lfloor>q\<rfloor> = k div 10"
proof (cases "k mod 10 = 0")
  case True
  with assms show ?thesis by (simp add: tenth_def)
next
  case False
  have "\<bar>q - (of_int (k div 10) + of_int (k mod 10) / 10)\<bar> \<le> e"
    using assms(1) unfolding tenth_def tenth_div_mod [of k] by simp
  with False mod10_cases [of k] assms(2) show ?thesis unfolding floor_eq_iff by linarith
qed

lemma tenth_int:
  assumes "tenth e q k" "e < 1 / 10" "0 \<le> k" "k \<le> 13000000"
  shows "int_of_f64 (Fin q) = k div 10"
proof -
  have f: "\<lfloor>q\<rfloor> = k div 10" by (rule tenth_floor [OF assms(1,2)])
  have "0 \<le> k div 10" "k div 10 \<le> 1300000" using assms(3,4) by linarith+
  moreover from this f have "0 \<le> q" by (metis zero_le_floor)
  ultimately show ?thesis using f by (simp add: int_of_f64_def trunc_rat_def)
qed

lemma tenth_sub:
  assumes "tenth e q k" "0 \<le> n" "10 * n \<le> k" "k \<le> 13000000" "e \<le> 1 / 100"
  shows "\<exists>q'. fsub (Fin q) (f64_of_int n) = Fin q' \<and> tenth (e + 1 / 2 ^ 32) q' (k - 10 * n)"
proof -
  have "k - 10 * n = k + (- n) * 10" by simp
  then have md: "(k - 10 * n) mod 10 = k mod 10" "(k - 10 * n) div 10 = k div 10 - n"
    by (simp_all only: mod_mult_self1 div_mult_self1 zero_neq_numeral not_False_eq_True)
  have "\<bar>n\<bar> \<le> 10000000" using assms(2-4) by linarith
  then have fn: "f64_of_int n = Fin (of_int n)" unfolding f64_of_int_def by (rule rnd_int_small)
  have s: "fsub (Fin q) (f64_of_int n) = rnd (q - of_int n)" unfolding fn by (simp add: fsub_def fadd_fin)
  show ?thesis
  proof (cases "k mod 10 = 0")
    case True
    then have q: "q - of_int n = of_int (k div 10 - n)" using assms(1) by (simp add: tenth_def)
    have x: "of_int (k - 10 * n) / 10 = (of_int (k div 10 - n) :: rat)"
      using tenth_div_mod [of "k - 10 * n"] md True by simp
    have "\<bar>k div 10 - n\<bar> \<le> 10000000" using assms(2-4) by linarith
    then have "rnd (of_int (k div 10 - n)) = Fin (of_int (k div 10 - n))" by (rule rnd_int_small)
    moreover have "0 \<le> e" using assms(1) order_trans [OF abs_ge_zero] unfolding tenth_def by blast
    ultimately show ?thesis unfolding s q tenth_def x md by simp
  next
    case False
    let ?y = "of_int (k - 10 * n) / 10 :: rat"
    have y: "?y = of_int (k div 10 - n) + of_int (k mod 10) / 10" using tenth_div_mod [of "k - 10 * n"] md by simp
    have d: "\<bar>q - of_int n - ?y\<bar> \<le> e"
      using assms(1) unfolding tenth_def y tenth_div_mod [of k] by (simp add: algebra_simps)
    have nn: "0 \<le> k div 10 - n" using assms(3) by linarith
    then have "(0 :: rat) \<le> of_int (k div 10 - n)" by (metis of_int_0_le_iff)
    with False mod10_cases [of k] d y assms(5) have lo: "0 \<le> q - of_int n" by linarith
    have "(of_int (k - 10 * n) :: rat) \<le> 13000000"
      using assms(2,4) by (metis add.right_neutral diff_mono mult_nonneg_nonneg of_int_le_numeral_iff diff_zero zero_le_numeral)
    then have "?y \<le> 1300000" by simp
    moreover have "(2 :: rat) ^ 21 = 2097152" by simp
    ultimately have hi: "q - of_int n \<le> 2 ^ 21" using d assms(5) by linarith
    obtain q' where q': "rnd (q - of_int n) = Fin q'" "\<bar>q' - (q - of_int n)\<bar> \<le> 1 / 2 ^ 32"
      using rnd_small [OF lo hi] by blast
    then have "\<bar>q' - ?y\<bar> \<le> e + 1 / 2 ^ 32" using d by linarith
    with q'(1) False show ?thesis unfolding s tenth_def md by blast
  qed
qed

text \<open>The text of a number that stands for less than a hundred seconds.\<close>

definition secText :: "int \<Rightarrow> string" where
  "secText k = fmt_d 2 (k div 10) @ ''.'' @ fmt_d 1 (k mod 10)"

lemma pad0_point: "pad0 (w + 1 + length b) (a @ ''.'' @ b) = pad0 w a @ ''.'' @ b"
  by (simp add: pad0_def)

lemma tenth_text:
  assumes "tenth e q k" "e < 1 / 20" "0 \<le> k" "0 \<le> q"
  shows "fmt_f False 4 1 (Fin q) = secText k"
proof -
  have "\<bar>q * 10 - of_int k\<bar> < 1 / 2" using assms(1,2) unfolding tenth_def by linarith
  then have r: "round_even (q * 10) = k"
  proof -
    assume a: "\<bar>q * 10 - of_int k\<bar> < 1 / 2"
    have "\<bar>of_int (round_even (q * 10)) - q * 10\<bar> \<le> 1 / 2" by (rule round_even_err)
    with a have "\<bar>of_int (round_even (q * 10)) - of_int k\<bar> < (1 :: rat)" by linarith
    then have "\<bar>of_int (round_even (q * 10) - k)\<bar> < (1 :: rat)" by simp
    then show ?thesis by linarith
  qed
  have l: "length (nat_str (nat (k mod 10))) = 1" by (simp add: nat_str.simps nat_less_iff)
  have f: "fixed_digits 1 q = nat_str (nat (k div 10)) @ ''.'' @ nat_str (nat (k mod 10))"
    using assms(3,4) r by (simp add: fixed_digits_def Let_def nat_div_distrib nat_mod_distrib pad0_def nat_str.simps)
  have "pad0 4 (fixed_digits 1 q) = pad0 2 (nat_str (nat (k div 10))) @ ''.'' @ nat_str (nat (k mod 10))"
    unfolding f using pad0_point [of 2 "nat_str (nat (k mod 10))" "nat_str (nat (k div 10))"] l by simp
  then show ?thesis using assms(3,4) l by (simp add: fmt_f_def secText_def fmt_d_nonneg pad0_def)
qed

lemma tenth_nonneg: "tenth e q k \<Longrightarrow> e < 1 / 10 \<Longrightarrow> 0 \<le> k \<Longrightarrow> 0 \<le> q"
  using tenth_floor [of e q k] by (metis div_int_pos_iff zero_le_floor zero_le_numeral)

lemma tenth_split:
  assumes "tenth e q k" "e \<le> 1 / 2 ^ 31" "0 \<le> k" "k \<le> 13000000"
  defines "t \<equiv> fsub (Fin q) (f64_of_int (k div 36000 * 3600))"
  shows "go_quot (int_of_f64 (Fin q)) 3600 = k div 36000" "go_quot (int_of_f64 t) 60 = k div 600 mod 60"
    "fmt_f False 4 1 (fsub t (f64_of_int (k div 600 mod 60 * 60))) = secText (k mod 600)"
proof -
  have e: "e < 1 / 100" using assms(2) by (rule order.strict_trans1) simp
  have i: "int_of_f64 (Fin q) = k div 10" by (rule tenth_int [OF assms(1) _ assms(3,4)]) (use e in simp)
  then show "go_quot (int_of_f64 (Fin q)) 3600 = k div 36000"
    using assms(3) by (simp add: go_quot_nonneg flip: zdiv_zmult2_eq)
  define h where "h = k div 36000"
  have h: "0 \<le> h * 3600" "10 * (h * 3600) \<le> k" "k - 10 * (h * 3600) = k mod 36000"
    using assms(3) by (simp_all add: h_def minus_div_mult_eq_mod [symmetric]) 
  obtain q1 where q1: "t = Fin q1" "tenth (e + 1 / 2 ^ 32) q1 (k mod 36000)"
    using tenth_sub [OF assms(1) h(1,2) assms(4)] e h(3) by (auto simp: t_def h_def)
  have e1: "e + 1 / 2 ^ 32 < 1 / 100" using assms(2) by (rule le_less_trans [OF add_right_mono]) simp
  define r where "r = k mod 36000"
  have r: "0 \<le> r" "r < 36000" by (simp_all add: r_def)
  have kr: "k div 600 mod 60 = r div 600" "k mod 600 = r mod 600"
  proof -
    have "r = 600 * (k div 600 mod 60) + k mod 600" using zmod_zmult2_eq [of 60 k 600] by (simp add: r_def)
    moreover have "0 \<le> k mod 600" "k mod 600 < 600" by simp_all
    ultimately show "k div 600 mod 60 = r div 600" "k mod 600 = r mod 600" by simp_all
  qed
  have "int_of_f64 (Fin q1) = r div 10"
    using tenth_int [OF q1(2)] e1 r by (simp add: r_def)
  then show m: "go_quot (int_of_f64 t) 60 = k div 600 mod 60"
    unfolding q1(1) kr using r by (simp add: go_quot_nonneg flip: zdiv_zmult2_eq)
  have u: "0 \<le> r div 600 * 60" "10 * (r div 600 * 60) \<le> r" "r - 10 * (r div 600 * 60) = r mod 600" "r \<le> 13000000"
    using r by (simp_all add: minus_div_mult_eq_mod [symmetric])
  obtain q2 where q2: "fsub (Fin q1) (f64_of_int (r div 600 * 60)) = Fin q2" "tenth (e + 1 / 2 ^ 32 + 1 / 2 ^ 32) q2 (r mod 600)"
    using tenth_sub [OF q1(2) [folded r_def] u(1,2,4)] e1 u(3) by auto
  have e2: "e + 1 / 2 ^ 32 + 1 / 2 ^ 32 < 1 / 20"
    using assms(2) by (rule le_less_trans [OF add_right_mono [OF add_right_mono]]) simp
  have "0 \<le> q2" by (rule tenth_nonneg [OF q2(2)]) (use e2 in simp_all)
  then show "fmt_f False 4 1 (fsub t (f64_of_int (k div 600 mod 60 * 60))) = secText (k mod 600)"
    unfolding q1(1) kr q2(1) by (intro tenth_text [OF q2(2) e2]) simp_all
qed


section \<open>The coordinate texts\<close>

text \<open>\<open>k\<close> tenths as hours or degrees, minutes and seconds.\<close>

definition tenthsText :: "char \<Rightarrow> char \<Rightarrow> int \<Rightarrow> string" where
  "tenthsText p q k = fmt_d 2 (k div 36000) @ [p] @ fmt_d 2 (k div 600 mod 60) @ [q] @ secText (k mod 600)"

lemma fin_cases: "is_fin x \<Longrightarrow> \<not> fsign x \<Longrightarrow> \<exists>q. x = Fin q \<and> 0 \<le> q"
  by (cases x) auto

text \<open>The rounded number of tenths, for a value that is not negative.\<close>

lemma tenths_of:
  assumes "0 \<le> q" "q \<le> 360"
  obtains n q1 where "0 \<le> n" "n \<le> 12960000" "\<bar>of_int n - q * 36000\<bar> \<le> 1 / 2 + 1 / 2 ^ 29"
    "fdiv (f_round (fmul (Fin q) (Fin 36000))) (Fin 10) = Fin q1" "tenth (1 / 2 ^ 32) q1 n"
    "q < 24 \<Longrightarrow> n \<le> 864000"
proof -
  obtain y where y: "fmul (Fin q) (Fin 36000) = Fin y" "0 \<le> y" "\<bar>y - q * 36000\<bar> \<le> 1 / 2 ^ 29"
  proof (cases "q = 0")
    case True
    then have "fmul (Fin q) (Fin 36000) = Fin 0" by (simp add: fmul_def signed_zero_def)
    with True show ?thesis by (intro that [of 0]) simp_all
  next
    case False
    have n: "near (rnd (q * 36000)) (q * 36000) (2 powi (24 - 53))" using assms by (intro fin_rnd_near) simp_all
    have p: "0 < q * 36000" using False assms(1) by simp
    have "rnd (q * 36000) \<noteq> NZero" using p by (simp add: rnd_def Let_def signed_zero_def)
    then obtain y where y: "rnd (q * 36000) = Fin y" using nearD(1) [OF n] by (cases "rnd (q * 36000)") auto
    have "0 \<le> fval (rnd (q * 36000))" using p by (intro fval_rnd_nonneg) simp
    moreover have "fmul (Fin q) (Fin 36000) = rnd (q * 36000)" using False by (simp add: fmul_def)
    moreover have "(2 :: rat) powi (24 - 53) = 1 / 2 ^ 29" by (simp add: powi_neg_numeral)
    ultimately show ?thesis using nearD(2) [OF n] y by (intro that [of y]) simp_all
  qed
  define n where "n = round_away y"
  have "\<bar>of_int n - y\<bar> \<le> 1 / 2" unfolding n_def by (rule round_away_err)
  with y(3) have close: "\<bar>of_int n - q * 36000\<bar> \<le> 1 / 2 + 1 / 2 ^ 29" by linarith
  have small: "(1 :: rat) / 2 + 1 / 2 ^ 29 < 1" by simp
  have n0: "0 \<le> n" using y(2) by (simp add: n_def round_away_def)
  have upper: "n \<le> 36000 * m" if "q \<le> of_int m" for m
  proof -
    have "q * 36000 \<le> of_int m * 36000" using that by simp
    with close small have "of_int n < (of_int m * 36000 + 1 :: rat)" by linarith
    then have "of_int n < (of_int (36000 * m + 1) :: rat)" by (simp add: mult.commute)
    then show ?thesis by linarith
  qed
  have "f_round (fmul (Fin q) (Fin 36000)) = Fin (of_int n)"
    using y by (simp add: n_def Let_def signed_zero_def)
  moreover obtain q1 where q1: "rnd (of_int n / 10) = Fin q1" "tenth (1 / 2 ^ 32) q1 n"
    using tenth_rnd [OF n0] upper [of 360] assms(2) by auto
  moreover have "fdiv (Fin (of_int n)) (Fin 10) = rnd (of_int n / 10)" by (simp add: fdiv_def signed_zero_def)
  ultimately have "fdiv (f_round (fmul (Fin q) (Fin 36000))) (Fin 10) = Fin q1" by simp
  with n0 upper [of 360] upper [of 24] assms(2) close q1(2) show thesis by (intro that [of n q1]) simp_all
qed

lemma hmsText_tenths:
  assumes "0 \<le> q" "q < 24"
  shows "\<exists>n. 0 \<le> n \<and> n \<le> 864000 \<and> \<bar>of_int n - q * 36000\<bar> \<le> 1 / 2 + 1 / 2 ^ 29
    \<and> hmsText (Fin q) = tenthsText CHR '':'' CHR '':'' (n mod 864000)"
proof -
  have q360: "q \<le> 360" using assms(2) by simp
  obtain n q1 where n: "0 \<le> n" "\<bar>of_int n - q * 36000\<bar> \<le> 1 / 2 + 1 / 2 ^ 29"
    "fdiv (f_round (fmul (Fin q) (Fin 36000))) (Fin 10) = Fin q1" "tenth (1 / 2 ^ 32) q1 n" "n \<le> 864000"
    using tenths_of [OF assms(1) q360] assms(2) by metis
  define t where "t = (if fle (Fin 86400) (Fin q1) then fsub (Fin q1) (Fin 86400) else Fin q1)"
  obtain q2 where q2: "t = Fin q2" "tenth (1 / 2 ^ 31) q2 (n mod 864000)"
  proof (cases "n = 864000")
    case True
    with n(4) have "q1 = 86400" by (simp add: tenth_def)
    then have "t = Fin 0" by (simp add: t_def fle_def flt_def fsub_def fadd_fin)
    with True show ?thesis by (intro that [of 0]) (simp_all add: tenth_def)
  next
    case False
    with n(5) have "n < 864000" by simp
    then have "n div 10 < 86400" by simp
    moreover have "\<lfloor>q1\<rfloor> = n div 10" by (rule tenth_floor [OF n(4)]) simp
    ultimately have "q1 < 86400" by (metis floor_less_iff of_int_numeral)
    then have "t = Fin q1" by (simp add: t_def fle_def flt_def)
    moreover have "tenth (1 / 2 ^ 31) q1 n" using n(4) unfolding tenth_def by (auto elim: order_trans)
    ultimately show ?thesis using \<open>n < 864000\<close> n(1) by (intro that [of q1]) simp_all
  qed
  define k where "k = n mod 864000"
  have k: "0 \<le> k" "k \<le> 13000000" using pos_mod_bound [of 864000 n] by (simp_all add: k_def)
  note sp = tenth_split [OF q2(2) [folded k_def] _ k]
  have "hmsText (Fin q) = tenthsText CHR '':'' CHR '':'' k"
    unfolding hmsText_def hms_def Let_def n(3) t_def [symmetric] q2(1)
    using sp by (simp add: tenthsText_def)
  with n(1,2,5) show ?thesis unfolding k_def by blast
qed

lemma dmsText_tenths:
  assumes "0 \<le> q" "q \<le> 360"
  shows "\<exists>n. 0 \<le> n \<and> n \<le> 12960000 \<and> \<bar>of_int n - q * 36000\<bar> \<le> 1 / 2 + 1 / 2 ^ 29
    \<and> dmsText (Fin q) = ''+'' @ tenthsText CHR ''*'' (CHR 0x27) n
    \<and> (0 < q \<longrightarrow> dmsText (Fin (- q)) = ''-'' @ tenthsText CHR ''*'' (CHR 0x27) n)"
proof -
  obtain n q1 where n: "0 \<le> n" "n \<le> 12960000" "\<bar>of_int n - q * 36000\<bar> \<le> 1 / 2 + 1 / 2 ^ 29"
    "fdiv (f_round (fmul (Fin q) (Fin 36000))) (Fin 10) = Fin q1" "tenth (1 / 2 ^ 32) q1 n"
    using tenths_of [OF assms] by metis
  have "tenth (1 / 2 ^ 31) q1 n" using n(5) unfolding tenth_def by (auto elim: order_trans)
  note sp = tenth_split [OF this _ n(1)]
  have "dmsText (Fin q) = ''+'' @ tenthsText CHR ''*'' (CHR 0x27) n"
    unfolding dmsText_def dmsParts_def Let_def using assms(1) n(2,4) sp by (simp add: tenthsText_def flt_def)
  moreover have "dmsText (Fin (- q)) = ''-'' @ tenthsText CHR ''*'' (CHR 0x27) n" if "0 < q"
    unfolding dmsText_def dmsParts_def Let_def using that n(2,4) sp by (simp add: tenthsText_def flt_def)
  ultimately show ?thesis using n(1-3) by blast
qed

lemma emits_onConn:
  assumes "emits sent m cmds"
  shows "emits (\<lambda>s. sent (rconn s)) (onConn m) cmds"
  unfolding emits_def
proof (intro allI impI)
  fix s r s'
  assume "onConn m s = (r, s')"
  then obtain c where "m (rconn s) = (r, c)" "s' = s\<lparr>rconn := c\<rparr>" by (auto simp: onConn_def split: prod.splits)
  then show "\<exists>p. prefix p cmds \<and> sent (rconn s') = sent (rconn s) @ p \<and> (isl r \<or> p = cmds)"
    using assms by (auto elim!: emitsE)
qed

lemma emits_modE: "(\<And>s. out (f s) = out s) \<Longrightarrow> emits out (modE f) []"
  by (auto simp: emits_def)

interpretation rack: channel "\<lambda>s. sent (rconn s)" "\<lambda>cmd. onConn (Ack cmd)"
  by unfold_locales (rule emits_onConn [OF ack.op_emits])

interpretation rblind: channel "\<lambda>s. sent (rconn s)" "\<lambda>cmd. onConn (Blind cmd)"
  by unfold_locales (rule emits_onConn [OF blind.op_emits])

lemma targets_emit:
  "emits (\<lambda>s. sent (rconn s)) (rstSetTargetRA x) ['':Sr'' @ hmsText x @ ''#'']"
  "emits (\<lambda>s. sent (rconn s)) (rstSetTargetDec x) ['':Sd'' @ dmsText x @ ''#'']"
proof -
  have m: "emits (\<lambda>s. sent (rconn s)) (modE (\<lambda>s. s\<lparr>targetRA := x\<rparr>)) []"
    "emits (\<lambda>s. sent (rconn s)) (modE (\<lambda>s. s\<lparr>targetDec := x\<rparr>)) []" by (rule emits_modE, simp)+
  show "emits (\<lambda>s. sent (rconn s)) (rstSetTargetRA x) ['':Sr'' @ hmsText x @ ''#'']"
    unfolding rstSetTargetRA_def using emits_bindE [OF m(1) rack.op_emits] by simp
  show "emits (\<lambda>s. sent (rconn s)) (rstSetTargetDec x) ['':Sd'' @ dmsText x @ ''#'']"
    unfolding rstSetTargetDec_def using emits_bindE [OF m(2) rack.op_emits] by simp
qed

text \<open>C29: the target right ascension goes out as the exact split of the hours rounded to the
  nearest tenth of a second, with carries and the turn of the day: whatever the rounding of
  the floating-point steps, no field ever shows 60. Likewise the declination, with its
  sign in front.\<close>

theorem rst_target_texts:
  assumes "0 \<le> q" "q < 24" "0 < d" "d \<le> 90"
  shows "(\<exists>n. 0 \<le> n \<and> \<bar>of_int n - q * 36000\<bar> \<le> 1 / 2 + 1 / 2 ^ 29
      \<and> emits (\<lambda>s. sent (rconn s)) (rstSetTargetRA (Fin q)) ['':Sr'' @ tenthsText CHR '':'' CHR '':'' (n mod 864000) @ ''#''])
    \<and> (\<exists>n. 0 \<le> n \<and> \<bar>of_int n - d * 36000\<bar> \<le> 1 / 2 + 1 / 2 ^ 29
      \<and> emits (\<lambda>s. sent (rconn s)) (rstSetTargetDec (Fin d)) ['':Sd+'' @ tenthsText CHR ''*'' (CHR 0x27) n @ ''#'']
      \<and> emits (\<lambda>s. sent (rconn s)) (rstSetTargetDec (Fin (- d))) ['':Sd-'' @ tenthsText CHR ''*'' (CHR 0x27) n @ ''#''])"
proof -
  obtain n where n: "0 \<le> n" "\<bar>of_int n - q * 36000\<bar> \<le> 1 / 2 + 1 / 2 ^ 29" "hmsText (Fin q) = tenthsText CHR '':'' CHR '':'' (n mod 864000)"
    using hmsText_tenths [OF assms(1,2)] by blast
  have "0 \<le> d" "d \<le> 360" using assms(3,4) by simp_all
  then obtain m where m: "0 \<le> m" "\<bar>of_int m - d * 36000\<bar> \<le> 1 / 2 + 1 / 2 ^ 29"
    "dmsText (Fin d) = ''+'' @ tenthsText CHR ''*'' (CHR 0x27) m" "dmsText (Fin (- d)) = ''-'' @ tenthsText CHR ''*'' (CHR 0x27) m"
    using dmsText_tenths [of d] assms(3) by blast
  show ?thesis
    using n(1,2) targets_emit(1) [of "Fin q", unfolded n(3)]
      m(1,2) targets_emit(2) [of "Fin d", unfolded m(3)] targets_emit(2) [of "Fin (- d)", unfolded m(4)]
    by auto
qed

theorem rst_target_texts_witness:
  "\<exists>n. 0 \<le> n \<and> \<bar>of_int n - (24 - 1 / 2 ^ 40) * 36000 :: rat\<bar> \<le> 1 / 2 + 1 / 2 ^ 29
    \<and> emits (\<lambda>s. sent (rconn s)) (rstSetTargetRA (Fin (24 - 1 / 2 ^ 40))) ['':Sr'' @ tenthsText CHR '':'' CHR '':'' (n mod 864000) @ ''#'']"
  using rst_target_texts [of "24 - 1 / 2 ^ 40" 45] by simp

text \<open>A negative zero is not negative, yet its seconds are printed with a sign.\<close>

theorem negative_zero_target:
  "hmsText NZero = ''00:00:-0.0'' \<and> dmsText NZero = ''+00*00'' @ [CHR 0x27] @ ''-0.0''"
proof -
  have t: "fdiv (f_round (fmul NZero (Fin 36000))) (Fin 10) = NZero" by (simp add: fmul_def fdiv_def signed_zero_def)
  have i: "int_of_f64 NZero = 0" by (simp add: int_of_f64_def trunc_rat_def)
  have s: "fsub NZero (f64_of_int 0) = NZero" by (simp add: f64_of_int_def fsub_def fadd_def)
  have z: "fmt_d 2 0 = ''00''" by (simp add: fmt_d_def nat_str.simps dig_0 pad0_def)
  have f: "fmt_f False 4 1 NZero = ''-0.0''" by code_simp
  have q: "go_quot 0 b = 0" for b by (simp add: go_quot_def)
  have h: "hms NZero = (0, 0, NZero)" unfolding hms_def t Let_def by (simp add: fle_def flt_def i q s)
  have d: "dmsParts NZero = (CHR ''+'', 0, 0, NZero)" unfolding dmsParts_def by (simp add: flt_def t Let_def i q s)
  show ?thesis unfolding hmsText_def dmsText_def h d prod.case z f by simp
qed

section \<open>Bringing an azimuth into range\<close>

lemma rnd_step:
  assumes "\<bar>x\<bar> \<le> 2 ^ 21"
  shows "is_fin (rnd x)" "\<bar>fval (rnd x) - x\<bar> \<le> 1"
proof -
  have n: "near (rnd x) x (2 powi (21 - 53))" using assms by (intro fin_rnd_near) simp_all
  have "(2 :: rat) powi (21 - 53) \<le> 1" by (simp add: powi_neg_numeral)
  with nearD [OF n] show "is_fin (rnd x)" "\<bar>fval (rnd x) - x\<bar> \<le> 1" by linarith+
qed

lemma az_down_returns:
  assumes "is_fin x" "fval x < 360 + 359 * of_nat m" "fval x \<le> 2000000"
  shows "\<exists>y. az_down x = Some y \<and> is_fin y \<and> fval y < 360 \<and> (y = x \<or> 0 \<le> fval y)"
  using assms
proof (induction m arbitrary: x)
  case 0
  then have "\<not> fle (Fin 360) x" by (cases x) (auto simp: fle_def flt_def)
  with 0 show ?case by (subst az_down.simps) simp
next
  case (Suc m)
  show ?case
  proof (cases "fval x < 360")
    case True
    with Suc.prems have "\<not> fle (Fin 360) x" by (cases x) (auto simp: fle_def flt_def)
    with Suc.prems True show ?thesis by (subst az_down.simps) simp
  next
    case False
    then have le: "fle (Fin 360) x" using Suc.prems(1) by (cases x) (auto simp: fle_def flt_def)
    have s: "fsub x (Fin 360) = rnd (fval x - 360)" using Suc.prems(1) by (simp add: fsub_def fadd_fin)
    have b: "\<bar>fval x - 360\<bar> \<le> 2 ^ 21" using False Suc.prems(3) by simp
    have "0 \<le> fval (rnd (fval x - 360))" using False by (intro fval_rnd_nonneg) simp
    moreover have "fval (rnd (fval x - 360)) < 360 + 359 * of_nat m" "fval (rnd (fval x - 360)) \<le> 2000000"
      using rnd_step(2) [OF b] Suc.prems(2,3) by (simp_all add: algebra_simps)
    ultimately show ?thesis using Suc.IH [OF rnd_step(1) [OF b]] le by (subst az_down.simps) (auto simp: s)
  qed
qed

lemma rnd_below_360: "0 < y \<Longrightarrow> y \<le> 360 \<Longrightarrow> fval (rnd y) \<le> 360"
proof (cases "y < 256")
  case True
  assume "0 < y"
  with True have "\<bar>y\<bar> \<le> 2 ^ 21" by simp
  from rnd_step(2) [OF this] True show ?thesis by linarith
next
  case False
  assume y: "0 < y" "y \<le> 360"
  have "ilog2 y = 8" using False y by (intro ilog2_unique) simp_all
  then have q: "quantum y = 1 / 2 ^ 44" by (simp add: quantum_def powi_neg_numeral)
  have "round_even (y / quantum y) \<le> round_even (of_int (360 * 2 ^ 44))"
    using y(2) unfolding q by (intro round_even_mono) simp
  then have "(of_int (round_even (y / quantum y)) :: rat) \<le> of_int (360 * 2 ^ 44)"
    unfolding round_even_of_int by (simp only: of_int_le_iff)
  then have "rnd_abs y \<le> 360" unfolding rnd_abs_def q by simp
  moreover have "rnd_abs y < overflow_bound"
    using \<open>rnd_abs y \<le> 360\<close> by (rule le_less_trans) (simp add: overflow_bound_def)
  ultimately show ?thesis using rnd_pos [OF y(1)] by simp
qed

lemma az_up_returns:
  assumes "is_fin x" "- 359 * of_nat m \<le> fval x" "- 2000000 \<le> fval x" "fval x \<le> 360"
  shows "\<exists>y. az_up x = Some y \<and> is_fin y \<and> 0 \<le> fval y \<and> fval y \<le> 360"
  using assms
proof (induction m arbitrary: x)
  case 0
  then have "\<not> flt x (Fin 0)" by (cases x) (auto simp: flt_def)
  with 0 show ?case by (subst az_up.simps) simp
next
  case (Suc m)
  show ?case
  proof (cases "0 \<le> fval x")
    case True
    with Suc.prems have "\<not> flt x (Fin 0)" by (cases x) (auto simp: flt_def)
    with Suc.prems True show ?thesis by (subst az_up.simps) simp
  next
    case False
    then have lt: "flt x (Fin 0)" using Suc.prems(1) by (cases x) (auto simp: flt_def)
    have s: "fadd x (Fin 360) = rnd (fval x + 360)" using Suc.prems(1) by (simp add: fadd_fin)
    have b: "\<bar>fval x + 360\<bar> \<le> 2 ^ 21" using False Suc.prems(3) by simp
    have "fval (rnd (fval x + 360)) \<le> 360"
    proof (cases "0 < fval x + 360")
      case True
      with False show ?thesis by (intro rnd_below_360) simp_all
    next
      case False
      with rnd_step(2) [OF b] show ?thesis by linarith
    qed
    moreover have "- 359 * of_nat m \<le> fval (rnd (fval x + 360))" "- 2000000 \<le> fval (rnd (fval x + 360))"
      using rnd_step(2) [OF b] Suc.prems(2,3) by (simp_all add: algebra_simps)
    ultimately show ?thesis using Suc.IH [OF rnd_step(1) [OF b]] lt by (subst az_up.simps) (simp add: s)
  qed
qed

text \<open>C30: for any azimuth within a million degrees both loops end, and the azimuth is then
  between 0 and 360, the latter included.\<close>

theorem azimuth_in_range:
  assumes "is_fin x" "\<bar>fval x\<bar> \<le> 1000000"
  shows "\<exists>y z. az_down x = Some y \<and> az_up y = Some z \<and> is_fin z \<and> 0 \<le> fval z \<and> fval z \<le> 360"
proof -
  obtain y where y: "az_down x = Some y" "is_fin y" "fval y < 360" "y = x \<or> 0 \<le> fval y"
    using az_down_returns [OF assms(1), of 3000] assms(2) by (auto simp: abs_le_iff)
  then have "- 1000000 \<le> fval y" using assms(2) by auto
  with az_up_returns [OF y(2), of 3000] y show ?thesis by auto
qed

theorem azimuth_in_range_witness:
  "\<exists>y z. az_down (Fin (-725)) = Some y \<and> az_up y = Some z \<and> 0 \<le> fval z \<and> fval z \<le> 360"
  using azimuth_in_range [of "Fin (-725)"] by auto

text \<open>An infinite azimuth keeps the first loop going for ever.\<close>

theorem infinite_azimuth_hangs: "az_down PInf = None"
proof -
  have "x \<noteq> PInf" if "az_down x = Some y" for x y
  proof (rule az_down.raw_induct [OF _ that])
    fix f :: "f64 \<Rightarrow> f64 option" and x y
    assume "\<And>x y. f x = Some y \<Longrightarrow> x \<noteq> PInf"
      and "(if fle (Fin 360) x then f (fsub x (Fin 360)) else Some x) = Some y"
    moreover have "fle (Fin 360) PInf" "fsub PInf (Fin 360) = PInf" by (simp_all add: fle_def flt_def fsub_def fadd_def)
    ultimately show "x \<noteq> PInf" by (metis)
  qed
  then show ?thesis by (metis option.exhaust)
qed

text \<open>A small negative azimuth rounds to the full circle, which the first loop has already let
  pass; and seconds just below sixty are printed as sixty.\<close>

theorem azimuth_full_circle: "az_up (Fin (- (1 / 2 ^ 60))) = Some (Fin 360)"
proof -
  define y :: rat where "y = 360 - 1 / 2 ^ 60"
  have y: "256 \<le> y" "y < 512" "0 < y" by (simp_all add: y_def)
  have "ilog2 y = 8" using y by (intro ilog2_unique) simp_all
  then have q: "quantum y = 1 / 2 ^ 44" by (simp add: quantum_def powi_neg_numeral)
  have "\<bar>of_int (round_even (y / quantum y)) - y / quantum y\<bar> \<le> 1 / 2" by (rule round_even_err)
  moreover define d :: rat where "d = 1 / 2 ^ 16"
  moreover have "y / quantum y = 360 * 2 ^ 44 - d" unfolding q by (simp add: y_def d_def)
  moreover have "0 < d" "d < 1 / 2" by (simp_all add: d_def)
  ultimately have "\<bar>of_int (round_even (y / quantum y)) - (360 * 2 ^ 44 :: rat)\<bar> < 1" by linarith
  then have "\<bar>of_int (round_even (y / quantum y) - 360 * 2 ^ 44) :: rat\<bar> < 1" by simp
  then have "\<bar>round_even (y / quantum y) - 360 * 2 ^ 44\<bar> < 1" by linarith
  then have "round_even (y / quantum y) = 360 * 2 ^ 44" by linarith
  then have r: "rnd_abs y = 360" unfolding rnd_abs_def q by simp
  have "rnd y = Fin 360" using rnd_pos [OF y(3)] r by (simp add: overflow_bound_def)
  then have "fadd (Fin (- (1 / 2 ^ 60))) (Fin 360) = Fin 360" by (simp add: fadd_fin y_def)
  then show ?thesis by (subst az_up.simps, subst az_up.simps) (simp add: flt_def)
qed

theorem azimuth_sixty_seconds: "azText (Fin (1 - 1 / 2 ^ 30)) = ''000*59'' @ [CHR 0x27] @ ''60.0''"
proof -
  have a: "int_of_f64 (Fin (1 - 1 / 2 ^ 30)) = 0" by (simp add: int_of_f64_def trunc_rat_def floor_eq_iff)
  have d: "rnd (of_int m * 2 powi - 30) = Fin (of_int m * 2 powi - 30)" if "\<bar>m\<bar> < 2 ^ 53" for m
    using that by (intro rnd_dyadic) simp_all
  have e: "(2 :: rat) powi - 30 = 1 / 2 ^ 30" by (simp add: powi_neg_numeral)
  have s: "fsub (Fin (1 - 1 / 2 ^ 30)) (f64_of_int 0) = Fin (1 - 1 / 2 ^ 30)"
    using d [of "2 ^ 30 - 1"] by (simp add: f64_of_int_def fsub_def fadd_fin e)
  have m: "fmul (Fin (1 - 1 / 2 ^ 30)) (Fin 60) = Fin (60 - 60 / 2 ^ 30)"
    using d [of "60 * (2 ^ 30 - 1)"] by (simp add: fmul_def e)
  have i: "int_of_f64 (Fin (60 - 60 / 2 ^ 30)) = 59" by (simp add: int_of_f64_def trunc_rat_def floor_eq_iff)
  have t: "fsub (Fin (60 - 60 / 2 ^ 30)) (f64_of_int 59) = Fin (1 - 60 / 2 ^ 30)"
    using d [of "2 ^ 30 - 60"] rnd_of_int [of 59] by (simp add: f64_of_int_def fsub_def fadd_fin e)
  have u: "fmul (Fin (1 - 60 / 2 ^ 30)) (Fin 60) = Fin (60 - 3600 / 2 ^ 30)"
    using d [of "60 * (2 ^ 30 - 60)"] by (simp add: fmul_def e)
  have r: "round_even ((60 - 3600 / 2 ^ 30) * 10) = 600"
  proof -
    have "\<lfloor>(60 - 3600 / 2 ^ 30) * 10 :: rat\<rfloor> = 599" by (simp add: floor_eq_iff)
    then show ?thesis by (simp add: round_even_def Let_def)
  qed
  have z: "fmt_d 3 0 = ''000''" "fmt_d 2 59 = ''59''" "nat_str 60 = ''60''" "nat_str 0 = ''0''"
    by code_simp+
  have f: "fmt_f False 4 1 (Fin (60 - 3600 / 2 ^ 30)) = ''60.0''"
    using r by (simp add: fmt_f_def fixed_digits_def Let_def z pad0_def)
  show ?thesis unfolding azText_def Let_def a s m i t u f z by simp
qed

end
