(* ===== verification/StatusCache.thy ===== *)
theory StatusCache
  imports GoPart
begin

text \<open>
  The status cache the OnStep, AM5 and 10Micron drivers share in form: a status is fetched
  from the mount, kept with the time it was read, and served again until it is older than a
  limit; a command that changes the motion discards it. The locale states the contract and
  proves what clients of the drivers rely on; each driver interprets it.
\<close>

text \<open>\<open>discards p m\<close>: when \<open>m\<close> succeeds there is no status in the cache.\<close>

definition discards :: "('s \<Rightarrow> int option) \<Rightarrow> ('s, 'a) io \<Rightarrow> bool" where
  "discards p m = (\<forall>s r s'. m s = (Inr r, s') \<longrightarrow> p s' = None)"

lemma discardsD: "discards p m \<Longrightarrow> m s = (Inr r, s') \<Longrightarrow> p s' = None"
  by (simp add: discards_def)

lemma discards_bind [intro]: "(\<And>x. discards p (f x)) \<Longrightarrow> discards p (bindE m f)"
  by (auto simp: discards_def bindE_def split: prod.splits sum.splits)

lemma discards_errE [intro]: "discards p (errE e)"
  by (simp add: discards_def)

lemma discards_if [intro]: "discards p m \<Longrightarrow> discards p n \<Longrightarrow> discards p (if b then m else n)"
  by simp

locale status_cache =
  fixes status :: "('s, 'a) io"
    and invalidate :: "'s \<Rightarrow> 's"
    and fetch :: "('s, 'a) io"
    and store :: "'a \<Rightarrow> 's \<Rightarrow> 's"
    and cachedAt :: "'s \<Rightarrow> int option"
    and cached :: "'s \<Rightarrow> 'a"
    and clock :: "'s \<Rightarrow> int"
    and ttl :: "'s \<Rightarrow> int"
    and out :: "'s \<Rightarrow> string list"
  assumes hit: "cachedAt s = Some t \<Longrightarrow> clock s - t < ttl s \<Longrightarrow> status s = (Inr (cached s), s)"
    and miss: "cachedAt s = None \<or> (\<exists>t. cachedAt s = Some t \<and> ttl s \<le> clock s - t) \<Longrightarrow>
      status s = (case fetch s of (Inl e, s') \<Rightarrow> (Inl e, s') | (Inr v, s') \<Rightarrow> (Inr v, store v s'))"
    and store_time: "cachedAt (store v s) = Some (clock s)" "clock (store v s) = clock s"
    and store_value: "cached (store v s) = v" "ttl (store v s) = ttl s" "out (store v s) = out s"
    and discarded: "cachedAt (invalidate s) = None" "out (invalidate s) = out s"
    and ttl_pos: "0 < ttl s"
begin

text \<open>A burst of getters costs one round trip: a second reading at once changes nothing.\<close>

lemma burst:
  assumes "status s = (Inr v, s')"
  shows "status s' = (Inr v, s')"
proof (cases "\<exists>t. cachedAt s = Some t \<and> clock s - t < ttl s")
  case True
  then have "status s = (Inr (cached s), s)" using hit by blast
  moreover from this assms have "s' = s" "v = cached s" by simp_all
  ultimately show ?thesis by simp
next
  case False
  then have "cachedAt s = None \<or> (\<exists>t. cachedAt s = Some t \<and> ttl s \<le> clock s - t)"
    by (cases "cachedAt s") (auto simp: not_less)
  from miss [OF this] assms obtain u where s': "s' = store v u" by (auto split: prod.splits sum.splits)
  have "clock s' - clock u < ttl s'" using ttl_pos by (simp add: s' store_time)
  moreover have "cachedAt s' = Some (clock u)" by (simp add: s' store_time)
  ultimately show ?thesis using hit [of s' "clock u"] by (simp add: s' store_value)
qed

text \<open>After a command that discards the cache the status is read from the mount.\<close>

lemma refetch: "status (invalidate s) =
    (case fetch (invalidate s) of (Inl e, s') \<Rightarrow> (Inl e, s') | (Inr v, s') \<Rightarrow> (Inr v, store v s'))"
  by (rule miss) (simp add: discarded)

text \<open>A served status is younger than the limit, and serving it sends nothing.\<close>

lemma served:
  assumes "status s = (Inr v, s')"
  shows "(\<exists>t. cachedAt s = Some t \<and> clock s - t < ttl s \<and> v = cached s \<and> s' = s)
    \<or> (\<exists>u. fetch s = (Inr v, u) \<and> s' = store v u)"
proof (cases "\<exists>t. cachedAt s = Some t \<and> clock s - t < ttl s")
  case True
  with hit assms show ?thesis by fastforce
next
  case False
  then have "cachedAt s = None \<or> (\<exists>t. cachedAt s = Some t \<and> ttl s \<le> clock s - t)"
    by (cases "cachedAt s") (auto simp: not_less)
  from miss [OF this] assms show ?thesis by (auto split: prod.splits sum.splits)
qed

text \<open>The commands that end by discarding the cache.\<close>

lemma discards_invalidate [intro]:
  "discards cachedAt (modE (\<lambda>s. invalidate (f s)))" "discards cachedAt (modE invalidate)"
  "discards cachedAt (bindE (modE invalidate) (\<lambda>_. okE x))"
  by (auto simp: discards_def discarded bindE_def)

text \<open>After such a command the next reading is of the mount, and those behind it are the same one.\<close>

lemma fresh:
  assumes "discards cachedAt m" "m s = (Inr r, s1)" "status s1 = (Inr v, s2)"
  shows "\<exists>u. fetch s1 = (Inr v, u) \<and> s2 = store v u" "status s2 = (Inr v, s2)"
  using served [OF assms(3)] discardsD [OF assms(1,2)] burst [OF assms(3)] by auto

end

end
