(* ===== verification/Device.thy ===== *)
theory Device
  imports GoPart
begin

text \<open>
  What the drivers rely on. \<open>embeds_conn\<close> is Go's struct embedding: a driver whose state holds
  a connection behaves, on a mount that answers, as the connection does. \<open>keeps_setting\<close> and
  \<open>acks\<close> state what a mount does with a setting: it is acknowledged, and the query that reads
  it gives back the text that was set last. \<open>register_mount\<close> is such a mount.
\<close>

locale embeds_conn =
  fixes get :: "'s \<Rightarrow> conn"
    and put :: "conn \<Rightarrow> 's \<Rightarrow> 's"
  assumes get_put [simp]: "get (put c s) = c"
begin

lemma Get_on:
  assumes "answering d ans (get s)" "ans (sent (get s) @ [cmd]) = t @ ''#''" "CHR ''#'' \<notin> set t"
    "int d + 2 * ms * int (length t) \<le> timeout (get s)"
  shows "\<exists>s'. (case Get cmd (get s) of (r, c) \<Rightarrow> (r, put c s)) = (Inr t, s') \<and> steps d ans (get s) [cmd] (get s')"
proof -
  obtain c where "Get cmd (get s) = (Inr t, c)" "steps d ans (get s) [cmd] c" using Get_answered [OF assms] by blast
  then show ?thesis by (intro exI [of _ "put c s"]) simp
qed

lemma Ack_on:
  assumes "answering d ans (get s)" "ans (sent (get s) @ [cmd]) = [b]" "int d \<le> timeout (get s)"
  shows "\<exists>s'. (case Ack cmd (get s) of (r, c) \<Rightarrow> (r, put c s)) = (Inr (b = CHR ''1''), s') \<and> steps d ans (get s) [cmd] (get s')"
proof -
  obtain c where "Ack cmd (get s) = (Inr (b = CHR ''1''), c)" "steps d ans (get s) [cmd] c"
    using Ack_answered [OF assms] by blast
  then show ?thesis by (intro exI [of _ "put c s"]) simp
qed

end

section \<open>A mount with settings\<close>

definition keeps_setting :: "(string list \<Rightarrow> string) \<Rightarrow> string \<Rightarrow> string \<Rightarrow> bool" where
  "keeps_setting ans p q = (\<forall>h t u. CHR ''#'' \<notin> set t \<longrightarrow> list_all (\<lambda>c. \<not> HasPrefix c p) u
     \<longrightarrow> ans (h @ [p @ t @ ''#''] @ u @ [q]) = t @ ''#'')"

definition acks :: "(string list \<Rightarrow> string) \<Rightarrow> string \<Rightarrow> bool" where
  "acks ans p = (\<forall>h t. ans (h @ [p @ t @ ''#'']) = ''1'')"

fun stored :: "string \<Rightarrow> string list \<Rightarrow> string" where
  "stored p [] = []"
| "stored p (c # cs) = (if HasPrefix c p then butlast (drop (length p) c) else stored p cs)"

text \<open>The pairs name a setting and its query; everything else is acknowledged.\<close>

definition register_mount :: "(string \<times> string) list \<Rightarrow> string list \<Rightarrow> string" where
  "register_mount regs h =
     (case rev h of
        [] \<Rightarrow> []
      | c # r \<Rightarrow> case map_of (map prod.swap regs) c of Some p \<Rightarrow> stored p r @ ''#'' | None \<Rightarrow> ''1'')"

lemma stored_skip: "list_all (\<lambda>c. \<not> HasPrefix c p) u \<Longrightarrow> stored p (u @ cs) = stored p cs"
  by (induction u) auto

lemma register_keeps:
  assumes "map_of (map prod.swap regs) q = Some p"
  shows "keeps_setting (register_mount regs) p q"
  using assms by (auto simp: keeps_setting_def register_mount_def stored_skip list_all_rev)

lemma register_acks:
  assumes "list_all (\<lambda>(p', q). \<not> HasPrefix q p) regs"
  shows "acks (register_mount regs) p"
proof -
  have "map_of (map prod.swap regs) (p @ t @ ''#'') = None" for t
  proof -
    have "p @ t @ ''#'' \<notin> set (map snd regs)"
      using assms by (force simp: list_all_iff)
    then show ?thesis by (force simp: map_of_eq_None_iff)
  qed
  then show ?thesis by (simp add: acks_def register_mount_def)
qed

end
