(* ===== verification/Am5Props.thy ===== *)
theory Am5Props
  imports Am5 Device
begin

text \<open>The properties of the AM driver.\<close>

section \<open>On a mount that answers\<close>

interpretation zc: embeds_conn zconn "\<lambda>c s. s\<lparr>zconn := c\<rparr>"
  by unfold_locales simp

lemma onZ_Get:
  assumes "answering d ans (zconn s)" "ans (sent (zconn s) @ [cmd]) = t @ ''#''" "CHR ''#'' \<notin> set t"
    "int d + 2 * ms * int (length t) \<le> timeout (zconn s)"
  shows "\<exists>s'. onZ (Get cmd) s = (Inr t, s') \<and> steps d ans (zconn s) [cmd] (zconn s')"
  unfolding onZ_def by (rule zc.Get_on [OF assms])

lemma must_Ack:
  assumes "answering d ans (zconn s)" "ans (sent (zconn s) @ [cmd]) = ''1''" "int d \<le> timeout (zconn s)"
  shows "\<exists>s'. must (onZ (Ack cmd)) s = (Inr (), s') \<and> steps d ans (zconn s) [cmd] (zconn s')"
proof -
  obtain s' where "onZ (Ack cmd) s = (Inr True, s')" "steps d ans (zconn s) [cmd] (zconn s')"
    using zc.Ack_on [OF assms] unfolding onZ_def by auto
  then show ?thesis by (auto simp: must_def bindE_def)
qed

text \<open>A setting and its query, with other commands between them.\<close>

lemma setting_read:
  assumes "steps d ans c (pre @ [p @ t @ ''#''] @ u) (zconn s)" "keeps_setting ans p q" "CHR ''#'' \<notin> set t"
    "list_all (\<lambda>c. \<not> HasPrefix c p) u" "int d + 2 * ms * int (length t) \<le> timeout c"
  shows "\<exists>s'. onZ (Get q) s = (Inr t, s') \<and> steps d ans (zconn s) [q] (zconn s')"
proof (rule onZ_Get)
  show "ans (sent (zconn s) @ [q]) = t @ ''#''"
    using assms(1-4) unfolding keeps_setting_def steps_def by (metis append.assoc)
qed (use assms in \<open>auto simp: steps_def\<close>)

text \<open>A driver on such a mount.\<close>

lemma zconn_new [simp]: "zconn (am5_new (wire (mount_conn d ans))) = mount_conn d ans"
  by (simp add: am5_new_def mount_conn_def New_def DefaultTimeout_def ms_def)

section \<open>The meridian flip\<close>

lemma flag_text: "fmt_d 0 (b2i b) = (if b then ''1'' else ''0'')"
  by (cases b) (simp only: b2i_def if_True if_False, code_simp)+

lemma flipText_shape:
  assumes "\<bar>LimitDeg f\<bar> \<le> 99"
  shows "flipText f = [if Enabled f then CHR ''1'' else CHR ''0'', if TrackPast f then CHR ''1'' else CHR ''0'',
      if LimitDeg f < 0 then CHR ''-'' else CHR ''+''] @ fmt_d 2 \<bar>LimitDeg f\<bar>"
    "length (fmt_d 2 \<bar>LimitDeg f\<bar>) = 2" "CHR ''#'' \<notin> set (flipText f)"
proof -
  have "wrap64 (- LimitDeg f) = - LimitDeg f" using assms by (simp add: wrap64_def)
  then show s: "flipText f = [if Enabled f then CHR ''1'' else CHR ''0'', if TrackPast f then CHR ''1'' else CHR ''0'',
      if LimitDeg f < 0 then CHR ''-'' else CHR ''+''] @ fmt_d 2 \<bar>LimitDeg f\<bar>"
    by (simp add: flipText_def flag_text)
  show "length (fmt_d 2 \<bar>LimitDeg f\<bar>) = 2" using assms by (intro fmt_d_length) simp_all
  have "CHR ''#'' \<notin> set (fmt_d 2 \<bar>LimitDeg f\<bar>)" using fmt_d_chars by (fastforce simp: is_digit_iff)
  then show "CHR ''#'' \<notin> set (flipText f)" by (simp add: s)
qed

text \<open>The meridian-flip setting reads back: on a mount that acknowledges \<open>:STa\<close> and answers
  \<open>:GTa#\<close> with the text set last, \<open>SetMeridianFlip\<close> succeeds and \<open>MeridianFlip\<close> then returns the
  same configuration, for every limit of at most two digits.\<close>

theorem meridian_flip_readback:
  assumes "answering d ans (zconn s)" "acks ans '':STa''" "keeps_setting ans '':STa'' '':GTa#''"
    "\<bar>LimitDeg f\<bar> \<le> 99" "int d + 10 * ms \<le> timeout (zconn s)"
  shows "\<exists>s' s''. SetMeridianFlip f s = (Inr (), s') \<and> readMeridianFlip s' = (Inr f, s'')"
proof -
  note shape = flipText_shape [OF assms(4)]
  have "ans (sent (zconn s) @ ['':STa'' @ flipText f @ ''#'']) = ''1''" "int d \<le> timeout (zconn s)"
    using assms(2,5) by (auto simp: acks_def ms_def)
  from must_Ack [OF assms(1) this] obtain s' where
    s': "SetMeridianFlip f s = (Inr (), s')" "steps d ans (zconn s) ['':STa'' @ flipText f @ ''#''] (zconn s')"
    unfolding SetMeridianFlip_def by blast
  have "int d + 2 * ms * int (length (flipText f)) \<le> timeout (zconn s)" using assms(5) shape(1,2) by simp
  from setting_read [of d ans "zconn s" "[]" "'':STa''" "flipText f" "[]" s' "'':GTa#''"] s'(2) assms(3) shape(3) this
  obtain s'' where "onZ (Get '':GTa#'') s' = (Inr (flipText f), s'')" by auto
  moreover have "fst (Atoi (fmt_d 2 \<bar>LimitDeg f\<bar>)) = \<bar>LimitDeg f\<bar>" using assms(4) by (simp add: Atoi_fmt_d)
  ultimately have "readMeridianFlip s' = (Inr f, s'')"
    using shape(2) by (simp add: readMeridianFlip_def bindE_def shape(1))
  with s'(1) show ?thesis by blast
qed

theorem meridian_flip_readback_witness:
  "\<exists>s' s''. SetMeridianFlip \<lparr>Enabled = True, TrackPast = False, LimitDeg = -7\<rparr>
      (am5_new (wire (mount_conn 5 (register_mount [('':STa'', '':GTa#'')])))) = (Inr (), s')
    \<and> readMeridianFlip s' = (Inr \<lparr>Enabled = True, TrackPast = False, LimitDeg = -7\<rparr>, s'')"
proof (rule meridian_flip_readback [where d = 5])
  show "acks (register_mount [('':STa'', '':GTa#'')]) '':STa''"
    by (rule register_acks) (simp add: HasPrefix_def)
  show "keeps_setting (register_mount [('':STa'', '':GTa#'')]) '':STa'' '':GTa#''"
    by (rule register_keeps) simp
qed (simp_all add: ms_def)


section \<open>The offset from UTC\<close>

lemma rnd_quarters: "\<bar>n\<bar> < 2 ^ 53 \<Longrightarrow> rnd (of_int n / 4) = Fin (of_int n / 4)"
  using rnd_dyadic [of n "-2"] by (simp add: powi_neg_numeral)

lemma ParseSexagesimal_two:
  assumes "0 \<le> a" "a < 2 ^ 53" "0 \<le> b" "b < 2 ^ 53" "sign \<in> {CHR ''+'', CHR ''-''}"
  shows "ParseSexagesimal ([sign] @ fmt_d 2 a @ '':'' @ fmt_d 2 b)
    = Inr (fmul (Fin (if sign = CHR ''-'' then -1 else 1))
        (fadd (fadd (Fin 0) (fdiv (Fin (of_int a)) (Fin 1))) (fdiv (Fin (of_int b)) (Fin 60))))"
proof -
  define T where "T = [sign] @ fmt_d 2 a @ '':'' @ fmt_d 2 b"
  have t: "TrimSpace (TrimSuffix (TrimSpace T) ''#'') = T"
    using assms by (intro TrimSpace_trimmed) (auto simp: T_def fmt_d_last_digit plain_char_def)
  have "FieldsFunc field_sep (fmt_d 2 b) = [fmt_d 2 b]"
    using FieldsFunc_field [OF fmt_d_nonempty fmt_d_not_sep [OF assms(3)], of "[]"] by simp
  moreover have "field_sep CHR '':''" by (simp add: field_sep_def is_digit_iff)
  ultimately have f: "FieldsFunc field_sep (tl T) = [fmt_d 2 a, fmt_d 2 b]"
    using assms by (simp add: T_def FieldsFunc_field fmt_d_not_sep)
  have ne: "T \<noteq> []" "hd T = sign" by (simp_all add: T_def)
  have "ParseSexagesimal T = Inr (fmul (Fin (if sign = CHR ''-'' then -1 else 1))
        (fadd (fadd (Fin 0) (fdiv (Fin (of_int a)) (Fin 1))) (fdiv (Fin (of_int b)) (Fin 60))))"
    unfolding ParseSexagesimal_def t using ne f assms by (auto simp: Let_def ParseFloat_fmt_d scale_60)
  then show ?thesis by (simp only: T_def)
qed

text \<open>A whole number of quarter hours is exact in every step.\<close>

lemma quarter_hours_exact:
  assumes "0 \<le> a" "a \<le> 24" "0 \<le> j" "j < 4" "\<sigma> = 1 \<or> \<sigma> = -1 \<and> 0 < 4 * a + j"
  shows "hours_dur (fmul (Fin (of_int \<sigma>)) (fadd (fadd (Fin 0) (fdiv (Fin (of_int a)) (Fin 1))) (fdiv (Fin (of_int (15 * j))) (Fin 60))))
    = \<sigma> * (4 * a + j) * 900000000000"
proof -
  let ?n = "4 * a + j"
  have "rnd (of_int a) = Fin (of_int a)" using assms by (intro rnd_of_int) simp
  then have A: "fadd (Fin 0) (fdiv (Fin (of_int a)) (Fin 1)) = Fin (of_int a)"
    by (simp add: fadd_def fdiv_def signed_zero_def)
  have "rnd (of_int j / 4) = Fin (of_int j / 4)" using assms by (intro rnd_quarters) simp
  then have B: "fdiv (Fin (of_int (15 * j))) (Fin 60) = Fin (of_int j / 4)"
    by (simp add: fdiv_def signed_zero_def)
  have q: "of_int a + of_int j / 4 = (of_int ?n / 4 :: rat)" by simp
  have "rnd (of_int ?n / 4) = Fin (of_int ?n / 4)" using assms by (intro rnd_quarters) simp
  then have C: "fadd (Fin (of_int a)) (Fin (of_int j / 4)) = Fin (of_int ?n / 4)"
    by (simp only: fadd_fin is_fin.simps fval.simps f64.distinct if_False simp_thms q)
  have "rnd (of_int (\<sigma> * ?n) / 4) = Fin (of_int (\<sigma> * ?n) / 4)" using assms by (intro rnd_quarters) auto
  then have D: "fmul (Fin (of_int \<sigma>)) (Fin (of_int ?n / 4)) = Fin (of_int (\<sigma> * ?n) / 4)"
    using assms by (auto simp: fmul_def signed_zero_def)
  have "rnd (of_int (\<sigma> * ?n * 900000000000)) = Fin (of_int (\<sigma> * ?n * 900000000000))"
    using assms by (intro rnd_of_int) auto
  then have E: "fmul (Fin (of_int (\<sigma> * ?n) / 4)) (Fin 3600000000000) = Fin (of_int (\<sigma> * ?n * 900000000000))"
    using assms by (auto simp: fmul_def signed_zero_def mult.commute)
  show ?thesis unfolding hours_dur_def A B C D E by (rule int_of_f64_of_int) (use assms in auto)
qed


lemma go_quarters:
  assumes "0 \<le> (n::int)"
  shows "go_quot (900 * n) 3600 = n div 4" "go_quot (go_rem (900 * n) 3600) 60 = 15 * (n mod 4)"
proof -
  have "900 * n mod 3600 = 900 * (n mod 4)" using mult_mod_right [of 900 n 4] by simp
  moreover have "900 * n div 3600 = n div 4" using div_mult_mult1 [of 900 n 4] by simp
  ultimately show "go_quot (900 * n) 3600 = n div 4" "go_quot (go_rem (900 * n) 3600) 60 = 15 * (n mod 4)"
    using assms by (simp_all add: go_quot_nonneg go_rem_nonneg)
qed

text \<open>The text of an offset of \<open>k\<close> quarter hours, and what it reads as.\<close>

lemma offset_text:
  assumes "\<bar>k\<bar> \<le> 99"
  defines "t \<equiv> [if 0 < k then CHR ''-'' else CHR ''+''] @ fmt_d 2 (\<bar>k\<bar> div 4) @ '':'' @ fmt_d 2 (15 * (\<bar>k\<bar> mod 4))"
  shows "am5_offsetCmd (900 * k) = '':SG'' @ t @ ''#''" "length t \<le> 6" "CHR ''#'' \<notin> set t"
    "\<exists>h. ParseSexagesimal t = Inr h \<and> wrap64 (- hours_dur h) = k * 900000000000"
proof -
  let ?a = "\<bar>k\<bar> div 4" and ?j = "\<bar>k\<bar> mod 4"
  have r: "0 \<le> ?a" "?a \<le> 24" "0 \<le> ?j" "?j < 4" "4 * ?a + ?j = \<bar>k\<bar>" using assms(1) by auto
  have w: "wrap64 (- (900 * k)) = - (900 * k)" "wrap64 (900 * k) = 900 * k" using assms(1) by (auto simp: wrap64_def)
  have "(if 0 < k then 900 * k else - (900 * k)) = 900 * \<bar>k\<bar>" by simp
  then show "am5_offsetCmd (900 * k) = '':SG'' @ t @ ''#''"
    using go_quarters [of "\<bar>k\<bar>"] by (auto simp: am5_offsetCmd_def t_def w Let_def)
  have "length (fmt_d 2 ?a) = 2" "length (fmt_d 2 (15 * ?j)) = 2" using r by (auto intro!: fmt_d_length)
  then show "length t \<le> 6" by (simp add: t_def)
  show "CHR ''#'' \<notin> set t" by (auto simp: t_def is_digit_iff dest!: fmt_d_chars)
  have "ParseSexagesimal t = Inr (fmul (Fin (of_int (if 0 < k then -1 else 1)))
      (fadd (fadd (Fin 0) (fdiv (Fin (of_int ?a)) (Fin 1))) (fdiv (Fin (of_int (15 * ?j))) (Fin 60))))"
    unfolding t_def using r by (subst ParseSexagesimal_two) auto
  moreover have "hours_dur (fmul (Fin (of_int (if 0 < k then -1 else 1)))
      (fadd (fadd (Fin 0) (fdiv (Fin (of_int ?a)) (Fin 1))) (fdiv (Fin (of_int (15 * ?j))) (Fin 60))))
      = (if 0 < k then -1 else 1) * (4 * ?a + ?j) * 900000000000"
    using r by (intro quarter_hours_exact) auto
  ultimately show "\<exists>h. ParseSexagesimal t = Inr h \<and> wrap64 (- hours_dur h) = k * 900000000000"
    using r(5) assms(1) by (auto simp: wrap64_def)
qed

lemma setter_texts: "\<not> HasPrefix ('':SC'' @ x) '':SG''" "\<not> HasPrefix ('':SL'' @ x) '':SG''"
  by (simp_all add: HasPrefix_def)

text \<open>The offset from UTC reads back: on a mount that acknowledges its settings and answers
  \<open>:GG#\<close> with the text of the last \<open>:SG\<close>, \<open>SetUTC\<close> succeeds and \<open>UTCOffset\<close> then returns the zone
  offset of the time that was set, for every offset of whole quarter hours: the negation on the
  way out and the one on the way in cancel.\<close>

theorem utc_offset_readback:
  assumes "answering d ans (zconn s)" "acks ans '':SG''" "acks ans '':SC''" "acks ans '':SL''"
    "keeps_setting ans '':SG'' '':GG#''" "\<bar>k\<bar> \<le> 99" "int d + 12 * ms \<le> timeout (zconn s)"
  shows "\<exists>s' s''. am5_SetUTC (i, 900 * k) s = (Inr (), s') \<and> am5_UTCOffset s' = (Inr (k * 900000000000), s'')"
proof -
  define t where "t = [if 0 < k then CHR ''-'' else CHR ''+''] @ fmt_d 2 (\<bar>k\<bar> div 4) @ '':'' @ fmt_d 2 (15 * (\<bar>k\<bar> mod 4))"
  note otext = offset_text [OF assms(6), folded t_def]
  have ack: "ans (h @ ['':SG'' @ x @ ''#'']) = ''1''" "ans (h @ ['':SC'' @ x @ ''#'']) = ''1''"
    "ans (h @ ['':SL'' @ x @ ''#'']) = ''1''" for h x
    using assms(2-4) unfolding acks_def by blast+
  have tout: "int d \<le> timeout (zconn s)" using assms(7) by (simp add: ms_def)
  define C and L where "C = '':SC'' @ Format_date (wall (i, 900 * k)) @ ''#''"
    and "L = '':SL'' @ Format_clock (wall (i, 900 * k)) @ ''#''"
  obtain s1 where s1: "must (onZ (Ack (am5_offsetCmd (900 * k)))) s = (Inr (), s1)"
      "steps d ans (zconn s) ['':SG'' @ t @ ''#''] (zconn s1)"
    using must_Ack [OF assms(1) ack(1) tout, of t] unfolding otext(1) by blast
  then have "answering d ans (zconn s1)" "int d \<le> timeout (zconn s1)" using tout by (auto simp: steps_def)
  from must_Ack [OF this(1) ack(2) this(2)] obtain s2 where
    s2: "must (onZ (Ack C)) s1 = (Inr (), s2)" "steps d ans (zconn s1) [C] (zconn s2)" unfolding C_def by blast
  then have "answering d ans (zconn s2)" "int d \<le> timeout (zconn s2)" using tout s1(2) by (auto simp: steps_def)
  from must_Ack [OF this(1) ack(3) this(2)] obtain s3 where
    s3: "must (onZ (Ack L)) s2 = (Inr (), s3)" "steps d ans (zconn s2) [L] (zconn s3)" unfolding L_def by blast
  have "am5_SetUTC (i, 900 * k) s = (Inr (), s3)"
    using s1(1) s2(1) s3(1) by (simp add: am5_SetUTC_def am5_SetLocalTime_def bindE_def C_def L_def)
  moreover have "steps d ans (zconn s) ([] @ ['':SG'' @ t @ ''#''] @ [C, L]) (zconn s3)"
    using steps_trans [OF s1(2) steps_trans [OF s2(2) s3(2)]] by simp
  from setting_read [OF this assms(5) otext(3)] obtain s'' where "onZ (Get '':GG#'') s3 = (Inr t, s'')"
    using otext(2) assms(7) setter_texts by (auto simp: C_def L_def ms_def)
  with otext(4) have "am5_UTCOffset s3 = (Inr (k * 900000000000), s'')"
    by (auto simp: am5_UTCOffset_def bindE_def)
  ultimately show ?thesis by blast
qed

theorem utc_offset_readback_witness:
  "\<exists>s' s''. am5_SetUTC (1700000000000000000, 900 * (-14))
      (am5_new (wire (mount_conn 5 (register_mount [('':SG'', '':GG#'')])))) = (Inr (), s')
    \<and> am5_UTCOffset s' = (Inr ((-14) * 900000000000), s'')"
proof (rule utc_offset_readback [where d = 5])
  show "keeps_setting (register_mount [('':SG'', '':GG#'')]) '':SG'' '':GG#''" by (rule register_keeps) simp
  show "acks (register_mount [('':SG'', '':GG#'')]) '':SG''" "acks (register_mount [('':SG'', '':GG#'')]) '':SC''"
    "acks (register_mount [('':SG'', '':GG#'')]) '':SL''"
    by (rule register_acks; simp add: HasPrefix_def)+
qed (simp_all add: ms_def)


section \<open>The site\<close>

lemma fmt_d_length_le:
  assumes "0 \<le> n" "n < 10 ^ k" "w \<le> k" "0 < k"
  shows "length (fmt_d w n) \<le> k"
proof -
  have "length (nat_str (nat n)) \<le> k" using assms by (intro length_nat_str) (simp_all add: nat_less_iff)
  with assms show ?thesis by (simp add: fmt_d_nonneg pad0_def)
qed

lemma am5_dms_reads:
  assumes "is_fin x" "\<bar>fval x\<bar> \<le> 360" "w \<le> 3"
  shows "\<exists>v. ParseSexagesimal (am5_dms x w) = Inr v \<and> near v (fval x) (1 / 7200 + 1 / 10 ^ 9)"
    "length (am5_dms x w) \<le> 10" "CHR ''#'' \<notin> set (am5_dms x w)"
proof -
  define y where "y = (if flt x (Fin 0) then fneg x else x)"
  define sign where "sign = (if flt x (Fin 0) then CHR ''-'' else CHR ''+'')"
  define \<sigma> :: rat where "\<sigma> = (if sign = CHR ''-'' then -1 else 1)"
  define t where "t = int_of_f64 (fadd (fmul y (Fin 3600)) (Fin (1 / 2)))"
  have y: "is_fin y" "0 \<le> fval y" "fval y \<le> 360" "fval x = \<sigma> * fval y"
    using assms by (cases x; auto simp: y_def sign_def \<sigma>_def flt_def)+
  note t = half_up_seconds [OF y(1-3), folded t_def]
  have T: "am5_dms x w = [sign] @ fmt_d w (go_quot t 3600) @ [CHR ''*''] @ fmt_d 2 (go_rem (go_quot t 60) 60) @ '':'' @ fmt_d 2 (go_rem t 60)"
    by (simp add: am5_dms_def sign_def y_def t_def Let_def)
  have "field_sep CHR ''*''" "sign \<in> {CHR ''+'', CHR ''-''}" by (simp_all add: field_sep_def is_digit_iff sign_def)
  with seconds_text_value [of t "CHR ''*''" sign w] t(1,2) obtain v where
    v: "ParseSexagesimal (am5_dms x w) = Inr v" "near v (\<sigma> * (of_int t / 3600)) (2 powi -40)"
    unfolding T \<sigma>_def by auto
  have "\<bar>\<sigma> * (of_int t / 3600) - fval x\<bar> = \<bar>of_int t - 3600 * fval y\<bar> / 3600"
    by (auto simp: y(4) \<sigma>_def field_simps)
  also have "\<dots> \<le> (1 / 2 + 1 / 2 ^ 30) / 3600" using t(3) by (rule divide_right_mono) simp
  finally have "near v (fval x) (2 powi -40 + (1 / 2 + 1 / 2 ^ 30) / 3600)" using near_trans [OF v(2)] by blast
  then have "near v (fval x) (1 / 7200 + 1 / 10 ^ 9)" by (rule near_mono) (simp add: powi_neg_numeral)
  with v(1) show "\<exists>v. ParseSexagesimal (am5_dms x w) = Inr v \<and> near v (fval x) (1 / 7200 + 1 / 10 ^ 9)" by blast
  have q: "0 \<le> go_quot t 3600" "go_quot t 3600 < 10 ^ 3" "0 \<le> go_rem (go_quot t 60) 60" "go_rem (go_quot t 60) 60 < 10 ^ 2"
    "0 \<le> go_rem t 60" "go_rem t 60 < 10 ^ 2"
    using t(1,2) pos_mod_bound [of 60 "t div 60"] pos_mod_bound [of 60 t]
    by (simp_all add: go_quot_nonneg go_rem_nonneg pos_imp_zdiv_nonneg_iff)
  have "length (fmt_d w (go_quot t 3600)) \<le> 3" "length (fmt_d 2 (go_rem (go_quot t 60) 60)) \<le> 2" "length (fmt_d 2 (go_rem t 60)) \<le> 2"
    using q assms(3) by (auto intro!: fmt_d_length_le)
  then show "length (am5_dms x w) \<le> 10" by (simp add: T)
  show "CHR ''#'' \<notin> set (am5_dms x w)" by (auto simp: T sign_def is_digit_iff dest!: fmt_d_chars)
qed

text \<open>C31: the site reads back: on a mount that keeps \<open>:St\<close> and \<open>:Sg\<close>, the latitude and longitude
  that were set are read back within half an arc second, east positive on both ways although the
  mount counts longitude west.\<close>

theorem site_readback:
  assumes "answering d ans (zconn s)" "acks ans '':St''" "acks ans '':Sg''"
    "keeps_setting ans '':St'' '':Gt#''" "keeps_setting ans '':Sg'' '':Gg#''"
    "is_fin lat" "\<bar>fval lat\<bar> \<le> 90" "is_fin lon" "\<bar>fval lon\<bar> \<le> 360" "int d + 20 * ms \<le> timeout (zconn s)"
  shows "\<exists>s1 s2 s3 s4 la lo. am5_SetSiteLatitude lat s = (Inr (), s1) \<and> am5_SetSiteLongitude lon s1 = (Inr (), s2)
    \<and> am5_SiteLatitude s2 = (Inr la, s3) \<and> am5_SiteLongitude s3 = (Inr lo, s4)
    \<and> near la (fval lat) (1 / 7200 + 1 / 10 ^ 9) \<and> near lo (fval lon) (1 / 7200 + 1 / 10 ^ 9)"
proof -
  have fl: "is_fin (fneg lon)" "\<bar>fval (fneg lon)\<bar> \<le> 360" "fval (fneg lon) = - fval lon"
    using assms(8,9) by (cases lon; simp)+
  note A = am5_dms_reads [OF assms(6), of 2] and B = am5_dms_reads [OF fl(1,2), of 3]
  let ?A = "am5_dms lat 2" and ?B = "am5_dms (fneg lon) 3"
  have tout: "int d \<le> timeout (zconn s)" using assms(10) by (simp add: ms_def)
  obtain s1 where s1: "am5_SetSiteLatitude lat s = (Inr (), s1)" "steps d ans (zconn s) ['':St'' @ ?A @ ''#''] (zconn s1)"
    using must_Ack [OF assms(1) _ tout] assms(2) unfolding am5_SetSiteLatitude_def acks_def by blast
  then have "answering d ans (zconn s1)" "int d \<le> timeout (zconn s1)" using tout by (auto simp: steps_def)
  with assms(3) must_Ack obtain s2 where
    s2: "am5_SetSiteLongitude lon s1 = (Inr (), s2)" "steps d ans (zconn s1) ['':Sg'' @ ?B @ ''#''] (zconn s2)"
    unfolding am5_SetSiteLongitude_def acks_def by blast
  have S: "steps d ans (zconn s) ([] @ ['':St'' @ ?A @ ''#''] @ ['':Sg'' @ ?B @ ''#'']) (zconn s2)"
    using steps_trans [OF s1(2) s2(2)] by simp
  from setting_read [OF S assms(4)] A(2,3) assms(7,10) obtain s3 where
    s3: "onZ (Get '':Gt#'') s2 = (Inr ?A, s3)" "steps d ans (zconn s2) ['':Gt#''] (zconn s3)"
    by (auto simp: HasPrefix_def ms_def)
  have "steps d ans (zconn s) (['':St'' @ ?A @ ''#''] @ ['':Sg'' @ ?B @ ''#''] @ ['':Gt#'']) (zconn s3)"
    using steps_trans [OF S s3(2)] by simp
  from setting_read [OF this assms(5)] B(2,3) assms(10) obtain s4 where s4: "onZ (Get '':Gg#'') s3 = (Inr ?B, s4)"
    by (auto simp: HasPrefix_def ms_def)
  obtain la where la: "ParseSexagesimal ?A = Inr la" "near la (fval lat) (1 / 7200 + 1 / 10 ^ 9)" using A(1) assms(7) by auto
  obtain lo where lo: "ParseSexagesimal ?B = Inr lo" "near lo (- fval lon) (1 / 7200 + 1 / 10 ^ 9)" using B(1) fl(3) by auto
  have "am5_SiteLatitude s2 = (Inr la, s3)" using s3(1) la(1) by (simp add: am5_SiteLatitude_def bindE_def)
  moreover have "am5_SiteLongitude s3 = (Inr (fneg lo), s4)" using s4 lo(1) by (simp add: am5_SiteLongitude_def bindE_def)
  moreover have "near (fneg lo) (fval lon) (1 / 7200 + 1 / 10 ^ 9)" using near_fneg [OF lo(2)] by simp
  ultimately show ?thesis using s1(1) s2(1) la(2) by blast
qed

theorem site_readback_witness:
  "\<exists>s1 s2 s3 s4 la lo. am5_SetSiteLatitude (Fin (75 / 2)) (am5_new (wire (mount_conn 5 (register_mount [('':St'', '':Gt#''), ('':Sg'', '':Gg#'')])))) = (Inr (), s1)
    \<and> am5_SetSiteLongitude (Fin (- 245 / 2)) s1 = (Inr (), s2)
    \<and> am5_SiteLatitude s2 = (Inr la, s3) \<and> am5_SiteLongitude s3 = (Inr lo, s4)
    \<and> near la (fval (Fin (75 / 2))) (1 / 7200 + 1 / 10 ^ 9) \<and> near lo (fval (Fin (- 245 / 2))) (1 / 7200 + 1 / 10 ^ 9)"
proof (rule site_readback [where d = 5])
  let ?m = "register_mount [('':St'', '':Gt#''), ('':Sg'', '':Gg#'')]"
  show "keeps_setting ?m '':St'' '':Gt#''" "keeps_setting ?m '':Sg'' '':Gg#''" by (rule register_keeps; simp)+
  show "acks ?m '':St''" "acks ?m '':Sg''" by (rule register_acks; simp add: HasPrefix_def)+
qed (simp_all add: ms_def)

section \<open>The cache\<close>

lemma am5_motions_discard:
  "discards zcachedAt (am5_SetTracking b)" "discards zcachedAt am5_SlewToTarget" "discards zcachedAt am5_SyncToTarget"
  "discards zcachedAt am5_Park" "discards zcachedAt am5_Unpark" "discards zcachedAt am5_FindHome"
  "discards zcachedAt (SetMountMode k)"
  unfolding am5_SetTracking_def am5_SlewToTarget_def am5_SyncToTarget_def am5_Park_def am5_Unpark_def am5_FindHome_def SetMountMode_def
  by (intro discards_bind zwo.discards_invalidate)+

text \<open>The cached status does not outlive these commands: after a successful \<open>SetTracking\<close>,
  \<open>SlewToTarget\<close>, \<open>Park\<close>, \<open>Unpark\<close>, \<open>FindHome\<close> or \<open>SetMountMode\<close> the next getter asks the mount, and
  the getters that follow it at once answer from the same reading, with nothing sent.\<close>

theorem am5_status_fresh:
  assumes "m \<in> {am5_SetTracking b, am5_SlewToTarget, am5_Park, am5_Unpark, am5_FindHome, SetMountMode k}"
    "m s = (Inr (), s1)" "am5_Slewing s1 = (Inr v, s2)"
  shows "\<exists>z u. am5_fetch s1 = (Inr z, u) \<and> v = zSlewing z
    \<and> am5_Tracking s2 = (Inr (zTracking z), s2) \<and> am5_AtHome s2 = (Inr (zAtHome z), s2)"
proof -
  have m: "discards zcachedAt m" using assms(1) am5_motions_discard by auto
  from assms(3) obtain z where z: "am5_status s1 = (Inr z, s2)" "v = zSlewing z"
    by (auto simp: am5_Slewing_def elim!: bindE_InrD)
  from zwo.fresh [OF m assms(2) z(1)] z(2) show ?thesis by (auto simp: am5_Tracking_def am5_AtHome_def bindE_def)
qed

definition idle_mount :: "string list \<Rightarrow> string" where
  "idle_mount h = (if last h = '':GU#'' then ''NG#'' else if last h = '':GAT#'' then ''1#'' else [])"

lemma idle_fetch:
  assumes "answering 0 idle_mount (zconn s)" "10 * ms \<le> timeout (zconn s)"
  shows "\<exists>u. am5_fetch s = (Inr \<lparr>zSlewing = False, zAtHome = False, zAltAz = False, zTracking = True\<rparr>, u)"
proof -
  from assms onZ_Get [of 0 idle_mount s "'':GU#''" "''NG''"] obtain s1 where
    s1: "onZ (Get '':GU#'') s = (Inr ''NG'', s1)" "steps 0 idle_mount (zconn s) ['':GU#''] (zconn s1)"
    by (auto simp: idle_mount_def ms_def)
  then have "answering 0 idle_mount (zconn s1)" "10 * ms \<le> timeout (zconn s1)" using assms(2) by (auto simp: steps_def)
  with onZ_Get [of 0 idle_mount s1 "'':GAT#''" "''1''"] obtain s2 where "onZ (Get '':GAT#'') s1 = (Inr ''1'', s2)"
    by (auto simp: idle_mount_def ms_def)
  with s1(1) show ?thesis by (simp add: am5_fetch_def bindE_def)
qed

theorem am5_status_fresh_witness:
  "\<exists>s2. am5_Slewing (snd (am5_Unpark (am5_new (wire (mount_conn 0 idle_mount))))) = (Inr False, s2)
    \<and> am5_Tracking s2 = (Inr True, s2)"
proof -
  let ?s = "am5_new (wire (mount_conn 0 idle_mount))"
  let ?z = "\<lparr>zSlewing = False, zAtHome = False, zAltAz = False, zTracking = True\<rparr>"
  define s1 where "s1 = am5_invalidate (?s\<lparr>zparked := False\<rparr>)"
  have s1: "zcachedAt s1 = None" "zconn s1 = mount_conn 0 idle_mount" by (simp_all add: s1_def am5_invalidate_def)
  then obtain u where u: "am5_fetch s1 = (Inr ?z, u)" using idle_fetch [of s1] by (auto simp: ms_def)
  have un: "am5_Unpark ?s = (Inr (), s1)" by (simp add: am5_Unpark_def s1_def)
  have "am5_status s1 = (Inr ?z, am5_store ?z u)" using zwo.miss [of s1] s1(1) u by simp
  then have sl: "am5_Slewing s1 = (Inr False, am5_store ?z u)" by (simp add: am5_Slewing_def bindE_def)
  from am5_status_fresh [where m = am5_Unpark, OF _ un sl] u have "am5_Tracking (am5_store ?z u) = (Inr True, am5_store ?z u)" by auto
  with sl un show ?thesis by auto
qed

end
