(* ===== verification/Am5Find.thy ===== *)
theory Am5Find
  imports Am5Props Ports
begin

text \<open>
  Finding an AM-series mount on the USB (src/am5/discover.go). The descriptor or, on macOS, the
  name of the port makes a candidate, the reply to \<open>:GVP#\<close> decides. The results: a serial number
  noted on one platform binds the mount on the other, and the mount bound is a candidate that
  answered as an AM mount.
\<close>

definition vendorZWO :: string where "vendorZWO = ''03C3''"
definition productAM5 :: string where "productAM5 = ''4001''"

record Am5Discovered =
  zdPort :: string
  zdSerial :: string
  zdAddr :: string
  zdProduct :: string
  zdVersion :: string

record Am5Filter =
  zfSerial :: string

record Am5Report =
  zrPort :: string
  zrSerial :: string
  zrProduct :: string
  zrVersion :: string

definition am5_Open :: "'w ports \<Rightarrow> string \<Rightarrow> 'w \<Rightarrow> (gerr + am5) \<times> 'w" where
  "am5_Open P name w =
     (case openPort P name 9600 w of
        (Inl e, w) \<Rightarrow> (Inl e, w)
      | (Inr tr, w) \<Rightarrow> (Inr (am5_new tr), w))"

definition serialMatches :: "string \<Rightarrow> string \<Rightarrow> bool" where
  "serialMatches have want =
     (let have = TrimSpace have; want = TrimSpace want
      in if have = [] \<or> want = [] then False
         else if EqualFold have want then True
         else if length have > length want then EqualFold (take (length want) have) want
         else EqualFold (take (length have) want) have)"

definition am5_keep :: "Am5Filter \<Rightarrow> PortInfo \<Rightarrow> bool" where
  "am5_keep f p = (if zfSerial f = [] then True else serialMatches (pSerialNumber p) (zfSerial f))"

fun am5_callouts :: "PortInfo list \<Rightarrow> string list" where
  "am5_callouts [] = []"
| "am5_callouts (p # ps) =
     (if HasPrefix (pName p) ''/dev/cu.'' then TrimPrefix (pName p) ''/dev/cu.'' # am5_callouts ps else am5_callouts ps)"

definition am5_dedupeAliases :: "PortInfo list \<Rightarrow> PortInfo list" where
  "am5_dedupeAliases ps =
     filter (\<lambda>p. \<not> (HasPrefix (pName p) ''/dev/tty.'' \<and> TrimPrefix (pName p) ''/dev/tty.'' \<in> set (am5_callouts ps))) ps"

definition am5_candidates :: "PortInfo list \<Rightarrow> Am5Filter \<Rightarrow> PortInfo list" where
  "am5_candidates ps f = am5_dedupeAliases
     (filter (\<lambda>p. pIsUSB p \<and> EqualFold (pVID p) vendorZWO \<and> EqualFold (pPID p) productAM5 \<and> am5_keep f p) ps
      @ filter (\<lambda>p. pIsUSB p \<and> pVID p = [] \<and> am5_keep f p) ps)"

definition isAMProduct :: "string \<Rightarrow> bool" where
  "isAMProduct s =
     (let s = TrimSpace s
      in if length s < 3 \<or> \<not> EqualFold (take 2 s) ''AM'' then False
         else CHR ''0'' \<le> s ! 2 \<and> s ! 2 \<le> CHR ''9'')"

text \<open>The conversation of a probe: \<open>None\<close> is a device that is no AM mount.\<close>

definition askProduct :: "(am5, string \<times> string) io" where
  "askProduct =
     bindE am5_Product (\<lambda>p.
       if \<not> isAMProduct p then errE (ErrNew [])
       else tryE am5_Firmware (\<lambda>v. okE (p, case v of Inr v \<Rightarrow> v | Inl _ \<Rightarrow> [])))"

definition answered :: "gerr + 'a \<Rightarrow> 'a option" where
  "answered r = (case r of Inl _ \<Rightarrow> None | Inr x \<Rightarrow> Some x)"

definition am5_probe :: "'w ports \<Rightarrow> string \<Rightarrow> 'w \<Rightarrow> (string \<times> string) option \<times> 'w" where
  "am5_probe P name w =
     (case am5_Open P name w of
        (Inl e, w) \<Rightarrow> (None, w)
      | (Inr m, w) \<Rightarrow> (case askProduct m of (r, m) \<Rightarrow> (answered r, closePort P (wire (zconn m)) w)))"

definition am5_Report0 :: Am5Report where
  "am5_Report0 = \<lparr>zrPort = [], zrSerial = [], zrProduct = [], zrVersion = []\<rparr>"

fun am5_find_loop :: "'w ports \<Rightarrow> nat \<Rightarrow> PortInfo list \<Rightarrow> 'w \<Rightarrow> ((gerr + am5) \<times> Am5Report) \<times> 'w" where
  "am5_find_loop P n [] w =
     ((Inl (Errorf ''am5: no mount answered on %d candidate port(s)'' [AInt (int n)] None), am5_Report0), w)"
| "am5_find_loop P n (c # cs) w =
     (case am5_probe P (pName c) w of
        (None, w) \<Rightarrow> am5_find_loop P n cs w
      | (Some (product, version), w) \<Rightarrow>
          (case am5_Open P (pName c) w of
             (m, w) \<Rightarrow> ((m, \<lparr>zrPort = pName c, zrSerial = pSerialNumber c, zrProduct = product, zrVersion = version\<rparr>), w)))"

definition am5_FindMatching :: "'w ports \<Rightarrow> Am5Filter \<Rightarrow> 'w \<Rightarrow> ((gerr + am5) \<times> Am5Report) \<times> 'w" where
  "am5_FindMatching P f w =
     (case listPorts P w of
        (Inl e, w) \<Rightarrow> ((Inl e, am5_Report0), w)
      | (Inr ps, w) \<Rightarrow>
          (let cands = am5_candidates ps f
           in if cands = [] then
                ((Inl (if zfSerial f \<noteq> [] then Errorf ''am5: no USB serial device with serial %q'' [AStr (zfSerial f)] None
                       else Errorf ''am5: no ZWO AM-series mount found (USB %s:%s)'' [AStr vendorZWO, AStr productAM5] None),
                  am5_Report0), w)
              else am5_find_loop P (length cands) cands w))"

fun am5_discover_loop :: "'w ports \<Rightarrow> PortInfo list \<Rightarrow> 'w \<Rightarrow> Am5Discovered list \<times> 'w" where
  "am5_discover_loop P [] w = ([], w)"
| "am5_discover_loop P (p # ps) w =
     (case am5_probe P (pName p) w of
        (None, w) \<Rightarrow> am5_discover_loop P ps w
      | (Some (product, version), w) \<Rightarrow>
          (case am5_discover_loop P ps w of
             (ds, w) \<Rightarrow> (\<lparr>zdPort = pName p, zdSerial = pSerialNumber p, zdAddr = [], zdProduct = product,
                          zdVersion = version\<rparr> # ds, w)))"

definition am5_Discover :: "'w ports \<Rightarrow> 'w \<Rightarrow> (gerr + Am5Discovered list) \<times> 'w" where
  "am5_Discover P w =
     (case listPorts P w of
        (Inl e, w) \<Rightarrow> (Inl e, w)
      | (Inr ps, w) \<Rightarrow> (case am5_discover_loop P (am5_candidates ps \<lparr>zfSerial = []\<rparr>) w of (ds, w) \<Rightarrow> (Inr ds, w)))"


section \<open>Serial numbers across platforms\<close>

definition serial_text :: "string \<Rightarrow> bool" where
  "serial_text s = (s \<noteq> [] \<and> list_all (\<lambda>c. plain_char c \<and> c \<noteq> CHR ''-'') s)"

lemma serial_text_trim: "serial_text s \<Longrightarrow> TrimSpace s = s"
  by (rule TrimSpace_plain) (simp_all add: serial_text_def list_all_iff)

lemma serial_text_snoc: "serial_text s \<Longrightarrow> is_digit d \<Longrightarrow> serial_text (s @ [d])"
  by (simp add: serial_text_def is_digit_iff plain_char_def, elim conjE, cases "d = CHR 0x2D", simp_all)

lemma EqualFold_refl [simp]: "EqualFold s s"
  by (simp add: EqualFold_def)

lemma serialMatches_prefix:
  assumes "serial_text s" "serial_text (s @ t)"
  shows "serialMatches (s @ t) s" "serialMatches s (s @ t)"
  using assms(1) unfolding serialMatches_def Let_def serial_text_trim [OF assms(1)] serial_text_trim [OF assms(2)]
  by (auto simp: serial_text_def)

lemma dedupe_single: "am5_dedupeAliases [p] = [p]"
  by (auto simp: am5_dedupeAliases_def elim!: HasPrefixE)

definition cdc_pair :: "string \<Rightarrow> PortInfo list" where
  "cdc_pair sn = map darwinInfo [''/dev/cu.usbmodem'' @ sn, ''/dev/tty.usbmodem'' @ sn]"

definition cdc_port :: "string \<Rightarrow> string \<Rightarrow> PortInfo" where
  "cdc_port name sn = \<lparr>pName = name, pIsUSB = True, pVID = ''03c3'', pPID = ''4001'', pSerialNumber = sn\<rparr>"

lemma darwin_cdc:
  assumes "serial_text sn"
  shows "darwinInfo (''/dev/cu.usbmodem'' @ sn) = \<lparr>pName = ''/dev/cu.usbmodem'' @ sn, pIsUSB = True, pVID = [], pPID = [], pSerialNumber = sn\<rparr>"
    "darwinInfo (''/dev/tty.usbmodem'' @ sn) = \<lparr>pName = ''/dev/tty.usbmodem'' @ sn, pIsUSB = True, pVID = [], pPID = [], pSerialNumber = sn\<rparr>"
proof -
  have "CHR ''-'' \<notin> set sn" using assms by (auto simp: serial_text_def list_all_iff)
  note n = serialFromName_cdc [OF this, unfolded append_Cons append_Nil]
  show "darwinInfo (''/dev/cu.usbmodem'' @ sn) = \<lparr>pName = ''/dev/cu.usbmodem'' @ sn, pIsUSB = True, pVID = [], pPID = [], pSerialNumber = sn\<rparr>"
    "darwinInfo (''/dev/tty.usbmodem'' @ sn) = \<lparr>pName = ''/dev/tty.usbmodem'' @ sn, pIsUSB = True, pVID = [], pPID = [], pSerialNumber = sn\<rparr>"
    by (simp_all add: darwinInfo_def n HasPrefix_def)
qed

text \<open>What else may be plugged in: ports that are no USB device or carry the descriptor of something else,
  and other AM mounts, in the form of either platform, with a serial number of the same length.\<close>

definition rival :: "string \<Rightarrow> string \<Rightarrow> bool" where
  "rival sn other = (serial_text other \<and> length other = length sn \<and> \<not> EqualFold other sn)"

definition bystander :: "string \<Rightarrow> PortInfo \<Rightarrow> bool" where
  "bystander sn p = (\<not> pIsUSB p
     \<or> pVID p \<noteq> [] \<and> \<not> (EqualFold (pVID p) vendorZWO \<and> EqualFold (pPID p) productAM5)
     \<or> (\<exists>other d. rival sn other \<and> is_digit d \<and> pSerialNumber p \<in> {other, other @ [d]}))"

lemma EqualFold_take: "EqualFold s t \<Longrightarrow> EqualFold (take n s) (take n t)"
  unfolding EqualFold_def ToLower_def by (simp flip: take_map)

lemma EqualFold_length: "EqualFold s t \<Longrightarrow> length s = length t"
  unfolding EqualFold_def ToLower_def by (rule map_eq_imp_length_eq)

lemma rival_unmatched:
  assumes "rival sn other" "serial_text sn" "is_digit d" "is_digit d'" "want \<in> {sn, sn @ [d]}" "have \<in> {other, other @ [d']}"
  shows "\<not> serialMatches have want"
proof -
  have l: "length other = length sn" "\<not> EqualFold other sn" "serial_text other" using assms(1) by (simp_all add: rival_def)
  have t: "TrimSpace have = have" "TrimSpace want = want"
    using assms(2-6) l(3) serial_text_trim serial_text_snoc by auto
  have n: "\<not> EqualFold (take n have) want" if "length sn \<le> n" for n
  proof
    assume e: "EqualFold (take n have) want"
    from EqualFold_take [OF this, of "length sn"] have "EqualFold other sn"
      using assms(5,6) l(1) that by auto
    with l(2) show False by simp
  qed
  have eq: "\<not> EqualFold have want" using n [of "length have"] assms(6) l(1) by auto
  have m: "\<not> EqualFold (take (length have) want) have" if le: "length have \<le> length want"
  proof (cases "length have = length want")
    case True
    with eq show ?thesis by (simp add: EqualFold_def)
  next
    case False
    with le assms(5,6) l(1) have "take (length have) want = sn" "have = other" by auto
    with l(2) show ?thesis by (simp add: EqualFold_def)
  qed
  have "length sn \<le> length want" using assms(5) by auto
  with eq m n show ?thesis unfolding serialMatches_def Let_def t by auto
qed

lemma bystanders_dropped:
  assumes "list_all (bystander sn) ps" "serial_text sn" "is_digit d" "want \<in> {sn, sn @ [d]}"
  shows "filter (\<lambda>p. pIsUSB p \<and> EqualFold (pVID p) vendorZWO \<and> EqualFold (pPID p) productAM5 \<and> am5_keep \<lparr>zfSerial = want\<rparr> p) ps = []"
    "filter (\<lambda>p. pIsUSB p \<and> pVID p = [] \<and> am5_keep \<lparr>zfSerial = want\<rparr> p) ps = []"
proof -
  have w: "want \<noteq> []" using assms(2,4) by (auto simp: serial_text_def)
  have "\<not> (pIsUSB p \<and> (EqualFold (pVID p) vendorZWO \<and> EqualFold (pPID p) productAM5 \<or> pVID p = []) \<and> am5_keep \<lparr>zfSerial = want\<rparr> p)"
    if "p \<in> set ps" for p
  proof -
    have "bystander sn p" using assms(1) that by (simp add: list_all_iff)
    then show ?thesis unfolding bystander_def
    proof (elim disjE)
      assume "\<exists>other d. rival sn other \<and> is_digit d \<and> pSerialNumber p \<in> {other, other @ [d]}"
      then obtain other d' where o: "rival sn other" "is_digit d'" "pSerialNumber p \<in> {other, other @ [d']}" by blast
      from rival_unmatched [OF o(1) assms(2,3) o(2) assms(4) o(3)] w show ?thesis by (simp add: am5_keep_def)
    qed auto
  qed
  then show "filter (\<lambda>p. pIsUSB p \<and> EqualFold (pVID p) vendorZWO \<and> EqualFold (pPID p) productAM5 \<and> am5_keep \<lparr>zfSerial = want\<rparr> p) ps = []"
    "filter (\<lambda>p. pIsUSB p \<and> pVID p = [] \<and> am5_keep \<lparr>zfSerial = want\<rparr> p) ps = []"
    unfolding filter_empty_conv by blast+
qed




section \<open>The mount that is bound\<close>

text \<open>Ports that are probed in turn without an answer of an AM mount.\<close>

fun am5_silent :: "'w ports \<Rightarrow> PortInfo list \<Rightarrow> 'w \<Rightarrow> 'w option" where
  "am5_silent P [] w = Some w"
| "am5_silent P (c # cs) w = (case am5_probe P (pName c) w of (None, w) \<Rightarrow> am5_silent P cs w | (Some _, _) \<Rightarrow> None)"

lemma am5_find_loop_first:
  assumes "am5_find_loop P n cs w = ((Inr m, rep), w')"
  shows "\<exists>pre c post w1 w2 tr. cs = pre @ c # post \<and> am5_silent P pre w = Some w1
    \<and> am5_probe P (pName c) w1 = (Some (zrProduct rep, zrVersion rep), w2)
    \<and> openPort P (pName c) 9600 w2 = (Inr tr, w') \<and> m = am5_new tr \<and> zrPort rep = pName c \<and> zrSerial rep = pSerialNumber c"
  using assms
proof (induction P n cs w rule: am5_find_loop.induct)
  case (2 P n c cs w)
  obtain r w1 where r: "am5_probe P (pName c) w = (r, w1)" by fastforce
  show ?case
  proof (cases r)
    case None
    with 2 r obtain pre c' post w2 w3 tr where "cs = pre @ c' # post" "am5_silent P pre w1 = Some w2"
      "am5_probe P (pName c') w2 = (Some (zrProduct rep, zrVersion rep), w3)"
      "openPort P (pName c') 9600 w3 = (Inr tr, w')" "m = am5_new tr" "zrPort rep = pName c'" "zrSerial rep = pSerialNumber c'"
      by fastforce
    moreover from this have "am5_silent P (c # pre) w = Some w2" using r None by simp
    ultimately show ?thesis by (metis append_Cons)
  next
    case (Some pv)
    with 2(2) r have "c # cs = [] @ c # cs \<and> am5_silent P [] w = Some w
      \<and> am5_probe P (pName c) w = (Some (zrProduct rep, zrVersion rep), w1)
      \<and> (\<exists>tr. openPort P (pName c) 9600 w1 = (Inr tr, w') \<and> m = am5_new tr)
      \<and> zrPort rep = pName c \<and> zrSerial rep = pSerialNumber c"
      by (auto simp: am5_Open_def split: prod.splits sum.splits)
    then show ?thesis by blast
  qed
qed simp

lemma askProduct_is_AM: "askProduct s = (Inr (p, v), s') \<Longrightarrow> isAMProduct p"
  by (auto simp: askProduct_def bindE_def tryE_def split: prod.splits sum.splits if_splits)

lemma am5_probe_is_AM: "am5_probe P n w = (Some (p, v), w') \<Longrightarrow> isAMProduct p"
  by (auto simp: am5_probe_def answered_def dest: askProduct_is_AM split: prod.splits sum.splits)

lemma am5_candidate_kept: "c \<in> set (am5_candidates ps f) \<Longrightarrow> c \<in> set ps \<and> pIsUSB c \<and> am5_keep f c"
  by (auto simp: am5_candidates_def am5_dedupeAliases_def)

text \<open>The mount that \<open>FindMatching\<close> binds is the first candidate that answers as an AM mount:
  its port is a listed USB port that passes the serial filter, every candidate before it was
  probed and stayed silent, and after the probe the port was opened anew, into a fresh driver.
  The report names that port and what it answered.\<close>

theorem am5_binds_first_answering:
  assumes "listPorts P w = (Inr ps, w0)" "am5_FindMatching P f w = ((Inr m, rep), w')"
  shows "\<exists>pre c post w1 w2 tr. am5_candidates ps f = pre @ c # post \<and> am5_silent P pre w0 = Some w1
    \<and> c \<in> set ps \<and> pIsUSB c \<and> (zfSerial f = [] \<or> serialMatches (pSerialNumber c) (zfSerial f))
    \<and> am5_probe P (pName c) w1 = (Some (zrProduct rep, zrVersion rep), w2) \<and> isAMProduct (zrProduct rep)
    \<and> openPort P (pName c) 9600 w2 = (Inr tr, w') \<and> m = am5_new tr \<and> zrPort rep = pName c \<and> zrSerial rep = pSerialNumber c"
proof -
  have "am5_find_loop P (length (am5_candidates ps f)) (am5_candidates ps f) w0 = ((Inr m, rep), w')"
    using assms by (auto simp: am5_FindMatching_def Let_def split: if_splits)
  from am5_find_loop_first [OF this] obtain pre c post w1 w2 tr where
    c: "am5_candidates ps f = pre @ c # post" "am5_silent P pre w0 = Some w1"
      "am5_probe P (pName c) w1 = (Some (zrProduct rep, zrVersion rep), w2)" "openPort P (pName c) 9600 w2 = (Inr tr, w')"
      "m = am5_new tr" "zrPort rep = pName c" "zrSerial rep = pSerialNumber c" by blast
  then have "c \<in> set (am5_candidates ps f)" by simp
  from am5_candidate_kept [OF this] have "c \<in> set ps \<and> pIsUSB c \<and> (zfSerial f = [] \<or> serialMatches (pSerialNumber c) (zfSerial f))"
    by (auto simp: am5_keep_def split: if_splits)
  with c am5_probe_is_AM [OF c(3)] show ?thesis by blast
qed

definition one_am5 :: "unit ports" where
  "one_am5 = \<lparr>listPorts = (\<lambda>w. (Inr [cdc_port ''/dev/ttyACM0'' ''123456''], w)),
     openPort = (\<lambda>n b w. (Inr (wire (mount_conn 0 (\<lambda>h. ''AM5#''))), w)), closePort = (\<lambda>t w. w)\<rparr>"

lemma one_am5_open: "am5_Open one_am5 n () = (Inr (am5_new (wire (mount_conn 0 (\<lambda>h. ''AM5#'')))), ())"
  by (simp add: am5_Open_def one_am5_def)

lemma am5_says:
  assumes "answering 0 (\<lambda>h. ''AM5#'') (zconn s)" "timeout (zconn s) = 3000000000"
  shows "\<exists>s'. onZ (Get cmd) s = (Inr ''AM5'', s') \<and> steps 0 (\<lambda>h. ''AM5#'') (zconn s) [cmd] (zconn s')"
  by (rule onZ_Get [OF assms(1)]) (simp_all add: assms(2) ms_def)

lemma am5_asked: "\<exists>s2. askProduct (am5_new (wire (mount_conn 0 (\<lambda>h. ''AM5#'')))) = (Inr (''AM5'', ''AM5''), s2)"
proof -
  let ?s = "am5_new (wire (mount_conn 0 (\<lambda>h. ''AM5#'')))"
  obtain s1 where s1: "onZ (Get '':GVP#'') ?s = (Inr ''AM5'', s1)" "steps 0 (\<lambda>h. ''AM5#'') (zconn ?s) ['':GVP#''] (zconn s1)"
    using am5_says [of ?s] by auto
  then have "answering 0 (\<lambda>h. ''AM5#'') (zconn s1)" "timeout (zconn s1) = 3000000000" by (simp_all add: steps_def)
  then obtain s2 where "onZ (Get '':GV#'') s1 = (Inr ''AM5'', s2)" using am5_says by blast
  moreover have "isAMProduct ''AM5''" by code_simp
  ultimately show ?thesis
    using s1(1) by (simp add: askProduct_def am5_Product_def am5_Firmware_def bindE_def tryE_def)
qed

lemma one_am5_probe: "am5_probe one_am5 n () = (Some (''AM5'', ''AM5''), ())"
  using am5_asked by (auto simp: am5_probe_def one_am5_open answered_def)

theorem am5_binds_first_answering_witness:
  "\<exists>m rep. am5_FindMatching one_am5 \<lparr>zfSerial = []\<rparr> () = ((Inr m, rep), ())
    \<and> zrPort rep = ''/dev/ttyACM0'' \<and> zrSerial rep = ''123456'' \<and> isAMProduct (zrProduct rep)"
proof -
  have l: "listPorts one_am5 () = (Inr [cdc_port ''/dev/ttyACM0'' ''123456''], ())" by (simp add: one_am5_def)
  have k: "am5_candidates [cdc_port ''/dev/ttyACM0'' ''123456''] \<lparr>zfSerial = []\<rparr> = [cdc_port ''/dev/ttyACM0'' ''123456'']"
    by code_simp
  obtain m rep where m: "am5_FindMatching one_am5 \<lparr>zfSerial = []\<rparr> () = ((Inr m, rep), ())"
    unfolding am5_FindMatching_def l by (simp add: k one_am5_probe one_am5_open Let_def)
  from am5_binds_first_answering [OF l m] have "zrPort rep = ''/dev/ttyACM0''" "zrSerial rep = ''123456''" "isAMProduct (zrProduct rep)"
    by (auto simp: cdc_port_def)
  with m show ?thesis by blast
qed

end
