(* ===== verification/Subnets.thy ===== *)
theory Subnets
  imports GoNum "HOL-Library.Word"
begin

text \<open>
  The addresses the network sweep dials (src/am5/lansweep.go: \<open>sweepHosts\<close>, \<open>subnetHosts\<close>) over
  the addresses and masks of package \<open>net\<close>. The interfaces of the machine are a parameter. The
  results: for a mask of 22 to 30 bits exactly the addresses of the subnet other than its first
  and last, in order; and the sweep lists every address once.
\<close>

unbundle bit_operations_syntax

type_synonym byte8 = "8 word"
type_synonym ip32 = "32 word"

definition sweepMinPrefix :: int where "sweepMinPrefix = 22"

section \<open>Addresses of package net\<close>

text \<open>An address or mask is a byte slice; \<open>nil\<close> is \<open>None\<close>.\<close>

definition v4InV6Prefix :: "byte8 list" where "v4InV6Prefix = replicate 10 0 @ [0xFF, 0xFF]"

definition To4 :: "byte8 list \<Rightarrow> byte8 list option" where
  "To4 ip = (if length ip = 4 then Some ip
             else if length ip = 16 \<and> take 12 ip = v4InV6Prefix then Some (drop 12 ip) else None)"

definition maskIP :: "byte8 list \<Rightarrow> byte8 list \<Rightarrow> byte8 list option" where
  "maskIP ip m =
     (let m = (if length m = 16 \<and> length ip = 4 \<and> take 12 m = replicate 12 0xFF then drop 12 m else m);
          ip = (if length m = 4 \<and> length ip = 16 \<and> take 12 ip = v4InV6Prefix then drop 12 ip else ip)
      in if length ip \<noteq> length m then None else Some (map2 (AND) ip m))"

text \<open>The leading ones of a byte, counted and shifted out; eight rounds empty it.\<close>

fun strip_ones :: "nat \<Rightarrow> byte8 \<Rightarrow> nat \<times> byte8" where
  "strip_ones 0 v = (0, v)"
| "strip_ones (Suc k) v = (if v AND 0x80 \<noteq> 0 then map_prod Suc id (strip_ones k (push_bit 1 v)) else (0, v))"

fun simpleMaskLength :: "byte8 list \<Rightarrow> int" where
  "simpleMaskLength [] = 0"
| "simpleMaskLength (v # vs) =
     (if v = 0xFF then (let n = simpleMaskLength vs in if n = -1 then -1 else 8 + n)
      else case strip_ones 8 v of (n, r) \<Rightarrow> if r \<noteq> 0 \<or> \<not> list_all (\<lambda>b. b = 0) vs then -1 else int n)"

definition maskSize :: "byte8 list \<Rightarrow> int \<times> int" where
  "maskSize m = (let ones = simpleMaskLength m in if ones = -1 then (0, 0) else (ones, int (length m) * 8))"

definition be32 :: "byte8 list \<Rightarrow> ip32" where
  "be32 b = push_bit 24 (ucast (b ! 0)) OR push_bit 16 (ucast (b ! 1)) OR push_bit 8 (ucast (b ! 2)) OR ucast (b ! 3)"

definition ip4_text :: "byte8 list \<Rightarrow> string" where
  "ip4_text b = fmt_d 0 (uint (b ! 0)) @ ''.'' @ fmt_d 0 (uint (b ! 1)) @ ''.'' @ fmt_d 0 (uint (b ! 2)) @ ''.'' @ fmt_d 0 (uint (b ! 3))"

definition host_text :: "ip32 \<Rightarrow> string" where
  "host_text v = ip4_text [ucast (drop_bit 24 v), ucast (drop_bit 16 v), ucast (drop_bit 8 v), ucast v]"

section \<open>The hosts of the local subnets\<close>

function hosts_from :: "ip32 \<Rightarrow> ip32 \<Rightarrow> string list" where
  "hosts_from v e = (if v < e then host_text v # hosts_from (v + 1) e else [])"
  by pat_completeness auto
termination
proof (relation "measure (\<lambda>(v, e). unat e - unat v)", goal_cases)
  case (2 v e)
  then have "unat v + 1 < 2 ^ 32" using unsigned_less [of e, where ?'a = nat] by (simp add: word_less_nat_alt)
  then have "unat (v + 1) = unat v + 1" by (simp add: unat_word_ariths)
  with 2 show ?case by (simp add: word_less_nat_alt)
qed simp

declare hosts_from.simps [simp del]

text \<open>\<open>None\<close> is the panic of indexing a mask that is no IPv4 mask.\<close>

definition subnetHosts :: "byte8 list \<Rightarrow> byte8 list \<Rightarrow> string list option" where
  "subnetHosts ipn m =
     (case Option.bind (maskIP ipn m) To4 of
        None \<Rightarrow> Some []
      | Some ip \<Rightarrow>
          (case To4 m of
             None \<Rightarrow> None
           | Some mask4 \<Rightarrow>
               (let start = be32 ip; e = start OR NOT (be32 mask4) in Some (hosts_from (start + 1) e))))"

datatype ifaddr = IPNet "byte8 list" "byte8 list" | OtherAddr

record iface =
  ifUp :: bool
  ifLoopback :: bool
  ifAddrs :: "gerr + ifaddr list"

fun add_hosts :: "string \<Rightarrow> string list \<Rightarrow> string list \<times> string list \<Rightarrow> string list \<times> string list" where
  "add_hosts self [] acc = acc"
| "add_hosts self (h # hs) (seen, out) =
     (if h = self \<or> h \<in> set seen then add_hosts self hs (seen, out) else add_hosts self hs (h # seen, out @ [h]))"

fun sweep_addrs :: "ifaddr list \<Rightarrow> string list \<times> string list \<Rightarrow> (string list \<times> string list) option" where
  "sweep_addrs [] acc = Some acc"
| "sweep_addrs (OtherAddr # as) acc = sweep_addrs as acc"
| "sweep_addrs (IPNet ip m # as) acc =
     (case To4 ip of
        None \<Rightarrow> sweep_addrs as acc
      | Some ip4 \<Rightarrow>
          (let (ones, bits) = maskSize m
           in if bits \<noteq> 32 \<or> ones < sweepMinPrefix \<or> ones \<ge> 31 then sweep_addrs as acc
              else Option.bind (subnetHosts ip m) (\<lambda>hs. sweep_addrs as (add_hosts (ip4_text ip4) hs acc))))"

fun sweep_ifaces :: "iface list \<Rightarrow> string list \<times> string list \<Rightarrow> (string list \<times> string list) option" where
  "sweep_ifaces [] acc = Some acc"
| "sweep_ifaces (i # is) acc =
     (if \<not> ifUp i \<or> ifLoopback i then sweep_ifaces is acc
      else case ifAddrs i of
        Inl _ \<Rightarrow> sweep_ifaces is acc
      | Inr as \<Rightarrow> Option.bind (sweep_addrs as acc) (sweep_ifaces is))"

definition sweepHosts :: "gerr + iface list \<Rightarrow> (gerr + string list) option" where
  "sweepHosts ifaces =
     (case ifaces of
        Inl e \<Rightarrow> Some (Inl e)
      | Inr is \<Rightarrow> map_option (\<lambda>(_, out). Inr out) (sweep_ifaces is ([], [])))"

section \<open>Masks\<close>

lemma top_bit: "v AND 0x80 \<noteq> 0 \<longleftrightarrow> bit v 7" for v :: byte8
  using bit_iff_and_push_bit_not_eq_0 [of v 7] by simp

lemma strip_ones_spec:
  assumes "strip_ones f v = (k, r)" "f \<le> 8"
  shows "k \<le> f \<and> r = push_bit k v \<and> (\<forall>i<k. bit v (7 - i))"
  using assms
proof (induction f arbitrary: v k r)
  case (Suc f)
  show ?case
  proof (cases "v AND 0x80 \<noteq> 0")
    case True
    with Suc.prems obtain j where j: "strip_ones f (push_bit 1 v) = (j, r)" "k = Suc j"
      by (cases "strip_ones f (push_bit 1 v)") auto
    with Suc have IH: "j \<le> f" "r = push_bit j (push_bit 1 v)" "\<forall>i<j. bit (push_bit 1 v) (7 - i)" by auto
    have "bit v (7 - i)" if "i < k" for i
    proof (cases i)
      case 0
      with True show ?thesis by (simp add: top_bit)
    next
      case (Suc i')
      with IH(3) that j(2) have "bit (push_bit 1 v) (7 - i')" by simp
      then show ?thesis unfolding bit_push_bit_iff using Suc by simp
    qed
    with IH j(2) show ?thesis by simp
  qed (use Suc.prems in simp)
qed auto

lemma byte_mask:
  assumes "strip_ones 8 v = (k, 0)"
  shows "k \<le> 8 \<and> v = NOT (mask (8 - k))"
proof -
  from strip_ones_spec [OF assms] have s: "k \<le> 8" "push_bit k v = 0" "\<forall>i<k. bit v (7 - i)" by auto
  have "bit v i = (\<not> i < 8 - k)" if "i < 8" for i
  proof (cases "i < 8 - k")
    case True
    then have "bit (push_bit k v) (i + k) = bit v i" by (simp add: bit_simps less_diff_conv)
    with s(2) True show ?thesis by simp
  next
    case False
    with that s(3) [rule_format, of "7 - i"] show ?thesis by simp
  qed
  then show ?thesis using s(1) by (auto intro!: bit_word_eqI simp: bit_simps)
qed

lemma simpleMaskLength_ge: "-1 \<le> simpleMaskLength m"
  by (induction m) (auto simp: Let_def split: prod.splits)

lemma simpleMaskLength_cases:
  assumes "simpleMaskLength (v # vs) = n" "0 \<le> n"
  obtains "v = 0xFF" "simpleMaskLength vs = n - 8" "8 \<le> n"
  | k where "k < 8" "n = int k" "v = NOT (mask (8 - k))" "list_all (\<lambda>b. b = 0) vs"
proof (cases "v = 0xFF")
  case True
  have "simpleMaskLength vs \<noteq> -1" "-1 \<le> simpleMaskLength vs"
    using assms True by (auto simp: Let_def simpleMaskLength_ge split: if_splits)
  with assms True that(1) show ?thesis by (auto simp: Let_def split: if_splits)
next
  case False
  obtain k r where r: "strip_ones 8 v = (k, r)" by fastforce
  with assms False have k: "r = 0" "list_all (\<lambda>b. b = 0) vs" "n = int k" by (auto split: if_splits)
  with byte_mask [of v k] r have v: "k \<le> 8" "v = NOT (mask (8 - k))" by auto
  have "k \<noteq> 8" using v(2) False by (auto simp: mask_eq_exp_minus_1)
  with v k that(2) show ?thesis by simp
qed

lemma below_eight: "k < (8::nat) \<Longrightarrow> k \<in> {0, 1, 2, 3, 4, 5, 6, 7}"
  by auto

lemma mask_word_low: "k < 8 \<Longrightarrow> be32 [0xFF, 0xFF, 0xFF, NOT (mask (8 - k))] = NOT (mask (8 - k))"
  by (drule below_eight, elim insertE emptyE; hypsubst; code_simp)

lemma mask_word_mid: "k < 8 \<Longrightarrow> be32 [0xFF, 0xFF, NOT (mask (8 - k)), 0] = NOT (mask (16 - k))"
  by (drule below_eight, elim insertE emptyE; hypsubst; code_simp)

lemma mask_word:
  assumes "length m = 4" "simpleMaskLength m = n" "22 \<le> n" "n < 31"
  shows "be32 m = NOT (mask (nat (32 - n)))"
proof -
  obtain a b c d where m: "m = [a, b, c, d]" using assms(1) by (auto simp: eval_nat_numeral length_Suc_conv)
  have ff: "v = 0xFF \<and> simpleMaskLength vs = l - 8" if "simpleMaskLength (v # vs) = l" "8 \<le> l" for v vs l
    by (rule simpleMaskLength_cases [OF that(1)]) (use that(2) in auto)
  have a: "a = 0xFF \<and> simpleMaskLength [b, c, d] = n - 8"
    by (rule ff [OF assms(2) [unfolded m]]) (use assms(3) in linarith)
  have b: "b = 0xFF \<and> simpleMaskLength [c, d] = n - 8 - 8"
    by (rule ff [OF conjunct2 [OF a]]) (use assms(3) in linarith)
  have "\<exists>k<8. c = 0xFF \<and> d = NOT (mask (8 - k)) \<and> n = 24 + int k \<or> c = NOT (mask (8 - k)) \<and> d = 0 \<and> n = 16 + int k"
  proof (rule simpleMaskLength_cases [OF conjunct2 [OF b]])
    assume c: "c = 0xFF" "simpleMaskLength [d] = n - 8 - 8 - 8" "8 \<le> n - 8 - 8"
    show ?thesis
    proof (rule simpleMaskLength_cases [OF c(2)])
      assume "simpleMaskLength [] = n - 8 - 8 - 8 - 8"
      with assms(4) show ?thesis by simp
    next
      fix k assume k: "k < 8" "n - 8 - 8 - 8 = int k" "d = NOT (mask (8 - k))"
      then have "n = 24 + int k" by linarith
      with k c(1) show ?thesis by blast
    qed (use c(3) in linarith)
  next
    fix k assume k: "k < 8" "n - 8 - 8 = int k" "c = NOT (mask (8 - k))" "list_all (\<lambda>b. b = 0) [d]"
    then have "n = 16 + int k" "d = 0" by simp_all
    with k show ?thesis by blast
  qed (use assms(3) in linarith)
  then obtain k where k: "k < 8" "c = 0xFF \<and> d = NOT (mask (8 - k)) \<and> n = 24 + int k
      \<or> c = NOT (mask (8 - k)) \<and> d = 0 \<and> n = 16 + int k" by blast
  then have "nat (32 - n) = (if c = 0xFF \<and> n = 24 + int k then 8 - k else 16 - k)" by auto
  with k mask_word_low [OF k(1)] mask_word_mid [OF k(1)] show ?thesis unfolding m conjunct1 [OF a] conjunct1 [OF b] by (auto split: if_splits)
qed

section \<open>The addresses of a subnet\<close>

lemma word8_high: "8 \<le> n \<Longrightarrow> \<not> bit w n" for w :: "8 word"
  by (auto dest: bit_imp_le_length)

lemma bit_be32:
  assumes "i < 32"
  shows "bit (be32 [a, b, c, d]) i = bit ([d, c, b, a] ! (i div 8)) (i mod 8)"
proof -
  have q: "i div 8 < 4" using assms by (simp add: div_less_iff_less_mult)
  then have "i div 8 \<in> {0, 1, 2, 3}" by auto
  moreover have "i = 8 * (i div 8) + i mod 8" "i mod 8 < 8" by simp_all
  ultimately obtain q r where "q \<in> {0, 1, 2, 3}" "i = 8 * q + r" "r < 8" "i div 8 = q" "i mod 8 = r" by blast
  then show ?thesis
    by (elim insertE emptyE) (simp_all add: be32_def bit_or_iff bit_push_bit_iff bit_ucast_iff word8_high)
qed

lemma be32_mask: "be32 (map2 (AND) [a, b, c, d] [e, f, g, h]) = be32 [a, b, c, d] AND be32 [e, f, g, h]"
proof (rule bit_word_eqI)
  fix i :: nat
  assume "i < LENGTH(32)"
  then have "i < 32" by simp
  moreover from this have "i div 8 \<in> {0, 1, 2, 3}" by (auto simp: div_less_iff_less_mult)
  ultimately show "bit (be32 (map2 (AND) [a, b, c, d] [e, f, g, h])) i = bit (be32 [a, b, c, d] AND be32 [e, f, g, h]) i"
    by (elim insertE emptyE) (simp_all add: bit_be32 bit_and_iff)
qed

lemma clear_low: "unat (w AND NOT (mask k)) = unat w div 2 ^ k * 2 ^ k" for w :: "32 word"
proof -
  have e: "w AND NOT (mask k) = push_bit k (drop_bit k w)" by (rule bit_word_eqI) (auto simp: bit_simps)
  have "unat w div 2 ^ k * 2 ^ k < 2 ^ 32"
    using le_less_trans [OF div_times_less_eq_dividend unsigned_less [of w, where ?'a = nat]] by simp
  moreover have "take_bit 32 (unat w) = unat w"
    using unsigned_less [of w, where ?'a = nat] by (simp add: take_bit_nat_eq_self)
  ultimately show ?thesis
    unfolding e unsigned_push_bit_eq unsigned_drop_bit_eq by (simp add: push_bit_eq_mult drop_bit_eq_div take_bit_nat_eq_self)
qed

lemma fill_low:
  fixes w :: "32 word"
  assumes "k \<le> 32"
  shows "unat ((w AND NOT (mask k)) OR mask k) = unat w div 2 ^ k * 2 ^ k + (2 ^ k - 1)"
proof -
  let ?x = "w AND NOT (mask k)"
  have "unat w < 2 ^ (32 - k) * 2 ^ k" using unsigned_less [of w, where ?'a = nat] assms by (simp flip: power_add)
  then have "unat w div 2 ^ k < 2 ^ (32 - k)" by (simp add: div_less_iff_less_mult)
  then have "(unat w div 2 ^ k + 1) * 2 ^ k \<le> 2 ^ (32 - k) * 2 ^ k" by (intro mult_right_mono) simp_all
  also have "\<dots> = 2 ^ 32" using assms by (simp flip: power_add)
  finally have "unat w div 2 ^ k * 2 ^ k + 2 ^ k \<le> 2 ^ 32" by simp
  moreover have m: "unat (mask k :: 32 word) = 2 ^ k - 1"
    unfolding take_bit_minus_one_eq_mask [symmetric] unsigned_take_bit_eq unsigned_minus_1_eq_mask take_bit_of_mask
    using assms by (simp add: mask_eq_exp_minus_1)
  moreover have "0 < (2::nat) ^ k" by simp
  ultimately have "unat ?x + unat (mask k :: 32 word) < 2 ^ 32" unfolding clear_low m by linarith
  then have "unat (?x + mask k) = unat ?x + unat (mask k :: 32 word)" by (simp add: unat_word_ariths)
  moreover have "?x + mask k = ?x OR mask k" by (rule disjunctive_add) (auto simp: bit_simps)
  ultimately show ?thesis unfolding clear_low m by simp
qed

lemma hosts_from_upt: "hosts_from v e = map (\<lambda>i. host_text (word_of_nat i)) [unat v ..< unat e]"
proof (induction v e rule: hosts_from.induct)
  case (1 v e)
  show ?case
  proof (cases "v < e")
    case True
    then have "unat v + 1 < 2 ^ 32" using unsigned_less [of e, where ?'a = nat] by (simp add: word_less_nat_alt)
    then have "unat (v + 1) = Suc (unat v)" by (simp add: unat_word_ariths)
    moreover have "unat v < unat e" using True by (simp add: word_less_nat_alt)
    ultimately show ?thesis using 1 True by (subst hosts_from.simps) (simp add: upt_conv_Cons)
  next
    case False
    then show ?thesis by (subst hosts_from.simps) (simp add: word_less_nat_alt)
  qed
qed

lemma be32_bytes: "be32 [ucast (drop_bit 24 v), ucast (drop_bit 16 v), ucast (drop_bit 8 v), ucast v] = v"
proof (rule bit_word_eqI)
  fix i :: nat
  assume "i < LENGTH(32)"
  then have i: "i < 32" by simp
  then have "i div 8 \<in> {0, 1, 2, 3}" by (auto simp: div_less_iff_less_mult)
  moreover have "i = 8 * (i div 8) + i mod 8" "i mod 8 < 8" by simp_all
  ultimately obtain q r where "q \<in> {0, 1, 2, 3}" "i = 8 * q + r" "r < 8" "i div 8 = q" "i mod 8 = r" by blast
  then show "bit (be32 [ucast (drop_bit 24 v), ucast (drop_bit 16 v), ucast (drop_bit 8 v), ucast v]) i = bit v i"
    unfolding bit_be32 [OF i] by (elim insertE emptyE) (simp_all add: bit_simps add.commute)
qed

lemma fmt_d_inj: "0 \<le> a \<Longrightarrow> 0 \<le> b \<Longrightarrow> fmt_d w a = fmt_d w b \<Longrightarrow> a = b"
  by (metis fmt_d_val nat_eq_iff2 int_nat_eq)

lemma fmt_byte_inj: "fmt_d 0 (uint x) = fmt_d 0 (uint y) \<Longrightarrow> x = y" for x y :: byte8
  by (drule fmt_d_inj [rotated 2]) (simp_all add: word_uint_eq_iff)

lemma ip4_text_split: "Split CHR ''.'' (ip4_text b) = map (\<lambda>i. fmt_d 0 (uint (b ! i))) [0, 1, 2, 3]"
  by (simp add: ip4_text_def Split_append Split_none digit_text)

lemma host_text_inj: "host_text v = host_text w \<longleftrightarrow> v = w"
proof
  assume "host_text v = host_text w"
  then have "Split CHR ''.'' (host_text v) = Split CHR ''.'' (host_text w)" by simp
  then have b: "fmt_d 0 (uint (ucast (drop_bit 24 v) :: byte8)) = fmt_d 0 (uint (ucast (drop_bit 24 w) :: byte8))"
    "fmt_d 0 (uint (ucast (drop_bit 16 v) :: byte8)) = fmt_d 0 (uint (ucast (drop_bit 16 w) :: byte8))"
    "fmt_d 0 (uint (ucast (drop_bit 8 v) :: byte8)) = fmt_d 0 (uint (ucast (drop_bit 8 w) :: byte8))"
    "fmt_d 0 (uint (ucast v :: byte8)) = fmt_d 0 (uint (ucast w :: byte8))"
    unfolding host_text_def ip4_text_split by (simp_all only: list.map list.inject nth_Cons_0 nth_Cons_numeral One_nat_def nth_Cons_Suc diff_Suc_1 eval_nat_numeral BitM.simps)
  note b = b [THEN fmt_byte_inj]
  show "v = w" using be32_bytes [of v] be32_bytes [of w] unfolding b by simp
qed simp

lemma maskIP_To4:
  assumes "To4 ip = Some ip4" "length m = 4"
  shows "maskIP ip m = Some (map2 (AND) ip4 m)" "length ip4 = 4"
  using assms by (auto simp: To4_def maskIP_def Let_def split: if_splits)

lemma subnetHosts_upt:
  assumes "To4 ip = Some ip4" "maskSize m = (n, 32)" "22 \<le> n" "n < 31"
  defines "k \<equiv> nat (32 - n)"
  defines "net \<equiv> unat (be32 ip4) div 2 ^ k * 2 ^ k"
  shows "subnetHosts ip m = Some (map (\<lambda>i. host_text (word_of_nat i)) [net + 1 ..< net + (2 ^ k - 1)])"
    "be32 m = NOT (mask k)" "2 \<le> k" "k \<le> 10" "net + 2 ^ k \<le> 2 ^ 32"
proof -
  have m: "length m = 4" "simpleMaskLength m = n"
    using assms(2,3) by (auto simp: maskSize_def Let_def split: if_splits)
  show km: "be32 m = NOT (mask k)" unfolding k_def by (rule mask_word [OF m assms(3,4)])
  show k: "2 \<le> k" "k \<le> 10" using assms(3,4) by (auto simp: k_def)
  note mi = maskIP_To4 [OF assms(1) m(1)]
  obtain a b c d where ip4: "ip4 = [a, b, c, d]" using mi(2) by (auto simp: eval_nat_numeral length_Suc_conv)
  obtain e f g h where mb: "m = [e, f, g, h]" using m(1) by (auto simp: eval_nat_numeral length_Suc_conv)
  have st: "be32 (map2 (AND) ip4 m) = be32 ip4 AND NOT (mask k)"
    unfolding km [symmetric] unfolding ip4 mb by (rule be32_mask)
  have start: "unat (be32 ip4 AND NOT (mask k)) = net" unfolding net_def by (rule clear_low)
  have e: "unat ((be32 ip4 AND NOT (mask k)) OR mask k) = net + (2 ^ k - 1)"
    unfolding net_def by (rule fill_low) (use k in simp)
  then have "net + (2 ^ k - 1) < 2 ^ 32" 
    using unsigned_less [of "(be32 ip4 AND NOT (mask k)) OR mask k", where ?'a = nat] unfolding e by simp
  moreover have "(4::nat) \<le> 2 ^ k" using power_increasing [OF k(1), of "2::nat"] by simp
  ultimately have lt: "net + 1 < 2 ^ 32" "net + 2 ^ k \<le> 2 ^ 32" by linarith+
  then have s1: "unat ((be32 ip4 AND NOT (mask k)) + 1) = net + 1"
    using start by (simp add: unat_word_ariths)
  have "To4 (map2 (AND) ip4 m) = Some (map2 (AND) ip4 m)" "To4 m = Some m" using m(1) mi(2) by (simp_all add: To4_def)
  then show "subnetHosts ip m = Some (map (\<lambda>i. host_text (word_of_nat i)) [net + 1 ..< net + (2 ^ k - 1)])"
    by (simp add: subnetHosts_def mi(1) st km hosts_from_upt s1 e Let_def)
  show "net + 2 ^ k \<le> 2 ^ 32" by (rule lt(2))
qed

text \<open>The usable addresses of a subnet: all but its first and its last.\<close>

definition usable_host :: "ip32 \<Rightarrow> ip32 \<Rightarrow> ip32 \<Rightarrow> bool" where
  "usable_host ip m w = (w AND m = ip AND m \<and> w \<noteq> ip AND m \<and> w \<noteq> (ip AND m) OR NOT m)"

lemma usable_range:
  fixes ip w :: ip32
  assumes "2 \<le> k" "k \<le> 32"
  defines "net \<equiv> unat ip div 2 ^ k * 2 ^ k"
  shows "usable_host ip (NOT (mask k)) w \<longleftrightarrow> net + 1 \<le> unat w \<and> unat w < net + (2 ^ k - 1)"
proof -
  have "usable_host ip (NOT (mask k)) w \<longleftrightarrow> unat (w AND NOT (mask k)) = unat (ip AND NOT (mask k))
      \<and> unat w \<noteq> unat (ip AND NOT (mask k)) \<and> unat w \<noteq> unat ((ip AND NOT (mask k)) OR mask k)"
    by (simp add: usable_host_def word_unat_eq_iff)
  also have "\<dots> \<longleftrightarrow> unat w div 2 ^ k * 2 ^ k = net \<and> unat w \<noteq> net \<and> unat w \<noteq> net + (2 ^ k - 1)"
    using assms(2) by (simp only: clear_low fill_low net_def)
  also have "unat w div 2 ^ k * 2 ^ k = net \<longleftrightarrow> net \<le> unat w \<and> unat w < net + 2 ^ k"
  proof
    assume "unat w div 2 ^ k * 2 ^ k = net"
    moreover have "unat w = unat w div 2 ^ k * 2 ^ k + unat w mod 2 ^ k" by (rule div_mult_mod_eq [symmetric])
    moreover have "unat w mod 2 ^ k < 2 ^ k" by simp
    ultimately show "net \<le> unat w \<and> unat w < net + 2 ^ k" by linarith
  next
    assume "net \<le> unat w \<and> unat w < net + 2 ^ k"
    then obtain r where "unat w = unat ip div 2 ^ k * 2 ^ k + r" "r < 2 ^ k"
      unfolding net_def by (metis add_less_cancel_left le_Suc_ex)
    then show "unat w div 2 ^ k * 2 ^ k = net" by (simp add: net_def)
  qed
  finally show ?thesis by (auto simp: le_less)
qed

lemma subnet_hosts_spec:
  assumes "To4 ip = Some ip4" "maskSize m = (n, 32)" "22 \<le> n" "n < 31"
  shows "\<exists>hs. subnetHosts ip m = Some hs \<and> distinct hs \<and> length hs = 2 ^ nat (32 - n) - 2
    \<and> set hs = host_text ` {w. usable_host (be32 ip4) (be32 m) w}"
proof -
  define k where "k = nat (32 - n)"
  define net where "net = unat (be32 ip4) div 2 ^ k * 2 ^ k"
  note S = subnetHosts_upt [OF assms, folded k_def, folded net_def]
  define I where "I = [net + 1 ..< net + (2 ^ k - 1)]"
  define hs where "hs = map (\<lambda>i. host_text (word_of_nat i)) I"
  have small: "unat (word_of_nat i :: ip32) = i" if "i \<in> set I" for i
    using that S(5) by (auto simp: I_def unsigned_of_nat take_bit_nat_eq_self)
  have "subnetHosts ip m = Some hs" using S(1) by (simp add: hs_def I_def)
  moreover have "inj_on (\<lambda>i. host_text (word_of_nat i)) (set I)"
    by (rule inj_onI) (metis host_text_inj small)
  then have "distinct hs" by (simp add: hs_def distinct_map I_def)
  moreover have "length hs = 2 ^ k - 2" by (simp add: hs_def I_def)
  moreover have "set hs = host_text ` {w. usable_host (be32 ip4) (be32 m) w}"
  proof
    have "usable_host (be32 ip4) (be32 m) (word_of_nat i)" if "i \<in> set I" for i
      unfolding S(2) using usable_range [of k "be32 ip4" "word_of_nat i"] S(3,4) small [OF that] that
      by (simp add: I_def net_def)
    then show "set hs \<subseteq> host_text ` {w. usable_host (be32 ip4) (be32 m) w}" by (auto simp: hs_def)
    have "unat w \<in> set I" if "usable_host (be32 ip4) (be32 m) w" for w
      using that usable_range [of k "be32 ip4" w] S(3,4) unfolding S(2) by (simp add: I_def net_def)
    then show "host_text ` {w. usable_host (be32 ip4) (be32 m) w} \<subseteq> set hs"
      by (force simp: hs_def image_iff)
  qed
  ultimately show ?thesis unfolding k_def by blast
qed

section \<open>The hosts of all interfaces\<close>

lemma host_text_be32:
  assumes "length b = 4"
  shows "host_text (be32 b) = ip4_text b"
proof -
  obtain a b' c d where b: "b = [a, b', c, d]" using assms by (auto simp: eval_nat_numeral length_Suc_conv)
  have "ucast (drop_bit 24 (be32 b)) = a" "ucast (drop_bit 16 (be32 b)) = b'" "ucast (drop_bit 8 (be32 b)) = c" "ucast (be32 b) = d"
    unfolding b by (auto intro!: bit_word_eqI simp: be32_def bit_simps word8_high)
  then show ?thesis by (simp add: host_text_def b)
qed

definition sweepable :: "byte8 list \<Rightarrow> bool" where
  "sweepable m = (snd (maskSize m) = 32 \<and> 22 \<le> fst (maskSize m) \<and> fst (maskSize m) < 31)"

text \<open>\<open>h\<close> is a usable address of a subnet that \<open>a\<close> is in, and not \<open>a\<close> itself.\<close>

definition neighbour :: "ifaddr \<Rightarrow> string \<Rightarrow> bool" where
  "neighbour a h = (\<exists>ip m ip4 w. a = IPNet ip m \<and> To4 ip = Some ip4 \<and> sweepable m
     \<and> usable_host (be32 ip4) (be32 m) w \<and> w \<noteq> be32 ip4 \<and> h = host_text w)"

definition swept_addr :: "iface list \<Rightarrow> ifaddr \<Rightarrow> bool" where
  "swept_addr is a = (\<exists>i\<in>set is. ifUp i \<and> \<not> ifLoopback i \<and> (\<exists>as. ifAddrs i = Inr as \<and> a \<in> set as))"

definition once :: "string list \<times> string list \<Rightarrow> bool" where
  "once acc = (set (fst acc) = set (snd acc) \<and> distinct (snd acc))"

lemma add_hosts_spec:
  "once acc \<Longrightarrow> once (add_hosts self hs acc) \<and> set (snd (add_hosts self hs acc)) = set (snd acc) \<union> (set hs - {self})"
  by (induction self hs acc rule: add_hosts.induct) (auto simp: once_def)

lemma sweep_addrs_spec:
  assumes "once acc"
  shows "\<exists>acc'. sweep_addrs as acc = Some acc' \<and> once acc' \<and> set (snd acc') = set (snd acc) \<union> {h. \<exists>a\<in>set as. neighbour a h}"
  using assms
proof (induction as arbitrary: acc)
  case (Cons a as)
  show ?case
  proof (cases "\<exists>ip m ip4. a = IPNet ip m \<and> To4 ip = Some ip4 \<and> sweepable m")
    case False
    then have "sweep_addrs (a # as) acc = sweep_addrs as acc"
      by (cases a) (auto simp: sweepable_def sweepMinPrefix_def split: option.splits prod.splits)
    moreover from False have "\<not> neighbour a h" for h by (auto simp: neighbour_def)
    ultimately show ?thesis using Cons by auto
  next
    case True
    then obtain ip m ip4 n where a: "a = IPNet ip m" "To4 ip = Some ip4" "maskSize m = (n, 32)" "22 \<le> n" "n < 31" "sweepable m"
      by (auto simp: sweepable_def) (metis prod.collapse)
    from subnet_hosts_spec [OF a(2-5)] obtain hs where
      hs: "subnetHosts ip m = Some hs" "set hs = host_text ` {w. usable_host (be32 ip4) (be32 m) w}" by blast
    define acc1 where "acc1 = add_hosts (ip4_text ip4) hs acc"
    have l4: "length ip4 = 4" using a(2) by (auto simp: To4_def split: if_splits)
    have acc1: "once acc1" "set (snd acc1) = set (snd acc) \<union> (set hs - {ip4_text ip4})"
      using add_hosts_spec [OF Cons.prems] by (simp_all add: acc1_def)
    moreover have "set hs - {ip4_text ip4} = {h. neighbour a h}"
      using a hs(2) by (auto simp: neighbour_def host_text_inj simp flip: host_text_be32 [OF l4])
    moreover have "sweep_addrs (a # as) acc = sweep_addrs as acc1"
      using a hs(1) by (simp add: sweepMinPrefix_def acc1_def)
    ultimately show ?thesis using Cons.IH [OF acc1(1)] by auto
  qed
qed auto

lemma sweep_ifaces_spec:
  assumes "once acc"
  shows "\<exists>acc'. sweep_ifaces is acc = Some acc' \<and> once acc' \<and> set (snd acc') = set (snd acc) \<union> {h. \<exists>a. swept_addr is a \<and> neighbour a h}"
  using assms
proof (induction "is" arbitrary: acc)
  case (Cons i "is")
  show ?case
  proof (cases "\<exists>as. ifUp i \<and> \<not> ifLoopback i \<and> ifAddrs i = Inr as")
    case False
    then have "sweep_ifaces (i # is) acc = sweep_ifaces is acc" by (auto split: sum.splits)
    moreover from False have "swept_addr (i # is) a = swept_addr is a" for a by (auto simp: swept_addr_def)
    ultimately show ?thesis using Cons by auto
  next
    case True
    then obtain as where i: "ifUp i" "\<not> ifLoopback i" "ifAddrs i = Inr as" by blast
    obtain acc1 where acc1: "sweep_addrs as acc = Some acc1" "once acc1"
      "set (snd acc1) = set (snd acc) \<union> {h. \<exists>a\<in>set as. neighbour a h}"
      using sweep_addrs_spec [OF Cons.prems] by blast
    moreover from i have "swept_addr (i # is) a = (a \<in> set as \<or> swept_addr is a)" for a by (auto simp: swept_addr_def)
    ultimately show ?thesis using Cons.IH [OF acc1(2)] i by auto
  qed
qed (auto simp: swept_addr_def)

lemma sweepHosts_lists:
  "\<exists>out. sweepHosts (Inr is) = Some (Inr out) \<and> distinct out \<and> set out = {h. \<exists>a. swept_addr is a \<and> neighbour a h}"
  using sweep_ifaces_spec [of "([], [])" "is"] by (auto simp: sweepHosts_def once_def)

text \<open>C38: which addresses the sweep dials: whatever the interfaces, \<open>sweepHosts\<close> returns, lists no
  address twice, and lists an address exactly when some interface that is up and no loopback has an
  IPv4 address with a mask of 22 to 30 bits, in whose subnet it is, and it is neither that address nor
  the first or last of the subnet. Only the address whose subnet is enumerated is left out: another
  address of this machine in the same subnet is listed and dialled (\<open>sweep_dials_itself\<close>), although
  the comments speak of excluding our own.\<close>

theorem sweepHosts_exact:
  "\<exists>out. sweepHosts (Inr is) = Some (Inr out) \<and> distinct out
    \<and> (\<forall>h. h \<in> set out \<longleftrightarrow> (\<exists>i as ip m ip4 w. i \<in> set is \<and> ifUp i \<and> \<not> ifLoopback i \<and> ifAddrs i = Inr as \<and> IPNet ip m \<in> set as
        \<and> To4 ip = Some ip4 \<and> snd (maskSize m) = 32 \<and> 22 \<le> fst (maskSize m) \<and> fst (maskSize m) < 31
        \<and> usable_host (be32 ip4) (be32 m) w \<and> w \<noteq> be32 ip4 \<and> h = host_text w))"
proof -
  obtain out where out: "sweepHosts (Inr is) = Some (Inr out)" "distinct out"
    "set out = {h. \<exists>a. swept_addr is a \<and> neighbour a h}" using sweepHosts_lists by blast
  show ?thesis
    by (intro exI [of _ out] conjI allI out(1,2), unfold out(3) mem_Collect_eq swept_addr_def neighbour_def sweepable_def) blast
qed

text \<open>A machine with two addresses in one subnet dials itself: each of the two is a neighbour of
  the other.\<close>

definition two_addresses :: "iface list" where
  "two_addresses = map (\<lambda>a. \<lparr>ifUp = True, ifLoopback = False, ifAddrs = Inr [IPNet [192, 168, 1, a] [255, 255, 255, 0]]\<rparr>) [2, 3]"

theorem sweep_dials_itself:
  "\<exists>out. sweepHosts (Inr two_addresses) = Some (Inr out) \<and> {''192.168.1.2'', ''192.168.1.3''} \<subseteq> set out"
proof -
  have n: "neighbour (IPNet [192, 168, 1, a] [255, 255, 255, 0]) (ip4_text [192, 168, 1, b])"
    if "usable_host (be32 [192, 168, 1, a]) (be32 [255, 255, 255, 0]) (be32 [192, 168, 1, b])"
      "be32 [192, 168, 1, b] \<noteq> be32 [192, 168, 1, a]" "sweepable [255, 255, 255, 0]" for a b
    using that by (auto simp: neighbour_def To4_def simp flip: host_text_be32)
  have "neighbour (IPNet [192, 168, 1, 2] [255, 255, 255, 0]) (ip4_text [192, 168, 1, 3])"
    "neighbour (IPNet [192, 168, 1, 3] [255, 255, 255, 0]) (ip4_text [192, 168, 1, 2])"
    by (rule n; code_simp)+
  moreover have "ip4_text [192, 168, 1, 3] = ''192.168.1.3''" "ip4_text [192, 168, 1, 2] = ''192.168.1.2''" by code_simp+
  ultimately show ?thesis
    using sweepHosts_lists [of two_addresses] by (fastforce simp: swept_addr_def two_addresses_def)
qed

end
