(* ===== verification/Am5Sweep.thy ===== *)
theory Am5Sweep
  imports Am5Find Subnets "HOL-Library.Multiset"
begin

text \<open>
  Finding an AM-series mount on the local network (src/am5/lansweep.go): the sweep that dials the
  hosts of the local subnets, at most 64 at a time. Connections are opened and closed by the
  record \<open>tcp\<close> of theory \<open>Ports\<close>. The goroutines of the sweep are the step relation
  \<open>sweep_step\<close>; the conversation with one host is one step.
\<close>

definition sweepTimeout :: int where "sweepTimeout = 400 * ms"
definition sweepConcurrency :: nat where "sweepConcurrency = 64"
definition DefaultTCPPort :: int where "DefaultTCPPort = 4030"

section \<open>The sweep\<close>

definition am5_Dial :: "'w tcp \<Rightarrow> string \<Rightarrow> 'w \<Rightarrow> (gerr + am5) \<times> 'w" where
  "am5_Dial N addr w =
     (case DialTCP N addr (5000 * ms) w of
        (Inl e, w) \<Rightarrow> (Inl e, w)
      | (Inr tr, w) \<Rightarrow> (Inr (am5_new tr), w))"

definition probeAddr :: "'w tcp \<Rightarrow> string \<Rightarrow> 'w \<Rightarrow> (string \<times> string) option \<times> 'w" where
  "probeAddr N addr w =
     (case am5_Dial N addr w of
        (Inl e, w) \<Rightarrow> (None, w)
      | (Inr m, w) \<Rightarrow> (case askProduct m of (r, m) \<Rightarrow> (answered r, netClose N (wire (zconn m)) w)))"

definition JoinHostPort :: "string \<Rightarrow> int \<Rightarrow> string" where
  "JoinHostPort host port =
     (if CHR '':'' \<in> set host then ''['' @ host @ '']:'' @ fmt_d 0 port else host @ '':'' @ fmt_d 0 port)"

text \<open>The conversation of the goroutine of one host.\<close>

definition sweep_host :: "'w tcp \<Rightarrow> int \<Rightarrow> string \<Rightarrow> 'w \<Rightarrow> Am5Discovered list \<times> 'w" where
  "sweep_host N port host w =
     (let addr = JoinHostPort host port
      in case netDial N addr sweepTimeout w of
           (Inl _, w) \<Rightarrow> ([], w)
         | (Inr c, w) \<Rightarrow>
             (case probeAddr N addr (netClose N c w) of
                (None, w) \<Rightarrow> ([], w)
              | (Some (product, version), w) \<Rightarrow>
                  ([\<lparr>zdPort = [], zdSerial = [], zdAddr = addr, zdProduct = product, zdVersion = version\<rparr>], w)))"

text \<open>
  \<open>todo\<close> are the hosts the loop has yet to start; \<open>waiting\<close> the goroutines before the semaphore,
  \<open>admitted\<close> those that hold a place in it and have yet to look at the context, \<open>dialling\<close> those
  that converse; \<open>cancelled\<close> is the state of the context, \<open>found\<close> the channel.
\<close>

record 'w sweep =
  todo :: "string list"
  waiting :: "string multiset"
  admitted :: "string multiset"
  dialling :: "string multiset"
  found :: "Am5Discovered list"
  cancelled :: bool
  world :: 'w

definition sweep_start :: "string list \<Rightarrow> 'w \<Rightarrow> 'w sweep" where
  "sweep_start hosts w =
     \<lparr>todo = hosts, waiting = {#}, admitted = {#}, dialling = {#}, found = [], cancelled = False, world = w\<rparr>"

inductive sweep_step :: "'w tcp \<Rightarrow> int \<Rightarrow> 'w sweep \<Rightarrow> 'w sweep \<Rightarrow> bool" for N :: "'w tcp" and port :: int where
  cancel: "\<not> cancelled s \<Longrightarrow> sweep_step N port s (s\<lparr>cancelled := True\<rparr>)"
| spawn: "todo s = h # hs \<Longrightarrow> \<not> cancelled s \<Longrightarrow>
    sweep_step N port s (s\<lparr>todo := hs, waiting := add_mset h (waiting s)\<rparr>)"
| stop: "todo s = h # hs \<Longrightarrow> cancelled s \<Longrightarrow> sweep_step N port s (s\<lparr>todo := []\<rparr>)"
| acquire: "h \<in># waiting s \<Longrightarrow> size (admitted s) + size (dialling s) < sweepConcurrency \<Longrightarrow>
    sweep_step N port s (s\<lparr>waiting := waiting s - {#h#}, admitted := add_mset h (admitted s)\<rparr>)"
| give_up: "h \<in># admitted s \<Longrightarrow> cancelled s \<Longrightarrow>
    sweep_step N port s (s\<lparr>admitted := admitted s - {#h#}\<rparr>)"
| go_on: "h \<in># admitted s \<Longrightarrow> \<not> cancelled s \<Longrightarrow>
    sweep_step N port s (s\<lparr>admitted := admitted s - {#h#}, dialling := add_mset h (dialling s)\<rparr>)"
| converse: "h \<in># dialling s \<Longrightarrow> sweep_host N port h (world s) = (ds, w) \<Longrightarrow>
    sweep_step N port s (s\<lparr>dialling := dialling s - {#h#}, found := found s @ ds, world := w\<rparr>)"

text \<open>\<open>wg.Wait\<close> returns when every goroutine has ended.\<close>

definition sweep_over :: "'w sweep \<Rightarrow> bool" where
  "sweep_over s = (todo s = [] \<and> waiting s = {#} \<and> admitted s = {#} \<and> dialling s = {#})"

text \<open>\<open>DiscoverNetwork\<close>: its start, and the values it may return.\<close>

definition sweep_port :: "int \<Rightarrow> int" where
  "sweep_port port = (if port \<le> 0 then DefaultTCPPort else port)"

inductive DiscoverNetwork :: "'w tcp \<Rightarrow> gerr + iface list \<Rightarrow> int \<Rightarrow> 'w \<Rightarrow> gerr + Am5Discovered list \<times> bool \<Rightarrow> 'w \<Rightarrow> bool"
  for N :: "'w tcp" and ifaces :: "gerr + iface list" and port :: int and w :: 'w where
  no_interfaces: "sweepHosts ifaces = Some (Inl e) \<Longrightarrow> DiscoverNetwork N ifaces port w (Inl e) w"
| swept: "sweepHosts ifaces = Some (Inr hosts) \<Longrightarrow> (sweep_step N (sweep_port port))\<^sup>*\<^sup>* (sweep_start hosts w) s \<Longrightarrow>
    sweep_over s \<Longrightarrow> DiscoverNetwork N ifaces port w (Inr (found s, cancelled s)) (world s)"


section \<open>What a sweep finds\<close>

text \<open>The hosts answer alike whenever they are asked: \<open>verdict\<close> is what each has to say.\<close>

definition steady :: "'w tcp \<Rightarrow> int \<Rightarrow> (string \<Rightarrow> Am5Discovered list) \<Rightarrow> bool" where
  "steady N port verdict = (\<forall>h w. fst (sweep_host N port h w) = verdict h)"

definition verdicts :: "(string \<Rightarrow> Am5Discovered list) \<Rightarrow> string multiset \<Rightarrow> Am5Discovered multiset" where
  "verdicts v M = (\<Sum>h\<in>#M. mset (v h))"

lemma verdicts_simps [simp]:
  "verdicts v {#} = {#}" "verdicts v (add_mset h M) = mset (v h) + verdicts v M" "verdicts v (M + M') = verdicts v M + verdicts v M'"
  by (simp_all add: verdicts_def)

lemma verdicts_mset: "verdicts v (mset hs) = mset (concat (map v hs))"
  by (induction hs) simp_all

lemma verdicts_drop: "a + (b + c) \<subseteq># t \<Longrightarrow> a + c \<subseteq># t" for t :: "'a multiset"
  by (rule subset_mset.order_trans) simp_all

definition unasked :: "'w sweep \<Rightarrow> string multiset" where
  "unasked s = mset (todo s) + waiting s + admitted s + dialling s"

text \<open>Nothing is lost before a cancellation, nothing is invented after it, and the semaphore holds.\<close>

definition sweep_inv :: "(string \<Rightarrow> Am5Discovered list) \<Rightarrow> string list \<Rightarrow> 'w sweep \<Rightarrow> bool" where
  "sweep_inv v hosts s = (size (admitted s) + size (dialling s) \<le> sweepConcurrency
     \<and> mset (found s) + verdicts v (unasked s) \<subseteq># verdicts v (mset hosts)
     \<and> (\<not> cancelled s \<longrightarrow> mset (found s) + verdicts v (unasked s) = verdicts v (mset hosts)))"

lemma sweep_inv_start: "sweep_inv v hosts (sweep_start hosts w)"
  by (simp add: sweep_inv_def sweep_start_def unasked_def)

lemma sweep_inv_step:
  assumes "sweep_step N port s s'" "steady N port v" "sweep_inv v hosts s"
  shows "sweep_inv v hosts s'"
  using assms(1)
proof cases
  case (converse h ds w)
  then have "v h = ds" using assms(2) by (metis fst_conv steady_def)
  moreover obtain M where "dialling s = add_mset h M" using converse(2) by (metis multi_member_split)
  ultimately show ?thesis using converse(1) assms(3) by (auto simp: sweep_inv_def unasked_def ac_simps)
next
  case (give_up h)
  then obtain M where "admitted s = add_mset h M" by (metis multi_member_split)
  then show ?thesis using give_up assms(3)
    by (auto simp: sweep_inv_def unasked_def ac_simps intro: verdicts_drop [of _ "mset (v h)"])
next
  case (stop h hs)
  then show ?thesis using assms(3)
    by (auto simp: sweep_inv_def unasked_def intro: verdicts_drop [of _ "mset (v h) + verdicts v (mset hs)"] simp: ac_simps)
next
  case (acquire h)
  then obtain M where "waiting s = add_mset h M" by (metis multi_member_split)
  then show ?thesis using acquire assms(3) by (auto simp: sweep_inv_def unasked_def ac_simps)
next
  case (go_on h)
  then obtain M where "admitted s = add_mset h M" by (metis multi_member_split)
  then show ?thesis using go_on assms(3) by (auto simp: sweep_inv_def unasked_def ac_simps)
qed (use assms(3) in \<open>auto simp: sweep_inv_def unasked_def ac_simps\<close>)

definition sweep_work :: "'w sweep \<Rightarrow> nat" where
  "sweep_work s = 4 * length (todo s) + 3 * size (waiting s) + 2 * size (admitted s) + size (dialling s) + (if cancelled s then 0 else 1)"

lemma sweep_step_work: "sweep_step N port s s' \<Longrightarrow> sweep_work s' < sweep_work s"
  by (cases rule: sweep_step.cases) (auto simp: sweep_work_def size_Diff_singleton dest: multi_member_split)

lemma step_like: "sweep_step N port s s' \<Longrightarrow> cancelled s' = cancelled s \<Longrightarrow> \<exists>s'. sweep_step N port s s' \<and> cancelled s' = cancelled s"
  by blast

lemma sweep_not_stuck:
  assumes "\<not> sweep_over s"
  shows "\<exists>s'. sweep_step N port s s' \<and> cancelled s' = cancelled s"
proof -
  consider (todo) h hs where "todo s = h # hs" | (waiting) h where "h \<in># waiting s" "admitted s = {#}" "dialling s = {#}"
    | (admitted) h where "h \<in># admitted s" | (dialling) h where "h \<in># dialling s"
    using assms by (auto simp: sweep_over_def neq_Nil_conv) (metis multiset_nonemptyE)+
  then show ?thesis
  proof cases
    case todo
    show ?thesis
    proof (cases "cancelled s")
      case True
      from sweep_step.stop [OF todo True, of N port] show ?thesis by (rule step_like) simp
    next
      case False
      from sweep_step.spawn [OF todo False, of N port] show ?thesis by (rule step_like) simp
    qed
  next
    case waiting
    then have "size (admitted s) + size (dialling s) < sweepConcurrency" by (simp add: sweepConcurrency_def)
    from sweep_step.acquire [OF waiting(1) this, of N port] show ?thesis by (rule step_like) simp
  next
    case admitted
    show ?thesis
    proof (cases "cancelled s")
      case True
      from sweep_step.give_up [OF admitted True, of N port] show ?thesis by (rule step_like) simp
    next
      case False
      from sweep_step.go_on [OF admitted False, of N port] show ?thesis by (rule step_like) simp
    qed
  next
    case dialling
    obtain ds w where "sweep_host N port h (world s) = (ds, w)" by fastforce
    from sweep_step.converse [OF dialling this] show ?thesis by (rule step_like) simp
  qed
qed

lemma sweep_run:
  assumes "steady N port v" "(sweep_step N port ^^ n) (sweep_start hosts w) s"
  shows "sweep_inv v hosts s \<and> sweep_work s + n \<le> 4 * length hosts + 1"
  using assms(2)
proof (induction n arbitrary: s)
  case 0
  then show ?case using sweep_inv_start by (auto simp: sweep_work_def sweep_start_def)
next
  case (Suc n)
  then obtain t where t: "(sweep_step N port ^^ n) (sweep_start hosts w) t" "sweep_step N port t s" by auto
  with Suc.IH [OF t(1)] sweep_inv_step [OF t(2) assms(1)] sweep_step_work [OF t(2)] show ?case by auto
qed

text \<open>C37: the sweep of the local network. However the goroutines interleave, no more than 64 hosts
  are dialled at once; the sweep never blocks and ends after at most four steps per host; and if
  it was not cancelled and the hosts answer alike whenever they are asked, it found exactly the
  mounts among them, each once, in some order.\<close>

theorem sweep_finds_every_mount:
  assumes "steady N port verdict" "(sweep_step N port ^^ n) (sweep_start hosts w) s"
  shows "size (admitted s) + size (dialling s) \<le> 64 \<and> n \<le> 4 * length hosts + 1
    \<and> (sweep_over s \<or> (\<exists>s'. sweep_step N port s s' \<and> cancelled s' = cancelled s))
    \<and> mset (found s) \<subseteq># mset (concat (map verdict hosts))
    \<and> (sweep_over s \<longrightarrow> \<not> cancelled s \<longrightarrow> mset (found s) = mset (concat (map verdict hosts)))"
proof -
  from sweep_run [OF assms] have inv: "sweep_inv verdict hosts s" and n: "n \<le> 4 * length hosts + 1" by auto
  have "mset (found s) \<subseteq># verdicts verdict (mset hosts)"
    using inv verdicts_drop [of "mset (found s)" "verdicts verdict (unasked s)" "{#}"] by (simp add: sweep_inv_def)
  moreover have "mset (found s) = verdicts verdict (mset hosts)" if "sweep_over s" "\<not> cancelled s"
    using inv that by (auto simp: sweep_inv_def sweep_over_def unasked_def)
  ultimately show ?thesis
    using inv n sweep_not_stuck [of s] by (auto simp: sweep_inv_def sweepConcurrency_def verdicts_mset)
qed

definition am5_net :: "unit tcp" where
  "am5_net = \<lparr>netDial = (\<lambda>a t w. (Inr (wire (mount_conn 0 (\<lambda>h. ''AM5#''))), w)), netClose = (\<lambda>c w. w)\<rparr>"

definition am5_at :: "string \<Rightarrow> Am5Discovered list" where
  "am5_at h = [\<lparr>zdPort = [], zdSerial = [], zdAddr = JoinHostPort h 4030, zdProduct = ''AM5'', zdVersion = ''AM5''\<rparr>]"

lemma am5_net_steady: "steady am5_net 4030 am5_at"
proof -
  let ?s = "am5_new (wire (mount_conn 0 (\<lambda>h. ''AM5#'')))"
  obtain s2 where "askProduct ?s = (Inr (''AM5'', ''AM5''), s2)" using am5_asked by blast
  then have "probeAddr am5_net addr () = (Some (''AM5'', ''AM5''), ())" for addr
    by (simp add: probeAddr_def am5_Dial_def DialTCP_def am5_net_def answered_def Let_def)
  then show ?thesis by (simp add: steady_def sweep_host_def am5_at_def Let_def am5_net_def)
qed

theorem sweep_finds_every_mount_witness:
  "\<exists>s. (sweep_step am5_net 4030 ^^ 4) (sweep_start [''10.0.0.2''] ()) s \<and> sweep_over s
    \<and> mset (found s) = mset (am5_at ''10.0.0.2'')"
proof -
  let ?s0 = "sweep_start [''10.0.0.2''] ()"
  define s1 where "s1 = ?s0\<lparr>todo := [], waiting := {#''10.0.0.2''#}\<rparr>"
  define s2 where "s2 = s1\<lparr>waiting := {#}, admitted := {#''10.0.0.2''#}\<rparr>"
  define s3 where "s3 = s2\<lparr>admitted := {#}, dialling := {#''10.0.0.2''#}\<rparr>"
  define s4 where "s4 = s3\<lparr>dialling := {#}, found := am5_at ''10.0.0.2'', world := ()\<rparr>"
  have "sweep_step am5_net 4030 ?s0 s1"
    using sweep_step.spawn [of ?s0 "''10.0.0.2''" "[]" am5_net 4030] by (simp add: s1_def sweep_start_def)
  moreover have "sweep_step am5_net 4030 s1 s2"
    using sweep_step.acquire [of "''10.0.0.2''" s1 am5_net 4030] by (simp add: s1_def s2_def sweep_start_def sweepConcurrency_def)
  moreover have "sweep_step am5_net 4030 s2 s3"
    using sweep_step.go_on [of "''10.0.0.2''" s2 am5_net 4030] by (simp add: s1_def s2_def s3_def sweep_start_def)
  moreover have "sweep_host am5_net 4030 ''10.0.0.2'' () = (am5_at ''10.0.0.2'', ())"
    using am5_net_steady by (auto simp: steady_def intro: prod_eqI)
  then have "sweep_step am5_net 4030 s3 s4"
    using sweep_step.converse [of "''10.0.0.2''" s3 am5_net 4030] by (simp add: s1_def s2_def s3_def s4_def sweep_start_def)
  ultimately have run: "(sweep_step am5_net 4030 ^^ 4) ?s0 s4" by (auto simp: eval_nat_numeral)
  moreover have over: "sweep_over s4" "\<not> cancelled s4" by (simp_all add: sweep_over_def s1_def s2_def s3_def s4_def sweep_start_def)
  ultimately show ?thesis using sweep_finds_every_mount [OF am5_net_steady run] by auto
qed

end
