(* ===== verification/OnStep.thy ===== *)
theory OnStep
  imports StatusCache
begin

text \<open>
  The OnStep driver (src/onstep/onstep.go): the status cache, the decoder of the \<open>:GU#\<close> flags
  and the operations that differ from the common command set. \<open>Open\<close> and \<open>Dial\<close> are in
  theory \<open>Drivers\<close>. The result: after each command the driver overrides
  the getters answer from one new reading.
\<close>

definition statusTTL :: int where "statusTTL = 150 * ms"

record Status =
  stSlewing :: bool
  stTracking :: bool
  stParked :: bool
  stAtHome :: bool
  stAltAz :: bool

definition Status0 :: Status where
  "Status0 = \<lparr>stSlewing = False, stTracking = False, stParked = False, stAtHome = False, stAltAz = False\<rparr>"

record onstep =
  oconn :: conn
  ocached :: Status
  ocachedAt :: "int option"

definition onO :: "(conn, 'a) io \<Rightarrow> (onstep, 'a) io" where
  "onO m = (\<lambda>s. case m (oconn s) of (r, c) \<Rightarrow> (r, s\<lparr>oconn := c\<rparr>))"

definition os_newMount :: "char transport \<Rightarrow> onstep" where
  "os_newMount tr = snd (bindE (ignoreE (onO (Get '':GVP#''))) (\<lambda>_. ignoreE (onO (Get '':GVP#'')))
     \<lparr>oconn = New tr (3000 * ms), ocached = Status0, ocachedAt = None\<rparr>)"

definition os_Product :: "(onstep, string) io" where "os_Product = onO (Get '':GVP#'')"

definition parseGU :: "string \<Rightarrow> Status" where
  "parseGU s =
     (let has = (\<lambda>c. c \<in> set s); n = has CHR ''n''; N = has CHR ''N''; parked = has CHR ''P'';
          st = Status0\<lparr>stParked := parked, stAtHome := has CHR ''H'', stAltAz := has CHR ''A''\<rparr>
      in if \<not> parked then st\<lparr>stSlewing := (n \<and> \<not> N) \<or> has CHR ''I'', stTracking := N \<and> \<not> n\<rparr> else st)"

definition os_clock :: "onstep \<Rightarrow> int" where "os_clock s = now (wire (oconn s))"

definition os_fetch :: "(onstep, Status) io" where
  "os_fetch = bindE (onO (Get '':GU#'')) (\<lambda>gu. okE (parseGU gu))"

definition os_store :: "Status \<Rightarrow> onstep \<Rightarrow> onstep" where
  "os_store v s = s\<lparr>ocached := v, ocachedAt := Some (os_clock s)\<rparr>"

definition os_status :: "(onstep, Status) io" where
  "os_status = (\<lambda>s.
     if (case ocachedAt s of None \<Rightarrow> False | Some t \<Rightarrow> os_clock s - t < statusTTL) then okE (ocached s) s
     else bindE os_fetch (\<lambda>v. bindE (modE (os_store v)) (\<lambda>_. okE v)) s)"

definition os_invalidate :: "onstep \<Rightarrow> onstep" where
  "os_invalidate s = s\<lparr>ocachedAt := None\<rparr>"

definition os_Slewing :: "(onstep, bool) io" where "os_Slewing = bindE os_status (\<lambda>s. okE (stSlewing s))"
definition os_Tracking :: "(onstep, bool) io" where "os_Tracking = bindE os_status (\<lambda>s. okE (stTracking s))"
definition os_AtPark :: "(onstep, bool) io" where "os_AtPark = bindE os_status (\<lambda>s. okE (stParked s))"
definition os_AtHome :: "(onstep, bool) io" where "os_AtHome = bindE os_status (\<lambda>s. okE (stAtHome s))"

definition os_ack :: "(onstep, bool) io \<Rightarrow> (onstep, unit) io" where
  "os_ack m = bindE m (\<lambda>b. if b then okE () else errE (Errorf ''onstep: mount rejected command'' [] None))"

definition okByte :: "string \<Rightarrow> char \<Rightarrow> (onstep, unit) io" where
  "okByte cmd success = bindE (onO (AckByte cmd)) (\<lambda>b.
     if b \<noteq> success then errE (Errorf ''onstep: %s rejected (reply %q)'' [AStr cmd, AStr (rune_str b)] None) else okE ())"

definition os_SetTracking :: "bool \<Rightarrow> (onstep, unit) io" where
  "os_SetTracking b = bindE (okByte (if b then '':Te#'' else '':Td#'') CHR ''0'') (\<lambda>_. modE os_invalidate)"

definition os_SlewToTarget :: "(onstep, unit) io" where
  "os_SlewToTarget = bindE (onO SlewToTarget) (\<lambda>_. modE os_invalidate)"

definition os_SyncToTarget :: "(onstep, string) io" where
  "os_SyncToTarget = bindE (onO SyncToTarget) (\<lambda>s. bindE (modE os_invalidate) (\<lambda>_. okE s))"

definition os_Park :: "(onstep, unit) io" where
  "os_Park = bindE (onO (Blind '':hP#'')) (\<lambda>_. modE os_invalidate)"

definition os_Unpark :: "(onstep, unit) io" where
  "os_Unpark = bindE (okByte '':hR#'' CHR ''1'') (\<lambda>_. modE os_invalidate)"

definition os_FindHome :: "(onstep, unit) io" where
  "os_FindHome = bindE (onO (Blind '':hC#'')) (\<lambda>_. modE os_invalidate)"

definition os_PierSide :: "(onstep, PierSide) io" where
  "os_PierSide = bindE os_status (\<lambda>s.
     if stAltAz s then okE PierUnknown
     else bindE (onO (Get '':Gm#'')) (\<lambda>res.
       if CHR ''W'' \<in> set res then okE PierWest
       else if CHR ''E'' \<in> set res then okE PierEast
       else okE PierUnknown))"

definition os_dms :: "f64 \<Rightarrow> nat \<Rightarrow> string" where
  "os_dms deg degWidth =
     (let (sign, deg) = (if flt deg (Fin 0) then (CHR ''-'', fneg deg) else (CHR ''+'', deg));
          t = int_of_f64 (fadd (fmul deg (Fin 3600)) (Fin (1 / 2)))
      in [sign] @ fmt_d degWidth (go_quot t 3600) @ '':'' @ fmt_d 2 (go_rem (go_quot t 60) 60) @ '':'' @ fmt_d 2 (go_rem t 60))"

definition os_SetSiteLatitude :: "f64 \<Rightarrow> (onstep, unit) io" where
  "os_SetSiteLatitude deg = os_ack (onO (Ack ('':St'' @ os_dms deg 2 @ ''#'')))"

definition os_SetSiteLongitude :: "f64 \<Rightarrow> (onstep, unit) io" where
  "os_SetSiteLongitude deg = os_ack (onO (Ack ('':Sg'' @ os_dms (fneg deg) 3 @ ''#'')))"

definition os_SetSiteElevation :: "f64 \<Rightarrow> (onstep, unit) io" where
  "os_SetSiteElevation meters = os_ack (onO (Ack ('':Sev'' @ fmt_f True 7 1 meters @ ''#'')))"

definition os_SetUTC :: "gotime \<Rightarrow> (onstep, unit) io" where
  "os_SetUTC t =
     bindE (os_ack (onO (Ack '':SG+00:00#''))) (\<lambda>_.
     bindE (os_ack (onO (Ack ('':SC'' @ Format_date (fst t) @ ''#'')))) (\<lambda>_.
     os_ack (onO (Ack ('':SL'' @ Format_clock (fst t) @ ''#'')))))"

definition os_rateIndex :: "Rate \<Rightarrow> int" where
  "os_rateIndex r = (if r = RateGuide then 2 else if r = RateCenter then 5 else if r = RateFind then 7 else 9)"

definition os_SetSlewRateIndex :: "int \<Rightarrow> (onstep, unit) io" where
  "os_SetSlewRateIndex i =
     (let i = (if i < 0 then 0 else if i > 9 then 9 else i) in onO (Blind ('':R'' @ fmt_d 0 i @ ''#'')))"

definition os_SetRate :: "Rate \<Rightarrow> (onstep, unit) io" where
  "os_SetRate r = os_SetSlewRateIndex (os_rateIndex r)"

definition os_axisDir :: "Axis \<Rightarrow> bool \<Rightarrow> Direction" where
  "os_axisDir a positive =
     (if a = AxisPrimary \<and> positive then East
      else if a = AxisPrimary then West
      else if positive then North
      else South)"

definition os_MoveAxis :: "Axis \<Rightarrow> bool \<Rightarrow> Rate \<Rightarrow> (onstep, unit) io" where
  "os_MoveAxis a positive r = bindE (os_SetRate r) (\<lambda>_. onO (Move (os_axisDir a positive)))"

definition MountType :: "(onstep, string) io" where "MountType = onO (Get '':GXEM#'')"
definition os_SetHome :: "(onstep, unit) io" where "os_SetHome = onO (Blind '':hF#'')"
definition SetParkHere :: "(onstep, unit) io" where "SetParkHere = okByte '':hQ#'' CHR ''1''"

definition SetCustomTrackRate :: "f64 \<Rightarrow> f64 \<Rightarrow> (onstep, unit) io" where
  "SetCustomTrackRate raRate decRate =
     bindE (okByte ('':RA'' @ fmt_f False 4 4 raRate @ ''#'') CHR ''0'') (\<lambda>_.
     okByte ('':RE'' @ fmt_f False 4 4 decRate @ ''#'') CHR ''0'')"

section \<open>The cache\<close>

interpretation os: status_cache os_status os_invalidate os_fetch os_store ocachedAt ocached os_clock
    "\<lambda>s. statusTTL" "\<lambda>s. sent (oconn s)"
  by unfold_locales
     (auto simp: os_status_def os_store_def os_invalidate_def os_clock_def bindE_def statusTTL_def ms_def
       split: prod.split sum.split)

lemma os_motions_discard:
  "discards ocachedAt (os_SetTracking b)" "discards ocachedAt os_SlewToTarget" "discards ocachedAt os_SyncToTarget"
  "discards ocachedAt os_Park" "discards ocachedAt os_Unpark" "discards ocachedAt os_FindHome"
  unfolding os_SetTracking_def os_SlewToTarget_def os_SyncToTarget_def os_Park_def os_Unpark_def os_FindHome_def
  by (intro discards_bind os.discards_invalidate)+

lemma os_fetch_reads: "os_fetch s = (Inr v, u) \<longleftrightarrow> (\<exists>gu. onO (Get '':GU#'') s = (Inr gu, u) \<and> v = parseGU gu)"
  by (auto simp: os_fetch_def bindE_def split: prod.splits sum.splits)

text \<open>One \<open>:GU#\<close> reading after these commands: after a successful \<open>SetTracking\<close>, \<open>SlewToTarget\<close>,
  \<open>Park\<close>, \<open>Unpark\<close> or \<open>FindHome\<close> the next getter asks the mount, and the getters that follow it at once
  decode the same reply with nothing sent: parked wins over the motion flags, \<open>n\<close> alone is slewing,
  \<open>N\<close> alone is tracking, \<open>I\<close> is the way to the park position.\<close>

theorem os_status_fresh:
  assumes "m \<in> {os_SetTracking b, os_SlewToTarget, os_Park, os_Unpark, os_FindHome}" "m s = (Inr (), s1)"
    "os_Slewing s1 = (Inr v, s2)"
  shows "\<exists>gu u. onO (Get '':GU#'') s1 = (Inr gu, u)
    \<and> (v \<longleftrightarrow> CHR ''P'' \<notin> set gu \<and> (CHR ''n'' \<in> set gu \<and> CHR ''N'' \<notin> set gu \<or> CHR ''I'' \<in> set gu))
    \<and> os_Tracking s2 = (Inr (CHR ''P'' \<notin> set gu \<and> CHR ''N'' \<in> set gu \<and> CHR ''n'' \<notin> set gu), s2)
    \<and> os_AtPark s2 = (Inr (CHR ''P'' \<in> set gu), s2) \<and> os_AtHome s2 = (Inr (CHR ''H'' \<in> set gu), s2)"
proof -
  have m: "discards ocachedAt m" using assms(1) os_motions_discard by auto
  from assms(3) obtain z where z: "os_status s1 = (Inr z, s2)" "v = stSlewing z"
    by (auto simp: os_Slewing_def elim!: bindE_InrD)
  note f = os.fresh [OF m assms(2) z(1)]
  from f(1) obtain gu u where gu: "onO (Get '':GU#'') s1 = (Inr gu, u)" "z = parseGU gu"
    unfolding os_fetch_reads by blast
  show ?thesis
    by (intro exI [of _ gu] exI [of _ u])
       (auto simp: gu z(2) os_Tracking_def os_AtPark_def os_AtHome_def bindE_def f(2) [unfolded gu(2)] parseGU_def Status0_def Let_def)
qed

text \<open>A mount that is parked once it has been told to.\<close>

theorem os_status_fresh_witness:
  "\<exists>s2. os_Slewing (snd (os_Park \<lparr>oconn = mount_conn 0 (\<lambda>h. if last h = '':GU#'' then ''nNP#'' else []), ocached = Status0, ocachedAt = Some 0\<rparr>))
      = (Inr False, s2) \<and> os_AtPark s2 = (Inr True, s2)"
proof -
  let ?ans = "\<lambda>h. if last h = '':GU#'' then ''nNP#'' else []"
  let ?s = "\<lparr>oconn = mount_conn 0 ?ans, ocached = Status0, ocachedAt = Some 0\<rparr>"
  obtain c where c: "Blind '':hP#'' (mount_conn 0 ?ans) = (Inr (), c)" "steps 0 ?ans (mount_conn 0 ?ans) ['':hP#''] c"
    using Blind_answered [of 0 ?ans "mount_conn 0 ?ans" "'':hP#''"] by auto
  define s1 where "s1 = os_invalidate (?s\<lparr>oconn := c\<rparr>)"
  have park: "os_Park ?s = (Inr (), s1)" using c(1) by (simp add: os_Park_def onO_def bindE_def s1_def)
  have s1: "oconn s1 = c" "ocachedAt s1 = None" by (simp_all add: s1_def os_invalidate_def)
  have "answering 0 ?ans c" "timeout c = 3000000000" using c(2) by (simp_all add: steps_def)
  then obtain c2 where "Get '':GU#'' c = (Inr ''nNP'', c2)" using Get_answered [of 0 ?ans c "'':GU#''" "''nNP''"] by (auto simp: ms_def)
  then have get: "onO (Get '':GU#'') s1 = (Inr ''nNP'', s1\<lparr>oconn := c2\<rparr>)" by (simp add: onO_def s1)
  then have "os_fetch s1 = (Inr (parseGU ''nNP''), s1\<lparr>oconn := c2\<rparr>)" by (simp add: os_fetch_def bindE_def)
  then have "os_status s1 = (Inr (parseGU ''nNP''), os_store (parseGU ''nNP'') (s1\<lparr>oconn := c2\<rparr>))"
    using os.miss [of s1] s1(2) by simp
  then have sl: "os_Slewing s1 = (Inr False, os_store (parseGU ''nNP'') (s1\<lparr>oconn := c2\<rparr>))"
    by (simp add: os_Slewing_def bindE_def parseGU_def Status0_def)
  from os_status_fresh [where m = os_Park, OF _ park sl] get sl park show ?thesis by auto
qed

end
