(* ===== verification/TenCore.thy ===== *)
theory TenCore
  imports StatusCache
begin

text \<open>
  The 10Micron driver (src/tenmicron): connecting, the cached \<open>:Ginfo#\<close> status, targets and slews,
  manual motion with its local flags, parking, homing, tracking and guiding. \<open>Connect\<close> is modelled
  from the moment the TCP connection stands; dialling and closing it are in theory \<open>Drivers\<close>. Text is ASCII in \<open>ToUpper\<close>.
\<close>

section \<open>Versions (version.go)\<close>

datatype Version = Version (Major: int) (Minor: int) (Fix: int)

definition Version0 :: Version where "Version0 = Version 0 0 0"

fun version_atLeast :: "Version \<Rightarrow> int \<Rightarrow> int \<Rightarrow> int \<Rightarrow> bool" where
  "version_atLeast (Version a b c) major minor fx =
     (if a \<noteq> major then a > major else if b \<noteq> minor then b > minor else c \<ge> fx)"

definition VersionString :: "Version \<Rightarrow> string" where
  "VersionString v = fmt_d 0 (Major v) @ ''.'' @ fmt_d 0 (Minor v) @ ''.'' @ fmt_d 0 (Fix v)"

definition parseVersion :: "string \<Rightarrow> gerr + Version" where
  "parseVersion s =
     (let s = TrimSpace (TrimSuffix (TrimSpace s) ''#''); parts = Split CHR ''.'' s
      in if length parts < 2 then Inl (Errorf ''gotenmicron: bad firmware version %q'' [AStr s] None)
         else case Atoi (parts ! 0) of
                (_, Some e) \<Rightarrow> Inl (Errorf ''gotenmicron: bad firmware major in %q: %w'' [AStr s] (Some e))
              | (maj, None) \<Rightarrow>
                  (case Atoi (parts ! 1) of
                     (_, Some e) \<Rightarrow> Inl (Errorf ''gotenmicron: bad firmware minor in %q: %w'' [AStr s] (Some e))
                   | (mnr, None) \<Rightarrow> Inr (Version maj mnr (if length parts \<ge> 3 then fst (Atoi (parts ! 2)) else 0))))"

section \<open>Mount classes (system.go)\<close>

definition to_upper :: "char \<Rightarrow> char" where
  "to_upper c = (let n = of_char c :: nat in if 97 \<le> n \<and> n \<le> 122 then char_of (n - 32) else c)"

record MountClass =
  mcProduct :: string
  mcAltAz :: bool
  mcGM4000 :: bool
  mcDDS :: bool

definition parseMountClass :: "string \<Rightarrow> MountClass" where
  "parseMountClass product =
     (let p = TrimSpace product; up = map to_upper p
      in \<lparr>mcProduct = p, mcAltAz = Contains up ''AZ'', mcGM4000 = Contains up ''4000'', mcDDS = Contains up ''DDS''\<rparr>)"

section \<open>The driver state\<close>

definition defaultStatusTTL :: int where "defaultStatusTTL = 150 * ms"

record Ginfo =
  gRA :: f64
  gDec :: f64
  gPier :: PierSide
  gAz :: f64
  gAlt :: f64
  Gstat :: int
  gSlew :: bool

definition Ginfo0 :: Ginfo where
  "Ginfo0 = \<lparr>gRA = Fin 0, gDec = Fin 0, gPier = PierUnknown, gAz = Fin 0, gAlt = Fin 0, Gstat = 0, gSlew = False\<rparr>"

record tenmicron =
  tconn :: conn
  firmware :: Version
  mountClass :: MountClass
  tcached :: Ginfo
  tcachedAt :: "int option"
  tstatusTTL :: int
  movingPrimary :: bool
  movingSecondary :: bool
  pulseUntil :: "int option"
  southern :: bool

definition onT :: "(conn, 'a) io \<Rightarrow> (tenmicron, 'a) io" where
  "onT m = (\<lambda>s. case m (tconn s) of (r, c) \<Rightarrow> (r, s\<lparr>tconn := c\<rparr>))"

definition tm_clock :: "tenmicron \<Rightarrow> int" where "tm_clock s = now (wire (tconn s))"

definition SetStatusTTL :: "int \<Rightarrow> tenmicron \<Rightarrow> tenmicron" where
  "SetStatusTTL d s = s\<lparr>tstatusTTL := d\<rparr>"

definition tm_invalidate :: "tenmicron \<Rightarrow> tenmicron" where
  "tm_invalidate s = s\<lparr>tcachedAt := None\<rparr>"

section \<open>Replies\<close>

definition tm_must :: "(tenmicron, bool) io \<Rightarrow> (tenmicron, unit) io" where
  "tm_must m = bindE m (\<lambda>b. if b then okE () else errE (Errorf ''gotenmicron: mount rejected command'' [] None))"

definition tm_b2i :: "bool \<Rightarrow> int" where "tm_b2i b = (if b then 1 else 0)"

definition getInt :: "string \<Rightarrow> (tenmicron, int) io" where
  "getInt cmd = bindE (onT (Get cmd)) (\<lambda>s. liftE (val_err (Atoi (TrimSpace s))))"

definition getFloat :: "string \<Rightarrow> (tenmicron, f64) io" where
  "getFloat cmd = bindE (onT (Get cmd)) (\<lambda>s. liftE (val_err (ParseFloat64 (TrimSpace s))))"

definition getBool :: "string \<Rightarrow> (tenmicron, bool) io" where
  "getBool cmd = bindE (onT (Get cmd)) (\<lambda>s. okE (TrimSpace s = ''1''))"

definition getBoolByte :: "string \<Rightarrow> (tenmicron, bool) io" where
  "getBoolByte cmd = bindE (onT (AckByte cmd)) (\<lambda>b. okE (b = CHR ''1''))"

definition getAngle :: "string \<Rightarrow> (tenmicron, f64) io" where
  "getAngle cmd = bindE (onT (Get cmd)) (\<lambda>s. liftE (ParseSexagesimal s))"

definition getLimitDeg :: "string \<Rightarrow> (tenmicron, f64) io" where
  "getLimitDeg cmd = bindE (onT (Get cmd)) (\<lambda>s. liftE (val_err (ParseFloat64 (TrimSuffix (TrimSpace s) ''*''))))"

section \<open>The status (tenmicron.go)\<close>

definition GstatTracking :: int where "GstatTracking = 0"
definition GstatStopped :: int where "GstatStopped = 1"
definition GstatParking :: int where "GstatParking = 2"
definition GstatUnparking :: int where "GstatUnparking = 3"
definition GstatSlewingHome :: int where "GstatSlewingHome = 4"
definition GstatParked :: int where "GstatParked = 5"
definition GstatSlewing :: int where "GstatSlewing = 6"
definition GstatNotTracking :: int where "GstatNotTracking = 7"
definition GstatMotorsCold :: int where "GstatMotorsCold = 8"
definition GstatOutOfLimits :: int where "GstatOutOfLimits = 9"
definition GstatFollowingSat :: int where "GstatFollowingSat = 10"
definition GstatNeedsUserOK :: int where "GstatNeedsUserOK = 11"
definition GstatDDSNoPower :: int where "GstatDDSNoPower = 12"
definition GstatDDSMonitor :: int where "GstatDDSMonitor = 13"
definition GstatDDSAutotune :: int where "GstatDDSAutotune = 14"
definition GstatUnknown :: int where "GstatUnknown = 98"
definition GstatError :: int where "GstatError = 99"

definition IsTracking :: "Ginfo \<Rightarrow> bool" where
  "IsTracking s = (Gstat s \<in> {GstatTracking, GstatOutOfLimits, GstatFollowingSat})"

definition IsSlewing :: "Ginfo \<Rightarrow> bool" where
  "IsSlewing s =
     (if Gstat s \<in> {GstatParking, GstatUnparking, GstatSlewingHome, GstatSlewing, GstatDDSAutotune} then True
      else gSlew s)"

definition IsParked :: "Ginfo \<Rightarrow> bool" where "IsParked s = (Gstat s = GstatParked)"

definition parseGinfo :: "string \<Rightarrow> gerr + Ginfo" where
  "parseGinfo s =
     (let f = Split CHR '','' s
      in if length f < 8 then Inl (Errorf ''gotenmicron: short :Ginfo reply %q'' [AStr s] None)
         else case ParseFloat64 (TrimSpace (f ! 0)) of
                (_, Some e) \<Rightarrow> Inl (Errorf ''gotenmicron: :Ginfo RA %q: %w'' [AStr (f ! 0)] (Some e))
              | (ra, None) \<Rightarrow>
                  (case ParseFloat64 (TrimSpace (f ! 1)) of
                     (_, Some e) \<Rightarrow> Inl (Errorf ''gotenmicron: :Ginfo Dec %q: %w'' [AStr (f ! 1)] (Some e))
                   | (dc, None) \<Rightarrow>
                       (let p = TrimSpace (f ! 2)
                        in Inr \<lparr>gRA = ra, gDec = dc,
                                gPier = (if p = ''E'' then PierEast else if p = ''W'' then PierWest else PierUnknown),
                                gAz = fst (ParseFloat64 (TrimSpace (f ! 3))),
                                gAlt = fst (ParseFloat64 (TrimSpace (f ! 4))),
                                Gstat = fst (Atoi (TrimSpace (f ! 6))),
                                gSlew = (fst (Atoi (TrimSpace (f ! 7))) \<noteq> 0)\<rparr>)))"

definition tm_fetch :: "(tenmicron, Ginfo) io" where
  "tm_fetch = bindE (onT (Get '':Ginfo#'')) (\<lambda>raw. liftE (parseGinfo raw))"

definition tm_store :: "Ginfo \<Rightarrow> tenmicron \<Rightarrow> tenmicron" where
  "tm_store v s = s\<lparr>tcached := v, tcachedAt := Some (tm_clock s)\<rparr>"

definition tm_ttl :: "tenmicron \<Rightarrow> int" where
  "tm_ttl s = (if tstatusTTL s \<le> 0 then defaultStatusTTL else tstatusTTL s)"

definition tm_status :: "(tenmicron, Ginfo) io" where
  "tm_status = (\<lambda>s.
     if (case tcachedAt s of None \<Rightarrow> False | Some t \<Rightarrow> tm_clock s - t < tm_ttl s) then okE (tcached s) s
     else bindE tm_fetch (\<lambda>v. bindE (modE (tm_store v)) (\<lambda>_. okE v)) s)"

definition Refresh :: "(tenmicron, Ginfo) io" where
  "Refresh = bindE (modE tm_invalidate) (\<lambda>_. tm_status)"

definition manuallyMoving :: "tenmicron \<Rightarrow> bool" where
  "manuallyMoving s = (movingPrimary s \<or> movingSecondary s)"

definition pierInverted :: "tenmicron \<Rightarrow> bool" where
  "pierInverted s = (southern s \<and> firmware s \<noteq> Version0 \<and> \<not> version_atLeast (firmware s) 2 15 32)"

fun invertPier :: "PierSide \<Rightarrow> PierSide" where
  "invertPier PierEast = PierWest"
| "invertPier PierWest = PierEast"
| "invertPier PierUnknown = PierUnknown"

definition tm_RA :: "(tenmicron, f64) io" where "tm_RA = bindE tm_status (\<lambda>s. okE (gRA s))"
definition tm_Dec :: "(tenmicron, f64) io" where "tm_Dec = bindE tm_status (\<lambda>s. okE (gDec s))"
definition tm_Altitude :: "(tenmicron, f64) io" where "tm_Altitude = bindE tm_status (\<lambda>s. okE (gAlt s))"
definition tm_Azimuth :: "(tenmicron, f64) io" where "tm_Azimuth = bindE tm_status (\<lambda>s. okE (gAz s))"
definition tm_Tracking :: "(tenmicron, bool) io" where "tm_Tracking = bindE tm_status (\<lambda>s. okE (IsTracking s))"
definition tm_AtPark :: "(tenmicron, bool) io" where "tm_AtPark = bindE tm_status (\<lambda>s. okE (IsParked s))"

definition tm_Slewing :: "(tenmicron, bool) io" where
  "tm_Slewing = (\<lambda>s. if manuallyMoving s then okE True s else bindE tm_status (\<lambda>i. okE (IsSlewing i)) s)"

definition tm_PierSide :: "(tenmicron, PierSide) io" where
  "tm_PierSide = bindE tm_status (\<lambda>i. readE (\<lambda>s. if pierInverted s then invertPier (gPier i) else gPier i))"

section \<open>Connecting\<close>

definition tm_new :: "char transport \<Rightarrow> tenmicron" where
  "tm_new tr =
     \<lparr>tconn = New tr (3000 * ms), firmware = Version0,
      mountClass = \<lparr>mcProduct = [], mcAltAz = False, mcGM4000 = False, mcDDS = False\<rparr>,
      tcached = Ginfo0, tcachedAt = None, tstatusTTL = defaultStatusTTL, movingPrimary = False,
      movingSecondary = False, pulseUntil = None, southern = False\<rparr>"

definition ge_sign :: string where "ge_sign = [CHR 0xE2, CHR 0x89, CHR 0xA5]"
definition em_dash :: string where "em_dash = [CHR 0xE2, CHR 0x80, CHR 0x94]"

definition tm_SiteLatitude :: "(tenmicron, f64) io" where "tm_SiteLatitude = getAngle '':Gt#''"

definition tooOld :: "Version \<Rightarrow> gerr" where
  "tooOld v = Errorf (''gotenmicron: firmware %s is too old '' @ em_dash @ '' this driver requires '' @ ge_sign
     @ '' 2.14.9 (for :Ginfo# status)'') [AStr (VersionString v)] None"

definition tm_setup :: "(tenmicron, unit) io" where
  "tm_setup =
     bindE (mapErrE (\<lambda>e. Errorf ''gotenmicron: set ultra-precision: %w'' [] (Some e)) (onT (Blind '':U2#''))) (\<lambda>_.
     bindE (tryE (onT (Get '':GVN#'')) (\<lambda>r. case r of
         Inl _ \<Rightarrow> okE ()
       | Inr v \<Rightarrow> modE (\<lambda>s. s\<lparr>firmware := (case parseVersion v of Inl _ \<Rightarrow> Version0 | Inr w \<Rightarrow> w)\<rparr>))) (\<lambda>_.
     bindE (readE firmware) (\<lambda>fw.
     if fw \<noteq> Version0 \<and> \<not> version_atLeast fw 2 14 9 then errE (tooOld fw)
     else bindE (tryE (onT (Get '':GVP#'')) (\<lambda>r. case r of
         Inl _ \<Rightarrow> okE () | Inr p \<Rightarrow> modE (\<lambda>s. s\<lparr>mountClass := parseMountClass p\<rparr>))) (\<lambda>_.
       tryE tm_SiteLatitude (\<lambda>r. case r of
         Inl _ \<Rightarrow> okE () | Inr lat \<Rightarrow> modE (\<lambda>s. s\<lparr>southern := flt lat (Fin 0)\<rparr>))))))"

definition tm_Connect :: "char transport \<Rightarrow> gerr + tenmicron" where
  "tm_Connect tr = (case tm_setup (tm_new tr) of (Inl e, _) \<Rightarrow> Inl e | (Inr _, m) \<Rightarrow> Inr m)"

definition FirmwareVersion :: "tenmicron \<Rightarrow> Version" where "FirmwareVersion m = firmware m"

definition FirmwareAtLeast :: "tenmicron \<Rightarrow> int \<Rightarrow> int \<Rightarrow> int \<Rightarrow> bool" where
  "FirmwareAtLeast m major minor fx = version_atLeast (firmware m) major minor fx"

definition RASlewRatio :: "tenmicron \<Rightarrow> f64" where
  "RASlewRatio m = (if mcGM4000 (mountClass m) then Fin (3 / 4) else Fin 1)"

section \<open>The cache\<close>

interpretation tm: status_cache tm_status tm_invalidate tm_fetch tm_store tcachedAt tcached tm_clock tm_ttl
    "\<lambda>s. sent (tconn s)"
  by unfold_locales
     (auto simp: tm_status_def tm_store_def tm_invalidate_def tm_clock_def tm_ttl_def bindE_def defaultStatusTTL_def ms_def
       split: prod.split sum.split)

end
