(* ===== verification/TenMotion.thy ===== *)
theory TenMotion
  imports TenCore
begin

text \<open>
  Motion of a 10Micron mount (src/tenmicron: coords.go, motion.go, altaz.go, axis.go, homing.go,
  tracking.go, rates.go and the motion part of tenmicron.go): targets in the ultra-precision text,
  slews, syncs, manual moves with their local flags, parking, homing, tracking and guiding.
\<close>

section \<open>Coordinates (coords.go)\<close>

text \<open>The loop of \<open>encodeSex\<close>: one field, then the separators that are left. The powers of ten
  and sixty the callers use are exact.\<close>

fun encode_fields :: "f64 \<Rightarrow> nat \<Rightarrow> string \<Rightarrow> string \<times> f64" where
  "encode_fields v w [] = (let n = int_of_f64 (f_floor v) in (fmt_d w n, fsub v (f64_of_int n)))"
| "encode_fields v w (c # cs) =
     (let n = int_of_f64 (f_floor v);
          (t, r) = encode_fields (fmul (fsub v (f64_of_int n)) (Fin 60)) 2 cs
      in (fmt_d w n @ [c] @ t, r))"

definition encodeSex :: "f64 \<Rightarrow> string \<Rightarrow> bool \<Rightarrow> nat \<Rightarrow> nat \<Rightarrow> string" where
  "encodeSex x seps forceSign firstWidth decimals =
     (let (sign, x) = (if flt x (Fin 0) then (''-'', fneg x) else if forceSign then (''+'', x) else ([], x));
          x = fadd x (fdiv (Fin (1 / 2)) (fmul (Fin (10 ^ decimals)) (Fin (60 ^ length seps))));
          (t, r) = encode_fields x firstWidth seps
      in sign @ t
         @ (if decimals > 0 then ''.'' @ fmt_d decimals (int_of_f64 (f_floor (fmul r (Fin (10 ^ decimals))))) else []))"

definition hmsPrec :: "f64 \<Rightarrow> nat \<Rightarrow> string" where
  "hmsPrec hours decimals =
     (let hours = fmod hours (Fin 24);
          hours = (if flt hours (Fin 0) then fadd hours (Fin 24) else hours)
      in encodeSex hours ''::'' False 2 decimals)"

definition dmsPrec :: "f64 \<Rightarrow> nat \<Rightarrow> nat \<Rightarrow> bool \<Rightarrow> string" where
  "dmsPrec deg degWidth decimals forceSign = encodeSex deg ''*:'' forceSign degWidth decimals"

definition tm_SetTargetRA :: "f64 \<Rightarrow> (tenmicron, bool) io" where
  "tm_SetTargetRA hours = onT (Ack ('':Sr'' @ hmsPrec hours 2 @ ''#''))"

definition tm_SetTargetDec :: "f64 \<Rightarrow> (tenmicron, bool) io" where
  "tm_SetTargetDec deg = onT (Ack ('':Sd'' @ dmsPrec deg 2 1 True @ ''#''))"

definition tm_dms :: "f64 \<Rightarrow> nat \<Rightarrow> string" where
  "tm_dms deg degWidth =
     (let (sign, deg) = (if flt deg (Fin 0) then (CHR ''-'', fneg deg) else (CHR ''+'', deg));
          t = int_of_f64 (f_round (fmul deg (Fin 3600)))
      in [sign] @ fmt_d degWidth (go_quot t 3600) @ ''*'' @ fmt_d 2 (go_rem (go_quot t 60) 60) @ '':'' @ fmt_d 2 (go_rem t 60))"

section \<open>Slews and syncs\<close>

definition invalidateT :: "(tenmicron, unit) io" where "invalidateT = modE tm_invalidate"

definition slewInvalidate :: "string \<Rightarrow> (tenmicron, unit) io" where
  "slewInvalidate cmd = bindE (onT (Slew cmd)) (\<lambda>_. invalidateT)"

definition blindInvalidate :: "string \<Rightarrow> (tenmicron, unit) io" where
  "blindInvalidate cmd = bindE (onT (Blind cmd)) (\<lambda>_. invalidateT)"

definition tm_SlewToTarget :: "(tenmicron, unit) io" where
  "tm_SlewToTarget = bindE (readE firmware) (\<lambda>fw.
     slewInvalidate (if fw \<noteq> Version0 \<and> \<not> version_atLeast fw 2 11 0 then '':MS#'' else '':MSnf#''))"

definition SlewToTargetFineLimit :: "(tenmicron, unit) io" where "SlewToTargetFineLimit = slewInvalidate '':MS#''"

definition tm_SyncToTarget :: "(tenmicron, string) io" where
  "tm_SyncToTarget = bindE (onT SyncToTarget) (\<lambda>s. bindE invalidateT (\<lambda>_. okE s))"

definition slewSideWest :: int where "slewSideWest = 2"
definition slewSideEast :: int where "slewSideEast = 3"

definition SlewToTargetOnSide :: "PierSide \<Rightarrow> (tenmicron, unit) io" where
  "SlewToTargetOnSide side =
     slewInvalidate ('':MSfs'' @ fmt_d 0 (if side = PierWest then slewSideWest else slewSideEast) @ ''#'')"

definition SlewToTargetNoFineLimit :: "(tenmicron, unit) io" where "SlewToTargetNoFineLimit = slewInvalidate '':MSnf#''"

definition Nudge :: "int \<Rightarrow> int \<Rightarrow> (tenmicron, unit) io" where
  "Nudge raAz decAlt = slewInvalidate ('':NUDGE'' @ fmt_plus_d 5 raAz @ '','' @ fmt_plus_d 5 decAlt @ ''#'')"

definition SlewPolarAlign :: "(tenmicron, unit) io" where "SlewPolarAlign = slewInvalidate '':MSap#''"
definition SlewOrthoAlign :: "(tenmicron, unit) io" where "SlewOrthoAlign = slewInvalidate '':MSao#''"

definition SyncToTargetR :: "(tenmicron, string) io" where
  "SyncToTargetR = bindE (onT (Get '':CMR#'')) (\<lambda>s. bindE invalidateT (\<lambda>_. okE s))"

definition tm_AddAlignmentPoint :: "(tenmicron, unit) io" where
  "tm_AddAlignmentPoint = bindE (onT (Get '':CMS#'')) (\<lambda>s.
     if TrimSpace s \<noteq> ''V'' then errE (Errorf ''gotenmicron: alignment point rejected (%q)'' [AStr s] None)
     else invalidateT)"

section \<open>Horizontal targets (altaz.go)\<close>

definition SetTargetAltitude :: "f64 \<Rightarrow> (tenmicron, bool) io" where
  "SetTargetAltitude deg = onT (Ack ('':Sa'' @ dmsPrec deg 2 1 True @ ''#''))"

definition SetTargetAzimuth :: "f64 \<Rightarrow> (tenmicron, bool) io" where
  "SetTargetAzimuth deg = onT (Ack ('':Sz'' @ dmsPrec deg 3 1 False @ ''#''))"

definition setAltAzTarget :: "f64 \<Rightarrow> f64 \<Rightarrow> (tenmicron, unit) io" where
  "setAltAzTarget altDeg azDeg =
     bindE (SetTargetAltitude altDeg) (\<lambda>b.
     if \<not> b then errE (Errorf ''gotenmicron: target altitude %.4f out of slew range'' [AFlt altDeg] None)
     else bindE (SetTargetAzimuth azDeg) (\<lambda>b.
     if \<not> b then errE (Errorf ''gotenmicron: target azimuth %.4f invalid'' [AFlt azDeg] None)
     else okE ()))"

definition tm_SlewToAltAz :: "f64 \<Rightarrow> f64 \<Rightarrow> (tenmicron, unit) io" where
  "tm_SlewToAltAz altDeg azDeg =
     bindE (setAltAzTarget altDeg azDeg) (\<lambda>_. bindE (onT (Slew '':MA#'')) (\<lambda>_. invalidateT))"

definition SyncToAltAz :: "f64 \<Rightarrow> f64 \<Rightarrow> (tenmicron, string) io" where
  "SyncToAltAz altDeg azDeg = bindE (setAltAzTarget altDeg azDeg) (\<lambda>_. tm_SyncToTarget)"

definition tm_TargetRA :: "(tenmicron, f64) io" where "tm_TargetRA = getAngle '':Gr#''"
definition tm_TargetDec :: "(tenmicron, f64) io" where "tm_TargetDec = getAngle '':Gd#''"
definition TargetAltitude :: "(tenmicron, f64) io" where "TargetAltitude = getAngle '':Ga#''"
definition TargetAzimuth :: "(tenmicron, f64) io" where "TargetAzimuth = getAngle '':Gz#''"

section \<open>Manual motion\<close>

definition tm_setMoving :: "Axis \<Rightarrow> bool \<Rightarrow> tenmicron \<Rightarrow> tenmicron" where
  "tm_setMoving a v s = (if a = AxisPrimary then s\<lparr>movingPrimary := v\<rparr> else s\<lparr>movingSecondary := v\<rparr>)"

definition clearMoving :: "tenmicron \<Rightarrow> tenmicron" where
  "clearMoving s = s\<lparr>movingPrimary := False, movingSecondary := False\<rparr>"

definition tm_Halt :: "(tenmicron, unit) io" where
  "tm_Halt = bindE (onT Halt) (\<lambda>_. modE (\<lambda>s. tm_invalidate (clearMoving s)))"

definition tm_Stop :: "(tenmicron, unit) io" where
  "tm_Stop = bindE (onT (Blind '':STOP#'')) (\<lambda>_. modE (\<lambda>s. tm_invalidate (clearMoving s)))"

definition tm_MoveAxis :: "Axis \<Rightarrow> bool \<Rightarrow> Rate \<Rightarrow> (tenmicron, unit) io" where
  "tm_MoveAxis a positive r =
     bindE (onT (MoveAxis a positive r)) (\<lambda>_. modE (\<lambda>s. tm_invalidate (tm_setMoving a True s)))"

definition tm_StopAxis :: "Axis \<Rightarrow> (tenmicron, unit) io" where
  "tm_StopAxis a = bindE (onT (StopAxis a)) (\<lambda>_. modE (\<lambda>s. tm_invalidate (tm_setMoving a False s)))"

definition SetSpeedCorrection :: "bool \<Rightarrow> (tenmicron, bool) io" where
  "SetSpeedCorrection b = onT (Ack ('':SSC'' @ fmt_d 0 (tm_b2i b) @ ''#''))"

definition SpeedCorrection :: "(tenmicron, bool) io" where "SpeedCorrection = getBoolByte '':GSC#''"

text \<open>\<open>deferE m d\<close>: \<open>d\<close> runs after \<open>m\<close>, whatever \<open>m\<close> returns, and its outcome is dropped.\<close>

definition deferE :: "('s, 'a) io \<Rightarrow> ('s, 'b) io \<Rightarrow> ('s, 'a) io" where
  "deferE m d = tryE m (\<lambda>r. tryE d (\<lambda>_. liftE r))"

definition moveAtRate :: "Axis \<Rightarrow> string \<Rightarrow> Direction \<Rightarrow> (tenmicron, unit) io" where
  "moveAtRate a rateCmd dir =
     bindE (onT (Blind rateCmd)) (\<lambda>_. bindE (onT (Move dir)) (\<lambda>_.
     modE (\<lambda>s. tm_invalidate (tm_setMoving a True s))))"

definition tm_MoveAxisRate :: "Axis \<Rightarrow> bool \<Rightarrow> f64 \<Rightarrow> (tenmicron, unit) io" where
  "tm_MoveAxisRate a positive degPerSec =
     (if fle degPerSec (Fin 0) then tm_StopAxis a
      else if fle (Fin 100) degPerSec
      then errE (Errorf ''gotenmicron: MoveAxis rate %.4f deg/s outside [0, 100)'' [AFlt degPerSec] None)
      else if a = AxisPrimary then
        (let m = moveAtRate a ('':RA'' @ fmt_f False 9 6 degPerSec @ ''#'') (if positive then East else West)
         in tryE SpeedCorrection (\<lambda>r.
              if r = Inr True
              then bindE (SetSpeedCorrection False) (\<lambda>_. deferE m (SetSpeedCorrection True))
              else m))
      else moveAtRate a ('':RE'' @ fmt_f False 9 6 degPerSec @ ''#'') (if positive then North else South))"

definition SwapEastWest :: "(tenmicron, unit) io" where "SwapEastWest = onT (Blind '':EW#'')"
definition SwapNorthSouth :: "(tenmicron, unit) io" where "SwapNorthSouth = onT (Blind '':NS#'')"
definition NoOp :: "(tenmicron, unit) io" where "NoOp = onT (Blind '':P#'')"
definition StopPreHeating :: "(tenmicron, unit) io" where "StopPreHeating = onT (Blind '':STOPPH#'')"
definition UserWait :: "(tenmicron, unit) io" where "UserWait = blindInvalidate '':USERWAIT#''"
definition AuthorizeMovement :: "(tenmicron, unit) io" where "AuthorizeMovement = blindInvalidate '':USEROK#''"

definition SlewInProgress :: "(tenmicron, bool) io" where
  "SlewInProgress = bindE (onT (Get '':D#'')) (\<lambda>s. okE (s \<noteq> []))"

text \<open>The reported side with the correction of \<open>pierInverted\<close>.\<close>

definition correctedPier :: "PierSide \<Rightarrow> (tenmicron, PierSide) io" where
  "correctedPier p = readE (\<lambda>s. if pierInverted s then invertPier p else p)"

definition PointingState :: "(tenmicron, PierSide) io" where
  "PointingState = bindE (onT (Get '':pS#'')) (\<lambda>s.
     if TrimSpace s = ''East'' then correctedPier PierEast
     else if TrimSpace s = ''West'' then correctedPier PierWest
     else okE PierUnknown)"

section \<open>Parking and axis angles (axis.go)\<close>

definition tm_Park :: "(tenmicron, unit) io" where
  "tm_Park = bindE (readE (\<lambda>m. FirmwareAtLeast m 2 9 9)) (\<lambda>saved.
     if saved then bindE (onT (Get '':PsX#'')) (\<lambda>s.
       let r = TrimSpace s
       in if r = ''0'' \<or> r = ''4'' then invalidateT
          else if r = ''1'' then errE (Errorf ''gotenmicron: park target below lower limit'' [] None)
          else if r = ''2'' then errE (Errorf ''gotenmicron: park target above high limit'' [] None)
          else if r = ''3'' then blindInvalidate '':hP#''
          else errE (Errorf ''gotenmicron: :PsX# unexpected reply %q'' [AStr s] None))
     else blindInvalidate '':hP#'')"

definition SlewToHome :: "(tenmicron, unit) io" where "SlewToHome = blindInvalidate '':hP#''"
definition tm_Unpark :: "(tenmicron, unit) io" where "tm_Unpark = blindInvalidate '':PO#''"

definition AxisAnglePrimary :: "(tenmicron, f64) io" where "AxisAnglePrimary = getFloat '':GaXa#''"
definition AxisAngleSecondary :: "(tenmicron, f64) io" where "AxisAngleSecondary = getFloat '':GaXb#''"

definition ErrNoAxisTarget :: gerr where "ErrNoAxisTarget = ErrNew ''gotenmicron: no axis target set''"

definition axisTarget :: "string \<Rightarrow> (tenmicron, f64) io" where
  "axisTarget cmd = bindE (onT (Get cmd)) (\<lambda>s.
     if TrimSpace s = ''E'' then errE ErrNoAxisTarget else liftE (val_err (ParseFloat64 (TrimSpace s))))"

definition TargetAxisAnglePrimary :: "(tenmicron, f64) io" where "TargetAxisAnglePrimary = axisTarget '':QaXa#''"
definition TargetAxisAngleSecondary :: "(tenmicron, f64) io" where "TargetAxisAngleSecondary = axisTarget '':QaXb#''"

definition SetTargetAxisAnglePrimary :: "f64 \<Rightarrow> (tenmicron, bool) io" where
  "SetTargetAxisAnglePrimary deg = onT (Ack ('':SaXa'' @ fmt_f True 9 4 deg @ ''#''))"

definition SetTargetAxisAngleSecondary :: "f64 \<Rightarrow> (tenmicron, bool) io" where
  "SetTargetAxisAngleSecondary deg = onT (Ack ('':SaXb'' @ fmt_f True 9 4 deg @ ''#''))"

definition SlewToAxisTarget :: "(tenmicron, unit) io" where "SlewToAxisTarget = slewInvalidate '':MaX#''"

definition parkCode :: "string \<Rightarrow> (tenmicron, unit) io" where
  "parkCode cmd = bindE (onT (Get cmd)) (\<lambda>s.
     let r = TrimSpace s
     in if r = ''0'' \<or> r = ''4'' then invalidateT
        else if r = ''1'' then errE (Errorf ''gotenmicron: %s target below lower limit'' [AStr cmd] None)
        else if r = ''2'' then errE (Errorf ''gotenmicron: %s target above high limit'' [AStr cmd] None)
        else if r = ''3'' then errE (Errorf ''gotenmicron: %s cannot park in the current mount state'' [AStr cmd] None)
        else errE (Errorf ''gotenmicron: %s unexpected reply %q'' [AStr cmd, AStr s] None))"

definition SlewToAxisTargetAndPark :: "(tenmicron, unit) io" where "SlewToAxisTargetAndPark = parkCode '':PaX#''"

definition SlewToRAAxis :: "(tenmicron, unit) io" where
  "SlewToRAAxis =
     bindE (tm_must (SetTargetAxisAnglePrimary (Fin 90))) (\<lambda>_.
     bindE (tm_must (SetTargetAxisAngleSecondary (Fin 0))) (\<lambda>_. SlewToAxisTarget))"

definition RotateRAAxis :: "f64 \<Rightarrow> (tenmicron, unit) io" where
  "RotateRAAxis deg =
     bindE AxisAngleSecondary (\<lambda>sec.
     bindE (tm_must (SetTargetAxisAnglePrimary deg)) (\<lambda>_.
     bindE (tm_must (SetTargetAxisAngleSecondary sec)) (\<lambda>_. SlewToAxisTarget)))"

definition ParkInPlace :: "(tenmicron, unit) io" where
  "ParkInPlace = bindE (onT (Get '':PiP#'')) (\<lambda>s.
     if TrimSpace s \<noteq> ''1'' then errE (Errorf ''gotenmicron: park-in-place failed (%q)'' [AStr s] None)
     else invalidateT)"

definition ParkToSaved :: "(tenmicron, unit) io" where "ParkToSaved = parkCode '':PsX#''"

definition SaveParkPosition :: "(tenmicron, unit) io" where
  "SaveParkPosition = bindE (onT (AckByte '':PyX#'')) (\<lambda>b.
     if b \<noteq> CHR ''1'' then errE (Errorf ''gotenmicron: :PyX# save-park rejected (reply %q)'' [AStr (rune_str b)] None)
     else invalidateT)"

section \<open>Homing (homing.go)\<close>

type_synonym HomeState = int

definition HomeFailed :: HomeState where "HomeFailed = 0"
definition tm_HomeFound :: HomeState where "tm_HomeFound = 1"
definition HomeInProgress :: HomeState where "HomeInProgress = 2"

definition tm_FindHome :: "(tenmicron, unit) io" where "tm_FindHome = blindInvalidate '':hF#''"
definition SeekHomeAndStore :: "(tenmicron, unit) io" where "SeekHomeAndStore = blindInvalidate '':hS#''"

definition HomeStatus :: "(tenmicron, HomeState) io" where
  "HomeStatus = bindE (onT (AckByte '':h?#'')) (\<lambda>b.
     if b = CHR ''1'' then okE tm_HomeFound else if b = CHR ''2'' then okE HomeInProgress else okE HomeFailed)"

definition tm_AtHome :: "(tenmicron, bool) io" where
  "tm_AtHome = bindE HomeStatus (\<lambda>h. okE (h = tm_HomeFound))"

end
