(* ===== verification/CalendarFacts.thy ===== *)
theory CalendarFacts
  imports Calendar
begin

text \<open>
  The civil calendar: \<open>civil\<close> finds, for every instant, however early or late, the year, the month
  and the day whose midnight precedes it.
\<close>

lemma days_to_year_bounds:
  "146097 * (y - 1) - 699 \<le> 400 * days_to_year y" "400 * days_to_year y \<le> 146097 * (y - 1) + 396"
proof -
  define j where "j = y - 1"
  have m: "4 * (j div 4) = j - j mod 4" "100 * (j div 100) = j - j mod 100" "400 * (j div 400) = j - j mod 400"
    by (simp_all add: minus_mod_eq_mult_div)
  have b: "0 \<le> j mod 4" "j mod 4 < 4" "0 \<le> j mod 100" "j mod 100 < 100" "0 \<le> j mod 400" "j mod 400 < 400"
    by simp_all
  have "400 * days_to_year y = 146000 * j + 100 * (4 * (j div 4)) - 4 * (100 * (j div 100)) + 400 * (j div 400)"
    by (simp add: days_to_year_def j_def)
  also have "\<dots> = 146097 * j - 100 * (j mod 4) + 4 * (j mod 100) - j mod 400" unfolding m by simp
  finally have e: "400 * days_to_year y = 146097 * j - 100 * (j mod 4) + 4 * (j mod 100) - j mod 400" .
  from e b show "146097 * (y - 1) - 699 \<le> 400 * days_to_year y" "400 * days_to_year y \<le> 146097 * (y - 1) + 396"
    unfolding j_def [symmetric] by linarith+
qed

lemma div_step: "0 < m \<Longrightarrow> (j + 1) div m = j div m + (if (j + 1) mod m = 0 then 1 else 0)" for j m :: int
proof -
  assume m: "0 < m"
  define r where "r = j mod m"
  have r: "0 \<le> r" "r < m" "j = m * (j div m) + r" using m by (simp_all add: r_def)
  show ?thesis
  proof (cases "r + 1 = m")
    case True
    then have "j + 1 = m * (j div m + 1)" using r(3) by (simp add: distrib_left)
    then have "(j + 1) div m = j div m + 1" "(j + 1) mod m = 0" using m by simp_all
    then show ?thesis by simp
  next
    case False
    then have "(j + 1) div m = j div m" "(j + 1) mod m = r + 1"
      using int_div_pos_eq [of "j + 1" m "j div m" "r + 1"] int_mod_pos_eq [of "j + 1" m "j div m" "r + 1"] r by auto
    then show ?thesis using r by simp
  qed
qed

lemma days_to_year_step: "days_to_year (y + 1) = days_to_year y + (if is_leap y then 366 else 365)"
proof -
  define j where "j = y - 1"
  have y: "y = j + 1" "y - 1 = j" "y + 1 - 1 = j + 1" by (simp_all add: j_def)
  have "(j + 1) mod 100 mod 4 = (j + 1) mod 4" "(j + 1) mod 400 mod 100 = (j + 1) mod 100"
    by (rule mod_mod_cancel; simp)+
  then have "(j + 1) mod 100 = 0 \<Longrightarrow> (j + 1) mod 4 = 0" "(j + 1) mod 400 = 0 \<Longrightarrow> (j + 1) mod 100 = 0"
    by simp_all
  moreover define A B C where "A \<longleftrightarrow> (j + 1) mod 4 = 0" and "B \<longleftrightarrow> (j + 1) mod 100 = 0" and "C \<longleftrightarrow> (j + 1) mod 400 = 0"
  ultimately have imp: "B \<longrightarrow> A" "C \<longrightarrow> B" by simp_all
  have d: "(j + 1) div 4 = j div 4 + (if A then 1 else 0)" "(j + 1) div 100 = j div 100 + (if B then 1 else 0)"
    "(j + 1) div 400 = j div 400 + (if C then 1 else 0)"
    unfolding A_def B_def C_def by (rule div_step, simp)+
  have "is_leap y = (A \<and> (\<not> B \<or> C))" by (simp add: is_leap_def y(1) A_def B_def C_def)
  then show ?thesis
    unfolding days_to_year_def y(2,3) d using imp by (cases A; cases B; cases C; simp)
qed

lemma year_of_correct: "days_to_year (year_of n) \<le> n" "n < days_to_year (year_of n + 1)"
proof -
  define q where "q = n * 400 div 146097"
  define r where "r = n * 400 mod 146097"
  have "n * 400 = 146097 * q + r" "0 \<le> r" "r < 146097" by (simp_all add: q_def r_def)
  then have q: "146097 * q \<le> n * 400" "n * 400 < 146097 * (q + 1)" unfolding distrib_left by linarith+
  have lo: "days_to_year q \<le> n" using days_to_year_bounds(2) [of q] q unfolding right_diff_distrib distrib_left by linarith
  have hi: "n < days_to_year (q + 3)" using days_to_year_bounds(1) [of "q + 3"] q unfolding right_diff_distrib distrib_left by linarith
  have "[q .. q + 2] = [q, q + 1, q + 2]" by (simp add: upto.simps)
  then have "year_of n = (if days_to_year (q + 2) \<le> n then q + 2 else if days_to_year (q + 1) \<le> n then q + 1 else q)"
    using lo by (simp add: year_of_def Let_def flip: q_def)
  then show "days_to_year (year_of n) \<le> n" "n < days_to_year (year_of n + 1)"
    using lo hi by (auto simp: add.assoc)
qed

definition days_between :: "int \<Rightarrow> int \<Rightarrow> int \<Rightarrow> int" where
  "days_between m m' y = sum_list (map (\<lambda>k. daysIn k y) [m .. m' - 1])"

lemma days_between_refl [simp]: "days_between m m y = 0"
  by (simp add: days_between_def)

lemma days_between_step:
  assumes "m < m'"
  shows "days_between m m' y = daysIn m y + days_between (m + 1) m' y"
proof -
  have "[m .. m' - 1] = m # [m + 1 .. m' - 1]" using assms by (intro upto_rec1) simp
  then show ?thesis by (simp add: days_between_def)
qed

lemma month_from_correct:
  assumes "month_from k m y r = (m', r')" "0 \<le> r"
  shows "m \<le> m' \<and> m' \<le> m + int k \<and> 0 \<le> r' \<and> days_between m m' y + r' = r \<and> (r' < daysIn m' y \<or> m' = m + int k)"
  using assms
proof (induction k m y r rule: month_from.induct)
  case (2 k m y r)
  show ?case
  proof (cases "r < daysIn m y")
    case True
    with "2.prems" have "m' = m" "r' = r" by simp_all
    with True "2.prems"(2) show ?thesis by simp
  next
    case False
    with "2.prems" have "month_from k (m + 1) y (r - daysIn m y) = (m', r')" "0 \<le> r - daysIn m y" by simp_all
    from "2.IH" [OF False this] have IH: "m + 1 \<le> m'" "m' \<le> m + 1 + int k" "0 \<le> r'"
      "days_between (m + 1) m' y + r' = r - daysIn m y" "r' < daysIn m' y \<or> m' = m + 1 + int k" by blast+
    then have "days_between m m' y + r' = r" using days_between_step [of m m' y] by simp
    with IH show ?thesis by auto
  qed
qed auto

lemma days_between_year: "days_between 1 12 y = (if is_leap y then 335 else 334)"
  by (simp add: days_between_def upto.simps daysIn_def)

lemma civil_correct:
  assumes "civil t = (y, m, d)"
  shows "1 \<le> m \<and> m \<le> 12 \<and> 1 \<le> d \<and> d \<le> daysIn m y \<and> DateUTC y m d = t div day_ns * day_ns"
proof -
  define n where "n = t div day_ns + epoch_days"
  obtain m' r where mf: "month_from 11 1 (year_of n) (n - days_to_year (year_of n)) = (m', r)" by fastforce
  from assms mf have e: "y = year_of n" "m = m'" "d = r + 1" by (simp_all add: civil_def Let_def n_def [symmetric])
  note y = year_of_correct [of n, folded e(1)]
  have r: "0 \<le> n - days_to_year y" "n - days_to_year y < (if is_leap y then 366 else 365)"
    using y days_to_year_step [of y] by auto
  from month_from_correct [OF mf [folded e(1)] r(1)] have M: "1 \<le> m" "m \<le> 12" "0 \<le> r" "days_between 1 m y + r = n - days_to_year y"
    "r < daysIn m y \<or> m = 12" by (auto simp: e)
  have "r < daysIn m y"
  proof (cases "m = 12")
    case True
    with M(4) r(2) days_between_year [of y] show ?thesis by (auto simp: daysIn_def split: if_splits)
  qed (use M(5) in simp)
  moreover have "days_to_month m y = days_between 1 m y" by (simp add: days_to_month_def days_between_def)
  then have "DateUTC y m d = t div day_ns * day_ns" using M(4) by (simp add: DateUTC_def e(3) n_def)
  ultimately show ?thesis using M e(3) by simp
qed

end
