(* ===== verification/TenSettings.thy ===== *)
theory TenSettings
  imports TenMotion GoTime
begin

text \<open>
  Settings and readings of a 10Micron mount (src/tenmicron: tracking.go, rates.go, status.go,
  sitetime.go, environment.go, finalapproach.go, backlash.go, relay.go, pec.go and misc.go). The
  readers that parse a calendar date are in theory \<open>TenDates\<close>.
\<close>

definition degree_sign :: string where "degree_sign = [CHR 0xC2, CHR 0xB0]"
definition times_sign :: string where "times_sign = [CHR 0xC3, CHR 0x97]"
definition dquote :: string where "dquote = [CHR 0x22]"

section \<open>Tracking (tracking.go)\<close>

definition tm_SetTracking :: "bool \<Rightarrow> (tenmicron, unit) io" where
  "tm_SetTracking b = blindInvalidate (if b then '':AP#'' else '':AL#'')"

definition SetDualAxisTracking :: "bool \<Rightarrow> (tenmicron, unit) io" where
  "SetDualAxisTracking b = tm_must (onT (Ack ('':Sdat'' @ fmt_d 0 (tm_b2i b) @ ''#'')))"

definition DualAxisTracking :: "(tenmicron, bool) io" where "DualAxisTracking = getBoolByte '':Gdat#''"

type_synonym TrackRate = int

definition TrackLunarRate :: TrackRate where "TrackLunarRate = 0"
definition TrackSolarRate :: TrackRate where "TrackSolarRate = 1"
definition TrackSiderealRate :: TrackRate where "TrackSiderealRate = 2"
definition TrackStopped :: TrackRate where "TrackStopped = 9"

definition SetTrackRate :: "TrackRate \<Rightarrow> (tenmicron, unit) io" where
  "SetTrackRate r = blindInvalidate ('':RT'' @ fmt_d 0 r @ ''#'')"

definition tm_TrackSidereal :: "(tenmicron, unit) io" where "tm_TrackSidereal = SetTrackRate TrackSiderealRate"
definition tm_TrackLunar :: "(tenmicron, unit) io" where "tm_TrackLunar = SetTrackRate TrackLunarRate"
definition tm_TrackSolar :: "(tenmicron, unit) io" where "tm_TrackSolar = SetTrackRate TrackSolarRate"

definition SelectCustomTrackRate :: "(tenmicron, unit) io" where "SelectCustomTrackRate = blindInvalidate '':TM#''"

definition SetCustomRARate :: "f64 \<Rightarrow> (tenmicron, unit) io" where
  "SetCustomRARate x = tm_must (onT (Ack ('':RR'' @ fmt_f True 9 4 x @ ''#'')))"

definition SetCustomDecRate :: "f64 \<Rightarrow> (tenmicron, unit) io" where
  "SetCustomDecRate x = tm_must (onT (Ack ('':RD'' @ fmt_f True 9 4 x @ ''#'')))"

definition setTrackArcsec :: "string \<Rightarrow> f64 \<Rightarrow> (tenmicron, unit) io" where
  "setTrackArcsec cmd arcsecPerSec =
     (let fourX = fmul arcsecPerSec (Fin 4)
      in if flt fourX (Fin 0) \<or> fle (Fin 1000) fourX
         then errE (Errorf (''gotenmicron: tracking rate %.3f'' @ dquote @ ''/s outside the DDD.DDD field range'') [AFlt arcsecPerSec] None)
         else tm_must (onT (Ack (cmd @ fmt_f False 7 3 fourX @ ''#''))))"

definition SetCustomTrackRateArcsec :: "f64 \<Rightarrow> (tenmicron, unit) io" where
  "SetCustomTrackRateArcsec x = setTrackArcsec '':T'' x"

definition SetTrackRateArcsec :: "f64 \<Rightarrow> (tenmicron, unit) io" where
  "SetTrackRateArcsec x = bindE (setTrackArcsec '':ST'' x) (\<lambda>_. invalidateT)"

definition IncCustomTrackRate :: "(tenmicron, unit) io" where "IncCustomTrackRate = onT (Blind '':T+#'')"
definition DecCustomTrackRate :: "(tenmicron, unit) io" where "DecCustomTrackRate = onT (Blind '':T-#'')"

definition tm_TrackingRateHz :: "(tenmicron, f64) io" where
  "tm_TrackingRateHz = bindE (onT (Get '':GT#'')) (\<lambda>s. liftE (val_err (ParseFloat64 (TrimSpace s))))"

definition TrackingActive :: "(tenmicron, bool) io" where "TrackingActive = getBoolByte '':GTRK#''"

section \<open>Rates and guiding (rates.go)\<close>

definition SetGuidingRateIndex :: "int \<Rightarrow> (tenmicron, unit) io" where
  "SetGuidingRateIndex n = onT (Blind ('':RG'' @ fmt_d 0 n @ ''#''))"

definition SetCenteringRateIndex :: "int \<Rightarrow> (tenmicron, unit) io" where
  "SetCenteringRateIndex n = onT (Blind ('':RC'' @ fmt_d 0 n @ ''#''))"

definition tm_SetSlewRateIndex :: "int \<Rightarrow> (tenmicron, unit) io" where
  "tm_SetSlewRateIndex n = onT (Blind ('':RS'' @ fmt_d 0 n @ ''#''))"

definition SetCenteringRateSidereal :: "int \<Rightarrow> (tenmicron, unit) io" where
  "SetCenteringRateSidereal x =
     (if x < 1 \<or> x > 255
      then errE (Errorf (''gotenmicron: centering rate %d'' @ times_sign @ '' outside [1, 255]'') [AInt x] None)
      else onT (Blind ('':Rc'' @ fmt_d 0 x @ ''#'')))"

definition SetSlewRateSidereal :: "int \<Rightarrow> (tenmicron, unit) io" where
  "SetSlewRateSidereal x =
     (if x < 1 \<or> x > 1200
      then errE (Errorf (''gotenmicron: slew rate %d'' @ times_sign @ '' outside [1, 1200]'') [AInt x] None)
      else onT (Blind ('':Rs'' @ fmt_d 0 x @ ''#'')))"

definition SetMaxSlewRate :: "int \<Rightarrow> (tenmicron, bool) io" where
  "SetMaxSlewRate d = onT (Ack ('':Sw'' @ fmt_d 0 d @ ''#''))"

definition SetAutomatedSlewRate :: "int \<Rightarrow> (tenmicron, unit) io" where
  "SetAutomatedSlewRate d = bindE (onT (AckByte ('':RMs'' @ fmt_d 0 d @ ''#''))) (\<lambda>b.
     if b \<noteq> CHR ''0''
     then errE (Errorf ''gotenmicron: automated slew rate %d deg/s rejected (reply %q)'' [AInt d, AStr (rune_str b)] None)
     else okE ())"

definition SlewRate :: "(tenmicron, f64) io" where "SlewRate = getFloat '':GMs#''"
definition MinSlewRate :: "(tenmicron, f64) io" where "MinSlewRate = getFloat '':GMsa#''"
definition MaxSlewRate :: "(tenmicron, f64) io" where "MaxSlewRate = getFloat '':GMsb#''"
definition tm_GuideRate :: "(tenmicron, f64) io" where "tm_GuideRate = getFloat '':Ggui#''"

definition siderealArcsecPerSec :: f64 where "siderealArcsecPerSec = rnd (15041 / 1000)"

definition tm_GuideRateSidereal :: "(tenmicron, f64) io" where
  "tm_GuideRateSidereal = bindE tm_GuideRate (\<lambda>r. okE (fdiv r siderealArcsecPerSec))"

text \<open>Constant expressions are exact in Go and rounded once.\<close>

definition GuideRateMinArcsec :: f64 where "GuideRateMinArcsec = rnd (15041 / 1000 * (1 / 10))"
definition GuideRateMaxArcsec :: f64 where "GuideRateMaxArcsec = rnd (15041 / 1000)"

definition tm_SetGuideRate :: "f64 \<Rightarrow> (tenmicron, unit) io" where
  "tm_SetGuideRate x =
     (if flt x (Fin 0) \<or> fle (Fin 100) x
      then errE (Errorf (''gotenmicron: guide rate %.3f'' @ dquote @ ''/s outside the :Rg field range [0, 100)'') [AFlt x] None)
      else onT (Blind ('':Rg'' @ fmt_f False 6 3 x @ ''#'')))"

definition tm_PulseGuide :: "Direction \<Rightarrow> int \<Rightarrow> (tenmicron, unit) io" where
  "tm_PulseGuide d millis = bindE (onT (PulseGuide d millis)) (\<lambda>_. modE (\<lambda>s.
     let stop = tm_clock s + wrap64 (millis * ms)
     in case pulseUntil s of
          None \<Rightarrow> s\<lparr>pulseUntil := Some stop\<rparr>
        | Some p \<Rightarrow> if stop > p then s\<lparr>pulseUntil := Some stop\<rparr> else s))"

definition tm_IsPulseGuiding :: "tenmicron \<Rightarrow> bool" where
  "tm_IsPulseGuiding s = (case pulseUntil s of None \<Rightarrow> False | Some p \<Rightarrow> tm_clock s < p)"

definition GuiderPortEnabled :: "(tenmicron, bool) io" where "GuiderPortEnabled = getBoolByte '':Gge#''"

definition SetGuiderPortEnabled :: "bool \<Rightarrow> (tenmicron, unit) io" where
  "SetGuiderPortEnabled b = onT (Blind ('':Sge'' @ fmt_d 0 (tm_b2i b) @ ''#''))"

definition GuidingState :: "(tenmicron, int) io" where
  "GuidingState = bindE (onT (Get '':Gpgc#'')) (\<lambda>s. liftE (val_err (Atoi (TrimSpace s))))"

section \<open>Limits and sides (status.go)\<close>

definition StatusCode :: "(tenmicron, int) io" where "StatusCode = getInt '':Gstat#''"
definition TargetTrackable :: "(tenmicron, bool) io" where "TargetTrackable = getBoolByte '':GTTRK#''"

definition TimeToTrackingEnd :: "(tenmicron, duration) io" where
  "TimeToTrackingEnd = bindE (getInt '':Gmte#'') (\<lambda>n. okE (wrap64 (n * 60000000000)))"

definition seconds_dur :: "f64 \<Rightarrow> duration" where
  "seconds_dur s = int_of_f64 (fmul s (Fin 1000000000))"

definition SlewSettleTime :: "(tenmicron, duration) io" where
  "SlewSettleTime = bindE (getFloat '':Gstm#'') (\<lambda>s. okE (seconds_dur s))"

text \<open>\<open>time.Duration.Seconds\<close>: whole seconds plus the fraction.\<close>

definition dur_Seconds :: "duration \<Rightarrow> f64" where
  "dur_Seconds d = fadd (f64_of_int (go_quot d 1000000000)) (fdiv (f64_of_int (go_rem d 1000000000)) (Fin 1000000000))"

definition setSettle :: "string \<Rightarrow> duration \<Rightarrow> (tenmicron, unit) io" where
  "setSettle cmd d =
     (let secs = dur_Seconds d
      in if flt secs (Fin 0) \<or> flt (Fin 99999) secs
         then errE (Errorf ''gotenmicron: settle time %.3fs outside [0, 99999]'' [AFlt secs] None)
         else tm_must (onT (Ack (cmd @ fmt_f False 9 3 secs @ ''#''))))"

definition SetSlewSettleTime :: "duration \<Rightarrow> (tenmicron, unit) io" where "SetSlewSettleTime d = setSettle '':Sstm'' d"

definition HighAltitudeLimit :: "(tenmicron, f64) io" where "HighAltitudeLimit = getLimitDeg '':Gh#''"
definition LowAltitudeLimit :: "(tenmicron, f64) io" where "LowAltitudeLimit = getLimitDeg '':Go#''"

definition SetHighAltitudeLimit :: "int \<Rightarrow> (tenmicron, bool) io" where
  "SetHighAltitudeLimit deg = onT (Ack ('':Sh'' @ fmt_plus_d 3 deg @ ''#''))"

definition SetLowAltitudeLimit :: "int \<Rightarrow> (tenmicron, bool) io" where
  "SetLowAltitudeLimit deg = onT (Ack ('':So'' @ fmt_plus_d 3 deg @ ''#''))"

type_synonym MeridianSide = int

definition MeridianBothSides :: MeridianSide where "MeridianBothSides = 1"
definition MeridianWestOnly :: MeridianSide where "MeridianWestOnly = 2"
definition MeridianEastOnly :: MeridianSide where "MeridianEastOnly = 3"

definition MeridianSideBehaviour :: "(tenmicron, MeridianSide) io" where "MeridianSideBehaviour = getInt '':GMF#''"

definition SetMeridianSideBehaviour :: "MeridianSide \<Rightarrow> (tenmicron, bool) io" where
  "SetMeridianSideBehaviour n = onT (Ack ('':SMF'' @ fmt_d 0 n @ ''#''))"

definition MeridianTrackLimit :: "(tenmicron, int) io" where "MeridianTrackLimit = getInt '':Glmt#''"
definition MeridianSlewLimit :: "(tenmicron, int) io" where "MeridianSlewLimit = getInt '':Glms#''"

definition SetMeridianTrackLimit :: "int \<Rightarrow> (tenmicron, bool) io" where
  "SetMeridianTrackLimit deg = onT (Ack ('':Slmt'' @ fmt_d 0 deg @ ''#''))"

definition SetMeridianSlewLimit :: "int \<Rightarrow> (tenmicron, bool) io" where
  "SetMeridianSlewLimit deg = onT (Ack ('':Slms'' @ fmt_d 0 deg @ ''#''))"

definition UnattendedFlip :: "(tenmicron, bool) io" where
  "UnattendedFlip = bindE (onT (AckByte '':Guaf#'')) (\<lambda>b. okE (b = CHR ''1''))"

definition SetUnattendedFlip :: "bool \<Rightarrow> (tenmicron, unit) io" where
  "SetUnattendedFlip b = onT (Blind ('':Suaf'' @ fmt_d 0 (tm_b2i b) @ ''#''))"

definition Flip :: "(tenmicron, unit) io" where
  "Flip = bindE (tm_must (onT (Ack '':FLIP#''))) (\<lambda>_. invalidateT)"

definition DestinationSideOfPier :: "(tenmicron, PierSide) io" where
  "DestinationSideOfPier = bindE (onT (AckByte '':GTsid#'')) (\<lambda>b.
     if b = CHR ''2'' then correctedPier PierWest
     else if b = CHR ''3'' then correctedPier PierEast
     else okE PierUnknown)"

section \<open>Site and clock (sitetime.go)\<close>

definition tm_SetSiteLatitude :: "f64 \<Rightarrow> (tenmicron, unit) io" where
  "tm_SetSiteLatitude deg =
     bindE (tm_must (onT (Ack ('':St'' @ tm_dms deg 2 @ ''#'')))) (\<lambda>_.
     modE (\<lambda>s. s\<lparr>southern := flt deg (Fin 0)\<rparr>))"

definition tm_SetSiteLongitude :: "f64 \<Rightarrow> (tenmicron, unit) io" where
  "tm_SetSiteLongitude deg = tm_must (onT (Ack ('':Sg'' @ tm_dms (fneg deg) 3 @ ''#'')))"

definition tm_SetSiteElevation :: "f64 \<Rightarrow> (tenmicron, unit) io" where
  "tm_SetSiteElevation meters = tm_must (onT (Ack ('':Sev'' @ fmt_f True 7 1 meters @ ''#'')))"

definition tm_SiteLongitude :: "(tenmicron, f64) io" where
  "tm_SiteLongitude = bindE (getAngle '':Gg#'') (\<lambda>v. okE (fneg v))"

definition SiteElevation :: "(tenmicron, f64) io" where "SiteElevation = getFloat '':Gev#''"

definition tm_SetUTC :: "gotime \<Rightarrow> (tenmicron, unit) io" where
  "tm_SetUTC t = tm_must (onT (Ack ('':SUDT'' @ Format_iso (fst t) @ '','' @ Format_clock (fst t) @ ''#'')))"

definition SetLocalDateTime :: "gotime \<Rightarrow> (tenmicron, unit) io" where
  "SetLocalDateTime t = tm_must (onT (Ack ('':SLDT'' @ Format_iso (wall t) @ '','' @ Format_clock (wall t) @ ''#'')))"

definition GPSMinusUTC :: "(tenmicron, int) io" where "GPSMinusUTC = getInt '':GDGPS#''"

definition SetJulianDate :: "f64 \<Rightarrow> (tenmicron, unit) io" where
  "SetJulianDate jd = tm_must (onT (Ack ('':SJD'' @ fmt_f False 0 8 jd @ ''#'')))"

definition GPSSyncState :: "(tenmicron, int) io" where "GPSSyncState = getInt '':gtgpps#''"
definition GPSWeekRollover :: "(tenmicron, int) io" where "GPSWeekRollover = getInt '':GGPSRW#''"

definition ResetGPSWeekRollover :: "(tenmicron, unit) io" where
  "ResetGPSWeekRollover = bindE (onT (Get '':SGPSRW#'')) (\<lambda>s.
     if TrimSpace s \<noteq> ''V'' then errE (Errorf ''gotenmicron: :SGPSRW# reset failed (%q)'' [AStr s] None) else okE ())"

definition NudgeTime :: "int \<Rightarrow> (tenmicron, unit) io" where
  "NudgeTime n =
     (if n < - 999 \<or> n > 999 then errE (Errorf ''gotenmicron: time nudge %d ms outside [-999, 999]'' [AInt n] None)
      else bindE (onT (Get ('':NUtim'' @ fmt_plus_d 4 n @ ''#''))) (\<lambda>s.
        if TrimSpace s \<noteq> ''1'' then errE (Errorf ''gotenmicron: time nudge rejected (%q)'' [AStr s] None) else okE ()))"

definition tm_SetUTCOffset :: "duration \<Rightarrow> (tenmicron, unit) io" where
  "tm_SetUTCOffset offset =
     (let (sign, offset) = (if offset < 0 then (CHR ''-'', wrap64 (- offset)) else (CHR ''+'', offset));
          s = go_quot offset 1000000000
      in tm_must (onT (Ack ('':SG'' @ [sign] @ fmt_d 2 (go_quot s 3600) @ '':'' @ fmt_d 2 (go_rem (go_quot s 60) 60)
            @ '':'' @ fmt_d 2 (go_rem s 60) @ ''#''))))"

definition tm_SetDate :: "gotime \<Rightarrow> (tenmicron, unit) io" where
  "tm_SetDate t = tm_must (onT (Ack ('':SC'' @ Format_iso (fst t) @ ''#'')))"

definition SetTime :: "gotime \<Rightarrow> (tenmicron, unit) io" where
  "SetTime t = tm_must (onT (Ack ('':SL'' @ Format_clock (fst t) @ ''#'')))"

definition tm_UTCOffset :: "(tenmicron, duration) io" where
  "tm_UTCOffset = bindE (onT (Get '':GG#'')) (\<lambda>s. bindE (liftE (ParseSexagesimal (TrimSpace s))) (\<lambda>h. okE (hours_dur h)))"

definition UT1MinusUTC :: "(tenmicron, f64) io" where "UT1MinusUTC = getFloat '':GDUT#''"
definition JulianDate :: "(tenmicron, f64) io" where "JulianDate = getFloat '':GJD#''"

definition tm_LocalTime :: "(tenmicron, duration) io" where
  "tm_LocalTime = bindE (onT (Get '':GL#'')) (\<lambda>s. bindE (liftE (ParseSexagesimal (TrimSpace s))) (\<lambda>h. okE (hours_dur h)))"

definition UpdateFromGPS :: "(tenmicron, bool) io" where
  "UpdateFromGPS = bindE (onT (Get '':gT#'')) (\<lambda>s. okE (TrimSpace s = ''1''))"

definition GPSNMEA :: "(tenmicron, string) io" where "GPSNMEA = onT (Get '':gps#'')"

definition GPSSynced :: "(tenmicron, bool) io" where
  "GPSSynced = bindE (onT (Get '':gtg#'')) (\<lambda>s. okE (TrimSpace s = ''1''))"

end
