(* ===== verification/TenParts.thy ===== *)
theory TenParts
  imports TenSettings
begin

text \<open>
  The other functions of a 10Micron mount (src/tenmicron: escape.go, environment.go, finalapproach.go,
  backlash.go, relay.go, pec.go, misc.go, alarms.go, dither.go, dome.go, model.go, network.go,
  system.go, focuser.go, rotator.go and satellite.go). A focuser or rotator is its index. \<open>FirmwareDate\<close>
  is in theory \<open>TenDates\<close>.
\<close>

section \<open>Escaped strings (escape.go)\<close>

definition esc_char :: "char \<Rightarrow> string" where
  "esc_char c =
     (let n = of_char c :: nat
      in if c = CHR ''$'' then ''$$''
         else if c = CHR ''#'' then ''$23''
         else if c = CHR '','' then ''$2C''
         else if n < 32 \<or> n > 126 then ''$'' @ pad0 2 (hex_str n)
         else [c])"

definition escapeString :: "string \<Rightarrow> string" where
  "escapeString s = concat (map esc_char s)"

text \<open>\<open>strconv.ParseUint(s, 16, 8)\<close> of two characters.\<close>

definition hex_byte :: "char \<Rightarrow> char \<Rightarrow> char option" where
  "hex_byte a b = (if is_hex a \<and> is_hex b then Some (char_of (16 * hex_val a + hex_val b)) else None)"

fun unescapeString :: "string \<Rightarrow> string" where
  "unescapeString [] = []"
| "unescapeString (c # s) =
     (if c \<noteq> CHR ''$'' then c # unescapeString s
      else case s of
             [] \<Rightarrow> ''$''
           | d # s' \<Rightarrow>
               if d = CHR ''$'' then CHR ''$'' # unescapeString s'
               else case s' of
                      [] \<Rightarrow> CHR ''$'' # unescapeString (d # s')
                    | e # s'' \<Rightarrow>
                        (case hex_byte d e of
                           Some b \<Rightarrow> b # unescapeString s''
                         | None \<Rightarrow> CHR ''$'' # unescapeString (d # s')))"

section \<open>Environment (environment.go)\<close>

definition SetRefractionPressure :: "f64 \<Rightarrow> (tenmicron, unit) io" where
  "SetRefractionPressure hPa = tm_must (onT (Ack ('':SRPRS'' @ fmt_f False 6 1 hPa @ ''#'')))"

definition SetRefractionTemperature :: "f64 \<Rightarrow> (tenmicron, unit) io" where
  "SetRefractionTemperature tempC = tm_must (onT (Ack ('':SRTMP'' @ fmt_f True 6 1 tempC @ ''#'')))"

definition SetRefraction :: "f64 \<Rightarrow> f64 \<Rightarrow> (tenmicron, unit) io" where
  "SetRefraction pressureHPa tempC = bindE (SetRefractionPressure pressureHPa) (\<lambda>_. SetRefractionTemperature tempC)"

definition floatOf :: "string \<Rightarrow> f64" where
  "floatOf s = fst (ParseFloat64 (TrimSpace s))"

definition Refraction :: "(tenmicron, f64 \<times> f64) io" where
  "Refraction = bindE (onT (Get '':GRPRS#'')) (\<lambda>p. bindE (onT (Get '':GRTMP#'')) (\<lambda>t. okE (floatOf p, floatOf t)))"

definition SetRefractionCorrection :: "bool \<Rightarrow> (tenmicron, bool) io" where
  "SetRefractionCorrection b = onT (Ack ('':SREF'' @ fmt_d 0 (tm_b2i b) @ ''#''))"

definition RefractionCorrection :: "(tenmicron, bool) io" where "RefractionCorrection = getBoolByte '':GREF#''"

type_synonym TemperatureElement = int

definition TempRAAzDriver :: TemperatureElement where "TempRAAzDriver = 1"
definition TempDecAltDriver :: TemperatureElement where "TempDecAltDriver = 2"
definition TempRAAzMotor :: TemperatureElement where "TempRAAzMotor = 7"
definition TempDecAltMotor :: TemperatureElement where "TempDecAltMotor = 8"
definition TempElectronicsBox :: TemperatureElement where "TempElectronicsBox = 9"

definition ErrTemperatureUnavailable :: gerr where
  "ErrTemperatureUnavailable = ErrNew ''gotenmicron: temperature reading unavailable''"

definition Temperature :: "TemperatureElement \<Rightarrow> (tenmicron, f64) io" where
  "Temperature el = bindE (onT (Get ('':GTMP'' @ fmt_d 0 el @ ''#''))) (\<lambda>s.
     if TrimSpace s = ''Unavailable'' then errE ErrTemperatureUnavailable
     else liftE (val_err (ParseFloat64 (TrimSpace s))))"

definition LowTemperatureLimited :: "(tenmicron, bool) io" where "LowTemperatureLimited = getBoolByte '':GTMPLT#''"

definition not_motor :: "TemperatureElement \<Rightarrow> bool" where
  "not_motor motor = (motor \<noteq> TempRAAzMotor \<and> motor \<noteq> TempDecAltMotor)"

definition MotorOverheatThreshold :: "TemperatureElement \<Rightarrow> (tenmicron, f64) io" where
  "MotorOverheatThreshold motor =
     (if not_motor motor
      then errE (Errorf ''gotenmicron: overheat threshold needs a motor element (7 or 8), got %d'' [AInt motor] None)
      else bindE (onT (Get ('':GTMPOH'' @ fmt_d 0 motor @ ''#''))) (\<lambda>s.
        if TrimSpace s = ''Unavailable'' then errE ErrTemperatureUnavailable
        else liftE (val_err (ParseFloat64 (TrimSpace s)))))"

definition MotorTemperatureThresholds :: "TemperatureElement \<Rightarrow> (tenmicron, f64 \<times> f64 \<times> f64) io" where
  "MotorTemperatureThresholds motor =
     (if not_motor motor
      then errE (Errorf ''gotenmicron: temperature thresholds need a motor element (7 or 8), got %d'' [AInt motor] None)
      else bindE (onT (Get ('':GTMPTH'' @ fmt_d 0 motor @ ''#''))) (\<lambda>s.
        case Split CHR '','' (TrimSpace s) of
          [a, b, c] \<Rightarrow> okE (floatOf a, floatOf b, floatOf c)
        | _ \<Rightarrow> errE ErrTemperatureUnavailable))"

definition SetMotorOverheatThreshold :: "TemperatureElement \<Rightarrow> f64 \<Rightarrow> (tenmicron, unit) io" where
  "SetMotorOverheatThreshold motor tempC =
     (if not_motor motor
      then errE (Errorf ''gotenmicron: overheat threshold needs a motor element (7 or 8), got %d'' [AInt motor] None)
      else if flt tempC (Fin 0) \<or> flt (Fin 80) tempC
      then errE (Errorf (''gotenmicron: overheat threshold %.1f'' @ degree_sign @ ''C outside [0, 80]'') [AFlt tempC] None)
      else tm_must (onT (Ack ('':STMPOH'' @ fmt_d 0 motor @ '','' @ fmt_f True 6 1 tempC @ ''#''))))"

definition out_of_range :: "f64 \<Rightarrow> bool" where
  "out_of_range v = (flt v (Fin (- 100)) \<or> flt (Fin 40) v)"

definition SetMotorTemperatureThresholds :: "TemperatureElement \<Rightarrow> f64 \<Rightarrow> f64 \<Rightarrow> f64 \<Rightarrow> (tenmicron, unit) io" where
  "SetMotorTemperatureThresholds motor t0 t1 t2 =
     (if not_motor motor
      then errE (Errorf ''gotenmicron: temperature thresholds need a motor element (7 or 8), got %d'' [AInt motor] None)
      else case find out_of_range [t0, t1, t2] of
             Some v \<Rightarrow> errE (Errorf (''gotenmicron: temperature threshold %.1f'' @ degree_sign @ ''C outside [-100, 40]'') [AFlt v] None)
           | None \<Rightarrow>
               if \<not> (flt t0 t1 \<and> flt t1 t2)
               then errE (Errorf ''gotenmicron: temperature thresholds must satisfy T0 < T1 < T2 (got %.1f, %.1f, %.1f)''
                      [AFlt t0, AFlt t1, AFlt t2] None)
               else tm_must (onT (Ack ('':STMPTH'' @ fmt_d 0 motor @ '','' @ fmt_f True 6 1 t0 @ '',''
                      @ fmt_f True 6 1 t1 @ '','' @ fmt_f True 6 1 t2 @ ''#''))))"

definition ErrWeatherUnavailable :: gerr where
  "ErrWeatherUnavailable = ErrNew ''gotenmicron: weather datum unavailable''"

definition weather :: "string \<Rightarrow> (tenmicron, f64 \<times> duration) io" where
  "weather cmd = bindE (onT (Get cmd)) (\<lambda>s.
     let s = TrimSpace s
     in if s = ''E'' then errE ErrWeatherUnavailable
        else case SplitN2 CHR '','' s of
               [a, b] \<Rightarrow>
                 (case ParseFloat64 (TrimSpace a) of
                    (_, Some e) \<Rightarrow> errE (Errorf ''gotenmicron: weather value %q: %w'' [AStr a] (Some e))
                  | (v, None) \<Rightarrow> okE (v, wrap64 (fst (Atoi (TrimSpace b)) * 1000000000)))
             | _ \<Rightarrow> errE (Errorf ''gotenmicron: bad weather reply %q'' [AStr s] None))"

definition WeatherPressure :: "(tenmicron, f64 \<times> duration) io" where "WeatherPressure = weather '':WSP#''"
definition WeatherTemperature :: "(tenmicron, f64 \<times> duration) io" where "WeatherTemperature = weather '':WST#''"
definition WeatherHumidity :: "(tenmicron, f64 \<times> duration) io" where "WeatherHumidity = weather '':WSH#''"
definition WeatherDewPoint :: "(tenmicron, f64 \<times> duration) io" where "WeatherDewPoint = weather '':WSD#''"

definition WeatherAutoUpdateMode :: "(tenmicron, int) io" where "WeatherAutoUpdateMode = getInt '':WSG#''"

definition SetWeatherAutoUpdateMode :: "int \<Rightarrow> (tenmicron, bool) io" where
  "SetWeatherAutoUpdateMode mode = onT (Ack ('':WSS'' @ fmt_d 0 mode @ ''#''))"

section \<open>Final approach (finalapproach.go)\<close>

definition ErrNotSupported :: gerr where
  "ErrNotSupported = ErrNew ''gotenmicron: function not supported on this mount''"

definition faFloat :: "string \<Rightarrow> (tenmicron, f64) io" where
  "faFloat cmd = bindE (onT (Get cmd)) (\<lambda>s.
     if TrimSpace s = ''E'' then errE ErrNotSupported else liftE (val_err (ParseFloat64 (TrimSpace s))))"

definition faResult :: "string \<Rightarrow> (tenmicron, unit) io" where
  "faResult cmd = bindE (onT (Get cmd)) (\<lambda>s.
     if TrimSpace s = ''1'' then okE ()
     else if TrimSpace s = ''E'' then errE ErrNotSupported
     else errE (Errorf ''gotenmicron: %s failed (%q)'' [AStr cmd, AStr s] None))"

definition FinalApproachTimeConstant :: "(tenmicron, f64) io" where "FinalApproachTimeConstant = faFloat '':GFAtc#''"
definition FinalApproachDistanceLimit :: "(tenmicron, f64) io" where "FinalApproachDistanceLimit = faFloat '':GFAlm#''"

definition SetFinalApproachDistanceLimit :: "f64 \<Rightarrow> (tenmicron, unit) io" where
  "SetFinalApproachDistanceLimit arcmin =
     (if flt arcmin (Fin 0) \<or> flt (rnd (999 / 100)) arcmin
      then errE (Errorf (''gotenmicron: final-approach distance limit %.2f'' @ [CHR 0x27] @ '' outside [0, 9.99]'') [AFlt arcmin] None)
      else faResult ('':SFAlm'' @ fmt_f False 0 2 arcmin @ ''#''))"

definition SetFinalApproachTimeConstant :: "f64 \<Rightarrow> (tenmicron, unit) io" where
  "SetFinalApproachTimeConstant seconds =
     (if flt seconds (Fin (1 / 4)) \<or> flt (Fin 5) seconds
      then errE (Errorf ''gotenmicron: final-approach time constant %.2fs outside [0.25, 5.00]'' [AFlt seconds] None)
      else faResult ('':SFAtc'' @ fmt_f False 0 2 seconds @ ''#''))"

definition FinalApproachStandard :: int where "FinalApproachStandard = 0"
definition FinalApproachCustom :: int where "FinalApproachCustom = 1"

definition FinalApproachMode :: "(tenmicron, int) io" where
  "FinalApproachMode = bindE (onT (Get '':GFAmd#'')) (\<lambda>s.
     if TrimSpace s = ''E'' then errE ErrNotSupported
     else if TrimSpace s = ''1'' then okE FinalApproachCustom
     else okE FinalApproachStandard)"

definition SetFinalApproachMode :: "int \<Rightarrow> (tenmicron, unit) io" where
  "SetFinalApproachMode mode = faResult ('':SFAmd'' @ fmt_d 0 mode @ ''#'')"

section \<open>Backlash, relays, error correction, logs (backlash.go, relay.go, pec.go, misc.go)\<close>

definition backlashDMS :: "f64 \<Rightarrow> string" where
  "backlashDMS arcsec =
     (let t = int_of_f64 (f_round (if flt arcsec (Fin 0) then Fin 0 else arcsec))
      in fmt_d 2 (go_quot t 3600) @ ''*'' @ fmt_d 2 (go_rem (go_quot t 60) 60) @ '':'' @ fmt_d 2 (go_rem t 60))"

definition SetDecBacklash :: "f64 \<Rightarrow> (tenmicron, unit) io" where
  "SetDecBacklash arcsec = tm_must (onT (Ack ('':Bd'' @ backlashDMS arcsec @ ''#'')))"

definition SetRABacklash :: "f64 \<Rightarrow> (tenmicron, unit) io" where
  "SetRABacklash arcsec = tm_must (onT (Ack ('':Br'' @ backlashDMS arcsec @ ''#'')))"

definition UserRelay1 :: int where "UserRelay1 = 1"
definition UserRelay6 :: int where "UserRelay6 = 6"

definition RelayClosed :: "int \<Rightarrow> (tenmicron, bool) io" where
  "RelayClosed n = getBoolByte ('':GRLY'' @ fmt_d 0 n @ ''#'')"

definition SetRelay :: "int \<Rightarrow> bool \<Rightarrow> (tenmicron, unit) io" where
  "SetRelay n shut =
     (if n < UserRelay1 \<or> n > UserRelay6
      then errE (Errorf ''gotenmicron: only user relays 1..6 are settable, got %d'' [AInt n] None)
      else tm_must (onT (Ack ('':SRLY'' @ fmt_d 0 n @ '','' @ fmt_d 0 (tm_b2i shut) @ ''#''))))"

definition StopPEC :: "(tenmicron, unit) io" where "StopPEC = onT (Blind '':p#'')"
definition StartPEC :: "(tenmicron, unit) io" where "StartPEC = onT (Blind '':pP#'')"
definition TrainPEC :: "(tenmicron, unit) io" where "TrainPEC = onT (Blind '':pR#'')"
definition TrainPECLength :: "int \<Rightarrow> (tenmicron, unit) io" where "TrainPECLength d = onT (Blind ('':pR'' @ fmt_d 0 d @ ''#''))"
definition TrainPECAltitude :: "int \<Rightarrow> (tenmicron, unit) io" where "TrainPECAltitude d = onT (Blind ('':pRa'' @ fmt_d 0 d @ ''#''))"
definition TrainPECAzimuth :: "int \<Rightarrow> (tenmicron, unit) io" where "TrainPECAzimuth d = onT (Blind ('':pRz'' @ fmt_d 0 d @ ''#''))"

definition ParallacticAngle :: "(tenmicron, f64) io" where "ParallacticAngle = getFloat '':GPA#''"
definition ParallacticSpeed :: "(tenmicron, f64) io" where "ParallacticSpeed = getFloat '':GPAS#''"
definition ParallacticAngleZenith :: "(tenmicron, f64) io" where "ParallacticAngleZenith = getFloat '':GPAZ#''"
definition ParallacticSpeedZenith :: "(tenmicron, f64) io" where "ParallacticSpeedZenith = getFloat '':GPASZ#''"
definition StartCommLog :: "(tenmicron, unit) io" where "StartCommLog = onT (Blind '':startlog#'')"
definition StopCommLog :: "(tenmicron, unit) io" where "StopCommLog = onT (Blind '':stoplog#'')"
definition CommLog :: "(tenmicron, string) io" where "CommLog = onT (Get '':getlog#'')"
definition EventLog :: "(tenmicron, string) io" where "EventLog = onT (Get '':evlog#'')"

section \<open>Alarms (alarms.go)\<close>

definition AlarmElectronicsHighTemperature :: int where "AlarmElectronicsHighTemperature = 1001"
definition AlarmElectronicsLowTemperature :: int where "AlarmElectronicsLowTemperature = 1002"

definition AlarmString :: "int \<Rightarrow> string" where
  "AlarmString a =
     (if a = AlarmElectronicsHighTemperature then ''electronics high temperature''
      else if a = AlarmElectronicsLowTemperature then ''electronics low temperature''
      else ''alarm '' @ fmt_d 0 a)"

fun alarm_fields :: "string \<Rightarrow> string \<Rightarrow> string list \<Rightarrow> gerr + int list" where
  "alarm_fields cmd s [] = Inr []"
| "alarm_fields cmd s (f # fs) =
     (case Atoi (TrimSpace f) of
        (_, Some e) \<Rightarrow> Inl (Errorf ''gotenmicron: bad %s reply %q: %w'' [AStr cmd, AStr s] (Some e))
      | (n, None) \<Rightarrow> map_sum id ((#) n) (alarm_fields cmd s fs))"

definition alarmList :: "string \<Rightarrow> (tenmicron, int list) io" where
  "alarmList cmd = bindE (onT (Get cmd)) (\<lambda>s.
     let s = TrimSpace s in if s = [] then okE [] else liftE (alarm_fields cmd s (Split CHR '','' s)))"

definition ActiveAlarms :: "(tenmicron, int list) io" where "ActiveAlarms = alarmList '':alarmlistact#''"
definition UnacknowledgedAlarms :: "(tenmicron, int list) io" where "UnacknowledgedAlarms = alarmList '':alarmlistunack#''"

definition AcknowledgeAlarm :: "int \<Rightarrow> (tenmicron, unit) io" where
  "AcknowledgeAlarm a =
     (if a < 0 \<or> a > 9999 then errE (Errorf ''gotenmicron: alarm identifier %d outside [0, 9999]'' [AInt a] None)
      else bindE (onT (Get ('':alarmlack'' @ fmt_d 4 a @ ''#''))) (\<lambda>s.
        if TrimSpace s \<noteq> ''V'' then errE (Errorf ''gotenmicron: alarm %d not acknowledged (%q)'' [AInt a, AStr s] None)
        else okE ()))"

section \<open>Dithering (dither.go)\<close>

record DitherParams =
  RAArcsec :: f64
  DecArcsec :: f64
  DelaySec :: f64
  ExposureSec :: f64
  IntervalSec :: f64

definition StartDithering :: "(tenmicron, bool) io" where "StartDithering = getBool '':SditS#''"
definition StopDithering :: "(tenmicron, bool) io" where "StopDithering = getBool '':SditQ#''"
definition DitherNow :: "(tenmicron, bool) io" where "DitherNow = getBool '':SditN#''"
definition DitheringActive :: "(tenmicron, bool) io" where "DitheringActive = getBool '':GditS#''"

definition SetDitherAmount :: "f64 \<Rightarrow> f64 \<Rightarrow> (tenmicron, bool) io" where
  "SetDitherAmount raArcsec decArcsec =
     getBool ('':SditM'' @ fmt_f False 0 0 raArcsec @ '','' @ fmt_f False 0 0 decArcsec @ ''#'')"

definition SetDitherTimer :: "int \<Rightarrow> int \<Rightarrow> int \<Rightarrow> (tenmicron, bool) io" where
  "SetDitherTimer delaySec exposureSec intervalSec =
     (if delaySec < 0 \<or> delaySec > 356400 \<or> exposureSec < 0 \<or> exposureSec > 356400 \<or> intervalSec < 5 \<or> intervalSec > 356400
      then errE (Errorf ''gotenmicron: dither timer out of range (delay/exposure 0..356400s, interval 5..356400s)'' [] None)
      else getBool ('':SditT'' @ fmt_d 0 delaySec @ '','' @ fmt_d 0 exposureSec @ '','' @ fmt_d 0 intervalSec @ ''#''))"

definition DitherParameters :: "(tenmicron, DitherParams) io" where
  "DitherParameters = bindE (onT (Get '':GditP#'')) (\<lambda>s.
     let f = Split CHR '','' (TrimSpace s)
     in if length f < 5 then errE (Errorf ''gotenmicron: short :GditP# reply %q'' [AStr s] None)
        else okE \<lparr>RAArcsec = floatOf (f ! 0), DecArcsec = floatOf (f ! 1), DelaySec = floatOf (f ! 2),
                  ExposureSec = floatOf (f ! 3), IntervalSec = floatOf (f ! 4)\<rparr>)"

section \<open>The dome (dome.go)\<close>

definition DomeAzimuth :: "(tenmicron, f64) io" where
  "DomeAzimuth = bindE (getInt '':GDA#'') (\<lambda>n.
     if n = 9999 then errE (Errorf ''gotenmicron: dome azimuth unavailable'' [] None)
     else okE (fdiv (f64_of_int n) (Fin 10)))"

definition DomeFlap :: "(tenmicron, int) io" where "DomeFlap = getInt '':GDF#''"
definition DomeShutter :: "(tenmicron, int) io" where "DomeShutter = getInt '':GDS#''"
definition DomeHoming :: "(tenmicron, bool) io" where "DomeHoming = getBool '':GDH#''"
definition DomeSlewing :: "(tenmicron, bool) io" where "DomeSlewing = getBool '':GDW#''"
definition DomeSlewingExternal :: "(tenmicron, bool) io" where "DomeSlewingExternal = getBool '':GDw#''"

definition DomeSettleTime :: "(tenmicron, duration) io" where
  "DomeSettleTime = bindE (getFloat '':GDstm#'') (\<lambda>s. okE (seconds_dur s))"

definition SetDomeSettleTime :: "duration \<Rightarrow> (tenmicron, unit) io" where "SetDomeSettleTime d = setSettle '':SDstm'' d"

definition flapShutterArg :: "bool \<Rightarrow> int" where "flapShutterArg opn = (if opn then 2 else 1)"

definition CommandDomeFlap :: "bool \<Rightarrow> (tenmicron, bool) io" where
  "CommandDomeFlap opn = getBool ('':SDF'' @ fmt_d 0 (flapShutterArg opn) @ ''#'')"

definition CommandDomeShutter :: "bool \<Rightarrow> (tenmicron, bool) io" where
  "CommandDomeShutter opn = getBool ('':SDS'' @ fmt_d 0 (flapShutterArg opn) @ ''#'')"

definition StartDomeHoming :: "(tenmicron, bool) io" where "StartDomeHoming = getBool '':SDH#''"
definition SetDomeControl :: "int \<Rightarrow> (tenmicron, bool) io" where "SetDomeControl mode = getBool ('':SDM'' @ fmt_d 0 mode @ ''#'')"
definition SetDomeMountType :: "int \<Rightarrow> (tenmicron, unit) io" where "SetDomeMountType n = onT (Blind ('':SDT'' @ fmt_d 0 n @ ''#''))"
definition SetDomeRadius :: "int \<Rightarrow> (tenmicron, unit) io" where "SetDomeRadius mm = onT (Blind ('':SDR'' @ fmt_d 4 mm @ ''#''))"
definition SetDomeUpdateInterval :: "int \<Rightarrow> (tenmicron, unit) io" where
  "SetDomeUpdateInterval seconds = onT (Blind ('':SDU'' @ fmt_d 2 seconds @ ''#''))"

definition SetDomeMountOffset :: "int \<Rightarrow> int \<Rightarrow> int \<Rightarrow> (tenmicron, unit) io" where
  "SetDomeMountOffset northMM eastMM zenithMM =
     bindE (onT (Blind ('':SDXM'' @ fmt_plus_d 5 northMM @ ''#''))) (\<lambda>_.
     bindE (onT (Blind ('':SDYM'' @ fmt_plus_d 5 eastMM @ ''#''))) (\<lambda>_.
     onT (Blind ('':SDZM'' @ fmt_plus_d 5 zenithMM @ ''#''))))"

definition SetDomeOpticalAxisOffset :: "int \<Rightarrow> int \<Rightarrow> (tenmicron, unit) io" where
  "SetDomeOpticalAxisOffset flangeToAxisMM lateralMM =
     bindE (onT (Blind ('':SDX'' @ fmt_plus_d 5 flangeToAxisMM @ ''#''))) (\<lambda>_.
     onT (Blind ('':SDY'' @ fmt_plus_d 5 lateralMM @ ''#'')))"

definition SlewDomeToAzimuth :: "f64 \<Rightarrow> (tenmicron, bool) io" where
  "SlewDomeToAzimuth deg =
     (let tenths = int_of_f64 (f_round (fmul deg (Fin 10)))
      in if tenths < 0 \<or> tenths > 3600
         then errE (Errorf (''gotenmicron: dome azimuth %.1f'' @ degree_sign @ '' outside [0, 360]'') [AFlt deg] None)
         else getBool ('':SDA'' @ fmt_d 4 tenths @ ''#''))"

definition ReleaseDomeControl :: "(tenmicron, unit) io" where "ReleaseDomeControl = onT (Blind '':SDAr#'')"

end
