(* ===== verification/TenMore.thy ===== *)
theory TenMore
  imports TenParts
begin

text \<open>
  Alignment models, network and system settings, focusers, rotators, satellites and trajectories of a
  10Micron mount (src/tenmicron: model.go, network.go, system.go, focuser.go, rotator.go, satellite.go).
\<close>

section \<open>Alignment models (model.go)\<close>

definition hmsTenths :: "f64 \<Rightarrow> string" where
  "hmsTenths hours =
     (let t = int_of_f64 (f_round (fmul hours (Fin 36000)));
          t = go_rem (go_rem t 864000 + 864000) 864000
      in fmt_d 2 (go_quot t 36000) @ '':'' @ fmt_d 2 (go_rem (go_quot t 600) 60) @ '':''
         @ fmt_d 2 (go_rem (go_quot t 10) 60) @ ''.'' @ fmt_d 1 (go_rem t 10))"

definition dmsColon :: "f64 \<Rightarrow> string" where
  "dmsColon deg =
     (let (sign, deg) = (if flt deg (Fin 0) then (CHR ''-'', fneg deg) else (CHR ''+'', deg));
          t = int_of_f64 (f_round (fmul deg (Fin 3600)))
      in [sign] @ fmt_d 2 (go_quot t 3600) @ '':'' @ fmt_d 2 (go_rem (go_quot t 60) 60) @ '':'' @ fmt_d 2 (go_rem t 60))"

definition floatOrNaN :: "string \<Rightarrow> f64" where
  "floatOrNaN s =
     (let s = TrimSpace s
      in if s = ''E'' \<or> s = [] then NaN
         else case ParseFloat64 s of (_, Some _) \<Rightarrow> NaN | (v, None) \<Rightarrow> v)"

definition expectV :: "string \<Rightarrow> string \<Rightarrow> (tenmicron, unit) io" where
  "expectV cmd msg = bindE (onT (Get cmd)) (\<lambda>s. if TrimSpace s \<noteq> ''V'' then errE (Errorf msg [AStr s] None) else okE ())"

definition StartAlignment :: "(tenmicron, unit) io" where
  "StartAlignment = expectV '':newalig#'' ''gotenmicron: newalig rejected (%q)''"

record AlignmentPoint =
  MountRA :: f64
  MountDec :: f64
  MountSide :: PierSide
  SolvedRA :: f64
  SolvedDec :: f64
  ptSiderealTime :: f64

definition AddAlignmentSpecPoint :: "AlignmentPoint \<Rightarrow> (tenmicron, int) io" where
  "AddAlignmentSpecPoint p =
     bindE (onT (Get ('':newalpt'' @ hmsTenths (MountRA p) @ '','' @ dmsColon (MountDec p) @ '',''
       @ (if MountSide p = PierWest then ''W'' else ''E'') @ '','' @ hmsTenths (SolvedRA p) @ '',''
       @ dmsColon (SolvedDec p) @ '','' @ hmsTenths (ptSiderealTime p) @ ''#''))) (\<lambda>s.
     if TrimSpace s = ''E'' then errE (Errorf ''gotenmicron: alignment point rejected'' [] None)
     else liftE (val_err (Atoi (TrimSpace s))))"

definition EndAlignment :: "(tenmicron, unit) io" where
  "EndAlignment = bindE (expectV '':endalig#'' ''gotenmicron: endalig failed (%q)'') (\<lambda>_. invalidateT)"

definition DeleteAlignment :: "(tenmicron, unit) io" where
  "DeleteAlignment = bindE (onT (Get '':delalig#'')) (\<lambda>_. invalidateT)"

definition AlignmentStarCount :: "(tenmicron, int) io" where "AlignmentStarCount = getInt '':getalst#''"
definition MaxAlignmentStars :: "(tenmicron, int) io" where "MaxAlignmentStars = getInt '':getalstm#''"

definition ErrModelTooFewStars :: gerr where
  "ErrModelTooFewStars = ErrNew ''gotenmicron: alignment model has fewer than two stars''"

record AlignmentInfo =
  aiAzimuth :: f64
  aiAltitude :: f64
  PolarError :: f64
  PositionAngle :: f64
  OrthoError :: f64
  AzTurns :: f64
  AltTurns :: f64
  Terms :: int
  RMSArcsec :: f64

definition readAlignmentInfo :: "(tenmicron, AlignmentInfo) io" where
  "readAlignmentInfo = bindE (onT (Get '':getain#'')) (\<lambda>s.
     let s = TrimSpace s; f = Split CHR '','' s
     in if s = ''E'' then errE ErrModelTooFewStars
        else if length f < 9 then errE (Errorf ''gotenmicron: short :getain# reply %q'' [AStr s] None)
        else okE \<lparr>aiAzimuth = floatOrNaN (f ! 0), aiAltitude = floatOrNaN (f ! 1), PolarError = floatOrNaN (f ! 2),
                  PositionAngle = floatOrNaN (f ! 3), OrthoError = floatOrNaN (f ! 4), AzTurns = floatOrNaN (f ! 5),
                  AltTurns = floatOrNaN (f ! 6),
                  Terms = (case Atoi (TrimSpace (f ! 7)) of (n, None) \<Rightarrow> n | (_, Some _) \<Rightarrow> - 1),
                  RMSArcsec = floatOrNaN (f ! 8)\<rparr>)"

definition AlignmentStar :: "int \<Rightarrow> (tenmicron, string) io" where
  "AlignmentStar n = onT (Get ('':getali'' @ fmt_d 0 n @ ''#''))"

record AlignmentPointInfo =
  HourAngle :: f64
  piDec :: f64
  ErrorArcsec :: f64
  PolarAngle :: int

text \<open>The value of a parse whose error is dropped: zero when it fails.\<close>

definition sexOrZero :: "string \<Rightarrow> f64" where
  "sexOrZero s = (case ParseSexagesimal s of Inl _ \<Rightarrow> Fin 0 | Inr v \<Rightarrow> v)"

definition readAlignmentPointInfo :: "int \<Rightarrow> (tenmicron, AlignmentPointInfo) io" where
  "readAlignmentPointInfo n = bindE (onT (Get ('':getalp'' @ fmt_d 0 n @ ''#''))) (\<lambda>s.
     let s = TrimSpace s; f = Split CHR '','' s
     in if s = ''E'' then errE (Errorf ''gotenmicron: alignment star %d out of range'' [AInt n] None)
        else if length f < 3 then errE (Errorf ''gotenmicron: short :getalp# reply %q'' [AStr s] None)
        else okE \<lparr>HourAngle = sexOrZero (f ! 0), piDec = sexOrZero (f ! 1), ErrorArcsec = floatOf (f ! 2),
                  PolarAngle = (if length f \<ge> 4 then fst (Atoi (TrimSpace (f ! 3))) else 0)\<rparr>)"

definition DeleteAlignmentStar :: "int \<Rightarrow> (tenmicron, unit) io" where
  "DeleteAlignmentStar n = bindE (onT (Get ('':delalst'' @ fmt_d 0 n @ ''#''))) (\<lambda>s.
     if TrimSpace s \<noteq> ''1'' then errE (Errorf ''gotenmicron: delete alignment star %d failed (%q)'' [AInt n, AStr s] None)
     else invalidateT)"

definition SavedModelCount :: "(tenmicron, int) io" where "SavedModelCount = getInt '':modelcnt#''"

definition SavedModelName :: "int \<Rightarrow> (tenmicron, string) io" where
  "SavedModelName n = bindE (onT (Get ('':modelnam'' @ fmt_d 0 n @ ''#''))) (\<lambda>s.
     if TrimSpace s = [] then errE (Errorf ''gotenmicron: no saved model at index %d'' [AInt n] None)
     else okE (TrimRight (unescapeString s) '' ''))"

definition modelSlot :: "string \<Rightarrow> string \<Rightarrow> string \<Rightarrow> (tenmicron, unit) io" where
  "modelSlot verb name action = bindE (onT (Get ('':'' @ verb @ escapeString name @ ''#''))) (\<lambda>s.
     if TrimSpace s \<noteq> ''1'' then errE (Errorf ''gotenmicron: model %s %q failed (%q)'' [AStr action, AStr name, AStr s] None)
     else okE ())"

definition LoadModel :: "string \<Rightarrow> (tenmicron, unit) io" where
  "LoadModel name = bindE (modelSlot ''modelld0'' name ''load'') (\<lambda>_. invalidateT)"

definition SaveModel :: "string \<Rightarrow> (tenmicron, unit) io" where "SaveModel name = modelSlot ''modelsv0'' name ''save''"
definition DeleteModel :: "string \<Rightarrow> (tenmicron, unit) io" where "DeleteModel name = modelSlot ''modeldel0'' name ''delete''"

section \<open>The network (network.go)\<close>

definition macAddr :: "string \<Rightarrow> (tenmicron, string) io" where
  "macAddr cmd = bindE (onT (Get cmd)) (\<lambda>s. okE (TrimSpace s))"

definition EthernetMAC :: "(tenmicron, string) io" where "EthernetMAC = macAddr '':GMAC#''"
definition WirelessMAC :: "(tenmicron, string) io" where "WirelessMAC = macAddr '':GMACW#''"

definition netResult :: "string \<Rightarrow> (tenmicron, unit) io" where
  "netResult cmd = bindE (onT (Get cmd)) (\<lambda>s.
     if TrimSpace s \<noteq> ''1'' then errE (Errorf ''gotenmicron: network config rejected (%q)'' [AStr s] None) else okE ())"

definition SetLANDHCP :: "(tenmicron, unit) io" where "SetLANDHCP = netResult '':SIP1#''"

definition SetLANStatic :: "string \<Rightarrow> string \<Rightarrow> string \<Rightarrow> (tenmicron, unit) io" where
  "SetLANStatic ip netmask gateway = netResult ('':SIP0,'' @ ip @ '','' @ netmask @ '','' @ gateway @ ''#'')"

definition SetWakeOnLAN :: "bool \<Rightarrow> (tenmicron, unit) io" where
  "SetWakeOnLAN b = tm_must (onT (Ack ('':SWOL'' @ fmt_d 0 (tm_b2i b) @ ''#'')))"

definition ShutdownWireless :: "(tenmicron, unit) io" where "ShutdownWireless = netResult '':SWRLC#''"

type_synonym FeatureState = int

definition FeatureUnavailable :: FeatureState where "FeatureUnavailable = 0"
definition FeatureDisabled :: FeatureState where "FeatureDisabled = 1"
definition FeatureEnabled :: FeatureState where "FeatureEnabled = 2"

definition featureState :: "string \<Rightarrow> (tenmicron, FeatureState) io" where
  "featureState cmd = bindE (onT (Get cmd)) (\<lambda>s.
     if TrimSpace s = ''1'' then okE FeatureEnabled
     else if TrimSpace s = ''0'' then okE FeatureDisabled
     else okE FeatureUnavailable)"

definition WakeOnLANState :: "(tenmicron, FeatureState) io" where "WakeOnLANState = featureState '':GWOL#''"
definition StartWirelessScan :: "(tenmicron, bool) io" where "StartWirelessScan = getBool '':GWRSC#''"

definition WirelessAccessPoints :: "(tenmicron, string list) io" where
  "WirelessAccessPoints = bindE (onT (Get '':GWRAP#'')) (\<lambda>s.
     let s = TrimSpace s
     in if s = [] \<or> s = ''0'' then okE []
        else okE (map unescapeString (filter (\<lambda>n. n \<noteq> []) (Split CHR '','' (TrimPrefix s ''1'')))))"

definition WirelessWEP :: string where "WirelessWEP = ''WEP''"
definition WirelessWPA :: string where "WirelessWPA = ''WPA''"

definition ConfigureWirelessHotspot :: "string \<Rightarrow> string \<Rightarrow> string \<Rightarrow> string \<Rightarrow> string \<Rightarrow> (tenmicron, unit) io" where
  "ConfigureWirelessHotspot ssid enc key ip netmask =
     netResult ('':SWRL1,'' @ escapeString ssid @ '','' @ enc @ '','' @ escapeString key @ '','' @ ip @ '','' @ netmask @ ''#'')"

definition ConfigureWirelessClientDHCP :: "string \<Rightarrow> string \<Rightarrow> string \<Rightarrow> (tenmicron, unit) io" where
  "ConfigureWirelessClientDHCP ssid enc key =
     netResult ('':SWRL0,'' @ escapeString ssid @ '','' @ enc @ '','' @ escapeString key @ '',DHCP#'')"

definition ConfigureWirelessClientStatic ::
  "string \<Rightarrow> string \<Rightarrow> string \<Rightarrow> string \<Rightarrow> string \<Rightarrow> string \<Rightarrow> (tenmicron, unit) io" where
  "ConfigureWirelessClientStatic ssid enc key ip netmask gateway =
     netResult ('':SWRL0,'' @ escapeString ssid @ '','' @ enc @ '','' @ escapeString key @ '','' @ ip @ '',''
       @ netmask @ '','' @ gateway @ ''#'')"

record DiscoveryService =
  dsAvailable :: bool
  dsActive :: bool
  dsName :: string

definition readDiscoveryService :: "(tenmicron, DiscoveryService) io" where
  "readDiscoveryService = bindE (onT (Get '':NTGdisc#'')) (\<lambda>s.
     let f = SplitN2 CHR '','' (TrimSpace s)
     in okE \<lparr>dsAvailable = (f ! 0 = ''1'' \<or> f ! 0 = ''0'' \<and> length f = 2), dsActive = (f ! 0 = ''1''),
             dsName = (if length f = 2 then f ! 1 else [])\<rparr>)"

definition ConfigureDiscoveryService :: "bool \<Rightarrow> string \<Rightarrow> (tenmicron, unit) io" where
  "ConfigureDiscoveryService active name =
     netResult ('':NTSdisc'' @ fmt_d 0 (tm_b2i active) @ (if name \<noteq> [] then '','' @ name else []) @ ''#'')"

definition WebInterfaceActive :: "(tenmicron, bool) io" where "WebInterfaceActive = getBool '':NTGweb#''"

definition SetWebInterface :: "bool \<Rightarrow> (tenmicron, unit) io" where
  "SetWebInterface active = netResult ('':NTSweb'' @ fmt_d 0 (tm_b2i active) @ ''#'')"

section \<open>The system (system.go)\<close>

definition SetPrecisionLow :: "(tenmicron, unit) io" where "SetPrecisionLow = onT (Blind '':U0#'')"
definition SetPrecisionHigh :: "(tenmicron, unit) io" where "SetPrecisionHigh = onT (Blind '':U1#'')"
definition SetPrecisionUltra :: "(tenmicron, unit) io" where "SetPrecisionUltra = onT (Blind '':U2#'')"
definition TogglePrecision :: "(tenmicron, unit) io" where "TogglePrecision = onT (Blind '':U#'')"
definition tm_Product :: "(tenmicron, string) io" where "tm_Product = onT (Get '':GVP#'')"
definition HardwareID :: "(tenmicron, string) io" where "HardwareID = bindE (onT (Get '':GETID#'')) (\<lambda>s. okE (TrimSpace s))"
definition FirmwareTime :: "(tenmicron, string) io" where "FirmwareTime = onT (Get '':GVT#'')"
definition ControlBoxVersion :: "(tenmicron, string) io" where "ControlBoxVersion = onT (Get '':GVZ#'')"
definition EmulatedFirmwareRev :: "(tenmicron, string) io" where "EmulatedFirmwareRev = onT (Get '':V#'')"
definition ConnectionType :: "(tenmicron, int) io" where "ConnectionType = getInt '':GINQ#''"

record NetworkConfig =
  ncIP :: string
  ncNetmask :: string
  ncGateway :: string
  ncFlag :: string

definition netConfig :: "string \<Rightarrow> (tenmicron, NetworkConfig) io" where
  "netConfig cmd = bindE (onT (Get cmd)) (\<lambda>s.
     let p = Split CHR '','' (TrimSpace s); fld = (\<lambda>i. if i < length p then p ! i else [])
     in okE \<lparr>ncIP = fld 0, ncNetmask = fld 1, ncGateway = fld 2, ncFlag = fld 3\<rparr>)"

definition WiredNetwork :: "(tenmicron, NetworkConfig) io" where "WiredNetwork = netConfig '':GIP#''"
definition WirelessNetwork :: "(tenmicron, NetworkConfig) io" where "WirelessNetwork = netConfig '':GIPW#''"
definition WirelessAvailable :: "(tenmicron, bool) io" where "WirelessAvailable = getBool '':GWAV#''"
definition WirelessESSID :: "(tenmicron, string) io" where "WirelessESSID = onT (Get '':GWID#'')"
definition WirelessStatus :: "(tenmicron, string) io" where "WirelessStatus = onT (Get '':GWUP#'')"
definition Shutdown :: "(tenmicron, unit) io" where "Shutdown = tm_must (onT (Ack '':shutdown#''))"
definition SetBaudRate :: "int \<Rightarrow> (tenmicron, unit) io" where "SetBaudRate r = tm_must (onT (Ack ('':SB'' @ fmt_d 0 r @ ''#'')))"
definition EmulateLX200 :: "(tenmicron, unit) io" where "EmulateLX200 = onT (Blind '':EMULX#'')"
definition EmulateAstroPhysics :: "(tenmicron, unit) io" where "EmulateAstroPhysics = onT (Blind '':EMUAP#'')"
definition AutoPowerOnState :: "(tenmicron, FeatureState) io" where "AutoPowerOnState = featureState '':GAPO#''"

definition SetAutoPowerOn :: "bool \<Rightarrow> (tenmicron, unit) io" where
  "SetAutoPowerOn b = tm_must (onT (Ack ('':SAPO'' @ fmt_d 0 (tm_b2i b) @ ''#'')))"

record MountConfig =
  cfgAltAz :: bool
  cfgFork :: bool
  cfgSouthern :: bool
  cfgHomed :: bool

definition MountConfiguration :: "(tenmicron, MountConfig) io" where
  "MountConfiguration = bindE (onT (Get '':GCFG#'')) (\<lambda>s.
     let f = Split CHR '','' (TrimSpace s)
     in if length f \<noteq> 4 then errE (Errorf ''gotenmicron: bad :GCFG# reply %q'' [AStr s] None)
        else okE \<lparr>cfgAltAz = (f ! 0 = ''A''), cfgFork = (f ! 1 = ''F''), cfgSouthern = (f ! 2 = ''S''), cfgHomed = (f ! 3 = ''H'')\<rparr>)"

section \<open>Focusers and rotators (focuser.go, rotator.go)\<close>

definition getIntPair :: "string \<Rightarrow> (tenmicron, int \<times> int) io" where
  "getIntPair cmd = bindE (onT (Get cmd)) (\<lambda>s.
     let s = TrimSpace s
     in if s = ''E'' then errE (Errorf ''gotenmicron: %s error'' [AStr cmd] None)
        else case SplitN2 CHR '','' s of
               [a, b] \<Rightarrow> okE (fst (Atoi (TrimSpace a)), fst (Atoi (TrimSpace b)))
             | _ \<Rightarrow> errE (Errorf ''gotenmicron: bad pair reply %q'' [AStr s] None))"

definition FocuserMaxIndex :: "(tenmicron, int) io" where "FocuserMaxIndex = getInt '':FocQmax#''"
definition RotatorMaxIndex :: "(tenmicron, int) io" where "RotatorMaxIndex = getInt '':FocQmax#''"

definition foc_cmd :: "int \<Rightarrow> string \<Rightarrow> string" where
  "foc_cmd n verb = '':Foc'' @ verb @ fmt_d 0 n @ ''#''"

definition foc_cmdp :: "int \<Rightarrow> string \<Rightarrow> string \<Rightarrow> string" where
  "foc_cmdp n verb params = '':Foc'' @ verb @ fmt_d 0 n @ '','' @ params @ ''#''"

record FocuserInfo =
  fiName :: string
  fiType :: string
  fiSerial :: string

definition parseInfo :: "string \<Rightarrow> FocuserInfo" where
  "parseInfo s = (let p = Split CHR '','' s; fld = (\<lambda>i. if i < length p then p ! i else [])
     in \<lparr>fiName = fld 0, fiType = fld 1, fiSerial = fld 2\<rparr>)"

definition foc_Available :: "int \<Rightarrow> (tenmicron, bool) io" where "foc_Available n = getBool (foc_cmd n ''Q'')"

definition foc_Info :: "int \<Rightarrow> (tenmicron, FocuserInfo) io" where
  "foc_Info n = bindE (onT (Get (foc_cmd n ''I''))) (\<lambda>s.
     if TrimSpace s = [] then errE (Errorf ''gotenmicron: focuser %d info unavailable'' [AInt n] None)
     else okE (parseInfo s))"

definition foc_Position :: "int \<Rightarrow> (tenmicron, int) io" where "foc_Position n = getInt (foc_cmd n ''GuF'')"
definition foc_Destination :: "int \<Rightarrow> (tenmicron, int) io" where "foc_Destination n = getInt (foc_cmd n ''Guf'')"
definition foc_SetDestination :: "int \<Rightarrow> int \<Rightarrow> (tenmicron, bool) io" where
  "foc_SetDestination n microns = onT (Ack (foc_cmdp n ''SuF'' (fmt_plus_d 7 microns)))"
definition foc_StartMove :: "int \<Rightarrow> (tenmicron, bool) io" where "foc_StartMove n = onT (Ack (foc_cmd n ''SS''))"
definition foc_Moving :: "int \<Rightarrow> (tenmicron, bool) io" where "foc_Moving n = getBool (foc_cmd n ''D'')"
definition foc_Status :: "int \<Rightarrow> (tenmicron, int) io" where "foc_Status n = getInt (foc_cmd n ''d'')"
definition foc_Temperature :: "int \<Rightarrow> (tenmicron, f64) io" where "foc_Temperature n = getFloat (foc_cmd n ''T'')"
definition foc_MaxSpeed :: "int \<Rightarrow> (tenmicron, int) io" where "foc_MaxSpeed n = getInt (foc_cmd n ''Gms'')"
definition foc_SetMaxSpeed :: "int \<Rightarrow> int \<Rightarrow> (tenmicron, bool) io" where
  "foc_SetMaxSpeed n v = onT (Ack (foc_cmdp n ''Sms'' (fmt_d 5 v)))"
definition foc_MaxSpeedRange :: "int \<Rightarrow> (tenmicron, int \<times> int) io" where "foc_MaxSpeedRange n = getIntPair (foc_cmd n ''Gmsr'')"
definition foc_PositionValid :: "int \<Rightarrow> (tenmicron, bool) io" where "foc_PositionValid n = getBool (foc_cmd n ''Gv'')"
definition foc_Range :: "int \<Rightarrow> (tenmicron, int \<times> int) io" where "foc_Range n = getIntPair (foc_cmd n ''GZ'')"
definition foc_SetRange :: "int \<Rightarrow> int \<Rightarrow> int \<Rightarrow> (tenmicron, bool) io" where
  "foc_SetRange n lo hi = onT (Ack (foc_cmdp n ''SZ'' (fmt_plus_d 6 lo @ '','' @ fmt_plus_d 6 hi)))"
definition foc_StartHoming :: "int \<Rightarrow> (tenmicron, bool) io" where "foc_StartHoming n = onT (Ack (foc_cmd n ''HS''))"
definition foc_HomingStatus :: "int \<Rightarrow> (tenmicron, int) io" where "foc_HomingStatus n = getInt (foc_cmd n ''HG'')"
definition foc_MoveAtSpeed :: "int \<Rightarrow> int \<Rightarrow> (tenmicron, bool) io" where
  "foc_MoveAtSpeed n v = onT (Ack (foc_cmdp n ''Ss'' (fmt_plus_d 7 v)))"
definition foc_Stop :: "int \<Rightarrow> (tenmicron, unit) io" where "foc_Stop n = onT (Blind (foc_cmd n ''Sq''))"

definition Focuser1In :: "(tenmicron, unit) io" where "Focuser1In = onT (Blind '':F+#'')"
definition Focuser1Out :: "(tenmicron, unit) io" where "Focuser1Out = onT (Blind '':F-#'')"
definition Focuser1SpeedFast :: "(tenmicron, unit) io" where "Focuser1SpeedFast = onT (Blind '':FF#'')"
definition Focuser1SpeedSlow :: "(tenmicron, unit) io" where "Focuser1SpeedSlow = onT (Blind '':FS#'')"
definition Focuser1Halt :: "(tenmicron, unit) io" where "Focuser1Halt = onT (Blind '':FQ#'')"
definition Focuser1Speed :: "int \<Rightarrow> (tenmicron, unit) io" where "Focuser1Speed n = onT (Blind ('':F'' @ fmt_d 0 n @ ''#''))"

datatype RotatorFrame = RotatorMechanical | RotatorEquatorial | RotatorOptical

fun rotPosVerb :: "RotatorFrame \<Rightarrow> string" where
  "rotPosVerb RotatorMechanical = ''M''"
| "rotPosVerb RotatorEquatorial = ''R''"
| "rotPosVerb RotatorOptical = ''O''"

fun rotDstVerb :: "RotatorFrame \<Rightarrow> string" where
  "rotDstVerb RotatorMechanical = ''m''"
| "rotDstVerb RotatorEquatorial = ''r''"
| "rotDstVerb RotatorOptical = ''o''"

definition rot_cmd :: "int \<Rightarrow> string \<Rightarrow> string" where
  "rot_cmd n verb = '':Rot'' @ verb @ fmt_d 0 n @ ''#''"

definition getVOK :: "string \<Rightarrow> (tenmicron, bool) io" where
  "getVOK cmd = bindE (onT (Get cmd)) (\<lambda>s. okE (TrimSpace s = ''V''))"

definition rot_Available :: "int \<Rightarrow> (tenmicron, bool) io" where "rot_Available n = getBool (rot_cmd n ''Q'')"

definition rot_Info :: "int \<Rightarrow> (tenmicron, FocuserInfo) io" where
  "rot_Info n = bindE (onT (Get (rot_cmd n ''I''))) (\<lambda>s.
     if TrimSpace s = [] then errE (Errorf ''gotenmicron: rotator %d info unavailable'' [AInt n] None)
     else okE (parseInfo s))"

definition rot_Angle :: "int \<Rightarrow> RotatorFrame \<Rightarrow> (tenmicron, f64) io" where
  "rot_Angle n frame = getFloat (rot_cmd n (''G'' @ rotPosVerb frame))"
definition rot_Destination :: "int \<Rightarrow> RotatorFrame \<Rightarrow> (tenmicron, f64) io" where
  "rot_Destination n frame = getFloat (rot_cmd n (''G'' @ rotDstVerb frame))"
definition rot_SetDestination :: "int \<Rightarrow> RotatorFrame \<Rightarrow> f64 \<Rightarrow> (tenmicron, bool) io" where
  "rot_SetDestination n frame deg =
     onT (Ack ('':RotS'' @ rotDstVerb frame @ fmt_d 0 n @ '','' @ fmt_f True 9 4 deg @ ''#''))"
definition rot_Moving :: "int \<Rightarrow> (tenmicron, bool) io" where "rot_Moving n = getBool (rot_cmd n ''D'')"
definition rot_Status :: "int \<Rightarrow> (tenmicron, int) io" where "rot_Status n = getInt (rot_cmd n ''d'')"
definition rot_MaxSpeed :: "int \<Rightarrow> (tenmicron, int) io" where "rot_MaxSpeed n = getInt (rot_cmd n ''Gms'')"
definition rot_SetMaxSpeed :: "int \<Rightarrow> int \<Rightarrow> (tenmicron, bool) io" where
  "rot_SetMaxSpeed n v = onT (Ack ('':RotSms'' @ fmt_d 0 n @ '','' @ fmt_d 3 v @ ''#''))"
definition rot_MaxSpeedRange :: "int \<Rightarrow> (tenmicron, int \<times> int) io" where "rot_MaxSpeedRange n = getIntPair (rot_cmd n ''Gmsr'')"
definition rot_PositionValid :: "int \<Rightarrow> (tenmicron, bool) io" where "rot_PositionValid n = getBool (rot_cmd n ''Gv'')"
definition rot_Offset :: "int \<Rightarrow> (tenmicron, f64) io" where "rot_Offset n = getFloat (rot_cmd n ''Gof'')"
definition rot_SetOffset :: "int \<Rightarrow> f64 \<Rightarrow> (tenmicron, bool) io" where
  "rot_SetOffset n deg = onT (Ack ('':RotSof'' @ fmt_d 0 n @ '','' @ fmt_f True 9 4 deg @ ''#''))"
definition rot_ZeroMechanical :: "int \<Rightarrow> (tenmicron, bool) io" where "rot_ZeroMechanical n = getVOK (rot_cmd n ''SmZ'')"
definition rot_ZeroEquatorial :: "int \<Rightarrow> (tenmicron, bool) io" where "rot_ZeroEquatorial n = getVOK (rot_cmd n ''SeZ'')"
definition rot_StartHoming :: "int \<Rightarrow> (tenmicron, bool) io" where "rot_StartHoming n = onT (Ack (rot_cmd n ''HS''))"
definition rot_HomingStatus :: "int \<Rightarrow> (tenmicron, int) io" where "rot_HomingStatus n = getInt (rot_cmd n ''HG'')"
definition rot_Stop :: "int \<Rightarrow> (tenmicron, unit) io" where "rot_Stop n = onT (Blind (rot_cmd n ''Sq''))"

section \<open>Satellites and trajectories (satellite.go)\<close>

definition noTLE :: gerr where "noTLE = ErrNew ''gotenmicron: no TLE loaded''"

definition LoadTLE :: "string \<Rightarrow> (tenmicron, unit) io" where
  "LoadTLE tle = expectV ('':TLEL0'' @ tle @ ''#'') ''gotenmicron: TLE rejected (%q)''"

definition LoadedTLE :: "(tenmicron, string) io" where
  "LoadedTLE = bindE (onT (Get '':TLEG#'')) (\<lambda>s. if TrimSpace s = ''E'' then errE noTLE else okE s)"

definition satPair :: "string \<Rightarrow> (tenmicron, f64 \<times> f64) io" where
  "satPair cmd = bindE (onT (Get cmd)) (\<lambda>s.
     let s = TrimSpace s
     in if s = ''E'' then errE noTLE
        else case Split CHR '','' s of
               [a, b] \<Rightarrow> okE (floatOf a, floatOf b)
             | _ \<Rightarrow> errE (Errorf ''gotenmicron: bad satellite reply %q'' [AStr s] None))"

definition SatelliteEquatorial :: "f64 \<Rightarrow> (tenmicron, f64 \<times> f64) io" where
  "SatelliteEquatorial jd = satPair ('':TLEGEQ'' @ fmt_f False 0 6 jd @ ''#'')"

definition SatelliteHorizontal :: "f64 \<Rightarrow> (tenmicron, f64 \<times> f64) io" where
  "SatelliteHorizontal jd = satPair ('':TLEGAZ'' @ fmt_f False 0 6 jd @ ''#'')"

record Transit =
  JDStart :: f64
  JDEnd :: f64
  tFlip :: bool

definition ErrNoSatellitePass :: gerr where
  "ErrNoSatellitePass = ErrNew ''gotenmicron: no satellite pass in the given interval''"

definition parseTransit :: "string \<Rightarrow> gerr + Transit" where
  "parseTransit s =
     (let f = Split CHR '','' s
      in if length f < 2 then Inl (Errorf ''gotenmicron: bad transit reply %q'' [AStr s] None)
         else Inr \<lparr>JDStart = floatOf (f ! 0), JDEnd = floatOf (f ! 1), tFlip = (length f > 2 \<and> Contains (f ! 2) ''F'')\<rparr>)"

definition PrecalcTransit :: "f64 \<Rightarrow> int \<Rightarrow> (tenmicron, Transit) io" where
  "PrecalcTransit jd minutes = bindE (onT (Get ('':TLEP'' @ fmt_f False 0 6 jd @ '','' @ fmt_d 0 minutes @ ''#''))) (\<lambda>s.
     if TrimSpace s = ''E'' then errE (ErrNew ''gotenmicron: no TLE loaded or invalid command'')
     else if TrimSpace s = ''N'' then errE ErrNoSatellitePass
     else liftE (parseTransit (TrimSpace s)))"

datatype TransitSlewState =
  TransitSlewing | TransitWaiting | TransitCatching | TransitTracking | TransitEnded | TransitUnknown

definition SlewToTransit :: "(tenmicron, unit) io" where
  "SlewToTransit = bindE (onT (Get '':TLES#'')) (\<lambda>s.
     if TrimSpace s = ''V'' then invalidateT
     else if TrimSpace s = ''E'' then errE (ErrNew ''gotenmicron: no transit precalculated'')
     else if TrimSpace s = ''F'' then errE (ErrNew ''gotenmicron: transit slew blocked (parked or other state)'')
     else errE (Errorf ''gotenmicron: unexpected :TLES# reply %q'' [AStr s] None))"

definition TransitSlewStatus :: "(tenmicron, TransitSlewState) io" where
  "TransitSlewStatus = bindE (onT (Get '':TLESCK#'')) (\<lambda>s.
     let r = TrimSpace s
     in okE (if r = ''V'' then TransitSlewing else if r = ''P'' then TransitWaiting
             else if r = ''S'' then TransitCatching else if r = ''T'' then TransitTracking
             else if r = ''Q'' then TransitEnded else TransitUnknown))"

definition NewTrajectory :: "f64 \<Rightarrow> (tenmicron, unit) io" where
  "NewTrajectory jd = expectV ('':TRNEW'' @ fmt_f False 0 6 jd @ ''#'') ''gotenmicron: TRNEW rejected (%q)''"

definition AddTrajectoryPoint :: "f64 \<Rightarrow> f64 \<Rightarrow> (tenmicron, int) io" where
  "AddTrajectoryPoint azDeg altDeg =
     bindE (onT (Get ('':TRADD'' @ fmt_f False 0 5 azDeg @ '','' @ fmt_f False 0 5 altDeg @ ''#''))) (\<lambda>s.
     if TrimSpace s = ''E'' then errE (ErrNew ''gotenmicron: invalid trajectory point or limit exceeded'')
     else liftE (val_err (Atoi (TrimSpace s))))"

definition PrecalcTrajectory :: "(tenmicron, Transit) io" where
  "PrecalcTrajectory = bindE (onT (Get '':TRP#'')) (\<lambda>s.
     if TrimSpace s = ''N'' then errE (ErrNew ''gotenmicron: no trajectory defined or cannot be computed'')
     else liftE (parseTransit (TrimSpace s)))"

definition DatabaseTLECount :: "(tenmicron, int) io" where "DatabaseTLECount = getInt '':TLEDN#''"

definition LoadDatabaseTLE :: "int \<Rightarrow> (tenmicron, string) io" where
  "LoadDatabaseTLE n = bindE (onT (Get ('':TLEDL'' @ fmt_d 0 n @ ''#''))) (\<lambda>s.
     if TrimSpace s = ''E'' then errE (Errorf ''gotenmicron: no TLE at database index %d'' [AInt n] None) else okE s)"

definition ReplayTrajectory :: "(tenmicron, Transit) io" where
  "ReplayTrajectory = bindE (onT (Get '':TRREPLAY#'')) (\<lambda>s.
     if TrimSpace s = ''E'' then errE (ErrNew ''gotenmicron: no arbitrary trajectory defined'')
     else if TrimSpace s = ''N'' then errE ErrNoSatellitePass
     else liftE (parseTransit (TrimSpace s)))"

definition OffsetAxis1 :: int where "OffsetAxis1 = 1"
definition OffsetAxis2 :: int where "OffsetAxis2 = 2"
definition OffsetAxis1Sky :: int where "OffsetAxis1Sky = 3"
definition OffsetTime :: int where "OffsetTime = 4"

definition trajOffset :: "string \<Rightarrow> int \<Rightarrow> f64 \<Rightarrow> (tenmicron, unit) io" where
  "trajOffset verb idx v = bindE (onT (Get ('':TROFF'' @ verb @ fmt_d 0 idx @ '','' @ fmt_f True 7 1 v @ ''#''))) (\<lambda>s.
     if TrimSpace s \<noteq> ''V''
     then errE (Errorf (''gotenmicron: trajectory offset %d not applied '' @ em_dash
            @ '' not following a trajectory (or invalid id/value)'') [AInt idx] None)
     else okE ())"

definition AddTrajectoryOffset :: "int \<Rightarrow> f64 \<Rightarrow> (tenmicron, unit) io" where "AddTrajectoryOffset idx v = trajOffset ''ADD'' idx v"
definition SetTrajectoryOffset :: "int \<Rightarrow> f64 \<Rightarrow> (tenmicron, unit) io" where "SetTrajectoryOffset idx v = trajOffset ''SET'' idx v"

definition TrajectoryOffsetValue :: "int \<Rightarrow> (tenmicron, f64) io" where
  "TrajectoryOffsetValue idx = bindE (onT (Get ('':TROFFGET'' @ fmt_d 0 idx @ ''#''))) (\<lambda>s.
     if TrimSpace s = ''E''
     then errE (Errorf (''gotenmicron: trajectory offset %d unavailable '' @ em_dash
            @ '' not following a trajectory (or invalid id)'') [AInt idx] None)
     else liftE (val_err (ParseFloat64 (TrimSpace s))))"

definition ClearTrajectoryOffsets :: "(tenmicron, unit) io" where
  "ClearTrajectoryOffsets = bindE (onT (Get '':TROFFCLR#'')) (\<lambda>s.
     if TrimSpace s \<noteq> ''V'' then errE (ErrNew ''gotenmicron: not following a trajectory'') else okE ())"

end
