(* ===== verification/TenProps.thy ===== *)
theory TenProps
  imports TenMore Device
begin

text \<open>The properties of the 10Micron driver.\<close>

section \<open>Escaped strings\<close>

lemma hex_dig_facts:
  assumes "a < 16"
  shows "is_hex (hex_dig a)" "hex_val (hex_dig a) = a" "hex_dig a \<noteq> CHR ''$''" "hex_dig a \<noteq> CHR ''#''" "hex_dig a \<noteq> CHR '',''"
proof -
  have "\<forall>a\<in>set [0..<16]. is_hex (hex_dig a) \<and> hex_val (hex_dig a) = a \<and> hex_dig a \<noteq> CHR ''$''
      \<and> hex_dig a \<noteq> CHR ''#'' \<and> hex_dig a \<noteq> CHR '',''"
    by code_simp
  with assms show "is_hex (hex_dig a)" "hex_val (hex_dig a) = a" "hex_dig a \<noteq> CHR ''$''" "hex_dig a \<noteq> CHR ''#''" "hex_dig a \<noteq> CHR '',''"
    by auto
qed

lemma hex_two: "n < 256 \<Longrightarrow> pad0 2 (hex_str n) = [hex_dig (n div 16), hex_dig (n mod 16)]"
proof -
  assume n: "n < 256"
  have "hex_dig 0 = CHR ''0''" by code_simp
  with n show ?thesis
    by (cases "n < 16") (simp_all add: hex_str.simps [of n] hex_str.simps [of "n div 16"] pad0_def)
qed

text \<open>One escaped character decodes to itself, whatever follows.\<close>

lemma unescape_esc_char: "unescapeString (esc_char c @ r) = c # unescapeString r"
proof -
  have n: "(of_char c :: nat) < 256" by (rule nat_of_char_less_256)
  let ?n = "of_char c :: nat"
  have d: "?n div 16 < 16" "?n mod 16 < 16" using n by linarith+
  have "char_of (16 * (?n div 16) + ?n mod 16) = c" by simp
  then have h: "hex_byte (hex_dig (?n div 16)) (hex_dig (?n mod 16)) = Some c"
    using hex_dig_facts [OF d(1)] hex_dig_facts [OF d(2)] by (simp add: hex_byte_def)
  have "hex_byte CHR ''2'' CHR ''3'' = Some CHR ''#''" "hex_byte CHR ''2'' CHR ''C'' = Some CHR '',''" by code_simp+
  then show ?thesis
    using h hex_dig_facts(3) [OF d(1)] by (auto simp: esc_char_def Let_def hex_two [OF n])
qed

lemma esc_char_safe: "CHR ''#'' \<notin> set (esc_char c)" "CHR '','' \<notin> set (esc_char c)"
proof -
  have n: "(of_char c :: nat) < 256" by (rule nat_of_char_less_256)
  have d: "of_char c div 16 < (16::nat)" "of_char c mod 16 < (16::nat)" using n by linarith+
  show "CHR ''#'' \<notin> set (esc_char c)" "CHR '','' \<notin> set (esc_char c)"
    using hex_dig_facts [OF d(1)] hex_dig_facts [OF d(2)] by (auto simp: esc_char_def Let_def hex_two [OF n])
qed

text \<open>C32: every byte string survives escaping and unescaping, and its escaped form holds neither
  the frame delimiter nor the field separator.\<close>

theorem escape_roundtrip:
  "unescapeString (escapeString s) = s \<and> CHR ''#'' \<notin> set (escapeString s) \<and> CHR '','' \<notin> set (escapeString s)"
proof -
  have "unescapeString (escapeString s) = s"
    by (induction s) (simp_all add: escapeString_def unescape_esc_char)
  moreover have "CHR ''#'' \<notin> set (escapeString s)" "CHR '','' \<notin> set (escapeString s)"
    by (auto simp: escapeString_def esc_char_safe)
  ultimately show ?thesis by blast
qed

section \<open>Versions\<close>

text \<open>Versions are ordered by major, minor and fix.\<close>

instantiation Version :: linorder
begin

definition less_eq_Version :: "Version \<Rightarrow> Version \<Rightarrow> bool" where
  "less_eq_Version v w = (Major v < Major w \<or> Major v = Major w \<and> (Minor v < Minor w \<or> Minor v = Minor w \<and> Fix v \<le> Fix w))"

definition less_Version :: "Version \<Rightarrow> Version \<Rightarrow> bool" where
  "less_Version v w = (v \<le> w \<and> \<not> w \<le> v)"

instance
proof
  fix u v w :: Version
  show "(v < w) = (v \<le> w \<and> \<not> w \<le> v)" by (rule less_Version_def)
  show "v \<le> v" by (simp add: less_eq_Version_def)
  show "u \<le> v \<Longrightarrow> v \<le> w \<Longrightarrow> u \<le> w" by (auto simp: less_eq_Version_def)
  show "v \<le> w \<Longrightarrow> w \<le> v \<Longrightarrow> v = w" by (cases v; cases w) (auto simp: less_eq_Version_def)
  show "v \<le> w \<or> w \<le> v" by (auto simp: less_eq_Version_def)
qed

end

lemma version_atLeast_le: "version_atLeast v a b c = (Version a b c \<le> v)"
  by (cases v) (auto simp: less_eq_Version_def)

lemma version_atLeast_mono: "v \<le> w \<Longrightarrow> version_atLeast v a b c \<Longrightarrow> version_atLeast w a b c"
  unfolding version_atLeast_le by (rule order_trans)

lemma parseVersion_text:
  assumes "0 \<le> a" "a < 2 ^ 63" "0 \<le> b" "b < 2 ^ 63" "0 \<le> c" "c < 2 ^ 63"
  shows "parseVersion (VersionString (Version a b c)) = Inr (Version a b c)"
proof -
  let ?s = "VersionString (Version a b c)"
  have t: "TrimSpace (TrimSuffix (TrimSpace ?s) ''#'') = ?s"
    using assms by (intro TrimSpace_trimmed) (simp_all add: VersionString_def fmt_d_hd_digit fmt_d_last_digit plain_digit)
  have "Split CHR ''.'' ?s = [fmt_d 0 a, fmt_d 0 b, fmt_d 0 c]"
    using assms by (simp add: VersionString_def Split_append Split_none digit_text)
  then show ?thesis
    unfolding parseVersion_def t using assms by (simp add: Atoi_fmt_d)
qed

text \<open>A version is read back from its text, and \<open>version_atLeast\<close> is the order of versions: the
  comparisons that gate commands by firmware agree with one another.\<close>

theorem version_text_order:
  assumes "0 \<le> a" "a < 2 ^ 63" "0 \<le> b" "b < 2 ^ 63" "0 \<le> c" "c < 2 ^ 63"
  shows "parseVersion (VersionString (Version a b c)) = Inr (Version a b c)
    \<and> version_atLeast v a b c = (Version a b c \<le> v) \<and> (v \<le> w \<longrightarrow> version_atLeast v a b c \<longrightarrow> version_atLeast w a b c)"
  using parseVersion_text [OF assms] version_atLeast_le version_atLeast_mono by blast

theorem version_text_order_witness:
  "parseVersion ''2.14.9'' = Inr (Version 2 14 9) \<and> version_atLeast (Version 3 0 0) 2 14 9"
proof -
  have "VersionString (Version 2 14 9) = ''2.14.9''" by code_simp
  with version_text_order [of 2 14 9 "Version 3 0 0" "Version 3 0 0"] show ?thesis by (simp add: less_eq_Version_def)
qed


section \<open>On a mount that answers\<close>

interpretation tc: embeds_conn tconn "\<lambda>c s. s\<lparr>tconn := c\<rparr>"
  by unfold_locales simp

lemma onT_Get:
  assumes "answering d ans (tconn s)" "ans (sent (tconn s) @ [cmd]) = t @ ''#''" "CHR ''#'' \<notin> set t"
    "int d + 2 * ms * int (length t) \<le> timeout (tconn s)"
  shows "\<exists>c. onT (Get cmd) s = (Inr t, s\<lparr>tconn := c\<rparr>) \<and> steps d ans (tconn s) [cmd] c"
  using Get_answered [OF assms] by (auto simp: onT_def)

lemma onT_Blind:
  assumes "answering d ans (tconn s)" "ans (sent (tconn s) @ [cmd]) = []"
  shows "\<exists>c. onT (Blind cmd) s = (Inr (), s\<lparr>tconn := c\<rparr>) \<and> steps d ans (tconn s) [cmd] c"
  using Blind_answered [OF assms] by (auto simp: onT_def)

lemma onT_AckByte:
  assumes "answering d ans (tconn s)" "ans (sent (tconn s) @ [cmd]) = [b]" "int d \<le> timeout (tconn s)"
  shows "\<exists>c. onT (AckByte cmd) s = (Inr b, s\<lparr>tconn := c\<rparr>) \<and> steps d ans (tconn s) [cmd] c"
  using AckByte_answered [OF assms] by (auto simp: onT_def)

lemma onT_Ack:
  assumes "answering d ans (tconn s)" "ans (sent (tconn s) @ [cmd]) = [b]" "int d \<le> timeout (tconn s)"
  shows "\<exists>c. onT (Ack cmd) s = (Inr (b = CHR ''1''), s\<lparr>tconn := c\<rparr>) \<and> steps d ans (tconn s) [cmd] c"
  using Ack_answered [OF assms] by (auto simp: onT_def)

text \<open>A reply that depends only on the command.\<close>

definition replies :: "(string \<Rightarrow> string) \<Rightarrow> string list \<Rightarrow> string" where
  "replies f h = f (last h)"

lemma replies_snoc [simp]: "replies f (h @ [c]) = f c"
  by (simp add: replies_def)

lemma tconn_new [simp]: "tconn (tm_new (wire (mount_conn d ans))) = mount_conn d ans"
  by (simp add: tm_new_def mount_conn_def New_def DefaultTimeout_def ms_def)

section \<open>Connecting\<close>

text \<open>The state a connection ends in, from the replies to its three questions.\<close>

definition after_connect :: "tenmicron \<Rightarrow> Version \<Rightarrow> string \<Rightarrow> f64 \<Rightarrow> conn \<Rightarrow> tenmicron" where
  "after_connect s fw p lat c = s\<lparr>tconn := c, firmware := fw, mountClass := parseMountClass p, southern := flt lat (Fin 0)\<rparr>"

lemma tm_setup_on:
  assumes "answering d (replies f) (tconn s)" "f '':U2#'' = []" "f '':GVN#'' = v @ ''#''" "f '':GVP#'' = p @ ''#''"
    "f '':Gt#'' = t @ ''#''" "CHR ''#'' \<notin> set (v @ p @ t)"
    "int d + 2 * ms * int (length v + length p + length t) \<le> timeout (tconn s)"
    "parseVersion v = Inr fw" "fw \<noteq> Version0" "ParseSexagesimal t = Inr lat"
  shows "\<exists>c. if version_atLeast fw 2 14 9
      then tm_setup s = (Inr (), after_connect s fw p lat c) \<and> sent c = sent (tconn s) @ ['':U2#'', '':GVN#'', '':GVP#'', '':Gt#'']
      else tm_setup s = (Inl (tooOld fw), s\<lparr>tconn := c, firmware := fw\<rparr>) \<and> sent c = sent (tconn s) @ ['':U2#'', '':GVN#'']"
proof -
  have time: "int d + 2 * ms * int (length v) \<le> timeout (tconn s)" "int d + 2 * ms * int (length p) \<le> timeout (tconn s)"
    "int d + 2 * ms * int (length t) \<le> timeout (tconn s)"
    using assms(7) by (simp_all add: ms_def)
  obtain c1 where c1: "onT (Blind '':U2#'') s = (Inr (), s\<lparr>tconn := c1\<rparr>)" "steps d (replies f) (tconn s) ['':U2#''] c1"
    using onT_Blind [OF assms(1)] assms(2) by auto
  then have a1: "answering d (replies f) (tconn (s\<lparr>tconn := c1\<rparr>))" "timeout c1 = timeout (tconn s)" by (simp_all add: steps_def)
  obtain c2 where c2: "onT (Get '':GVN#'') (s\<lparr>tconn := c1\<rparr>) = (Inr v, s\<lparr>tconn := c2\<rparr>)" "steps d (replies f) c1 ['':GVN#''] c2"
    using onT_Get [OF a1(1), of "'':GVN#''" v] assms(3,6) time(1) a1(2) by auto
  define s2 where "s2 = s\<lparr>tconn := c2, firmware := fw\<rparr>"
  have a2: "answering d (replies f) (tconn s2)" "timeout (tconn s2) = timeout (tconn s)"
    using c2(2) a1(2) by (simp_all add: steps_def s2_def)
  have old: "tm_setup s = (Inl (tooOld fw), s2)" if "\<not> version_atLeast fw 2 14 9"
    using that c1(1) c2(1) assms(8,9) by (simp add: tm_setup_def bindE_def tryE_def mapErrE_def s2_def)
  show ?thesis
  proof (cases "version_atLeast fw 2 14 9")
    case False
    with old c1(2) c2(2) show ?thesis by (auto simp: s2_def steps_def)
  next
    case True
    obtain c3 where c3: "onT (Get '':GVP#'') s2 = (Inr p, s2\<lparr>tconn := c3\<rparr>)" "steps d (replies f) (tconn s2) ['':GVP#''] c3"
      using onT_Get [OF a2(1), of "'':GVP#''" p] assms(4,6) time(2) a2(2) by auto
    define s3 where "s3 = s2\<lparr>tconn := c3, mountClass := parseMountClass p\<rparr>"
    have a3: "answering d (replies f) (tconn s3)" "timeout (tconn s3) = timeout (tconn s)"
      using c3(2) a2(2) by (simp_all add: steps_def s3_def)
    obtain c4 where c4: "onT (Get '':Gt#'') s3 = (Inr t, s3\<lparr>tconn := c4\<rparr>)" "steps d (replies f) (tconn s3) ['':Gt#''] c4"
      using onT_Get [OF a3(1), of "'':Gt#''" t] assms(5,6) time(3) a3(2) by auto
    have "tm_setup s = (Inr (), after_connect s fw p lat c4)"
      using True c1(1) c2(1) c3(1) c4(1) assms(8-10)
      by (simp add: tm_setup_def bindE_def tryE_def mapErrE_def s2_def s3_def tm_SiteLatitude_def getAngle_def after_connect_def)
    with True c1(2) c2(2) c3(2) c4(2) show ?thesis by (auto simp: s2_def s3_def steps_def)
  qed
qed

text \<open>C33: connecting asks for the firmware before anything else and refuses what is too old. On a
  mount that answers, \<open>Connect\<close> sends \<open>:U2#\<close> and \<open>:GVN#\<close>; below 2.14.9 it fails with the version in
  the message and sends no more; otherwise it asks for the product and the latitude, and the driver
  holds the version, the class of the product and the hemisphere.\<close>

theorem connect_gate:
  assumes "f '':U2#'' = []" "f '':GVN#'' = v @ ''#''" "f '':GVP#'' = p @ ''#''" "f '':Gt#'' = t @ ''#''"
    "CHR ''#'' \<notin> set (v @ p @ t)" "int d + 2 * ms * int (length v + length p + length t) \<le> 3000 * ms"
    "parseVersion v = Inr fw" "fw \<noteq> Version0" "ParseSexagesimal t = Inr lat"
  shows "if Version 2 14 9 \<le> fw
    then \<exists>m. tm_Connect (wire (mount_conn d (replies f))) = Inr m \<and> firmware m = fw \<and> mountClass m = parseMountClass p
      \<and> southern m = flt lat (Fin 0) \<and> sent (tconn m) = ['':U2#'', '':GVN#'', '':GVP#'', '':Gt#'']
    else tm_Connect (wire (mount_conn d (replies f))) = Inl (tooOld fw)
      \<and> sent (tconn (snd (tm_setup (tm_new (wire (mount_conn d (replies f))))))) = ['':U2#'', '':GVN#'']"
proof -
  let ?s = "tm_new (wire (mount_conn d (replies f)))"
  have "answering d (replies f) (tconn ?s)" "sent (tconn ?s) = []" by simp_all
  moreover have "int d + 2 * ms * int (length v + length p + length t) \<le> timeout (tconn ?s)" using assms(6) by (simp add: ms_def)
  ultimately obtain c where "if version_atLeast fw 2 14 9
      then tm_setup ?s = (Inr (), after_connect ?s fw p lat c) \<and> sent c = ['':U2#'', '':GVN#'', '':GVP#'', '':Gt#'']
      else tm_setup ?s = (Inl (tooOld fw), ?s\<lparr>tconn := c, firmware := fw\<rparr>) \<and> sent c = ['':U2#'', '':GVN#'']"
    using tm_setup_on [OF _ assms(1-5) _ assms(7-9), of d ?s] by (auto simp only: append_Nil)
  then show ?thesis by (auto simp: version_atLeast_le tm_Connect_def after_connect_def split: if_splits)
qed

theorem connect_gate_witness:
  "tm_Connect (wire (mount_conn 5 (replies (\<lambda>c. if c = '':U2#'' then [] else if c = '':GVN#'' then ''2.14.8#''
      else if c = '':GVP#'' then ''GM1000#'' else ''00:00:00#'')))) = Inl (tooOld (Version 2 14 8))"
proof -
  have "VersionString (Version 2 14 8) = ''2.14.8''" by code_simp
  then have v: "parseVersion ''2.14.8'' = Inr (Version 2 14 8)" using parseVersion_text [of 2 14 8] by simp
  have t: "\<exists>lat. ParseSexagesimal (hms_text 0 0 0) = Inr lat" using ParseSexagesimal_hms [of 0 0 0] by auto
  have h: "hms_text 0 0 0 = ''00:00:00''" by code_simp
  from t obtain lat where lat: "ParseSexagesimal ''00:00:00'' = Inr lat" unfolding h by blast
  show ?thesis
    using connect_gate [OF _ _ _ _ _ _ v _ lat, of "\<lambda>c. if c = '':U2#'' then [] else if c = '':GVN#'' then ''2.14.8#''
      else if c = '':GVP#'' then ''GM1000#'' else ''00:00:00#''" "''GM1000''" 5]
    by (simp add: less_eq_Version_def Version0_def ms_def)
qed

section \<open>Exact manual rates\<close>

lemma SpeedCorrection_on:
  assumes "answering d ans (tconn s)" "ans (sent (tconn s) @ ['':GSC#'']) = [b]" "int d \<le> timeout (tconn s)"
  shows "\<exists>c. SpeedCorrection s = (Inr (b = CHR ''1''), s\<lparr>tconn := c\<rparr>) \<and> steps d ans (tconn s) ['':GSC#''] c"
  using onT_AckByte [OF assms] by (auto simp: SpeedCorrection_def getBoolByte_def bindE_def)

lemma moveAtRate_on:
  assumes "answering d ans (tconn s)" "ans (sent (tconn s) @ [cmd]) = []"
    "ans (sent (tconn s) @ [cmd, '':M'' @ [dir] @ ''#'']) = []"
  shows "\<exists>c. moveAtRate a cmd dir s = (Inr (), tm_invalidate (tm_setMoving a True (s\<lparr>tconn := c\<rparr>)))
    \<and> steps d ans (tconn s) [cmd, '':M'' @ [dir] @ ''#''] c"
proof -
  obtain c1 where c1: "onT (Blind cmd) s = (Inr (), s\<lparr>tconn := c1\<rparr>)" "steps d ans (tconn s) [cmd] c1"
    using onT_Blind [OF assms(1,2)] by blast
  then obtain c2 where c2: "onT (Move dir) (s\<lparr>tconn := c1\<rparr>) = (Inr (), s\<lparr>tconn := c2\<rparr>)" "steps d ans c1 ['':M'' @ [dir] @ ''#''] c2"
    using onT_Blind [of d ans "s\<lparr>tconn := c1\<rparr>" "'':M'' @ [dir] @ ''#''"] assms(3) by (auto simp: Move_def steps_def)
  have "steps d ans (tconn s) [cmd, '':M'' @ [dir] @ ''#''] c2" using steps_trans [OF c1(2) c2(2)] by simp
  moreover have "moveAtRate a cmd dir s = (Inr (), tm_invalidate (tm_setMoving a True (s\<lparr>tconn := c2\<rparr>)))"
    using c1(1) c2(1) by (simp add: moveAtRate_def bindE_def)
  ultimately show ?thesis by blast
qed


lemma onT_Ack_replies:
  assumes "answering d (replies f) (tconn s)" "f cmd = ''1''" "int d \<le> timeout (tconn s)"
  shows "\<exists>c. onT (Ack cmd) s = (Inr True, s\<lparr>tconn := c\<rparr>) \<and> steps d (replies f) (tconn s) [cmd] c"
  using onT_Ack [OF assms(1) _ assms(3), of cmd "CHR ''1''"] assms(2) by simp

lemma speed_texts: "'':SSC'' @ fmt_d 0 (tm_b2i False) @ ''#'' = '':SSC0#''" "'':SSC'' @ fmt_d 0 (tm_b2i True) @ ''#'' = '':SSC1#''"
  by code_simp+

lemma moving_reported: "tm_Slewing (tm_invalidate (tm_setMoving a True s)) = (Inr True, tm_invalidate (tm_setMoving a True s))"
  by (simp add: tm_Slewing_def manuallyMoving_def tm_invalidate_def tm_setMoving_def)

lemma moveAtRate_replies:
  assumes "answering d (replies f) k" "f rate = []" "f ('':M'' @ [dir] @ ''#'') = []"
  shows "\<exists>c. moveAtRate a rate dir (s\<lparr>tconn := k\<rparr>) = (Inr (), tm_invalidate (tm_setMoving a True (s\<lparr>tconn := c\<rparr>)))
    \<and> steps d (replies f) k [rate, '':M'' @ [dir] @ ''#''] c"
  using moveAtRate_on [of d "replies f" "s\<lparr>tconn := k\<rparr>" rate dir a] assms by (simp add: replies_def)

text \<open>The move with the speed correction switched off around it.\<close>

lemma corrected_move:
  assumes "answering d (replies f) (tconn s)" "int d \<le> timeout (tconn s)" "f '':SSC0#'' = ''1''" "f '':SSC1#'' = ''1''"
    "f rate = []" "f ('':M'' @ [dir] @ ''#'') = []"
  shows "\<exists>c. bindE (SetSpeedCorrection False) (\<lambda>_. deferE (moveAtRate a rate dir) (SetSpeedCorrection True)) s
      = (Inr (), tm_invalidate (tm_setMoving a True (s\<lparr>tconn := c\<rparr>)))
    \<and> sent c = sent (tconn s) @ ['':SSC0#'', rate, '':M'' @ [dir] @ ''#'', '':SSC1#'']"
proof -
  obtain c2 where c2: "SetSpeedCorrection False s = (Inr True, s\<lparr>tconn := c2\<rparr>)" "steps d (replies f) (tconn s) ['':SSC0#''] c2"
    using onT_Ack_replies [OF assms(1,3,2)] unfolding SetSpeedCorrection_def speed_texts by auto
  obtain c3 where c3: "moveAtRate a rate dir (s\<lparr>tconn := c2\<rparr>) = (Inr (), tm_invalidate (tm_setMoving a True (s\<lparr>tconn := c3\<rparr>)))"
      "steps d (replies f) c2 [rate, '':M'' @ [dir] @ ''#''] c3"
    using moveAtRate_replies [OF _ assms(5,6), of d c2] c2(2) by (auto simp: steps_def)
  define s3 where "s3 = tm_invalidate (tm_setMoving a True (s\<lparr>tconn := c3\<rparr>))"
  have t3: "tconn s3 = c3" by (simp add: s3_def tm_invalidate_def tm_setMoving_def)
  have a3: "answering d (replies f) (tconn s3)" "int d \<le> timeout (tconn s3)"
    using c3(2) c2(2) assms(2) by (simp_all add: steps_def t3)
  obtain c4 where c4: "SetSpeedCorrection True s3 = (Inr True, s3\<lparr>tconn := c4\<rparr>)" "steps d (replies f) c3 ['':SSC1#''] c4"
    using onT_Ack_replies [OF a3(1) assms(4) a3(2)] unfolding SetSpeedCorrection_def speed_texts t3 by auto
  have "s3\<lparr>tconn := c4\<rparr> = tm_invalidate (tm_setMoving a True (s\<lparr>tconn := c4\<rparr>))"
    by (simp add: s3_def tm_invalidate_def tm_setMoving_def)
  then have "bindE (SetSpeedCorrection False) (\<lambda>_. deferE (moveAtRate a rate dir) (SetSpeedCorrection True)) s
      = (Inr (), tm_invalidate (tm_setMoving a True (s\<lparr>tconn := c4\<rparr>)))"
    using c2(1) c3(1) c4(1) by (simp add: bindE_def deferE_def tryE_def s3_def)
  moreover have "sent c4 = sent (tconn s) @ ['':SSC0#'', rate, '':M'' @ [dir] @ ''#'', '':SSC1#'']"
    using c2(2) c3(2) c4(2) by (simp add: steps_def)
  ultimately show ?thesis by blast
qed

text \<open>A manual move of the primary axis at an exact rate. On a mount that answers, for every
  rate above zero and below 100 degrees a second, the speed correction is switched off before the
  rate and the move when it was on, and switched on again behind them; nothing else is sent, and
  the axis is reported as slewing from then on.\<close>

theorem move_axis_rate_exact:
  assumes "answering d (replies f) (tconn s)" "int d \<le> timeout (tconn s)"
    "f '':GSC#'' = [b]" "f '':SSC0#'' = ''1''" "f '':SSC1#'' = ''1''"
    "f ('':RA'' @ fmt_f False 9 6 x @ ''#'') = []" "f ('':M'' @ [if pos then East else West] @ ''#'') = []"
    "\<not> fle x (Fin 0)" "\<not> fle (Fin 100) x"
  shows "\<exists>s'. tm_MoveAxisRate AxisPrimary pos x s = (Inr (), s') \<and> tm_Slewing s' = (Inr True, s')
    \<and> sent (tconn s') = sent (tconn s) @ ['':GSC#''] @ (if b = CHR ''1'' then ['':SSC0#''] else [])
        @ ['':RA'' @ fmt_f False 9 6 x @ ''#'', '':M'' @ [if pos then East else West] @ ''#'']
        @ (if b = CHR ''1'' then ['':SSC1#''] else [])"
proof -
  define rate where "rate = '':RA'' @ fmt_f False 9 6 x @ ''#''"
  define dir where "dir = (if pos then East else West)"
  have def: "tm_MoveAxisRate AxisPrimary pos x = tryE SpeedCorrection (\<lambda>r. if r = Inr True
      then bindE (SetSpeedCorrection False) (\<lambda>_. deferE (moveAtRate AxisPrimary rate dir) (SetSpeedCorrection True))
      else moveAtRate AxisPrimary rate dir)"
    unfolding tm_MoveAxisRate_def rate_def dir_def Let_def using assms(8,9) by simp
  have fr: "f rate = []" "f ('':M'' @ [dir] @ ''#'') = []" using assms(6,7) by (simp_all only: rate_def dir_def)
  obtain c1 where c1: "SpeedCorrection s = (Inr (b = CHR ''1''), s\<lparr>tconn := c1\<rparr>)" "steps d (replies f) (tconn s) ['':GSC#''] c1"
    using SpeedCorrection_on [OF assms(1) _ assms(2), of b] assms(3) by auto
  then have a1: "answering d (replies f) (tconn (s\<lparr>tconn := c1\<rparr>))" "int d \<le> timeout (tconn (s\<lparr>tconn := c1\<rparr>))"
    using assms(2) by (simp_all add: steps_def)
  have "\<exists>c. tm_MoveAxisRate AxisPrimary pos x s = (Inr (), tm_invalidate (tm_setMoving AxisPrimary True (s\<lparr>tconn := c\<rparr>)))
    \<and> sent c = sent (tconn s) @ ['':GSC#''] @ (if b = CHR ''1'' then ['':SSC0#''] else [])
        @ [rate, '':M'' @ [dir] @ ''#''] @ (if b = CHR ''1'' then ['':SSC1#''] else [])"
  proof (cases "b = CHR ''1''")
    case False
    from moveAtRate_replies [of d f c1, OF _ fr, of AxisPrimary s] a1(1) c1 False show ?thesis
      by (auto simp: def tryE_def steps_def)
  next
    case True
    from corrected_move [OF a1 assms(4,5) fr, of AxisPrimary] c1 True show ?thesis
      by (auto simp: def tryE_def steps_def)
  qed
  then obtain c where "tm_MoveAxisRate AxisPrimary pos x s = (Inr (), tm_invalidate (tm_setMoving AxisPrimary True (s\<lparr>tconn := c\<rparr>)))"
    "sent c = sent (tconn s) @ ['':GSC#''] @ (if b = CHR ''1'' then ['':SSC0#''] else [])
        @ [rate, '':M'' @ [dir] @ ''#''] @ (if b = CHR ''1'' then ['':SSC1#''] else [])"
    by blast
  moreover have "tconn (tm_invalidate (tm_setMoving AxisPrimary True (s\<lparr>tconn := c\<rparr>))) = c"
    by (simp add: tm_invalidate_def tm_setMoving_def)
  ultimately show ?thesis unfolding rate_def dir_def using moving_reported by metis
qed

theorem move_axis_rate_exact_witness:
  "\<exists>s'. tm_MoveAxisRate AxisPrimary True (Fin (1 / 2))
        (tm_new (wire (mount_conn 5 (replies (\<lambda>c. if c \<in> {'':GSC#'', '':SSC0#'', '':SSC1#''} then ''1'' else []))))) = (Inr (), s')
    \<and> tm_Slewing s' = (Inr True, s') \<and> length (sent (tconn s')) = 5"
proof -
  let ?f = "\<lambda>c. if c \<in> {'':GSC#'', '':SSC0#'', '':SSC1#''} then ''1'' else []"
  let ?s = "tm_new (wire (mount_conn 5 (replies ?f)))"
  have "?f ('':RA'' @ fmt_f False 9 6 (Fin (1 / 2)) @ ''#'') = []" "?f ('':M'' @ [if True then East else West] @ ''#'') = []"
    by (simp_all add: East_def)
  from move_axis_rate_exact [of 5 ?f ?s "CHR ''1''" "Fin (1 / 2)" True, OF _ _ _ _ _ this]
  show ?thesis by (auto simp: fle_def flt_def)
qed

text \<open>A rate that is no number passes both guards of \<open>MoveAxisRate\<close> and is sent as text.\<close>

theorem nan_rate_is_sent:
  "tm_MoveAxisRate AxisSecondary True NaN = moveAtRate AxisSecondary '':RE      NaN#'' North"
proof -
  have "'':RE'' @ fmt_f False 9 6 NaN @ ''#'' = '':RE      NaN#''" by code_simp
  then show ?thesis by (simp add: tm_MoveAxisRate_def fle_def flt_def AxisPrimary_def AxisSecondary_def)
qed


section \<open>The status\<close>

lemma tm_discards_invalidateT [intro]: "discards tcachedAt invalidateT"
  unfolding invalidateT_def by (rule tm.discards_invalidate)

lemma tm_discards_helpers [intro]:
  "discards tcachedAt (slewInvalidate cmd)" "discards tcachedAt (blindInvalidate cmd)" "discards tcachedAt (parkCode cmd)"
  unfolding slewInvalidate_def blindInvalidate_def parkCode_def Let_def
  by (intro discards_bind tm_discards_invalidateT tm.discards_invalidate discards_errE discards_if)+

lemma tm_motions_discard:
  "discards tcachedAt tm_SlewToTarget" "discards tcachedAt (tm_SlewToAltAz x y)" "discards tcachedAt tm_Halt" "discards tcachedAt tm_Stop"
  "discards tcachedAt (tm_MoveAxis a p r)" "discards tcachedAt (tm_StopAxis a)" "discards tcachedAt tm_Park" "discards tcachedAt tm_Unpark"
  "discards tcachedAt tm_FindHome" "discards tcachedAt (tm_SetTracking b)" "discards tcachedAt (SetTrackRate k)" "discards tcachedAt Flip"
  "discards tcachedAt SlewToTransit" "discards tcachedAt SlewToRAAxis" "discards tcachedAt ParkInPlace"
  unfolding tm_SlewToTarget_def tm_SlewToAltAz_def tm_Halt_def tm_Stop_def tm_MoveAxis_def tm_StopAxis_def tm_Park_def
    tm_Unpark_def tm_FindHome_def tm_SetTracking_def SetTrackRate_def Flip_def SlewToTransit_def SlewToRAAxis_def
    SlewToAxisTarget_def ParkInPlace_def Let_def
  by (intro discards_bind tm_discards_invalidateT tm.discards_invalidate discards_errE discards_if tm_discards_helpers)+

text \<open>An exact rate: the correction that is switched on again afterwards does not touch the cache.\<close>

lemma discards_defer: "discards tcachedAt m \<Longrightarrow> discards tcachedAt (deferE m (onT f))"
  by (auto simp: discards_def deferE_def tryE_def onT_def liftE_def split: prod.splits sum.splits)

lemma discards_try: "(\<And>r. discards p (f r)) \<Longrightarrow> discards p (tryE m f)"
  by (auto simp: discards_def tryE_def split: prod.splits)

lemma tm_rate_discards: "discards tcachedAt (tm_MoveAxisRate a pos x)"
  unfolding tm_MoveAxisRate_def moveAtRate_def SetSpeedCorrection_def Let_def
  by (intro discards_try discards_bind discards_defer discards_errE discards_if tm_motions_discard tm.discards_invalidate)

text \<open>The commands of the driver that start, stop or change a motion, the tracking, the parking or the
  pointing: every method of src/tenmicron that does so itself, on any arguments.\<close>

inductive unsettles :: "(tenmicron, unit) io \<Rightarrow> bool" where
  "unsettles tm_SlewToTarget" | "unsettles SlewToTargetFineLimit" | "unsettles SlewToTargetNoFineLimit"
| "unsettles (SlewToTargetOnSide side)" | "unsettles (tm_SlewToAltAz altitude azimuth)" | "unsettles (Nudge n1 n2)"
| "unsettles SlewPolarAlign" | "unsettles SlewOrthoAlign" | "unsettles SlewToTransit" | "unsettles Flip"
| "unsettles SlewToAxisTarget" | "unsettles SlewToRAAxis" | "unsettles (RotateRAAxis degrees)" | "unsettles SlewToHome"
| "unsettles (bindE tm_SyncToTarget (\<lambda>_. okE ()))" | "unsettles (bindE SyncToTargetR (\<lambda>_. okE ()))"
| "unsettles (bindE (SyncToAltAz altitude azimuth) (\<lambda>_. okE ()))" | "unsettles tm_AddAlignmentPoint"
| "unsettles EndAlignment" | "unsettles DeleteAlignment" | "unsettles (DeleteAlignmentStar star)" | "unsettles (LoadModel model)"
| "unsettles tm_Halt" | "unsettles tm_Stop" | "unsettles UserWait" | "unsettles AuthorizeMovement"
| "unsettles (tm_MoveAxis a positive r)" | "unsettles (tm_MoveAxisRate a positive degPerSec)" | "unsettles (tm_StopAxis a)"
| "unsettles tm_Park" | "unsettles ParkInPlace" | "unsettles ParkToSaved" | "unsettles SaveParkPosition"
| "unsettles SlewToAxisTargetAndPark" | "unsettles tm_Unpark" | "unsettles tm_FindHome" | "unsettles SeekHomeAndStore"
| "unsettles (tm_SetTracking tracked)" | "unsettles (SetTrackRate k)" | "unsettles tm_TrackSidereal" | "unsettles tm_TrackLunar"
| "unsettles tm_TrackSolar" | "unsettles SelectCustomTrackRate" | "unsettles (SetTrackRateArcsec arcsec)"

lemma discards_then: "discards tcachedAt m \<Longrightarrow> discards tcachedAt (bindE m (\<lambda>_. okE x))"
  by (auto simp: discards_def bindE_def split: prod.splits sum.splits)

lemma unsettled_discards: "unsettles m \<Longrightarrow> discards tcachedAt m"
proof (induction rule: unsettles.induct)
qed (unfold SlewToTargetFineLimit_def SlewToTargetNoFineLimit_def SlewToTargetOnSide_def Nudge_def SlewPolarAlign_def
    SlewOrthoAlign_def SlewToAxisTarget_def RotateRAAxis_def SlewToHome_def tm_SyncToTarget_def SyncToTargetR_def SyncToAltAz_def
    tm_AddAlignmentPoint_def EndAlignment_def DeleteAlignment_def DeleteAlignmentStar_def LoadModel_def UserWait_def
    AuthorizeMovement_def ParkToSaved_def SaveParkPosition_def SlewToAxisTargetAndPark_def SeekHomeAndStore_def
    tm_TrackSidereal_def tm_TrackLunar_def tm_TrackSolar_def SelectCustomTrackRate_def SetTrackRateArcsec_def,
  (rule tm_motions_discard tm_rate_discards
    | intro discards_then discards_bind tm_discards_invalidateT tm.discards_invalidate discards_errE discards_if tm_discards_helpers)+)


text \<open>A directional move of the core leaves the cache alone: within its lifetime the getters repeat the
  reading from before the move.\<close>

theorem inherited_move_is_stale:
  assumes "f = Move d \<or> f = HaltMove d" "onT f s = (r, s1)" "tcachedAt s = Some t" "tm_clock s1 - t < tm_ttl s"
  shows "tm_Tracking s1 = (Inr (IsTracking (tcached s)), s1) \<and> tm_RA s1 = (Inr (gRA (tcached s)), s1)"
proof -
  obtain c where s1: "s1 = s\<lparr>tconn := c\<rparr>" using assms(2) by (auto simp: onT_def split: prod.splits)
  have "tm_status s1 = (Inr (tcached s1), s1)"
    by (rule tm.hit [of _ t]) (use assms(3,4) in \<open>auto simp: s1 tm_ttl_def split: if_splits\<close>)
  then show ?thesis by (simp add: tm_Tracking_def tm_RA_def bindE_def s1)
qed

theorem inherited_move_is_stale_witness:
  "\<exists>t. fst (tm_RA (snd (onT (Move North) ((tm_new (wire (mount_conn 0 (\<lambda>h. []))))\<lparr>tcachedAt := Some t\<rparr>)))) = Inr (Fin 0)"
proof -
  let ?s = "\<lambda>t. (tm_new (wire (mount_conn 0 (\<lambda>h. []))))\<lparr>tcachedAt := Some t\<rparr>"
  define t where "t = now (wire (snd (Move North (tconn (?s 0)))))"
  obtain r s1 where m: "onT (Move North) (?s t) = (r, s1)" by fastforce
  then have "tm_clock s1 = t" by (auto simp: onT_def t_def tm_clock_def split: prod.splits)
  then have "tm_clock s1 - t < tm_ttl (?s t)" using tm.ttl_pos by simp
  from inherited_move_is_stale [of "Move North" North, OF _ m _ this] m show ?thesis
    by (intro exI [of _ t]) (simp add: tm_new_def Ginfo0_def)
qed


lemma ginfo_zeros: "parseGinfo ''0,0,E,0,0,0,0,0'' = Inr (Ginfo0\<lparr>gPier := PierEast\<rparr>)"
proof -
  have t: "TrimSpace ''0'' = ''0''" by code_simp
  have e: "TrimSpace ''E'' = ''E''" by code_simp
  have a: "Atoi ''0'' = (0, None)" by code_simp
  have f: "ParseFloat64 ''0'' = (Fin 0, None)" by code_simp
  show ?thesis by (simp add: parseGinfo_def t e a f Ginfo0_def)
qed


end
