(* ===== verification/TenDates.thy ===== *)
theory TenDates
  imports TenProps
begin

text \<open>
  The readings of a 10Micron mount that are calendar dates (src/tenmicron/sitetime.go and
  \<open>FirmwareDate\<close> of system.go). The zone of every value is UTC. The result: the clock that
  \<open>SetUTC\<close> sets is read back to the second.
\<close>

definition NextLeapSecond :: "(tenmicron, gotime \<times> bool) io" where
  "NextLeapSecond = bindE (onT (Get '':GULEAP#'')) (\<lambda>s.
     let s = TrimSpace s
     in if s = ''E'' then okE ((zeroTime, 0), False)
        else case time_Parse iso_date s of
          None \<Rightarrow> errE (Errorf ''gotenmicron: bad :GULEAP# date %q'' [AStr s] None)
        | Some t \<Rightarrow> okE ((t, 0), True))"

definition DeltaTStatus :: "(tenmicron, bool \<times> gotime) io" where
  "DeltaTStatus = bindE (onT (Get '':GDUTV#'')) (\<lambda>s.
     case SplitN2 CHR '','' (TrimSpace s) of
       [a, b] \<Rightarrow> okE (a = ''V'', (case time_Parse iso_date (TrimSpace b) of Some t \<Rightarrow> t | None \<Rightarrow> zeroTime), 0)
     | _ \<Rightarrow> errE (Errorf ''gotenmicron: bad :GDUTV# reply %q'' [AStr s] None))"

fun first_layout :: "element list list \<Rightarrow> string \<Rightarrow> int option" where
  "first_layout [] s = None"
| "first_layout (l # ls) s = (case time_Parse l s of Some t \<Rightarrow> Some t | None \<Rightarrow> first_layout ls s)"

definition dateTime :: "string \<Rightarrow> (tenmicron, gotime) io" where
  "dateTime cmd = bindE (onT (Get cmd)) (\<lambda>s.
     let s = TrimSpace s
     in case first_layout [iso_date @ comma_clock, slash_date @ comma_clock, colon_date @ comma_clock] s of
          Some t \<Rightarrow> okE (t, 0)
        | None \<Rightarrow> errE (Errorf ''gotenmicron: unrecognized %s date/time %q'' [AStr cmd, AStr s] None))"

definition UTCDateTime :: "(tenmicron, gotime) io" where "UTCDateTime = dateTime '':GUDT#''"
definition LocalDateTime :: "(tenmicron, gotime) io" where "LocalDateTime = dateTime '':GLDT#''"

definition LocalDate :: "(tenmicron, gotime) io" where
  "LocalDate = bindE (onT (Get '':GC#'')) (\<lambda>s.
     let s = TrimSpace s
     in case first_layout [iso_date, slash_date, colon_date] s of
          Some t \<Rightarrow> okE (t, 0)
        | None \<Rightarrow> errE (Errorf ''gotenmicron: unrecognized :GC# date %q'' [AStr s] None))"

definition FirmwareDate :: "(tenmicron, gotime) io" where
  "FirmwareDate = bindE (onT (Get '':GVD#'')) (\<lambda>s.
     let s = TrimSpace s
     in case first_layout [name_date, padded_date] s of
          Some t \<Rightarrow> okE (t, 0)
        | None \<Rightarrow> errE (Errorf ''gotenmicron: unrecognized :GVD# date %q'' [AStr s] None))"

section \<open>The clock\<close>

lemma iso_clock_text:
  assumes "civil t = (y, m, d)" "0 \<le> y" "y < 10000"
  shows "TrimSpace (iso_clock t) = iso_clock t" "CHR ''#'' \<notin> set (iso_clock t)" "length (iso_clock t) \<le> 19"
proof -
  define s where "s = t mod day_ns div 1000000000"
  have s: "0 \<le> s" "s < 86400" by (simp_all add: s_def day_second)
  note c = civil_correct [OF assms(1)] and cp = clock_parts [OF s]
  have d: "d < 100" using c by (auto simp: daysIn_def split: if_splits)
  have T: "iso_clock t = fmt_d 4 y @ ''-'' @ fmt_d 2 m @ ''-'' @ fmt_d 2 d @ '','' @ fmt_d 2 (s div 3600) @ '':''
      @ fmt_d 2 (s div 60 mod 60) @ '':'' @ fmt_d 2 (s mod 60)"
    using assms by (simp add: iso_clock_def Format_iso_def fmt_d_nonneg Format_clock_def s_def [symmetric])
  show "TrimSpace (iso_clock t) = iso_clock t"
    unfolding T by (rule TrimSpace_plain) (use assms(2) cp(6) in \<open>simp_all add: fmt_d_hd_digit fmt_d_last_digit plain_digit\<close>)
  have "CHR ''#'' \<notin> set (fmt_d w n)" for w n by (auto simp: is_digit_iff dest!: fmt_d_chars)
  then show "CHR ''#'' \<notin> set (iso_clock t)" unfolding T by simp
  have two: "length (fmt_d 2 n) = 2" if "0 \<le> n" "n < 100" for n by (rule fmt_d_length) (use that in simp_all)
  have "length (fmt_d 4 y) = 4" by (rule fmt_d_length) (use assms in simp_all)
  moreover have "length (fmt_d 2 m) = 2" "length (fmt_d 2 d) = 2" by (rule two; use c d in simp)+
  moreover have "length (fmt_d 2 (s div 3600)) = 2" by (rule two) (use cp(2,3) in linarith)+
  moreover have "length (fmt_d 2 (s div 60 mod 60)) = 2" by (rule two) (use cp(4,5) in linarith)+
  moreover have "length (fmt_d 2 (s mod 60)) = 2" by (rule two) (use cp(6,7) in linarith)+
  ultimately show "length (iso_clock t) \<le> 19" unfolding T by simp
qed

text \<open>C40: the UTC clock reads back: on a mount that acknowledges \<open>:SUDT\<close> and answers \<open>:GUDT#\<close> with the
  text set last, \<open>SetUTC\<close> succeeds and \<open>UTCDateTime\<close> then returns the instant that was set, to the
  whole second before it, for every date of the years 0 to 9999 and whatever the zone.\<close>

theorem utc_clock_readback:
  assumes "answering d ans (tconn s)" "acks ans '':SUDT''" "keeps_setting ans '':SUDT'' '':GUDT#''"
    "int d + 38 * ms \<le> timeout (tconn s)" "0 \<le> fst (civil (fst t))" "fst (civil (fst t)) < 10000"
  shows "\<exists>s' s''. tm_SetUTC t s = (Inr (), s') \<and> UTCDateTime s' = (Inr (fst t div 1000000000 * 1000000000, 0), s'')"
proof -
  obtain y m dd where c: "civil (fst t) = (y, m, dd)" by (cases "civil (fst t)") auto
  with assms(5,6) have y: "0 \<le> y" "y < 10000" by simp_all
  let ?x = "iso_clock (fst t)" let ?cmd = "'':SUDT'' @ ?x @ ''#''"
  note tx = iso_clock_text [OF c y]
  have a: "ans (sent (tconn s) @ [?cmd]) = ''1''" using assms(2) unfolding acks_def by blast
  have tl: "int d \<le> timeout (tconn s)" using assms(4) by (simp add: ms_def)
  obtain c1 where c1: "onT (Ack ?cmd) s = (Inr True, s\<lparr>tconn := c1\<rparr>)" "steps d ans (tconn s) [?cmd] c1"
    using onT_Ack [OF assms(1) a tl] unfolding simp_thms by blast
  have "tm_SetUTC t s = (Inr (), s\<lparr>tconn := c1\<rparr>)"
    using c1(1) by (simp add: tm_SetUTC_def iso_clock_def tm_must_def bindE_def)
  moreover have "ans (sent c1 @ ['':GUDT#'']) = ?x @ ''#''"
    using assms(3) c1(2) tx(2) unfolding keeps_setting_def steps_def
    by (metis append.left_neutral append_Cons append_assoc list.pred_inject(1))
  then have "\<exists>c2. onT (Get '':GUDT#'') (s\<lparr>tconn := c1\<rparr>) = (Inr ?x, s\<lparr>tconn := c1\<rparr>\<lparr>tconn := c2\<rparr>)"
    using onT_Get [of d ans "s\<lparr>tconn := c1\<rparr>" "'':GUDT#''" ?x] c1(2) assms(4) tx(2,3) by (auto simp: steps_def ms_def)
  then obtain c2 where "onT (Get '':GUDT#'') (s\<lparr>tconn := c1\<rparr>) = (Inr ?x, s\<lparr>tconn := c2\<rparr>)" by auto
  then have "UTCDateTime (s\<lparr>tconn := c1\<rparr>) = (Inr (fst t div 1000000000 * 1000000000, 0), s\<lparr>tconn := c2\<rparr>)"
    by (simp add: UTCDateTime_def dateTime_def bindE_def Let_def tx(1) iso_clock_read [OF c y])
  ultimately show ?thesis by blast
qed

theorem utc_clock_readback_witness:
  "\<exists>s' s''. tm_SetUTC (1700000000123456789, 7200) (tm_new (wire (mount_conn 5 (register_mount [('':SUDT'', '':GUDT#'')])))) = (Inr (), s')
    \<and> UTCDateTime s' = (Inr (1700000000000000000, 0), s'')"
proof -
  let ?m = "register_mount [('':SUDT'', '':GUDT#'')]"
  have "acks ?m '':SUDT''" by (rule register_acks) (simp add: HasPrefix_def)
  moreover have "keeps_setting ?m '':SUDT'' '':GUDT#''" by (rule register_keeps) simp
  moreover have "fst (civil 1700000000123456789) = 2023" by code_simp
  ultimately show ?thesis
    using utc_clock_readback [of 5 ?m "tm_new (wire (mount_conn 5 ?m))" "(1700000000123456789, 7200)"] by (auto simp: ms_def)
qed

end
