(* ===== verification/TenText.thy ===== *)
theory TenText
  imports TenMotion
begin

text \<open>
  The coordinates a 10Micron mount is sent (src/tenmicron/coords.go). \<open>encodeSex\<close> adds half a unit of
  the last digit and then cuts the fields off one by one. The result: a coordinate of whole seconds,
  however it was rounded on the way in, is written as these seconds with a zero fraction.
\<close>

lemma encode_digit:
  assumes "near v (of_int n + y) e" "0 \<le> n" "n \<le> 1000" "e \<le> y" "y + e < 1"
  shows "int_of_f64 (f_floor v) = n" "near (fsub v (f64_of_int n)) y (1 / 2 ^ 52 + e)"
proof -
  note v = nearD [OF assms(1)]
  have lo: "of_int n \<le> fval v" and hi: "fval v < of_int n + 1" using v(2) assms(4,5) by linarith+
  then have fl: "\<lfloor>fval v\<rfloor> = n" by (simp add: floor_eq_iff)
  have "is_fin (f_floor v) \<and> fval (f_floor v) = of_int n" using v(1) fl by (cases v) auto
  then show "int_of_f64 (f_floor v) = n" using assms(2,3) by (intro int_of_f64_of_int) auto
  have "f64_of_int n = Fin (of_int n)" using assms(2,3) by (intro f64_of_int_exact) simp
  then have "near (fsub v (f64_of_int n)) (of_int n + y + - of_int n) (2 powi (1 - 53) + (e + 0))"
    unfolding fsub_def
    by (intro near_fadd near_fneg near_exact assms(1); simp add: near_def)
       (use assms(4,5) v(2) in linarith)
  then show "near (fsub v (f64_of_int n)) y (1 / 2 ^ 52 + e)" by (simp add: powi_neg_numeral)
qed

lemma encode_step:
  assumes "near v (of_int n + y / 60) e" "0 \<le> n" "n \<le> 1000" "60 * e \<le> y" "y + 60 * e < 60" "0 \<le> e" "60 * e + 1 / 2 ^ 45 \<le> d"
  shows "int_of_f64 (f_floor v) = n" "near (fmul (fsub v (f64_of_int n)) (Fin 60)) y d"
proof -
  have "e \<le> y / 60" "y / 60 + e < 1" using assms(4,5) by simp_all
  note d = encode_digit [OF assms(1-3) this]
  show "int_of_f64 (f_floor v) = n" by (rule d)
  have "near (fmul (fsub v (f64_of_int n)) (Fin 60)) (y / 60 * 60) (2 powi (7 - 53) + (1 / 2 ^ 52 + e) * \<bar>60\<bar>)"
    by (rule near_fmul_const [OF d(2)]) (use assms(4-6) in simp_all)
  then have "near (fmul (fsub v (f64_of_int n)) (Fin 60)) y (2 powi (7 - 53) + (1 / 2 ^ 52 + e) * \<bar>60\<bar>)" by simp
  then show "near (fmul (fsub v (f64_of_int n)) (Fin 60)) y d"
    by (rule near_mono) (use assms(7) in \<open>simp add: powi_neg_numeral\<close>)
qed

text \<open>Three fields of whole seconds, seen through half a unit of the last digit.\<close>

lemma encode_three:
  assumes "near v (of_int (3600 * a + 60 * b + c) / 3600 + y / 3600) e" "0 \<le> a" "a \<le> 1000" "0 \<le> b" "b < 60" "0 \<le> c" "c < 60"
    "0 \<le> e" "e \<le> 1 / 2 ^ 38" "1 / 1000 \<le> y" "y \<le> 1 / 10"
  shows "\<exists>r. encode_fields v w [p, q] = (fmt_d w a @ [p] @ fmt_d 2 b @ [q] @ fmt_d 2 c, r) \<and> near r y (1 / 2 ^ 20)"
proof -
  define z2 where "z2 = of_int c + y"
  define z1 where "z1 = of_int b + z2 / 60"
  have cb: "(of_int c :: rat) \<le> 59" "(of_int b :: rat) \<le> 59" "0 \<le> (of_int b :: rat)" "0 \<le> (of_int c :: rat)"
    using assms(4-7) by simp_all
  then have z2: "1 / 1000 \<le> z2" "z2 \<le> 59 + 1 / 10" using assms(10,11) by (simp_all add: z2_def)
  have z1: "1 / 60000 \<le> z1" "z1 \<le> 59 + 591 / 600"
    using cb z2 divide_right_mono [OF z2(1), of 60] divide_right_mono [OF z2(2), of 60] unfolding z1_def by simp_all
  define w1 where "w1 = fmul (fsub v (f64_of_int a)) (Fin 60)"
  define w2 where "w2 = fmul (fsub w1 (f64_of_int b)) (Fin 60)"
  have eps: "(1 :: rat) / 2 ^ 38 \<le> 1 / 10 ^ 11" "(1 :: rat) / 2 ^ 32 \<le> 1 / 10 ^ 9" "(1 :: rat) / 2 ^ 26 \<le> 1 / 10 ^ 7" by simp_all
  have "of_int (3600 * a + 60 * b + c) / 3600 + y / 3600 = of_int a + z1 / 60"
    by (simp add: z1_def z2_def field_simps)
  with assms(1) have n0: "near v (of_int a + z1 / 60) e" by simp
  have "near v (of_int a + z1 / 60) (1 / 2 ^ 38)" by (rule near_mono [OF n0 assms(9)])
  note s0 = encode_step [OF this assms(2,3), of "1 / 2 ^ 32", folded w1_def]
  have d0: "int_of_f64 (f_floor v) = a" "near w1 z1 (1 / 2 ^ 32)" by (rule s0; use z1 eps(1) in simp)+
  note s1 = encode_step [OF d0(2) [unfolded z1_def] assms(4), of "1 / 2 ^ 26", folded w2_def]
  have d1: "int_of_f64 (f_floor w1) = b" "near w2 z2 (1 / 2 ^ 26)" by (rule s1; use z2 eps(2) assms(5) in simp)+
  note s2 = encode_digit [OF d1(2) [unfolded z2_def] assms(6)]
  have d2: "int_of_f64 (f_floor w2) = c" "near (fsub w2 (f64_of_int c)) y (1 / 2 ^ 52 + 1 / 2 ^ 26)"
    by (rule s2; use assms(7,10,11) eps(3) in simp)+
  have "near (fsub w2 (f64_of_int c)) y (1 / 2 ^ 20)" by (rule near_mono [OF d2(2)]) simp
  then show ?thesis
    by (intro exI [of _ "fsub w2 (f64_of_int c)"]) (simp add: d0(1) d1(1) d2(1) Let_def flip: w1_def w2_def)
qed

text \<open>The half unit of the last digit, and the fraction that is left of it.\<close>

definition half_unit :: "nat \<Rightarrow> f64" where
  "half_unit k = fdiv (Fin (1 / 2)) (fmul (Fin (10 ^ k)) (Fin (60 ^ 2)))"

lemma half_unit_near:
  assumes "k = 1 \<or> k = 2"
  shows "near (half_unit k) (1 / (2 * 10 ^ k) / 3600) (1 / 2 ^ 60)"
proof -
  have "rnd (10 ^ k * 3600) = Fin (10 ^ k * 3600)" using assms rnd_of_int [of 36000] rnd_of_int [of 360000] by auto
  then have "fmul (Fin (10 ^ k)) (Fin (60 ^ 2)) = Fin (10 ^ k * 3600)" by (simp add: fmul_def)
  moreover have "near (fdiv (Fin (1 / 2)) (Fin (10 ^ k * 3600))) (1 / 2 / (10 ^ k * 3600)) (2 powi (-8 - 53) + 0 / (10 ^ k * 3600))"
    using assms by (intro near_fdiv_const near_exact) (auto simp: powi_neg_numeral)
  ultimately have "near (half_unit k) (1 / 2 / (10 ^ k * 3600)) (2 powi (-8 - 53) + 0 / (10 ^ k * 3600))"
    by (simp only: half_unit_def)
  then have "near (half_unit k) (1 / 2 / (10 ^ k * 3600)) (1 / 2 ^ 60)"
    by (rule near_mono) (simp add: powi_neg_numeral)
  then show ?thesis by simp
qed

lemma fraction_zero:
  assumes "near r (1 / (2 * 10 ^ k)) (1 / 2 ^ 20)" "k = 1 \<or> k = 2"
  shows "int_of_f64 (f_floor (fmul r (Fin (10 ^ k)))) = 0"
proof -
  have "near (fmul r (Fin (10 ^ k))) (1 / (2 * 10 ^ k) * 10 ^ k) (2 powi (1 - 53) + 1 / 2 ^ 20 * \<bar>10 ^ k\<bar>)"
    by (rule near_fmul_const [OF assms(1)]) (use assms(2) in auto)
  then have "near (fmul r (Fin (10 ^ k))) (1 / 2) (2 powi (1 - 53) + 1 / 2 ^ 20 * \<bar>10 ^ k\<bar>)" by simp
  then have "near (fmul r (Fin (10 ^ k))) (1 / 2) (1 / 2 ^ 10)"
    by (rule near_mono) (use assms(2) in \<open>auto simp: powi_neg_numeral\<close>)
  then have "near (fmul r (Fin (10 ^ k))) (of_int 0 + 1 / 2) (1 / 2 ^ 10)" by simp
  from encode_digit(1) [OF this] show ?thesis by simp
qed

lemma fmt_d_24: "fmt_d 2 24 = ''24''"
  by code_simp

lemma fmt_d_0: "fmt_d (Suc 0) 0 = ''0''" "fmt_d 2 0 = ''00''"
  by code_simp+

lemma encode_whole:
  assumes "near x (of_int (3600 * a + 60 * b + c) / 3600) (2 powi -40)" "0 \<le> a" "a \<le> 1000" "0 \<le> b" "b < 60" "0 \<le> c" "c < 60"
    "k = 1 \<or> k = 2"
  shows "\<exists>r. encode_fields (fadd x (half_unit k)) w [p, q] = (fmt_d w a @ [p] @ fmt_d 2 b @ [q] @ fmt_d 2 c, r)
    \<and> int_of_f64 (f_floor (fmul r (Fin (10 ^ k)))) = 0"
proof -
  let ?x = "of_int (3600 * a + 60 * b + c) / 3600 :: rat" and ?y = "1 / (2 * 10 ^ k) :: rat"
  have x: "?x \<le> 1001" "0 \<le> ?x" using assms(2-7) by simp_all
  have y: "0 \<le> ?y" "?y \<le> 1 / 10" "1 / 1000 \<le> ?y" using assms(8) by auto
  have "2 powi -40 + 1 / 2 ^ 60 \<le> (1 :: rat)" "(2 :: rat) powi 10 = 1024" by (simp_all add: powi_neg_numeral)
  moreover have "\<bar>X + Y / 3600\<bar> + e \<le> K" if "X \<le> 1001" "0 \<le> X" "0 \<le> Y" "Y \<le> 1 / 10" "e \<le> 1" "K = 1024" for X Y e K :: rat
    using that by linarith
  ultimately have "\<bar>?x + ?y / 3600\<bar> + (2 powi -40 + 1 / 2 ^ 60) \<le> 2 powi 10" using x y(1,2) by blast
  then have "near (fadd x (half_unit k)) (?x + ?y / 3600) (2 powi (10 - 53) + (2 powi -40 + 1 / 2 ^ 60))"
    by (intro near_fadd assms(1) half_unit_near assms(8)) simp_all
  then have "near (fadd x (half_unit k)) (?x + ?y / 3600) (1 / 2 ^ 38)"
    by (rule near_mono) (simp add: powi_neg_numeral)
  note three = encode_three [OF this assms(2-7) _ _ y(3,2), of w p q]
  have "(0::rat) \<le> 1 / 2 ^ 38" by simp
  from three [OF this order_refl] obtain r where
    r: "encode_fields (fadd x (half_unit k)) w [p, q] = (fmt_d w a @ [p] @ fmt_d 2 b @ [q] @ fmt_d 2 c, r)" "near r ?y (1 / 2 ^ 20)"
    by blast
  from r(1) fraction_zero [OF r(2) assms(8)] show ?thesis by blast
qed

lemma encodeSex_whole:
  assumes "near x (\<sigma> * (of_int (3600 * a + 60 * b + c) / 3600)) (2 powi -40)" "0 \<le> a" "a \<le> 1000" "0 \<le> b" "b < 60" "0 \<le> c" "c < 60"
    "k = 1 \<or> k = 2" "\<sigma> = 1 \<and> 0 \<le> fval x \<or> \<sigma> = -1 \<and> fval x < 0"
  shows "encodeSex x [p, q] force w k = (if \<sigma> = -1 then ''-'' else if force then ''+'' else [])
    @ fmt_d w a @ [p] @ fmt_d 2 b @ [q] @ fmt_d 2 c @ ''.'' @ fmt_d k 0"
proof -
  define u where "u = (if \<sigma> = -1 then fneg x else x)"
  have u: "near u (of_int (3600 * a + 60 * b + c) / 3600) (2 powi -40)"
    using assms(1,9) near_fneg [OF assms(1)] by (elim disjE conjE) (simp_all only: u_def mult_1_left mult_minus1 minus_minus, simp_all)
  have lt: "flt x (Fin 0) = (\<sigma> = -1)" using nearD(1) [OF assms(1)] assms(9) by (cases x) (auto simp: flt_def)
  obtain r where r: "encode_fields (fadd u (half_unit k)) w [p, q] = (fmt_d w a @ [p] @ fmt_d 2 b @ [q] @ fmt_d 2 c, r)"
    "int_of_f64 (f_floor (fmul r (Fin (10 ^ k)))) = 0"
    using encode_whole [OF u assms(2-8)] by blast
  have h: "fdiv (Fin (1 / 2)) (fmul (Fin (10 ^ k)) (Fin (60 ^ length [p, q]))) = half_unit k"
    by (simp add: half_unit_def)
  show ?thesis unfolding encodeSex_def lt h Let_def
    using r assms(8) by (auto simp: u_def)
qed

text \<open>The texts of a target of whole seconds.\<close>

lemma hmsPrec_whole:
  assumes "near v (of_int (3600 * h + 60 * m + s) / 3600) (2 powi -40)" "0 \<le> fval v" "0 \<le> h" "h < 24" "0 \<le> m" "m < 60" "0 \<le> s" "s < 60"
  shows "hmsPrec v 2 = hms_text h m s @ ''.00''"
proof -
  have "(of_int (3600 * h + 60 * m + s) :: rat) \<le> of_int 86399" using assms(3-8) unfolding of_int_le_iff by simp
  then have "(of_int (3600 * h + 60 * m + s) / 3600 :: rat) \<le> 86399 / 3600" by (simp add: divide_right_mono)
  moreover have "(2::rat) powi -40 < 1 / 3600" by (simp add: powi_neg_numeral)
  ultimately have "\<bar>fval v\<bar> < 24" using nearD(2) [OF assms(1)] assms(2) by linarith
  note f = fmod_small [OF nearD(1) [OF assms(1)] this]
  then have lt: "flt (fmod v (Fin 24)) (Fin 0) = False" using assms(2) by (cases "fmod v (Fin 24)") (auto simp: flt_def)
  have "near (fmod v (Fin 24)) (1 * (of_int (3600 * h + 60 * m + s) / 3600)) (2 powi -40)"
    using assms(1) f by (simp add: near_def)
  from encodeSex_whole [OF this assms(3) _ assms(5-8), of 2 "CHR '':''" "CHR '':''" False 2] f assms(2,4) show ?thesis
    unfolding hmsPrec_def Let_def lt by (simp add: hms_text_def fmt_d_0)
qed

lemma dmsPrec_whole:
  assumes "near v (\<sigma> * (of_int (3600 * d + 60 * m + s) / 3600)) (2 powi -40)" "\<sigma> = 1 \<and> 0 \<le> fval v \<or> \<sigma> = -1 \<and> fval v < 0"
    "0 \<le> d" "d \<le> 1000" "0 \<le> m" "m < 60" "0 \<le> s" "s < 60"
  shows "dmsPrec v 2 1 True = dms_text (if \<sigma> = -1 then CHR ''-'' else CHR ''+'') CHR ''*'' d m s @ ''.0''"
  using encodeSex_whole [OF assms(1,3-8) _ assms(2), of 1 "CHR ''*''" "CHR '':''" True 2]
  by (simp add: dmsPrec_def dms_text_def fmt_d_0)

text \<open>The wrap comes before the rounding: an hour just below 24 is written as 24.\<close>

lemma hmsPrec_full_day:
  assumes "near v 24 (2 powi -40)" "fval v < 24"
  shows "hmsPrec v 2 = ''24:00:00.00''"
proof -
  have "(2::rat) powi -40 < 1 / 3600" by (simp add: powi_neg_numeral)
  then have v: "0 \<le> fval v" "\<bar>fval v\<bar> < 24" using nearD(2) [OF assms(1)] assms(2) by linarith+
  note f = fmod_small [OF nearD(1) [OF assms(1)] v(2)]
  then have lt: "flt (fmod v (Fin 24)) (Fin 0) = False" using v(1) by (cases "fmod v (Fin 24)") (auto simp: flt_def)
  have "near (fmod v (Fin 24)) (1 * (of_int (3600 * 24 + 60 * 0 + 0) / 3600)) (2 powi -40)"
    using assms(1) f by (simp add: near_def)
  from encodeSex_whole [OF this _ _ _ _ _ _, of 2 "CHR '':''" "CHR '':''" False 2] f v(1) show ?thesis
    unfolding hmsPrec_def Let_def lt by (simp add: fmt_d_0 fmt_d_24)
qed

end
