(* ===== verification/Drivers.thy ===== *)
theory Drivers
  imports Bridge OnStep Am5Find TenDates TenText
begin

text \<open>
  The drivers behind the bridge: the \<open>lx200.Mount\<close> that each of \<open>onstep.Mount\<close>, \<open>am5.Mount\<close> and
  \<open>tenmicron.Mount\<close> is, with the optional interfaces of src/mount.go its methods satisfy, those it
  inherits from \<open>*lx200.Conn\<close> included. The results: a goto through the bridge reaches the mount in the
  client's own words, whichever driver is in between; and the offset from UTC that the bridge reads,
  which the AM driver gives with the sign reversed. The RST driver is no instance of \<open>mount\<close>: its
  operations may not return (\<open>pio\<close>).
\<close>

section \<open>Opening\<close>

definition os_Open :: "'w ports \<Rightarrow> string \<Rightarrow> 'w \<Rightarrow> (gerr + onstep) \<times> 'w" where
  "os_Open P name w =
     (case openPort P name 9600 w of
        (Inl e, w) \<Rightarrow> (Inl e, w)
      | (Inr tr, w) \<Rightarrow> (Inr (os_newMount tr), w))"

definition os_Dial :: "'w tcp \<Rightarrow> string \<Rightarrow> 'w \<Rightarrow> (gerr + onstep) \<times> 'w" where
  "os_Dial N addr w =
     (case DialTCP N addr (5000 * ms) w of
        (Inl e, w) \<Rightarrow> (Inl e, w)
      | (Inr tr, w) \<Rightarrow> (Inr (os_newMount tr), w))"

text \<open>\<open>Connect\<close> of the 10Micron driver, which closes the connection before it gives up.\<close>

definition tm_Dial :: "'w tcp \<Rightarrow> string \<Rightarrow> 'w \<Rightarrow> (gerr + tenmicron) \<times> 'w" where
  "tm_Dial N addr w =
     (case DialTCP N addr (5000 * ms) w of
        (Inl e, w) \<Rightarrow> (Inl e, w)
      | (Inr tr, w) \<Rightarrow>
          (case tm_setup (tm_new tr) of
             (Inl e, m) \<Rightarrow> (Inl e, netClose N (wire (tconn m)) w)
           | (Inr _, m) \<Rightarrow> (Inr m, w)))"

lemma tm_Dial_Connect: "netDial N addr (5000 * ms) w = (Inr tr, w') \<Longrightarrow> fst (tm_Dial N addr w) = tm_Connect tr"
  by (auto simp: tm_Dial_def DialTCP_def tm_Connect_def ms_def split: prod.splits sum.splits)

section \<open>The drivers as mounts\<close>

definition onstepMount :: "onstep mount" where
  "onstepMount =
     \<lparr>mRA = onO RA, mDec = onO Dec, mSetTargetRA = (\<lambda>v. onO (SetTargetRA v)), mSetTargetDec = (\<lambda>v. onO (SetTargetDec v)),
      mSlewToTarget = os_SlewToTarget, mSyncToTarget = os_SyncToTarget, mHalt = onO Halt,
      mSlewing = os_Slewing, mTracking = os_Tracking, mSetTracking = os_SetTracking,
      asHorizontal = Some (onO Altitude, onO Azimuth), asProductizer = Some os_Product,
      asSiteSetter = Some (os_SetSiteLatitude, os_SetSiteLongitude, os_SetSiteElevation),
      asSiteReader = None, asClock = Some (\<lambda>t. os_SetUTC (t, 0)), asUTCOffsetReader = None, asUTCOffsetSetter = None,
      asMover = Some (\<lambda>d. onO (Move d), \<lambda>d. onO (HaltMove d)), asRater = Some os_SetRate, asOpLocker = True\<rparr>"

definition am5Mount :: "am5 mount" where
  "am5Mount =
     \<lparr>mRA = onZ RA, mDec = onZ Dec, mSetTargetRA = (\<lambda>v. onZ (SetTargetRA v)), mSetTargetDec = (\<lambda>v. onZ (SetTargetDec v)),
      mSlewToTarget = am5_SlewToTarget, mSyncToTarget = am5_SyncToTarget, mHalt = onZ Halt,
      mSlewing = am5_Slewing, mTracking = am5_Tracking, mSetTracking = am5_SetTracking,
      asHorizontal = Some (onZ Altitude, onZ Azimuth), asProductizer = Some am5_Product,
      asSiteSetter = Some (am5_SetSiteLatitude, am5_SetSiteLongitude, am5_SetSiteElevation),
      asSiteReader = Some (am5_SiteLatitude, am5_SiteLongitude), asClock = Some (\<lambda>t. am5_SetUTC (t, 0)),
      asUTCOffsetReader = Some am5_UTCOffset, asUTCOffsetSetter = None,
      asMover = Some (\<lambda>d. onZ (Move d), \<lambda>d. onZ (HaltMove d)), asRater = Some am5_SetRate, asOpLocker = True\<rparr>"

definition tmMount :: "tenmicron mount" where
  "tmMount =
     \<lparr>mRA = tm_RA, mDec = tm_Dec, mSetTargetRA = tm_SetTargetRA, mSetTargetDec = tm_SetTargetDec,
      mSlewToTarget = tm_SlewToTarget, mSyncToTarget = tm_SyncToTarget, mHalt = tm_Halt,
      mSlewing = tm_Slewing, mTracking = tm_Tracking, mSetTracking = tm_SetTracking,
      asHorizontal = Some (tm_Altitude, tm_Azimuth), asProductizer = Some tm_Product,
      asSiteSetter = Some (tm_SetSiteLatitude, tm_SetSiteLongitude, tm_SetSiteElevation),
      asSiteReader = Some (tm_SiteLatitude, tm_SiteLongitude), asClock = Some (\<lambda>t. tm_SetUTC (t, 0)),
      asUTCOffsetReader = Some tm_UTCOffset, asUTCOffsetSetter = Some tm_SetUTCOffset,
      asMover = Some (\<lambda>d. onT (Move d), \<lambda>d. onT (HaltMove d)), asRater = Some (\<lambda>r. onT (SetRate r)), asOpLocker = True\<rparr>"

section \<open>A goto through any driver\<close>

text \<open>A mount that acknowledges every target and starts the slew that \<open>cmd\<close> asks for.\<close>

definition accepts_goto :: "(string list \<Rightarrow> string) \<Rightarrow> string \<Rightarrow> bool" where
  "accepts_goto ans cmd = (acks ans '':Sr'' \<and> acks ans '':Sd'' \<and> (\<forall>h. ans (h @ [cmd]) = ''0''))"

text \<open>What the drivers share: the target goes out as \<open>:Sr\<close> and \<open>:Sd\<close> in the driver's own texts, and a
  slew sends one command.\<close>

locale driver_mount = embeds_conn get put
  for get :: "'d \<Rightarrow> conn" and put :: "conn \<Rightarrow> 'd \<Rightarrow> 'd" +
  fixes m :: "'d mount"
    and showRA :: "f64 \<Rightarrow> string"
    and showDec :: "f64 \<Rightarrow> string"
    and slewCmd :: "'d \<Rightarrow> string"
  assumes set_ra: "mSetTargetRA m v s = (case Ack ('':Sr'' @ showRA v @ ''#'') (get s) of (r, c) \<Rightarrow> (r, put c s))"
    and set_dec: "mSetTargetDec m v s = (case Ack ('':Sd'' @ showDec v @ ''#'') (get s) of (r, c) \<Rightarrow> (r, put c s))"
    and slew: "Slew (slewCmd s) (get s) = (Inr (), c) \<Longrightarrow> \<exists>s'. mSlewToTarget m s = (Inr (), s') \<and> get s' = c"
    and slewCmd_put: "slewCmd (put c s) = slewCmd s"
begin

lemma target_and_slew:
  assumes "answering d ans (get s)" "accepts_goto ans (slewCmd s)" "int d \<le> timeout (get s)"
  shows "\<exists>s'. bindE (setDeviceTarget m v w) (\<lambda>_. mSlewToTarget m) s = (Inr (), s')
    \<and> steps d ans (get s) ['':Sr'' @ showRA v @ ''#'', '':Sd'' @ showDec w @ ''#'', slewCmd s] (get s')"
proof -
  have a: "ans (h @ ['':Sr'' @ x @ ''#'']) = ''1''" "ans (h @ ['':Sd'' @ x @ ''#'']) = ''1''" "ans (h @ [slewCmd s]) = ''0''" for h x
    using assms(2) by (simp_all add: accepts_goto_def acks_def)
  obtain c1 where c1: "Ack ('':Sr'' @ showRA v @ ''#'') (get s) = (Inr True, c1)" "steps d ans (get s) ['':Sr'' @ showRA v @ ''#''] c1"
    using Ack_answered [OF assms(1) a(1) assms(3)] by auto
  define s1 where "s1 = put c1 s"
  have s1: "answering d ans (get s1)" "int d \<le> timeout (get s1)" "get s1 = c1"
    using c1(2) assms(3) by (simp_all add: steps_def s1_def)
  obtain c2 where c2: "Ack ('':Sd'' @ showDec w @ ''#'') (get s1) = (Inr True, c2)" "steps d ans (get s1) ['':Sd'' @ showDec w @ ''#''] c2"
    using Ack_answered [OF s1(1) a(2) s1(2)] by auto
  define s2 where "s2 = put c2 s1"
  have s2: "answering d ans (get s2)" "int d \<le> timeout (get s2)" "get s2 = c2"
    using c2(2) s1(2) by (simp_all add: steps_def s2_def)
  have cmd: "slewCmd s2 = slewCmd s" by (simp add: s1_def s2_def slewCmd_put)
  obtain c3 where c3: "Slew (slewCmd s) (get s2) = (Inr (), c3)" "steps d ans (get s2) [slewCmd s] c3"
    using Slew_answered [OF s2(1) a(3) s2(2)] by blast
  from slew [of s2 c3] c3(1) cmd obtain s3 where s3: "mSlewToTarget m s2 = (Inr (), s3)" "get s3 = c3" by auto
  have "bindE (setDeviceTarget m v w) (\<lambda>_. mSlewToTarget m) s = (Inr (), s3)"
    using c1(1) c2(1) s3(1) by (simp add: setDeviceTarget_def bindE_def set_ra set_dec s1_def s2_def)
  moreover have "steps d ans (get s) ['':Sr'' @ showRA v @ ''#'', '':Sd'' @ showDec w @ ''#'', slewCmd s] (get s3)"
    using steps_trans [OF steps_trans [OF c1(2) c2(2) [unfolded s1(3)]] c3(2) [unfolded s2(3)]] s3(2) by simp
  ultimately show ?thesis by blast
qed

lemma client_goto:
  assumes "answering d ans (get (dev b))" "accepts_goto ans (slewCmd (dev b))" "int d \<le> timeout (get (dev b))"
    "target_value R 0 24 = Some v" "target_value E (- 90) 90 = Some w" "CHR ''#'' \<notin> set R" "CHR ''#'' \<notin> set E"
  shows "\<exists>b'. handle (serve m) ('':Sr'' @ R @ ''#:Sd'' @ E @ ''#:MS#'') b = b' \<and> out b' = out b @ ''110''
    \<and> bindE (setDeviceTarget m v w) (\<lambda>_. mSlewToTarget m) (dev b) = (Inr (), dev b')
    \<and> sent (get (dev b')) = sent (get (dev b)) @ ['':Sr'' @ showRA v @ ''#'', '':Sd'' @ showDec w @ ''#'', slewCmd (dev b)]"
proof -
  obtain s' where s': "bindE (setDeviceTarget m v w) (\<lambda>_. mSlewToTarget m) (dev b) = (Inr (), s')"
    "steps d ans (get (dev b)) ['':Sr'' @ showRA v @ ''#'', '':Sd'' @ showDec w @ ''#'', slewCmd (dev b)] (get s')"
    using target_and_slew [OF assms(1-3)] by blast
  obtain b' where b': "handle (serve m) ('':Sr'' @ R @ ''#:Sd'' @ E @ ''#:MS#'') b = b'" "dev b' = s'"
    "out b' = out b @ ''110''"
    using goto_request [OF assms(4-7) s'(1)] by auto
  with s' show ?thesis unfolding steps_def by blast
qed

end

lemma Slew_inv: "SlewToTarget = Slew '':MS#''"
  by (simp add: SlewToTarget_def)

interpretation og: driver_mount oconn "\<lambda>c s. s\<lparr>oconn := c\<rparr>" onstepMount FormatHMS "\<lambda>v. FormatDMS v CHR ''*''" "\<lambda>s. '':MS#''"
  by unfold_locales
     (auto simp: onstepMount_def onO_def SetTargetRA_def SetTargetDec_def os_SlewToTarget_def Slew_inv bindE_def os_invalidate_def)

interpretation zg: driver_mount zconn "\<lambda>c s. s\<lparr>zconn := c\<rparr>" am5Mount FormatHMS "\<lambda>v. FormatDMS v CHR ''*''" "\<lambda>s. '':MS#''"
  by unfold_locales
     (auto simp: am5Mount_def onZ_def SetTargetRA_def SetTargetDec_def am5_SlewToTarget_def Slew_inv bindE_def am5_invalidate_def)

definition tm_slewCmd :: "tenmicron \<Rightarrow> string" where
  "tm_slewCmd s = (if firmware s \<noteq> Version0 \<and> \<not> version_atLeast (firmware s) 2 11 0 then '':MS#'' else '':MSnf#'')"

interpretation tg: driver_mount tconn "\<lambda>c s. s\<lparr>tconn := c\<rparr>" tmMount "\<lambda>v. hmsPrec v 2" "\<lambda>v. dmsPrec v 2 1 True" tm_slewCmd
  by unfold_locales
     (auto simp: tmMount_def onT_def tm_SetTargetRA_def tm_SetTargetDec_def tm_SlewToTarget_def slewInvalidate_def
       invalidateT_def bindE_def tm_slewCmd_def tm_invalidate_def)

text \<open>The texts of a target, the values they are parsed to, and what the drivers print of them.\<close>

lemma RA_text:
  assumes "0 \<le> h" "h < 24" "0 \<le> m" "m < 60" "0 \<le> s" "s < 60"
  shows "\<exists>v. target_value (hms_text h m s) 0 24 = Some v \<and> FormatHMS v = hms_text h m s
    \<and> hmsPrec v 2 = hms_text h m s @ ''.00'' \<and> CHR ''#'' \<notin> set (hms_text h m s)"
proof -
  obtain v where v: "target_value (hms_text h m s) 0 24 = Some v" "FormatHMS v = hms_text h m s"
    using target_RA_accepted [OF assms] by blast
  obtain u where u: "ParseSexagesimal (hms_text h m s) = Inr u" "near u (of_int (3600 * h + 60 * m + s) / 3600) (2 powi -40)" "0 \<le> fval u"
    using hms_survives [OF assms] by blast
  with v(1) have "u = v" by (auto simp: target_value_def split: if_splits)
  with u hmsPrec_whole [OF u(2,3) assms] v hms_no_hash [of v] show ?thesis by auto
qed

lemma Dec_text:
  assumes "0 \<le> d" "d < 90" "0 \<le> m" "m < 60" "0 \<le> s" "s < 60" "sign = CHR ''+'' \<or> sign = CHR ''-'' \<and> 0 < d + m + s"
  defines "E \<equiv> dms_text sign CHR ''*'' d m s"
  shows "\<exists>w. target_value E (- 90) 90 = Some w \<and> FormatDMS w CHR ''*'' = E \<and> dmsPrec w 2 1 True = E @ ''.0'' \<and> CHR ''#'' \<notin> set E"
proof -
  define \<sigma> :: rat where "\<sigma> = (if sign = CHR ''-'' then -1 else 1)"
  let ?u = "fmul (Fin \<sigma>) (sex_sum d m s)"
  obtain w where w: "target_value E (- 90) 90 = Some w" "FormatDMS w CHR ''*'' = E"
    using target_Dec_accepted [OF assms(1-7)] by (auto simp: E_def)
  have "ParseSexagesimal E = Inr ?u"
    unfolding E_def \<sigma>_def using assms(1-7) by (intro ParseSexagesimal_dms) (auto simp: field_sep_def is_digit_iff)
  with w(1) have u: "?u = w" by (auto simp: target_value_def split: if_splits)
  have n: "near w (\<sigma> * (of_int (3600 * d + 60 * m + s) / 3600)) (2 powi -40)"
    unfolding u [symmetric] using assms(1-6) by (intro signed_sum_near) (auto simp: \<sigma>_def)
  have sg: "\<sigma> = 1 \<and> 0 \<le> fval w \<or> \<sigma> = -1 \<and> fval w < 0"
  proof (cases "sign = CHR ''-''")
    case True
    then have "1 \<le> 3600 * d + 60 * m + s" using assms(1-7) by auto
    then have "(1 :: rat) / 3600 \<le> of_int (3600 * d + 60 * m + s) / 3600"
      unfolding of_int_1_le_iff [where 'a = rat, symmetric] by (intro divide_right_mono) simp_all
    moreover have "(2::rat) powi -40 < 1 / 3600" by (simp add: powi_neg_numeral)
    moreover from True have s: "\<sigma> = -1" by (simp add: \<sigma>_def)
    ultimately have "fval w < 0" using nearD(2) [OF n] unfolding s mult_minus1 by linarith
    with s show ?thesis by simp
  next
    case False
    then show ?thesis using assms(1-6) by (simp add: \<sigma>_def u [symmetric] fmul_nonneg sex_sum_nonneg)
  qed
  have "dmsPrec w 2 1 True = E @ ''.0''"
    using dmsPrec_whole [OF n sg assms(1) _ assms(3-6)] assms(2,7) by (auto simp: E_def \<sigma>_def)
  with w dms_no_hash [of "CHR ''*''" w] show ?thesis by auto
qed

section \<open>Properties\<close>

text \<open>C12: a goto through the bridge reaches an OnStep or an AM mount in the client's own words: the texts of
  \<open>:Sr\<close> and \<open>:Sd\<close> and then \<open>:MS#\<close>, nothing else; the client reads \<open>110\<close>, and the status that was cached
  before the slew is discarded.\<close>

theorem goto_through_drivers:
  assumes ra: "0 \<le> h" "h < 24" "0 \<le> m" "m < 60" "0 \<le> s" "s < 60"
    and dec: "0 \<le> D" "D < 90" "0 \<le> M" "M < 60" "0 \<le> S" "S < 60" "sign = CHR ''+'' \<or> sign = CHR ''-'' \<and> 0 < D + M + S"
    and time: "accepts_goto ans '':MS#''"
      "answering d ans (oconn (dev b))" "int d \<le> timeout (oconn (dev b))"
      "answering d ans (zconn (dev c))" "int d \<le> timeout (zconn (dev c))"
  defines "R \<equiv> hms_text h m s" and "E \<equiv> dms_text sign CHR ''*'' D M S"
  defines "request \<equiv> '':Sr'' @ R @ ''#:Sd'' @ E @ ''#:MS#''" and "cmds \<equiv> ['':Sr'' @ R @ ''#'', '':Sd'' @ E @ ''#'', '':MS#'']"
  shows "(let b' = handle (serve onstepMount) request b
      in out b' = out b @ ''110'' \<and> sent (oconn (dev b')) = sent (oconn (dev b)) @ cmds \<and> ocachedAt (dev b') = None)
    \<and> (let c' = handle (serve am5Mount) request c
      in out c' = out c @ ''110'' \<and> sent (zconn (dev c')) = sent (zconn (dev c)) @ cmds \<and> zcachedAt (dev c') = None)"
proof -
  obtain v where v: "target_value R 0 24 = Some v" "FormatHMS v = R" "CHR ''#'' \<notin> set R"
    using RA_text [OF ra] by (auto simp: R_def)
  obtain w where w: "target_value E (- 90) 90 = Some w" "FormatDMS w CHR ''*'' = E" "CHR ''#'' \<notin> set E"
    using Dec_text [OF dec] by (auto simp: E_def)
  have os: "discards ocachedAt (bindE (setDeviceTarget onstepMount v w) (\<lambda>_. mSlewToTarget onstepMount))"
    unfolding onstepMount_def mount.simps os_SlewToTarget_def by (intro discards_bind os.discards_invalidate)
  have zs: "discards zcachedAt (bindE (setDeviceTarget am5Mount v w) (\<lambda>_. mSlewToTarget am5Mount))"
    unfolding am5Mount_def mount.simps by (intro discards_bind am5_motions_discard)
  from og.client_goto [OF time(2,1,3) v(1) w(1) v(3) w(3)] discardsD [OF os] v(2) w(2)
    zg.client_goto [OF time(4,1,5) v(1) w(1) v(3) w(3)] discardsD [OF zs]
  show ?thesis unfolding request_def cmds_def Let_def by auto
qed

lemma accepts_obedient: "accepts_goto obedient '':MS#''"
  by (simp add: accepts_goto_def acks_def obedient_def)

theorem goto_through_drivers_witness:
  "(let b' = handle (serve onstepMount) ('':Sr'' @ hms_text 5 34 32 @ ''#:Sd'' @ dms_text CHR ''-'' CHR ''*'' 5 23 28 @ ''#:MS#'')
      (newBridge \<lparr>oconn = mount_conn 1000000 obedient, ocached = Status0, ocachedAt = Some 0\<rparr> 0)
    in out b' = ''110'' \<and> sent (oconn (dev b')) = ['':Sr'' @ hms_text 5 34 32 @ ''#'', '':Sd'' @ dms_text CHR ''-'' CHR ''*'' 5 23 28 @ ''#'', '':MS#'']
      \<and> ocachedAt (dev b') = None)"
  using goto_through_drivers [of 5 34 32 5 23 28 "CHR ''-''" obedient 1000000
      "newBridge \<lparr>oconn = mount_conn 1000000 obedient, ocached = Status0, ocachedAt = Some 0\<rparr> 0"
      "newBridge (am5_new (wire (mount_conn 1000000 obedient))) 0"]
  by (simp add: newBridge_def accepts_obedient)

text \<open>C11: the same goto on a 10Micron mount, which takes fractions of a second: the texts are extended by
  a zero fraction and by nothing else, and the slew is \<open>:MSnf#\<close>, or \<open>:MS#\<close> for a firmware before 2.11.\<close>

theorem goto_on_tenmicron:
  assumes ra: "0 \<le> h" "h < 24" "0 \<le> m" "m < 60" "0 \<le> s" "s < 60"
    and dec: "0 \<le> D" "D < 90" "0 \<le> M" "M < 60" "0 \<le> S" "S < 60" "sign = CHR ''+'' \<or> sign = CHR ''-'' \<and> 0 < D + M + S"
    and time: "answering d ans (tconn (dev b))" "accepts_goto ans (tm_slewCmd (dev b))" "int d \<le> timeout (tconn (dev b))"
  defines "R \<equiv> hms_text h m s" and "E \<equiv> dms_text sign CHR ''*'' D M S"
  shows "\<exists>b'. handle (serve tmMount) ('':Sr'' @ R @ ''#:Sd'' @ E @ ''#:MS#'') b = b' \<and> out b' = out b @ ''110''
    \<and> sent (tconn (dev b')) = sent (tconn (dev b)) @ ['':Sr'' @ R @ ''.00#'', '':Sd'' @ E @ ''.0#'',
        if firmware (dev b) = Version0 \<or> Version 2 11 0 \<le> firmware (dev b) then '':MSnf#'' else '':MS#'']
    \<and> tcachedAt (dev b') = None"
proof -
  obtain v where v: "target_value R 0 24 = Some v" "hmsPrec v 2 = R @ ''.00''" "CHR ''#'' \<notin> set R"
    using RA_text [OF ra] by (auto simp: R_def)
  obtain w where w: "target_value E (- 90) 90 = Some w" "dmsPrec w 2 1 True = E @ ''.0''" "CHR ''#'' \<notin> set E"
    using Dec_text [OF dec] by (auto simp: E_def)
  have ts: "discards tcachedAt (bindE (setDeviceTarget tmMount v w) (\<lambda>_. mSlewToTarget tmMount))"
    unfolding tmMount_def mount.simps by (intro discards_bind tm_motions_discard)
  have cmd: "tm_slewCmd (dev b) = (if firmware (dev b) = Version0 \<or> Version 2 11 0 \<le> firmware (dev b) then '':MSnf#'' else '':MS#'')"
    by (auto simp: tm_slewCmd_def version_atLeast_le)
  from tg.client_goto [OF time v(1) w(1) v(3) w(3)] discardsD [OF ts] v(2) w(2) show ?thesis
    unfolding cmd by (auto simp: append_assoc)
qed

theorem goto_on_tenmicron_witness:
  "\<exists>b'. handle (serve tmMount) ('':Sr'' @ hms_text 5 34 32 @ ''#:Sd'' @ dms_text CHR ''-'' CHR ''*'' 5 23 28 @ ''#:MS#'')
      (newBridge ((tm_new (wire (mount_conn 5 (\<lambda>h. if last h = '':MSnf#'' then ''0'' else ''1''))))\<lparr>firmware := Version 3 0 0\<rparr>) 0) = b'
    \<and> out b' = ''110'' \<and> sent (tconn (dev b')) = ['':Sr'' @ hms_text 5 34 32 @ ''.00#'', '':Sd'' @ dms_text CHR ''-'' CHR ''*'' 5 23 28 @ ''.0#'', '':MSnf#'']"
proof -
  let ?ans = "\<lambda>h. if last h = '':MSnf#'' then ''0'' else ''1''"
  let ?b = "newBridge ((tm_new (wire (mount_conn 5 ?ans)))\<lparr>firmware := Version 3 0 0\<rparr>) 0"
  have "accepts_goto ?ans (tm_slewCmd (dev ?b))"
    by (simp add: accepts_goto_def acks_def tm_slewCmd_def newBridge_def Version0_def)
  moreover have "Version 2 11 0 \<le> Version 3 0 0" by (simp add: less_eq_Version_def)
  ultimately show ?thesis
    using goto_on_tenmicron [of 5 34 32 5 23 28 "CHR ''-''" 5 ?ans ?b] by (auto simp: newBridge_def ms_def)
qed

section \<open>The offset from UTC\<close>

definition zone_text :: "int \<Rightarrow> string" where
  "zone_text k = [if k < 0 then CHR ''-'' else CHR ''+''] @ fmt_d 2 \<bar>k\<bar>"

lemma zone_text_facts:
  assumes "\<bar>k\<bar> \<le> 24"
  shows "\<exists>h. ParseSexagesimal (zone_text k @ '':00'') = Inr h \<and> hours_dur h = k * hour_ns"
    "TrimSpace (zone_text k @ '':00'') = zone_text k @ '':00''" "CHR ''#'' \<notin> set (zone_text k @ '':00'')" "length (zone_text k @ '':00'') = 6"
proof -
  define \<sigma> :: int where "\<sigma> = (if k < 0 then -1 else 1)"
  have t: "zone_text k @ '':00'' = [if k < 0 then CHR ''-'' else CHR ''+''] @ fmt_d 2 \<bar>k\<bar> @ '':'' @ fmt_d 2 (15 * 0)"
    by (simp add: zone_text_def fmt_d_0)
  have "ParseSexagesimal (zone_text k @ '':00'') = Inr (fmul (Fin (of_int \<sigma>))
      (fadd (fadd (Fin 0) (fdiv (Fin (of_int \<bar>k\<bar>)) (Fin 1))) (fdiv (Fin (of_int (15 * 0))) (Fin 60))))"
    unfolding t using assms by (subst ParseSexagesimal_two) (auto simp: \<sigma>_def)
  moreover have "hours_dur (fmul (Fin (of_int \<sigma>))
      (fadd (fadd (Fin 0) (fdiv (Fin (of_int \<bar>k\<bar>)) (Fin 1))) (fdiv (Fin (of_int (15 * 0))) (Fin 60)))) = \<sigma> * (4 * \<bar>k\<bar> + 0) * 900000000000"
    using assms by (intro quarter_hours_exact) (auto simp: \<sigma>_def)
  ultimately show "\<exists>h. ParseSexagesimal (zone_text k @ '':00'') = Inr h \<and> hours_dur h = k * hour_ns"
    by (auto simp: \<sigma>_def hour_ns_def)
  show "TrimSpace (zone_text k @ '':00'') = zone_text k @ '':00''"
    by (rule TrimSpace_plain) (auto simp: zone_text_def plain_char_def)
  show "CHR ''#'' \<notin> set (zone_text k @ '':00'')" by (simp add: zone_text_def)
  have "length (fmt_d 2 \<bar>k\<bar>) = 2" by (rule fmt_d_length) (use assms in simp_all)
  then show "length (zone_text k @ '':00'') = 6" by (simp add: zone_text_def)
qed

lemma meadeOffset_whole:
  assumes "\<bar>k\<bar> \<le> 24"
  shows "meadeOffset (k * hour_ns) = zone_text k"
proof -
  have q: "go_quot (k * hour_ns) hour_ns = k" "go_rem (k * hour_ns) hour_ns = 0"
    by (simp_all add: go_quot_def go_rem_def hour_ns_def abs_mult sgn_mult sgn_mult_abs)
  have "f64_of_int k = Fin (of_int k)" "f64_of_int 0 = Fin 0" using assms by (simp_all add: f64_of_int_exact)
  then have h: "hours_of (k * hour_ns) = Fin (of_int k)"
    using rnd_of_int [of k] assms by (simp add: hours_of_def q fdiv_def fadd_def signed_zero_def)
  show ?thesis
  proof (cases "k < 0")
    case True
    have "int_of_f64 (f_round (fneg (Fin (of_int k)))) = - k"
      using True assms round_near [of "fneg (Fin (of_int k))" "- k" 0] by (simp add: near_def)
    with True show ?thesis by (simp add: meadeOffset_def h flt_def zone_text_def)
  next
    case False
    have "int_of_f64 (f_round (Fin (of_int k))) = k"
      using assms round_near [of "Fin (of_int k)" k 0] by (simp add: near_def)
    with False show ?thesis by (simp add: meadeOffset_def h flt_def zone_text_def)
  qed
qed

text \<open>What the drivers make of the reply to \<open>:GG#\<close>.\<close>

lemma offset_readings:
  assumes "\<bar>k\<bar> \<le> 24"
  shows "answering d ans (zconn z) \<Longrightarrow> ans (sent (zconn z) @ ['':GG#'']) = zone_text k @ '':00#'' \<Longrightarrow> int d + 12 * ms \<le> timeout (zconn z)
      \<Longrightarrow> \<exists>z'. am5_UTCOffset z = (Inr (- k * hour_ns), z')"
    and "answering d ans (tconn u) \<Longrightarrow> ans (sent (tconn u) @ ['':GG#'']) = zone_text k @ '':00#'' \<Longrightarrow> int d + 12 * ms \<le> timeout (tconn u)
      \<Longrightarrow> \<exists>u'. tm_UTCOffset u = (Inr (k * hour_ns), u')"
proof -
  note z = zone_text_facts [OF assms]
  obtain h where h: "ParseSexagesimal (zone_text k @ '':00'') = Inr h" "hours_dur h = k * hour_ns" using z(1) by blast
  have w: "wrap64 (- (k * hour_ns)) = - (k * hour_ns)" using assms by (auto simp: wrap64_def hour_ns_def)
  show "\<exists>z'. am5_UTCOffset z = (Inr (- k * hour_ns), z')"
    if A: "answering d ans (zconn z)" "ans (sent (zconn z) @ ['':GG#'']) = zone_text k @ '':00#''" "int d + 12 * ms \<le> timeout (zconn z)"
  proof -
    obtain z' where "onZ (Get '':GG#'') z = (Inr (zone_text k @ '':00''), z')"
      using onZ_Get [OF A(1) _ z(3), of "'':GG#''"] A(2,3) z(4) by auto
    with h w show ?thesis by (auto simp: am5_UTCOffset_def bindE_def)
  qed
  show "\<exists>u'. tm_UTCOffset u = (Inr (k * hour_ns), u')"
    if A: "answering d ans (tconn u)" "ans (sent (tconn u) @ ['':GG#'']) = zone_text k @ '':00#''" "int d + 12 * ms \<le> timeout (tconn u)"
  proof -
    obtain c where "onT (Get '':GG#'') u = (Inr (zone_text k @ '':00''), u\<lparr>tconn := c\<rparr>)"
      using onT_Get [OF A(1) _ z(3), of "'':GG#''"] A(2,3) z(4) by auto
    with h show ?thesis by (auto simp: tm_UTCOffset_def bindE_def z(2))
  qed
qed

lemma dispatch_GG:
  assumes "asUTCOffsetReader m = Some r" "r (dev b) = (Inr d, s)" "\<not> haveOff b"
  shows "out (dispatch (serve m) ''GG'' b) = out b @ meadeOffset d @ ''#''"
  using assms by (simp add: dispatch_def offset_def onDev_def)

text \<open>C13: the bridge takes the offset of a mount as the hours that are added to local time to reach UTC.
  A 10Micron mount that answers \<open>:GG#\<close> with \<open>k\<close> hours is served as \<open>k\<close> hours; an AM mount that gives
  the same answer is served with the opposite sign, because \<open>UTCOffset\<close> of that driver counts
  east of Greenwich. A client that sets date and time without an offset of its own then has
  \<open>k\<close> hours subtracted where they belong added.\<close>

theorem am5_offset_reversed:
  assumes "\<bar>k\<bar> \<le> 24" "\<not> haveOff b" "\<not> haveOff c" "\<not> haveSL (st c)" "\<not> haveSG (st c)"
    "answering d ans (tconn (dev b))" "ans (sent (tconn (dev b)) @ ['':GG#'']) = zone_text k @ '':00#''" "int d + 12 * ms \<le> timeout (tconn (dev b))"
    "answering d ans (zconn (dev c))" "ans (sent (zconn (dev c)) @ ['':GG#'']) = zone_text k @ '':00#''" "int d + 12 * ms \<le> timeout (zconn (dev c))"
    "ParseSexagesimal l = Inr l'" "Parse_date (TrimSpace day) = Some t"
  shows "out (dispatch (serve tmMount) ''GG'' b) = out b @ zone_text k @ ''#''
    \<and> out (dispatch (serve am5Mount) ''GG'' c) = out c @ zone_text (- k) @ ''#''
    \<and> dev (foldl (\<lambda>b cmd. dispatch (serve am5Mount) cmd b) c [''SC'' @ day, ''SL'' @ l])
        = snd (am5_SetUTC (t + hours_dur l' - k * hour_ns, 0) (snd (am5_UTCOffset (dev c))))"
proof -
  obtain z where z: "am5_UTCOffset (dev c) = (Inr (- k * hour_ns), z)"
    using offset_readings(1) [OF assms(1,9-11)] by blast
  obtain u where u: "tm_UTCOffset (dev b) = (Inr (k * hour_ns), u)"
    using offset_readings(2) [OF assms(1,6-8)] by blast
  have "out (dispatch (serve tmMount) ''GG'' b) = out b @ zone_text k @ ''#''"
    using dispatch_GG [where r = tm_UTCOffset and m = tmMount, OF _ u assms(2)] meadeOffset_whole [OF assms(1)] by (simp add: tmMount_def)
  moreover have "out (dispatch (serve am5Mount) ''GG'' c) = out c @ zone_text (- k) @ ''#''"
    using dispatch_GG [where r = am5_UTCOffset and m = am5Mount, OF _ z assms(3)] meadeOffset_whole [of "- k"] assms(1) by (simp add: am5Mount_def)
  moreover have "dev (foldl (\<lambda>b cmd. dispatch (serve am5Mount) cmd b) c [''SC'' @ day, ''SL'' @ l])
      = snd (am5_SetUTC (t + hours_dur l' - k * hour_ns, 0) z)"
    using assms(3-5,12,13) z
    by (auto simp: dispatch_clock setLocalTime_def setCalendarDate_def tryApplyTime_def offset_def am5Mount_def
        bwriteS_def onDev_def Let_def simp del: append.simps split: prod.splits)
  ultimately show ?thesis using z by simp
qed

theorem am5_offset_reversed_witness:
  "out (dispatch (serve am5Mount) ''GG'' (newBridge (am5_new (wire (mount_conn 5 (\<lambda>h. zone_text 8 @ '':00#'')))) 0)) = zone_text (- 8) @ ''#''
    \<and> zone_text (- 8) = ''-08'' \<and> zone_text 8 = ''+08''"
proof -
  let ?ans = "\<lambda>h :: string list. zone_text 8 @ '':00#''"
  obtain l where l: "ParseSexagesimal (hms_text 20 30 0) = Inr l" using sample_times by blast
  have "zone_text (- 8) = ''-08'' \<and> zone_text 8 = ''+08''" by code_simp
  with am5_offset_reversed [OF _ _ _ _ _ _ _ _ _ _ _ l sample_times(3), of 8
      "newBridge (tm_new (wire (mount_conn 5 ?ans))) 0" "newBridge (am5_new (wire (mount_conn 5 ?ans))) 0" 5 ?ans]
  show ?thesis by (simp add: newBridge_def connState0_def ms_def)
qed

end
