(* ===== verification/Console.thy ===== *)
theory Console
  imports Keeps GoErr
begin

text \<open>
  What the two consoles share (src/cmd/rst/main.go, src/cmd/tenmicron/main.go): the words of a line,
  the dispatch of a verb over a table, and the state of a session, which is the driver and what was
  printed. A printed line is kept as its format, without the line end, and its arguments. A verb never
  returns an error: it prints it; \<open>handles\<close> states that, together with a property of the driver that
  the verb keeps.
\<close>

section \<open>Words of a line\<close>

text \<open>\<open>strings.Fields\<close>: the maximal runs of characters that are no white space.\<close>

fun take_word :: "string \<Rightarrow> string \<times> string" where
  "take_word [] = ([], [])"
| "take_word (c # s) =
     (if lead_space wide_spaces (c # s) > 0 then ([], c # s)
      else case take_word s of (w, r) \<Rightarrow> (c # w, r))"

lemma take_word_length: "length (snd (take_word s)) \<le> length s"
  by (induction s) (auto split: prod.splits)

lemma trim_left_length: "length (trim_left ws s) \<le> length s"
proof (induction ws s rule: trim_left.induct)
  case (1 ws s)
  then show ?case by (subst trim_left.simps) (auto simp: Let_def intro: order_trans)
qed

lemma trim_left_start: "trim_left ws s = c # t \<Longrightarrow> lead_space ws (c # t) = 0"
proof (induction ws s rule: trim_left.induct)
  case (1 ws s)
  show ?case
  proof (cases "lead_space ws s = 0")
    case True
    with 1(2) show ?thesis by (subst (asm) trim_left.simps) simp
  next
    case False
    with 1 show ?thesis by (subst (asm) trim_left.simps) (simp add: Let_def)
  qed
qed

function Fields :: "string \<Rightarrow> string list" where
  "Fields s =
     (case trim_left wide_spaces s of
        [] \<Rightarrow> []
      | c # t \<Rightarrow> (case take_word t of (w, r) \<Rightarrow> (c # w) # Fields r))"
  by pat_completeness auto
termination
proof (relation "measure length", goal_cases)
  case (2 s c t w r)
  have "length r \<le> length t" using take_word_length [of t] 2(2) by (metis snd_conv)
  moreover have "length (c # t) \<le> length s" using trim_left_length [of wide_spaces s] 2(1) by simp
  ultimately show ?case by simp
qed simp

declare Fields.simps [simp del]

lemma Fields_Nil: "Fields s = [] \<longleftrightarrow> trim_left wide_spaces s = []"
  by (subst Fields.simps) (auto split: list.split prod.split)

lemma take_word_plain: "list_all plain_char w \<Longrightarrow> take_word w = (w, [])"
  by (induction w) (simp_all add: lead_space_plain wide_spaces_high)

lemma Fields_plain:
  assumes "w \<noteq> []" "list_all plain_char w"
  shows "Fields w = [w]"
proof -
  obtain c t where w: "w = c # t" using assms(1) by (cases w) auto
  with assms(2) have "trim_left wide_spaces w = c # t" "take_word t = (t, [])"
    by (auto intro: trim_left_id take_word_plain simp: lead_space_plain wide_spaces_high)
  moreover have "Fields [] = []" by (simp add: Fields_Nil trim_left_id)
  ultimately show ?thesis by (subst Fields.simps) (simp add: w)
qed

text \<open>What is left of a line by \<open>TrimSpace\<close> has a word, unless it is empty.\<close>

lemma space_len_prefix: "0 < space_len ws s \<Longrightarrow> \<exists>w\<in>set ws. HasPrefix s w \<and> space_len ws s = length w"
  by (induction ws) (auto split: if_splits)

lemma space_len_found: "w \<in> set ws \<Longrightarrow> HasPrefix s w \<Longrightarrow> [] \<notin> set ws \<Longrightarrow> 0 < space_len ws s"
  by (induction ws) auto

lemma trim_left_all: "trim_left ws s = [] \<Longrightarrow> s \<noteq> [] \<Longrightarrow> \<exists>a w. s = a @ w \<and> 0 < lead_space ws w \<and> lead_space ws w = length w"
proof (induction ws s rule: trim_left.induct)
  case (1 ws s)
  show ?case
  proof (cases "lead_space ws s = 0")
    case True
    with 1(2,3) show ?thesis by (simp add: trim_left_id)
  next
    case False
    with 1(2) have t: "trim_left ws (drop (lead_space ws s) s) = []" by (subst (asm) trim_left.simps) simp
    show ?thesis
    proof (cases "drop (lead_space ws s) s = []")
      case True
      with False lead_space_le [of ws s] show ?thesis by (intro exI [of _ "[]"] exI [of _ s]) simp
    next
      case n: False
      from 1(1) [OF refl False t n] obtain a w where
        "drop (lead_space ws s) s = a @ w" "0 < lead_space ws w" "lead_space ws w = length w" by blast
      moreover from this(1) have "s = (take (lead_space ws s) s @ a) @ w"
        by (metis append.assoc append_take_drop_id)
      ultimately show ?thesis by blast
    qed
  qed
qed

lemma lead_space_rev:
  assumes "0 < lead_space ws w" "lead_space ws w = length w" "[] \<notin> set ws"
  shows "0 < lead_space (map rev ws) (rev w @ v)"
proof -
  obtain c t where w: "w = c # t" using assms(1,2) by (cases w) auto
  show ?thesis
  proof (cases "ascii_space c")
    case True
    with w assms(2) have "t = []" by (simp add: lead_space_def)
    with w True show ?thesis by (simp add: lead_space_def)
  next
    case False
    with w assms(1) have "0 < space_len ws w" by (simp add: lead_space_def)
    then obtain x where x: "x \<in> set ws" "HasPrefix w x" "space_len ws w = length x" by (blast dest: space_len_prefix)
    with w False assms(2) have "length x = length w" by (simp add: lead_space_def)
    with x(2) have "x = w" by (simp add: HasPrefix_def)
    with x(1) have "0 < space_len (map rev ws) (rev w @ v)"
      using assms(3) by (intro space_len_found [of "rev w"]) auto
    with w show ?thesis by (cases "rev w @ v") (auto simp: lead_space_def)
  qed
qed

lemma TrimSpace_Fields: "TrimSpace s \<noteq> [] \<Longrightarrow> Fields (TrimSpace s) \<noteq> []"
proof
  assume n: "TrimSpace s \<noteq> []" and "Fields (TrimSpace s) = []"
  then obtain a w where w: "TrimSpace s = a @ w" "0 < lead_space wide_spaces w" "lead_space wide_spaces w = length w"
    using trim_left_all Fields_Nil by blast
  have "[] \<notin> set wide_spaces" by (auto simp: wide_spaces_def)
  from lead_space_rev [OF w(2,3) this] have "0 < lead_space (map rev wide_spaces) (rev w @ rev a)" .
  moreover have "trim_left (map rev wide_spaces) (rev (trim_left wide_spaces s)) = rev w @ rev a"
    using w(1) unfolding TrimSpace_def by (metis rev_append rev_rev_ident)
  moreover have "rev w @ rev a \<noteq> []" using n w(1) by auto
  ultimately show False using trim_left_start by (metis list.exhaust less_numeral_extra(3))
qed

text \<open>\<open>strings.Join\<close>.\<close>

fun Join :: "string list \<Rightarrow> string \<Rightarrow> string" where
  "Join [] sep = []"
| "Join [x] sep = x"
| "Join (x # y # xs) sep = x @ sep @ Join (y # xs) sep"

section \<open>A session\<close>

record 'd console =
  cmount :: 'd
  printed :: "(string \<times> farg list) list"

definition onM :: "('d, 'a) pio \<Rightarrow> ('d console, 'a) pio" where
  "onM m = (\<lambda>s. map_option (\<lambda>(r, c). (r, s\<lparr>cmount := c\<rparr>)) (m (cmount s)))"

definition printl :: "string \<Rightarrow> farg list \<Rightarrow> ('d console, unit) pio" where
  "printl f args = modP (\<lambda>s. s\<lparr>printed := printed s @ [(f, args)]\<rparr>)"

definition bool_text :: "bool \<Rightarrow> string" where
  "bool_text b = (if b then ''true'' else ''false'')"

text \<open>Call the driver, and go on with the value and the error.\<close>

abbreviation ask :: "('d, 'a) pio \<Rightarrow> (gerr + 'a \<Rightarrow> ('d console, 'b) pio) \<Rightarrow> ('d console, 'b) pio" where
  "ask m f \<equiv> tryP (onM m) f"

definition reportWith :: "(gerr \<Rightarrow> ('d console, unit) pio) \<Rightarrow> ('a \<Rightarrow> ('d console, unit) pio) \<Rightarrow> ('d, 'a) pio \<Rightarrow>
    ('d console, unit) pio" where
  "reportWith g f m = ask m (\<lambda>r. case r of Inl e \<Rightarrow> g e | Inr v \<Rightarrow> f v)"

fun inTurn :: "('d console, unit) pio list \<Rightarrow> ('d console, unit) pio" where
  "inTurn [] = okP ()"
| "inTurn (m # rest) = bindP m (\<lambda>_. inTurn rest)"

text \<open>A \<open>switch\<close> on a string: the verbs of a case, and its body.\<close>

fun switch :: "string \<Rightarrow> (string list \<times> 'a) list \<Rightarrow> 'a \<Rightarrow> 'a" where
  "switch v [] d = d"
| "switch v ((ns, a) # t) d = (if v \<in> set ns then a else switch v t d)"

text \<open>The lines of the input that reach the switch.\<close>

definition run_lines :: "string list \<Rightarrow> string list" where
  "run_lines input = filter (\<lambda>l. l \<noteq> []) (takeWhile (\<lambda>l. l \<notin> {''quit'', ''exit'', ''q''}) (map TrimSpace input))"

lemma run_lines_Cons:
  "run_lines (l # ls) = (if TrimSpace l \<in> {''quit'', ''exit'', ''q''} then []
     else if TrimSpace l = [] then run_lines ls else TrimSpace l # run_lines ls)"
  by (simp add: run_lines_def)

lemma strict_prefix_length: "strict_prefix xs ys \<Longrightarrow> prefix xs ys \<and> Suc (length xs) \<le> length ys"
  using prefix_length_less [of xs ys] by (simp add: strict_prefix_def)

text \<open>A slice printed with \<open>%v\<close>.\<close>

definition argsOf :: "('a \<Rightarrow> farg) \<Rightarrow> 'a list \<Rightarrow> farg list" where
  "argsOf f xs = map f xs"

text \<open>A line without a word makes \<open>fields[0]\<close> panic.\<close>

definition noWord :: gerr where
  "noWord = ErrNew ''runtime error: index out of range [0] with length 0''"

section \<open>Errors are printed\<close>

text \<open>A verb never fails, prints at least one line, its outcome or its error, and keeps what the driver
  keeps. A part of a verb may stay silent (\<open>tolerates\<close>).\<close>

definition handles :: "('d \<Rightarrow> bool) \<Rightarrow> ('d console, unit) pio \<Rightarrow> bool" where
  "handles I m = (\<forall>s r s'. I (cmount s) \<longrightarrow> m s = Some (r, s') \<longrightarrow>
     r = Inr () \<and> I (cmount s') \<and> strict_prefix (printed s) (printed s'))"

named_theorems handled \<open>verbs that print their errors\<close>

lemma handlesD:
  "handles I m \<Longrightarrow> I (cmount s) \<Longrightarrow> m s = Some (r, s') \<Longrightarrow> r = Inr () \<and> I (cmount s') \<and> strict_prefix (printed s) (printed s')"
  by (simp add: handles_def)

definition tolerates :: "('d \<Rightarrow> bool) \<Rightarrow> ('d console, unit) pio \<Rightarrow> bool" where
  "tolerates I m = (\<forall>s r s'. I (cmount s) \<longrightarrow> m s = Some (r, s') \<longrightarrow>
     r = Inr () \<and> I (cmount s') \<and> prefix (printed s) (printed s'))"

lemma toleratesD:
  "tolerates I m \<Longrightarrow> I (cmount s) \<Longrightarrow> m s = Some (r, s') \<Longrightarrow> r = Inr () \<and> I (cmount s') \<and> prefix (printed s) (printed s')"
  by (simp add: tolerates_def)

lemma handles_tolerates: "handles I m \<Longrightarrow> tolerates I m"
  unfolding handles_def tolerates_def strict_prefix_def by blast

lemma bindP_okP [simp]: "bindP m (\<lambda>_. okP ()) = (m :: ('d console, unit) pio)"
proof
  fix s
  show "bindP m (\<lambda>_. okP ()) s = m s"
    by (cases "m s") (auto simp: bindP_def tryP_def okE_def split: sum.split)
qed

lemma handles_printl [handled]: "handles I (printl f a)"
  by (simp add: handles_def printl_def strict_prefix_def)

lemma handles_ask [handled]:
  assumes "keepsP I m" "\<And>r. handles I (f r)"
  shows "handles I (ask m f)"
  unfolding handles_def
proof (intro allI impI)
  fix s r s'
  assume i: "I (cmount s)" and a: "ask m f s = Some (r, s')"
  then obtain q d where q: "m (cmount s) = Some (q, d)" "f q (s\<lparr>cmount := d\<rparr>) = Some (r, s')"
    by (auto simp: tryP_def onM_def bind_eq_Some_conv)
  have "I (cmount (s\<lparr>cmount := d\<rparr>))" using keepsPD [OF assms(1) i q(1)] by simp
  from handlesD [OF assms(2) this q(2)] show "r = Inr () \<and> I (cmount s') \<and> strict_prefix (printed s) (printed s')" by simp
qed

lemma handles_bindP [handled]:
  assumes "handles I m" "\<And>x. handles I (f x)"
  shows "handles I (bindP m f)"
  unfolding handles_def
proof (intro allI impI)
  fix s r s'
  assume i: "I (cmount s)" and a: "bindP m f s = Some (r, s')"
  then obtain q t where q: "m s = Some (q, t)" by (auto simp: bindP_def tryP_def bind_eq_Some_conv)
  note t = handlesD [OF assms(1) i q]
  with a q have "f () t = Some (r, s')" by (simp add: bindP_apply)
  from handlesD [OF assms(2) _ this] t show "r = Inr () \<and> I (cmount s') \<and> strict_prefix (printed s) (printed s')"
    by (blast intro: prefix_order.less_trans)
qed

lemma handles_inTurn: "vs \<noteq> [] \<Longrightarrow> (\<And>m. m \<in> set vs \<Longrightarrow> handles I m) \<Longrightarrow> handles I (inTurn vs)"
proof (induction vs)
  case (Cons m vs)
  then show ?case by (cases "vs = []") (auto intro: handled)
qed simp

lemma tolerates_inTurn: "(\<And>m. m \<in> set vs \<Longrightarrow> tolerates I m) \<Longrightarrow> tolerates I (inTurn vs)"
proof (induction vs)
  case Nil
  show ?case by (simp add: tolerates_def)
next
  case (Cons m vs)
  have m: "tolerates I m" and vs: "tolerates I (inTurn vs)" using Cons by simp_all
  show ?case unfolding tolerates_def
  proof (intro allI impI)
    fix s r s'
    assume i: "I (cmount s)" and a: "inTurn (m # vs) s = Some (r, s')"
    then obtain q t where q: "m s = Some (q, t)" by (auto simp: bindP_def tryP_def bind_eq_Some_conv)
    note t = toleratesD [OF m i q]
    with a q have "inTurn vs t = Some (r, s')" by (simp add: bindP_apply)
    from toleratesD [OF vs _ this] t show "r = Inr () \<and> I (cmount s') \<and> prefix (printed s) (printed s')"
      by (blast intro: prefix_order.trans)
  qed
qed

lemma handles_first:
  assumes "handles I m" "\<And>v. v \<in> set vs \<Longrightarrow> tolerates I v"
  shows "handles I (inTurn (m # vs))"
  unfolding handles_def
proof (intro allI impI)
  fix s r s'
  assume i: "I (cmount s)" and a: "inTurn (m # vs) s = Some (r, s')"
  then obtain q t where q: "m s = Some (q, t)" by (auto simp: bindP_def tryP_def bind_eq_Some_conv)
  note t = handlesD [OF assms(1) i q]
  with a q have "inTurn vs t = Some (r, s')" by (simp add: bindP_apply)
  from toleratesD [OF tolerates_inTurn [OF assms(2)] _ this] t
  show "r = Inr () \<and> I (cmount s') \<and> strict_prefix (printed s) (printed s')"
    by (blast intro: prefix_order.less_le_trans)
qed

lemma handles_cases [handled]:
  "handles I m \<Longrightarrow> handles I n \<Longrightarrow> handles I (if b then m else n)"
  "handles I m \<Longrightarrow> (\<And>x. handles I (f x)) \<Longrightarrow> handles I (case o1 of None \<Rightarrow> m | Some x \<Rightarrow> f x)"
  "(\<And>e. handles I (g e)) \<Longrightarrow> (\<And>x. handles I (h x)) \<Longrightarrow> handles I (case r of Inl e \<Rightarrow> g e | Inr x \<Rightarrow> h x)"
  "(\<And>x y. handles I (k x y)) \<Longrightarrow> handles I (case p of (x, y) \<Rightarrow> k x y)"
  "handles I m \<Longrightarrow> (\<And>x xs. handles I (l x xs)) \<Longrightarrow> handles I (case ys of [] \<Rightarrow> m | x # xs \<Rightarrow> l x xs)"
  by (auto split: option.split sum.split prod.split list.split)

lemma handles_switch:
  "(\<And>ns a. (ns, a) \<in> set t \<Longrightarrow> handles I a) \<Longrightarrow> handles I d \<Longrightarrow> handles I (switch v t d)"
proof (induction t)
  case (Cons x t)
  have "handles I (switch v t d)" using Cons by auto
  moreover have "handles I (snd x)" using Cons(2) [of "fst x" "snd x"] by simp
  ultimately show ?case by (cases x) simp
qed simp

lemma handles_reportWith [handled]:
  "keepsP I m \<Longrightarrow> (\<And>e. handles I (g e)) \<Longrightarrow> (\<And>v. handles I (f v)) \<Longrightarrow> handles I (reportWith g f m)"
  unfolding reportWith_def by (intro handled)

text \<open>A reading that is left out when it fails.\<close>

lemma tolerates_reading:
  assumes "keepsP I m" "\<And>v. handles I (f v)"
  shows "tolerates I (reportWith (\<lambda>_. okP ()) f m)"
  unfolding tolerates_def
proof (intro allI impI)
  fix s r s'
  assume i: "I (cmount s)" and a: "reportWith (\<lambda>_. okP ()) f m s = Some (r, s')"
  then obtain q d where q: "m (cmount s) = Some (q, d)"
    and w: "(case q of Inl e \<Rightarrow> okP () | Inr v \<Rightarrow> f v) (s\<lparr>cmount := d\<rparr>) = Some (r, s')"
    by (auto simp: reportWith_def tryP_def onM_def bind_eq_Some_conv)
  have d: "I (cmount (s\<lparr>cmount := d\<rparr>))" using keepsPD [OF assms(1) i q] by simp
  show "r = Inr () \<and> I (cmount s') \<and> prefix (printed s) (printed s')"
  proof (cases q)
    case (Inl e)
    with w d show ?thesis by auto
  next
    case (Inr v)
    from toleratesD [OF handles_tolerates [OF assms(2)] d w [unfolded Inr sum.case]] show ?thesis by simp
  qed
qed

section \<open>Waiting\<close>

text \<open>How the polling of a motion ends.\<close>

datatype wait_end = Failed gerr | Standing | TimedOut

text \<open>Time does not run backwards in a conversation.\<close>

definition later :: "(conn, 'a) io \<Rightarrow> bool" where
  "later m = (\<forall>c r c'. m c = (r, c') \<longrightarrow> now (wire c) \<le> now (wire c'))"

lemma connWrite_later: "connWrite cmd c = (r, c') \<Longrightarrow> now (wire c') = now (wire c)"
  by (auto simp: connWrite_def elim!: tr_write_cases split: prod.splits option.splits)

lemma readUntil_loop_later: "readUntil_loop delim deadline buf t = (r, t') \<Longrightarrow> now t \<le> now t'"
proof (induction delim deadline buf t rule: readUntil_loop.induct)
  case (1 delim deadline buf t)
  obtain c e t1 where r: "tr_read 1 t = ((c, e), t1)" by (metis prod.collapse)
  note m = tr_read_frame(1) [OF r]
  show ?case
  proof (cases "c \<noteq> [] \<and> hd c = delim \<or> e \<noteq> None \<or> now t1 > deadline")
    case True
    with 1(2) r m show ?thesis by (subst (asm) readUntil_loop.simps) (auto simp: Let_def split: if_splits option.splits)
  next
    case False
    with 1(2) r have "readUntil_loop delim deadline (buf @ c) (tr_sleep (2 * ms) t1) = (r, t')"
      by (subst (asm) readUntil_loop.simps) (auto split: if_splits)
    from 1(1) [OF r [symmetric] refl _ refl _ _ this] False have "now (tr_sleep (2 * ms) t1) \<le> now t'" by auto
    with m show ?thesis by (simp add: tr_sleep_def ms_def)
  qed
qed

lemma readFrame_later: "readFrame d c = (r, c') \<Longrightarrow> now (wire c) \<le> now (wire c')"
proof -
  assume a: "readFrame d c = (r, c')"
  obtain b t where t: "readUntil_loop CHR ''#'' (now (setDeadline d (wire c)) + d) [] (setDeadline d (wire c)) = (b, t)" by fastforce
  have "now (setDeadline d (wire c)) \<le> now t" by (rule readUntil_loop_later [OF t])
  with a t show ?thesis by (auto simp: readFrame_def readUntil_def Let_def setDeadline_def split: if_splits)
qed

lemma Await_later: "later (Await d)"
  by (auto simp: later_def Await_def dest: readFrame_later)

lemma Get_later: "later (Get cmd)"
  unfolding later_def Get_def bindE_def
  by (auto dest!: readFrame_later connWrite_later split: prod.splits sum.splits)

text \<open>The polling loop of both consoles, with a bound on the number of polls.\<close>

fun wait_fuel :: "('d \<Rightarrow> int) \<Rightarrow> ('d, bool) io \<Rightarrow> ('d \<Rightarrow> 'd) \<Rightarrow> nat \<Rightarrow> int \<Rightarrow> 'd \<Rightarrow> (wait_end \<times> 'd) option" where
  "wait_fuel clock poll rest 0 deadline s = None"
| "wait_fuel clock poll rest (Suc n) deadline s =
     (if clock s < deadline then
        (case poll s of
           (Inl e, s) \<Rightarrow> Some (Failed e, s)
         | (Inr sl, s) \<Rightarrow> if \<not> sl then Some (Standing, s) else wait_fuel clock poll rest n deadline (rest s))
      else Some (TimedOut, s))"

text \<open>What a driver and its loop promise: time passes, half a second of it between two polls.\<close>

locale polled =
  fixes clock :: "'d \<Rightarrow> int"
    and poll :: "('d, bool) io"
    and rest :: "'d \<Rightarrow> 'd"
    and wait :: "int \<Rightarrow> 'd \<Rightarrow> wait_end \<times> 'd"
  assumes wait_eq: "wait deadline s =
     (if clock s < deadline then
        (case poll s of
           (Inl e, s) \<Rightarrow> (Failed e, s)
         | (Inr sl, s) \<Rightarrow> if \<not> sl then (Standing, s) else wait deadline (rest s))
      else (TimedOut, s))"
    and poll_clock: "poll s = (r, s') \<Longrightarrow> clock s \<le> clock s'"
    and rest_clock: "clock (rest s) = clock s + 500 * ms"
begin

lemma enough:
  "deadline - clock s \<le> 500 * ms * int n \<Longrightarrow> wait_fuel clock poll rest (Suc n) deadline s = Some (wait deadline s)"
proof (induction n arbitrary: s)
  case 0
  then show ?case by (subst wait_eq) simp
next
  case (Suc n)
  obtain q t where q: "poll s = (q, t)" by fastforce
  have "wait_fuel clock poll rest (Suc n) deadline (rest t) = Some (wait deadline (rest t))"
    by (rule Suc(1)) (use Suc(2) poll_clock [OF q] rest_clock [of t] in \<open>simp add: ms_def\<close>)
  then show ?case unfolding wait_fuel.simps(2) [of clock poll rest "Suc n"] wait_eq [of deadline s] q
    by (cases q) (auto simp del: wait_fuel.simps)
qed

lemma bounded: "wait_fuel clock poll rest 361 (clock s + 180000 * ms) s = Some (wait (clock s + 180000 * ms) s)"
  using enough [of "clock s + 180000 * ms" s 360] by simp

text \<open>What the end of the wait says about the poll that decided it.\<close>

lemma fuel_ends:
  assumes "\<And>s s'. poll s = (Inr False, s') \<Longrightarrow> P s'"
  shows "wait_fuel clock poll rest n deadline s = Some (e, s') \<Longrightarrow>
    (e = Standing \<longrightarrow> P s') \<and> (e = TimedOut \<longrightarrow> deadline \<le> clock s')"
proof (induction n arbitrary: s)
  case (Suc n)
  obtain q t where q: "poll s = (q, t)" by fastforce
  show ?case
  proof (cases "clock s < deadline \<and> q = Inr True")
    case True
    with q Suc show ?thesis by simp
  next
    case False
    with q Suc(2) assms show ?thesis by (cases q) (auto split: if_splits)
  qed
qed simp

lemma ends:
  assumes "\<And>s s'. poll s = (Inr False, s') \<Longrightarrow> P s'" "wait (clock s + 180000 * ms) s = (e, s')"
  shows "(e = Standing \<longrightarrow> P s') \<and> (e = TimedOut \<longrightarrow> clock s + 180000 * ms \<le> clock s')"
proof -
  have "wait_fuel clock poll rest 361 (clock s + 180000 * ms) s = Some (e, s')" by (simp only: bounded assms(2))
  then show ?thesis by (rule fuel_ends [rotated]) (rule assms(1))
qed

text \<open>A property of the driver that a poll and the pause keep.\<close>

lemma keeps_wait:
  assumes "keepsE I poll" "\<And>s. I s \<Longrightarrow> I (rest s)" "I s" "wait (clock s + 180000 * ms) s = (e, s')"
  shows "I s'"
proof -
  have "wait_fuel clock poll rest n deadline s = Some (e, s') \<Longrightarrow> I s \<Longrightarrow> I s'" for n deadline s
  proof (induction n arbitrary: s)
    case (Suc n)
    obtain q t where q: "poll s = (q, t)" by fastforce
    have "I t" by (rule keepsED [OF assms(1) Suc(3) q])
    with q Suc assms(2) show ?case by (cases q) (auto split: if_splits)
  qed simp
  from this [of 361 "clock s + 180000 * ms" s] show ?thesis by (simp only: bounded assms(3,4))
qed

end

section \<open>Verbs that always end\<close>

text \<open>Where every operation of the driver returns, so does a verb, and it prints at least one line, its
  outcome or its error.\<close>

definition answers :: "('d console, unit) pio \<Rightarrow> bool" where
  "answers m = (\<forall>s. \<exists>s'. m s = Some (Inr (), s') \<and> strict_prefix (printed s) (printed s'))"

named_theorems answered \<open>verbs that always end\<close>

lemma answersD: "answers m \<Longrightarrow> \<exists>s'. m s = Some (Inr (), s') \<and> strict_prefix (printed s) (printed s')"
  by (simp add: answers_def)

lemma answers_printl [answered]: "answers (printl f a)"
  by (simp add: answers_def printl_def strict_prefix_def)

lemma answers_ask [answered]:
  fixes f :: "gerr + 'a \<Rightarrow> ('d console, unit) pio"
  assumes "\<And>r. answers (f r)"
  shows "answers (ask (runP m) f)"
  unfolding answers_def
proof
  fix s :: "'d console"
  obtain q d where q: "m (cmount s) = (q, d)" by fastforce
  from answersD [OF assms, of q "s\<lparr>cmount := d\<rparr>"] q
  show "\<exists>s'. ask (runP m) f s = Some (Inr (), s') \<and> strict_prefix (printed s) (printed s')"
    by (simp add: tryP_def onM_def)
qed

lemma answers_bindP [answered]:
  assumes "answers m" "\<And>x. answers (f x)"
  shows "answers (bindP m f)"
  unfolding answers_def
proof
  fix s
  obtain t where t: "m s = Some (Inr (), t)" "strict_prefix (printed s) (printed t)" using answersD [OF assms(1)] by blast
  obtain u where "f () t = Some (Inr (), u)" "strict_prefix (printed t) (printed u)" using answersD [OF assms(2)] by blast
  with t show "\<exists>s'. bindP m f s = Some (Inr (), s') \<and> strict_prefix (printed s) (printed s')"
    by (auto simp: bindP_apply intro: prefix_order.less_trans)
qed

lemma answers_inTurn: "vs \<noteq> [] \<Longrightarrow> (\<And>m. m \<in> set vs \<Longrightarrow> answers m) \<Longrightarrow> answers (inTurn vs)"
proof (induction vs)
  case (Cons m vs)
  then show ?case by (cases "vs = []") (auto intro: answered)
qed simp

text \<open>A part of a verb that may print nothing.\<close>

definition finishes :: "('d console, unit) pio \<Rightarrow> bool" where
  "finishes m = (\<forall>s. \<exists>s'. m s = Some (Inr (), s') \<and> prefix (printed s) (printed s'))"

lemma finishesD: "finishes m \<Longrightarrow> \<exists>s'. m s = Some (Inr (), s') \<and> prefix (printed s) (printed s')"
  by (simp add: finishes_def)

lemma answers_finishes: "answers m \<Longrightarrow> finishes m"
  unfolding answers_def finishes_def strict_prefix_def by blast

lemma answers_then:
  assumes "answers m" "\<And>x. finishes (f x)"
  shows "answers (bindP m f)"
  unfolding answers_def
proof
  fix s
  obtain t where t: "m s = Some (Inr (), t)" "strict_prefix (printed s) (printed t)" using answersD [OF assms(1)] by blast
  obtain u where "f () t = Some (Inr (), u)" "prefix (printed t) (printed u)" using finishesD [OF assms(2)] by blast
  with t show "\<exists>s'. bindP m f s = Some (Inr (), s') \<and> strict_prefix (printed s) (printed s')"
    by (auto simp: bindP_apply intro: prefix_order.less_le_trans)
qed

lemma finishes_inTurn: "(\<And>m. m \<in> set vs \<Longrightarrow> answers m) \<Longrightarrow> finishes (inTurn vs)"
proof (induction vs)
  case Nil
  show ?case by (simp add: finishes_def)
next
  case (Cons m vs)
  then show ?case unfolding inTurn.simps by (intro answers_finishes [OF answers_then]) auto
qed

lemma answers_state: "(\<And>t. answers (m t)) \<Longrightarrow> answers (\<lambda>s. m s s)"
  by (simp add: answers_def)

lemma answers_cases [answered]:
  "answers m \<Longrightarrow> answers n \<Longrightarrow> answers (if b then m else n)"
  "answers m \<Longrightarrow> (\<And>x. answers (f x)) \<Longrightarrow> answers (case o1 of None \<Rightarrow> m | Some x \<Rightarrow> f x)"
  "(\<And>e. answers (g e)) \<Longrightarrow> (\<And>x. answers (h x)) \<Longrightarrow> answers (case r of Inl e \<Rightarrow> g e | Inr x \<Rightarrow> h x)"
  "(\<And>x y. answers (k x y)) \<Longrightarrow> answers (case p of (x, y) \<Rightarrow> k x y)"
  "answers m \<Longrightarrow> (\<And>x xs. answers (l x xs)) \<Longrightarrow> answers (case ys of [] \<Rightarrow> m | x # xs \<Rightarrow> l x xs)"
  by (auto split: option.split sum.split prod.split list.split)

lemma answers_switch_case:
  "(\<And>ns a. (ns, a) \<in> set t \<Longrightarrow> v \<in> set ns \<Longrightarrow> answers a) \<Longrightarrow> answers d \<Longrightarrow> answers (switch v t d)"
proof (induction t)
  case (Cons x t)
  have "answers (switch v t d)" using Cons by auto
  moreover have "v \<in> set (fst x) \<Longrightarrow> answers (snd x)" using Cons(2) [of "fst x" "snd x"] by simp
  ultimately show ?case by (cases x) simp
qed simp

lemma answers_switch: "(\<And>ns a. (ns, a) \<in> set t \<Longrightarrow> answers a) \<Longrightarrow> answers d \<Longrightarrow> answers (switch v t d)"
  by (rule answers_switch_case)

lemma answers_reportWith [answered]:
  "(\<And>e. answers (g e)) \<Longrightarrow> (\<And>v. answers (f v)) \<Longrightarrow> answers (reportWith g f (runP m))"
  unfolding reportWith_def by (intro answered)

end
