(* ===== verification/RstConsole.thy ===== *)
theory RstConsole
  imports RstProps Console
begin

text \<open>
  The interactive console of the RST driver (src/cmd/rst/main.go): the verbs of \<open>run\<close>, a table with
  a row per case, the polling of a motion by \<open>waitSlew\<close>, the reports, and \<open>main\<close>. \<open>host\<close> is the computer's
  clock: the instant and the zone at a reading of the monotonic clock. A value printed with \<open>%v\<close> is the
  text of a boolean or of an error, or the elements of a slice. The prompt of a session is left out.
\<close>

type_synonym rcon = "(rst console, unit) pio"

definition degree :: string where "degree = [CHR 0xC2, CHR 0xB0]"

section \<open>Reports\<close>

definition printErr :: "gerr \<Rightarrow> rcon" where
  "printErr e = printl ''err: %v'' [AStr (err_text e)]"

text \<open>\<open>fmt.Println("err:", err)\<close> prints the same line.\<close>

definition report :: "(rst, string) pio \<Rightarrow> rcon" where
  "report = reportWith printErr (\<lambda>s. printl ''reply: %q'' [AStr s])"

definition reportF :: "(rst, f64) pio \<Rightarrow> rcon" where
  "reportF = reportWith printErr (\<lambda>v. printl ''value: %.6f'' [AFlt v])"

definition reportB :: "(rst, bool) pio \<Rightarrow> rcon" where
  "reportB = reportWith printErr (\<lambda>v. printl ''value: %v'' [AStr (bool_text v)])"

definition reportOK :: "(rst, bool) pio \<Rightarrow> rcon" where
  "reportOK = reportWith printErr (\<lambda>v. printl ''accepted: %v'' [AStr (bool_text v)])"

definition reportErr :: "(rst, unit) pio \<Rightarrow> rcon" where
  "reportErr = reportWith printErr (\<lambda>_. printl ''ok'' [])"

definition reportPair :: "(rst, int \<times> int) pio \<Rightarrow> rcon" where
  "reportPair = reportWith printErr (\<lambda>(a, b). printl ''  %d / %d'' [AInt a, AInt b])"

definition boolStr :: "(rst, bool) pio \<Rightarrow> (rst, string) pio" where
  "boolStr m = bindP m (\<lambda>v. okP (bool_text v))"

definition errOf :: "gerr + 'a \<Rightarrow> gerr option" where
  "errOf r = (case r of Inl e \<Rightarrow> Some e | Inr _ \<Rightarrow> None)"

fun firstErr :: "gerr option list \<Rightarrow> gerr option" where
  "firstErr [] = None"
| "firstErr (e # es) = (case e of Some x \<Rightarrow> Some x | None \<Rightarrow> firstErr es)"

text \<open>A number that is used although its call failed is zero.\<close>

definition val0 :: "gerr + f64 \<Rightarrow> f64" where
  "val0 r = (case r of Inl _ \<Rightarrow> Fin 0 | Inr v \<Rightarrow> v)"

section \<open>Waiting for a motion\<close>

text \<open>So the clock of the driver is a property that its operations keep.\<close>

lemma onConn_clock: "later m \<Longrightarrow> keepsE (\<lambda>s. k \<le> clockNow s) (onConn m)"
  unfolding keepsE_def onConn_def clockNow_def later_def
  by (auto split: prod.splits) (meson order_trans)

lemma applyToken_conn [simp]: "clockNow (applyToken t s) = clockNow s"
  by (simp add: applyToken_def clockNow_def Let_def)

lemma drainToken_clock: "keepsE (\<lambda>s. k \<le> clockNow s) drainToken"
proof -
  define m where "m = tryE (onConn (Await peekTimeout)) (\<lambda>r. case r of Inl _ \<Rightarrow> okE () | Inr tok \<Rightarrow> modE (applyToken tok))"
  have "keepsE (\<lambda>s. k \<le> clockNow s) m"
    unfolding m_def by (intro keeps onConn_clock Await_later keepsE_modE) simp
  from keepsED [OF this, of "x\<lparr>lastPeek := p\<rparr>" for x p] show ?thesis
    unfolding drainToken_def m_def [symmetric] keepsE_def by (fastforce simp: clockNow_def split: if_splits)
qed

lemma maybeFinishPark_clock: "keepsE (\<lambda>s. k \<le> clockNow s) maybeFinishPark"
proof -
  have "keepsE (\<lambda>s. k \<le> clockNow s) (ignoreE (rstSetTracking False))"
    unfolding rstSetTracking_def track_def by (intro keeps onConn_clock Get_later)
  from keepsED [OF this, of "x\<lparr>parkStopPending := False\<rparr>" for x] show ?thesis
    unfolding maybeFinishPark_def keepsE_def Let_def by (fastforce simp: clockNow_def split: if_splits)
qed

lemma rstSlewing_clock: "rstSlewing s = (r, s') \<Longrightarrow> clockNow s \<le> clockNow s'"
proof -
  have "keepsE (\<lambda>t. clockNow s \<le> clockNow t) rstSlewing"
    unfolding rstSlewing_def by (intro keeps drainToken_clock maybeFinishPark_clock)
  from keepsED [OF this order.refl] show "rstSlewing s = (r, s') \<Longrightarrow> clockNow s \<le> clockNow s'" .
qed

definition rst_sleep :: "int \<Rightarrow> rst \<Rightarrow> rst" where
  "rst_sleep d s = s\<lparr>rconn := (rconn s)\<lparr>wire := tr_sleep d (wire (rconn s))\<rparr>\<rparr>"

text \<open>The polling loop of \<open>waitSlew\<close>.\<close>

function wait_poll :: "int \<Rightarrow> rst \<Rightarrow> wait_end \<times> rst" where
  "wait_poll deadline s =
     (if clockNow s < deadline then
        (case rstSlewing s of
           (Inl e, s) \<Rightarrow> (Failed e, s)
         | (Inr sl, s) \<Rightarrow> if \<not> sl then (Standing, s) else wait_poll deadline (rst_sleep (500 * ms) s))
      else (TimedOut, s))"
  by pat_completeness auto
termination
proof (relation "measure (\<lambda>(deadline, s). nat (deadline - clockNow s))", goal_cases)
  case (2 deadline s x t sl)
  then have "rstSlewing s = (Inr sl, t)" by simp
  from rstSlewing_clock [OF this] 2(1) show ?case
    by (simp add: rst_sleep_def clockNow_def tr_sleep_def ms_def)
qed simp

declare wait_poll.simps [simp del]

interpretation rstw: polled clockNow rstSlewing "rst_sleep (500 * ms)" wait_poll
proof unfold_locales
  show "wait_poll deadline s =
     (if clockNow s < deadline then
        (case rstSlewing s of
           (Inl e, s) \<Rightarrow> (Failed e, s)
         | (Inr sl, s) \<Rightarrow> if \<not> sl then (Standing, s) else wait_poll deadline (rst_sleep (500 * ms) s))
      else (TimedOut, s))" for deadline s by (rule wait_poll.simps)
qed (rule rstSlewing_clock, assumption, simp add: rst_sleep_def clockNow_def tr_sleep_def)

definition waitSlew :: rcon where
  "waitSlew = (\<lambda>s. case wait_poll (clockNow (cmount s) + 180000 * ms) (cmount s) of (o1, m) \<Rightarrow>
     (case o1 of
        Failed e \<Rightarrow> printErr e
      | Standing \<Rightarrow>
          if Fault m \<noteq> [] then
            printl (''ABORTED at fault %q (e.g. movement limit) '' @ em_dash @ '' check position'') [AStr (Fault m)]
          else ask rstAzimuth (\<lambda>az. ask rstAltitude (\<lambda>alt.
            printl ''done: Az=%.3f Alt=%.3f'' [AFlt (val0 az), AFlt (val0 alt)]))
      | TimedOut \<Rightarrow> printl ''timeout waiting for slew to finish'' []) (s\<lparr>cmount := m\<rparr>))"

text \<open>A motion that is started and then waited for.\<close>

definition moveThenWait :: "(rst, unit) pio \<Rightarrow> rcon" where
  "moveThenWait = reportWith printErr (\<lambda>_. waitSlew)"

section \<open>Arguments\<close>

text \<open>Exactly one argument, or the usage; its number, or an error.\<close>

definition one_arg :: "string list \<Rightarrow> string \<Rightarrow> (string \<Rightarrow> rcon) \<Rightarrow> rcon" where
  "one_arg args usage f = (if length args \<noteq> 1 then printl usage [] else f (args ! 0))"

definition float_arg :: "string \<Rightarrow> (gerr \<Rightarrow> rcon) \<Rightarrow> (f64 \<Rightarrow> rcon) \<Rightarrow> rcon" where
  "float_arg a g f = (case ParseFloat64 a of (v, err) \<Rightarrow> (case err of None \<Rightarrow> f v | Some e \<Rightarrow> g e))"

definition int_arg :: "string \<Rightarrow> (gerr \<Rightarrow> rcon) \<Rightarrow> (int \<Rightarrow> rcon) \<Rightarrow> rcon" where
  "int_arg a g f = (case Atoi a of (n, err) \<Rightarrow> (case err of None \<Rightarrow> f n | Some e \<Rightarrow> g e))"

definition onOff :: "string list \<Rightarrow> string \<Rightarrow> (bool \<Rightarrow> rcon) \<Rightarrow> rcon" where
  "onOff args usage f =
     (if length args \<noteq> 1 \<or> args ! 0 \<noteq> ''on'' \<and> args ! 0 \<noteq> ''off'' then printl usage [] else f (args ! 0 = ''on''))"

definition dir :: "string list \<Rightarrow> (Direction \<Rightarrow> rcon) \<Rightarrow> rcon" where
  "dir args f = one_arg args ''usage: <verb> n|s|e|w'' (\<lambda>a.
     switch (ToLower a)
       [([''n''], f North), ([''s''], f South), ([''e''], f East), ([''w''], f West)]
       (printl ''bad direction %q (n|s|e|w)'' [AStr a]))"

definition rate :: "string list \<Rightarrow> (Rate \<Rightarrow> rcon) \<Rightarrow> rcon" where
  "rate args f = one_arg args ''usage: rate g|c|f|s   (guide|center|find|slew)'' (\<lambda>a.
     switch (ToLower a)
       [([''g''], f RateGuide), ([''c''], f RateCenter), ([''f'', ''m''], f RateFind), ([''s''], f RateMax)]
       (printl ''bad rate %q (g|c|f|s)'' [AStr a]))"

definition moveAxis :: "string list \<Rightarrow> rcon" where
  "moveAxis args =
     (if length args \<noteq> 3 then printl ''usage: moveaxis pri|sec +|- g|c|f|s'' []
      else let go = (\<lambda>a. rate (drop 2 args) (\<lambda>r. reportErr (rstMoveAxis a (args ! 1 \<noteq> ''-'') r)))
           in switch (ToLower (args ! 0))
                [([''pri'', ''p'', ''0''], go AxisPrimary), ([''sec'', ''s'', ''1''], go AxisSecondary)]
                (printl ''bad axis %q (pri|sec)'' [AStr (args ! 0)]))"

definition pulse :: "string list \<Rightarrow> rcon" where
  "pulse args =
     (if length args \<noteq> 2 then printl ''usage: pulse n|s|e|w <ms>'' []
      else dir (take 1 args) (\<lambda>d. int_arg (args ! 1) printErr (\<lambda>t. reportErr (runP (rstPulseGuide d t)))))"

section \<open>Tables of readings\<close>

definition statusRow :: "string \<Rightarrow> ('a \<Rightarrow> string) \<Rightarrow> (rst, 'a) pio \<Rightarrow> rcon" where
  "statusRow name f = reportWith
     (\<lambda>e. printl ''  %-9s err: %v'' [AStr name, AStr (err_text e)])
     (\<lambda>v. printl ''  %-9s %s'' [AStr name, AStr (f v)])"

definition status :: rcon where
  "status =
     (let f = fmt_f False 0 5; b = bool_text
      in inTurn
        [statusRow ''ra'' f rstRA, statusRow ''dec'' f rstDec, statusRow ''alt'' f rstAltitude, statusRow ''az'' f rstAzimuth,
         statusRow ''slewing'' b (runP rstSlewing), statusRow ''tracking'' b rstTracking,
         statusRow ''athome'' b AtHome, statusRow ''atpark'' b AtPark])"

definition gpsLine :: "string \<Rightarrow> string \<Rightarrow> ('a \<Rightarrow> farg) \<Rightarrow> (rst, 'a) pio \<Rightarrow> rcon" where
  "gpsLine name verb f = reportWith
     (\<lambda>e. printl ''  %-11s err: %v'' [AStr name, AStr (err_text e)])
     (\<lambda>v. printl (''  %-11s '' @ verb) [AStr name, f v])"

definition gps :: rcon where
  "gps = inTurn
     [gpsLine ''latitude'' ''%.5f'' AFlt rstSiteLatitude, gpsLine ''longitude'' ''%.5f'' AFlt rstSiteLongitude,
      gpsLine ''localtime'' ''%.5f'' AFlt rstLocalTime, gpsLine ''sidereal'' ''%.5f'' AFlt rstSiderealTime,
      gpsLine ''utcoffset'' ''%.5f'' AFlt rstUTCOffset, gpsLine ''date'' ''%s'' AStr rstDate,
      reportWith (\<lambda>_. okP ()) (\<lambda>s. printl ''  %-11s %q'' [AStr ''site'', AStr s]) (runP (SiteName 1))]"

definition alpacaStatus :: rcon where
  "alpacaStatus = ask AlpacaAtHome (\<lambda>ah. ask AlpacaAtPark (\<lambda>ap. ask AtHome (\<lambda>rawHome. ask AtPark (\<lambda>rawPark.
     case firstErr [errOf ah, errOf ap, errOf rawHome, errOf rawPark] of
       Some e \<Rightarrow> printErr e
     | None \<Rightarrow>
         let b = (\<lambda>r. AStr (bool_text (r = Inr True)))
         in inTurn
           [printl ''  AlpacaAtHome %-5v                        AtHome %-5v  (homed + :CY# axes at 0/0)'' [b ah, b rawHome],
            printl ''  AlpacaAtPark %-5v                        AtPark %-5v'' [b ap, b rawPark],
            reportWith (\<lambda>_. okP ()) (\<lambda>h. printl ''  HomeFound    %-5v  (homed since power-on)'' [AStr (bool_text h)]) (runP HomeFound),
            printl ''  can: findhome=%v park=%v unpark=%v setpark=%v'' (map (\<lambda>c. AStr (bool_text c))
              [AlpacaCanFindHome, AlpacaCanPark, AlpacaCanUnpark, AlpacaCanSetPark])]))))"

section \<open>The verbs\<close>

text \<open>The cases of the switch, by the groups of the source.\<close>

definition rawVerbs :: "int \<Rightarrow> string list \<Rightarrow> (string list \<times> rcon) list" where
  "rawVerbs limit args =
     [([''g'', ''get''], one_arg args ''usage: g :CMD#'' (\<lambda>a. report (runP (onConn (Get a))))),
      ([''a'', ''ack''], one_arg args ''usage: a :CMD#'' (\<lambda>a. reportWith printErr
         (\<lambda>b. printl ''byte: %q (0x%02x)'' [AStr (rune_str b), AInt (of_char b)]) (runP (onConn (AckByte a))))),
      ([''b'', ''blind''], one_arg args ''usage: b :CMD#'' (\<lambda>a. reportWith printErr
         (\<lambda>_. printl ''sent (no reply expected)'' []) (runP (onConn (Blind a))))),
      ([''w'', ''await''],
         let d = (if length args = 1 then
                    (case Atoi (args ! 0) of (n, None) \<Rightarrow> wrap64 (n * ms) | (_, Some _) \<Rightarrow> limit)
                  else limit)
         in report (runP (onConn (Await d))))]"

definition pier_int :: "PierSide \<Rightarrow> int" where
  "pier_int p = (case p of PierUnknown \<Rightarrow> -1 | PierEast \<Rightarrow> 0 | PierWest \<Rightarrow> 1)"

definition mode_int :: "TrackMode \<Rightarrow> int" where
  "mode_int t = (case t of TrackModeSidereal \<Rightarrow> 0 | TrackModeSolar \<Rightarrow> 1 | TrackModeLunar \<Rightarrow> 2 | TrackModeCustom \<Rightarrow> 3)"

definition readVerbs :: "string list \<Rightarrow> (string list \<times> rcon) list" where
  "readVerbs args =
     [([''ra''], reportF rstRA), ([''dec''], reportF rstDec), ([''alt''], reportF rstAltitude), ([''az''], reportF rstAzimuth),
      ([''version'', ''ver''], report rstVersion), ([''voltage'', ''volt''], reportF Voltage),
      ([''slewing''], reportB (runP rstSlewing)), ([''tracking''], reportB rstTracking),
      ([''trackmode''], reportWith printErr (\<lambda>t. printl ''trackmode: %d'' [AInt (mode_int t)]) readTrackMode),
      ([''athome''], reportB AtHome),
      ([''homefound''], reportWith printErr (\<lambda>h. printl ''homeFound: %v'' [AStr (bool_text h)]) (runP HomeFound)),
      ([''homepos''], reportWith printErr
         (\<lambda>h. if hvalid h then printl ''home: RA=%.5f Dec=%.5f Az=%.5f Alt=%.5f'' [AFlt (hra h), AFlt (hdec h), AFlt (haz h), AFlt (halt h)]
              else printl (''home position not captured yet (run '' @ [CHR 0x27] @ ''home'' @ [CHR 0x27] @ '')'') [])
         (runP HomePosition)),
      ([''atpark''], reportB AtPark),
      ([''pier''], reportWith printErr (\<lambda>p. printl ''pier: %v'' [AInt (pier_int p)]) rstPierSide),
      ([''status'', ''st''], status),
      ([''lst''], reportF rstSiderealTime), ([''localtime''], reportF rstLocalTime), ([''date''], report rstDate),
      ([''utcoffset''], reportF rstUTCOffset), ([''sitelon''], reportF rstSiteLongitude),
      ([''sitename''], one_arg args ''usage: sitename <1-3>  (:GP# is the precision mode, not a fourth name)''
         (\<lambda>a. report (runP (SiteName (fst (Atoi a)))))),
      ([''sysstatus''], reportWith printErr
         (\<lambda>s. printl ''tcs=%v decMotor=%v raMotor=%v (raw %q)''
            [AStr (bool_text (TCS s)), AStr (bool_text (DecMotor s)), AStr (bool_text (RAMotor s)), AStr (Raw s)]) readSystemStatus),
      ([''motorload''], reportWith printErr (\<lambda>(d, r). printl ''motor load: dec=%.1f%% ra=%.1f%%'' [AFlt d, AFlt r]) MotorLoad),
      ([''autoresume''], reportB AutoResume), ([''guiderate''], reportF rstGuideRate),
      ([''setguiderate''], one_arg args ''usage: setguiderate <xSidereal>'' (\<lambda>a.
         float_arg a printErr (\<lambda>v. reportErr (runP (rstSetGuideRate v))))),
      ([''slewspeed''], one_arg args ''usage: slewspeed <1-3>'' (\<lambda>a.
         reportWith printErr (\<lambda>v. printl ''slew speed %d: %d'' [AInt (fst (Atoi a)), AInt v]) (SlewSpeed (fst (Atoi a))))),
      ([''forceflip''], onOff args ''usage: forceflip on|off'' (\<lambda>b. reportErr (runP (SetForcePierFlip b)))),
      ([''gps''], gps)]"

definition poleVerb :: rcon where
  "poleVerb = inTurn [printl ''slewing to celestial pole (Az 0, Alt=latitude)...'' [], moveThenWait SlewToPole]"

definition parkSays :: string where
  "parkSays = ''parking (equatorial goto to HA +6h / Dec +89*59'' @ [CHR 0x27] @ '' '' @ em_dash @ '' RA axis to 0, tube on top)...''"

definition parkVerb :: rcon where
  "parkVerb = inTurn
     [printl parkSays [],
      reportWith printErr (\<lambda>_. inTurn
        [waitSlew,
         reportWith (\<lambda>e. printl ''  axes: %v'' [AStr (err_text e)])
           (\<lambda>(dec, ra). printl (''  axes: DEC %.2f'' @ degree @ ''  RA %.2f'' @ degree @ ''   (want DEC ~90, RA ~0)'') [AFlt dec, AFlt ra])
           AxisAngles]) Park]"

definition gotoVerbs :: "string list \<Rightarrow> (string list \<times> rcon) list" where
  "gotoVerbs args =
     [([''sr'', ''settargetra''], one_arg args ''usage: sr <hours>'' (\<lambda>a.
         float_arg a printErr (\<lambda>h. reportOK (runP (rstSetTargetRA h))))),
      ([''sd'', ''settargetdec''], one_arg args ''usage: sd <deg>'' (\<lambda>a.
         float_arg a printErr (\<lambda>d. reportOK (runP (rstSetTargetDec d))))),
      ([''slew''], moveThenWait (runP rstSlewToTarget)),
      ([''pole''], poleVerb),
      ([''altaz''],
         if length args \<noteq> 2 then printl ''usage: altaz <az> <alt>'' []
         else let bad = (\<lambda>_. printl ''err: az/alt must be numbers'' [])
              in float_arg (args ! 0) bad (\<lambda>az. float_arg (args ! 1) bad (\<lambda>alt. moveThenWait (SlewToAltAz az alt)))),
      ([''sitelat''], reportF rstSiteLatitude),
      ([''fault''], reportWith printErr
         (\<lambda>f. if f = [] then printl ''fault: none (last move completed cleanly)'' [] else printl ''fault: %q'' [AStr f])
         (runP (readE Fault))),
      ([''sync''], reportWith printErr (\<lambda>_. printl ''ok'' []) (runP rstSyncToTarget)),
      ([''synccurrent''],
         reportWith printErr (\<lambda>ra. reportWith printErr (\<lambda>dec.
           reportWith printErr (\<lambda>_. reportWith printErr (\<lambda>_. inTurn
             [printl ''syncing to current RA=%.5f Dec=%.5f ...'' [AFlt ra, AFlt dec],
              reportWith printErr (\<lambda>_. printl ''ok'' []) (runP rstSyncToTarget)])
             (runP (rstSetTargetDec dec))) (runP (rstSetTargetRA ra))) rstDec) rstRA),
      ([''addpt''], reportErr (runP AddAlignmentPoint)),
      ([''home''], inTurn [printl ''homing (seeking mechanical West-horizon reference)...'' [], moveThenWait FindHome]),
      ([''park''], parkVerb),
      ([''unpark''], reportErr (runP Unpark)),
      ([''halt'', ''stop''], reportErr rstHalt)]"

definition moveVerbs :: "string list \<Rightarrow> (string list \<times> rcon) list" where
  "moveVerbs args =
     [([''track''], onOff args ''usage: track on|off'' (\<lambda>b. reportErr (runP (rstSetTracking b)))),
      ([''sidereal''], reportErr (runP rstTrackSidereal)), ([''solar''], reportErr (runP rstTrackSolar)),
      ([''lunar''], reportErr (runP rstTrackLunar)),
      ([''move''], dir args (\<lambda>d. reportErr (runP (onConn (Move d))))),
      ([''rate''], rate args (\<lambda>r. reportErr (runP (onConn (SetRate r))))),
      ([''moveaxis''], moveAxis args),
      ([''pulse''], pulse args)]"

definition setupVerbs :: "(int \<Rightarrow> gotime) \<Rightarrow> string list \<Rightarrow> (string list \<times> rcon) list" where
  "setupVerbs host args =
     [([''serial''], report SerialNumber), ([''model''], report ModelName),
      ([''gear''], reportPair GearRatio), ([''worm''], reportPair WormCount),
      ([''precision''],
         if length args = 1 then reportErr (runP (SetPrecision (EqualFold (args ! 0) ''high'' \<or> args ! 0 = ''H'')))
         else report (runP Precision)),
      ([''echo''], one_arg args (''usage: echo on|off   (:SPE#/:SPF# '' @ em_dash @ '' off breaks prefix matching)'')
         (\<lambda>a. reportErr (runP (EchoPrefix (a = ''on''))))),
      ([''clockformat''],
         if length args = 1 then int_arg (args ! 0) (\<lambda>_. printl ''usage: clockformat [12|24]'' []) (\<lambda>n. reportErr (runP (SetClockFormat n)))
         else reportF (bindP (runP ClockFormat) (\<lambda>v. okP (f64_of_int v)))),
      ([''target''], ask rstTargetRA (\<lambda>ra. ask rstTargetDec (\<lambda>dec. ask TargetAltAz (\<lambda>h.
         case firstErr [errOf ra, errOf dec, errOf h] of
           Some e \<Rightarrow> printErr e
         | None \<Rightarrow> (case h of Inr (az, alt) \<Rightarrow>
               printl ''  RA %.4f  Dec %.4f  Az %.3f  Alt %.3f'' [AFlt (val0 ra), AFlt (val0 dec), AFlt az, AFlt alt]
             | Inl e \<Rightarrow> printErr e))))),
      ([''axes''], reportWith printErr
         (\<lambda>(dec, ra). printl (''  DEC axis %.2f'' @ degree @ ''   RA axis %.2f'' @ degree @ ''   (:CY#)'') [AFlt dec, AFlt ra]) AxisAngles),
      ([''limits''], reportWith printErr (\<lambda>v. printl ''  %v'' (argsOf AFlt v)) SlewLimits),
      ([''homing''], report (boolStr Homing)),
      ([''polepos''], reportWith printErr (\<lambda>(az, alt). printl ''  Az %.3f  Alt %.3f'' [AFlt az, AFlt alt]) polePosition),
      ([''setutc''], reportErr (\<lambda>s. rstSetUTC (fst (host (clockNow s)), 0) s)),
      ([''setlocaltime''], reportErr (\<lambda>s. runP (rstSetLocalTime (host (clockNow s))) s)),
      ([''setutcoffset''], one_arg args ''usage: setutcoffset <whole hours, e.g. -7>'' (\<lambda>a.
         int_arg a (\<lambda>_. printl ''usage: setutcoffset <whole hours>'' []) (\<lambda>h. reportErr (runP (rstSetUTCOffset (wrap64 (h * hour_ns))))))),
      ([''axisrate''],
         if length args \<noteq> 1 then printl ''usage: axisrate <deg/s>   vendor rates: %v'' (argsOf AFlt AxisRates)
         else float_arg (args ! 0) (\<lambda>_. printl ''usage: axisrate <deg/s>'' []) (\<lambda>v. reportErr (SetAxisRate v))),
      ([''setslewspeed''],
         if length args \<noteq> 2 then printl ''usage: setslewspeed <1-3> <xSidereal>   (slot 3 is what :RS# and a goto use)'' []
         else let bad = (\<lambda>_. printl ''usage: setslewspeed <1-3> <xSidereal>'' [])
              in int_arg (args ! 0) bad (\<lambda>n. int_arg (args ! 1) bad (\<lambda>v. reportErr (runP (SetSlewSpeed n v)))))]"

definition catalogVerbs :: "string \<Rightarrow> string list \<Rightarrow> (string list \<times> rcon) list" where
  "catalogVerbs verb args =
     [([''messier'', ''ngc'', ''star''],
         if length args \<noteq> 1 then printl ''usage: %s <number>   (loads the object into the goto target)'' [AStr verb]
         else int_arg (args ! 0) (\<lambda>_. printl ''usage: %s <number>'' [AStr verb]) (\<lambda>n.
           if verb = ''messier'' then reportErr (runP (SelectMessier n))
           else if verb = ''ngc'' then reportErr (runP (SelectNGC n))
           else reportErr (runP (SelectStar n)))),
      ([''siteslot''],
         if length args = 1 then int_arg (args ! 0) (\<lambda>_. printl ''usage: siteslot [n]'' []) (\<lambda>n. reportErr (runP (SelectSiteSlot n)))
         else report (runP SiteSlot)),
      ([''alpaca''], alpacaStatus)]"

definition help_text :: "string list" where
  "help_text =
    [''raw protocol (type the full frame, e.g. :GR#):'',
     ''  g :CMD#            query '' @ em_dash @ '' write, read until '' @ [CHR 0x27] @ ''#'' @ [CHR 0x27] @ '', print reply'',
     ''  a :CMD#            set   '' @ em_dash @ '' write, read one status byte ('' @ [CHR 0x27] @ ''1'' @ [CHR 0x27] @ ''/'' @ [CHR 0x27] @ ''0'' @ [CHR 0x27] @ '')'',
     ''  b :CMD#            blind '' @ em_dash @ '' write, expect no reply'',
     ''  w [ms]             await a pushed token (:MM0# / :CHO#)'',
     ''  :CMD#              shorthand for '' @ [CHR 0x27] @ ''g :CMD#'' @ [CHR 0x27],
     [],
     ''typed reads:'',
     ''  ra dec alt az  version voltage'',
     ''  slewing tracking trackmode athome atpark pier  status'',
     [],
     ''gps / clock / site / telemetry:'',
     ''  gps                dump position+clock     lst  localtime  date  utcoffset'',
     ''  sitelat sitelon    sitename <1-3>   siteslot'',
     ''  sysstatus          motorload  autoresume'',
     ''  guiderate  setguiderate <x>  slewspeed <1-3>  forceflip on|off'',
     ''  serial model gear worm            identity and factory calibration'',
     ''  precision [high|low]  echo on|off clockformat [12|24]'',
     ''  setutc  setlocaltime  setutcoffset <hours>'',
     [],
     ''rates:'',
     ''  axisrate <deg/s>   program the speed slot AND select it (what MoveAxis needs)'',
     ''  setslewspeed <1-3> <xSidereal>    slot 3 is what :RS# and a goto use'',
     [],
     ''targets, limits, catalogue:'',
     ''  target             read back the goto target (RA/Dec and Az/Alt)'',
     ''  axes               mechanical axis angles (:CY# '' @ em_dash @ '' DEC axis / RA axis)'',
     ''  limits             the six slew-limit registers (:CA#..:CF#)'',
     ''  polepos            where Park sends the mount'',
     ''  messier <n>  ngc <n>  star <n>    load a catalogue object into the target'',
     ''  siteslot [n]       which stored site :Sg/:St write into'',
     [],
     ''state:'',
     ''  homing             is a home seek RUNNING (:AH#) '' @ em_dash @ '' not '' @ [CHR 0x22] @ ''at home'' @ [CHR 0x22],
     ''  alpaca             the ASCOM home/park contract vs the mount'' @ [CHR 0x27] @ ''s own answers'',
     [],
     ''target + goto:'',
     ''  sr <hours>         set target RA'',
     ''  sd <deg>           set target Dec'',
     ''  slew               goto target      sync   re-center on target'',
     ''  addpt              save align point  home   find home'',
     ''  pole               polar-align: slew to celestial pole (must be homed first)'',
     ''  altaz <az> <alt>   horizontal goto   sitelat  read mount latitude'',
     ''  fault              last motion-abort token (limit/error), or none'',
     ''  park  unpark  halt'',
     [],
     ''tracking:'',
     ''  track on|off  sidereal  solar  lunar'',
     [],
     ''manual motion:'',
     ''  move n|s|e|w       rate g|c|f|s'',
     ''  moveaxis pri|sec +|- g|c|f|s'',
     ''  pulse n|s|e|w <ms>'',
     [],
     ''  help   quit'']"

definition rst_help :: rcon where
  "rst_help = inTurn (map (\<lambda>l. printl ''%s'' [AStr l]) help_text)"

definition verbs :: "int \<Rightarrow> (int \<Rightarrow> gotime) \<Rightarrow> string \<Rightarrow> string list \<Rightarrow> (string list \<times> rcon) list" where
  "verbs limit host verb args =
     rawVerbs limit args @ readVerbs args @ gotoVerbs args @ moveVerbs args @ setupVerbs host args
     @ catalogVerbs verb args @ [([''help'', ''?'', ''h''], rst_help)]"

definition rst_line :: "int \<Rightarrow> (int \<Rightarrow> gotime) \<Rightarrow> string \<Rightarrow> rcon" where
  "rst_line limit host line =
     (case Fields line of
        [] \<Rightarrow> errP noWord
      | f # args \<Rightarrow>
          let verb = ToLower f
          in switch verb (verbs limit host verb args)
               (if HasPrefix verb '':'' then report (runP (onConn (Get f)))
                else printl (''unknown command %q (try '' @ [CHR 0x27] @ ''help'' @ [CHR 0x27] @ '')'') [AStr verb]))"

section \<open>A session and the program\<close>

text \<open>The loop over the lines of the input; a panic ends it.\<close>

fun rst_session :: "int \<Rightarrow> (int \<Rightarrow> gotime) \<Rightarrow> string list \<Rightarrow> rcon" where
  "rst_session limit host [] = okP ()"
| "rst_session limit host (l # ls) =
     (let line = TrimSpace l
      in if line \<in> {''quit'', ''exit'', ''q''} then okP ()
         else bindP (if line = [] then okP () else rst_line limit host line) (\<lambda>_. rst_session limit host ls))"

definition rst_console :: "int \<Rightarrow> (int \<Rightarrow> gotime) \<Rightarrow> string list \<Rightarrow> string list \<Rightarrow> rcon" where
  "rst_console limit host args input = bindP
     (ask rstVersion (\<lambda>v. case v of
        Inr v \<Rightarrow> printl (''connected '' @ em_dash @ '' firmware %q'') [AStr v]
      | Inl e \<Rightarrow> printl ''connected (version read failed: %v)'' [AStr (err_text e)])) (\<lambda>_.
      if args \<noteq> [] then rst_line limit host (Join args '' '')
      else bindP (printl (''type '' @ [CHR 0x27] @ ''help'' @ [CHR 0x27] @ '' for commands, '' @ [CHR 0x27] @ ''quit'' @ [CHR 0x27]
                    @ '' to exit'') []) (\<lambda>_. rst_session limit host input))"

datatype rst_exit = CannotOpen gerr | Panicked gerr "(string \<times> farg list) list" | Returned "(string \<times> farg list) list"

text \<open>\<open>main\<close>: the flags, the words after them and the lines of the standard input.\<close>

definition rst_main :: "'w ports \<Rightarrow> (int \<Rightarrow> gotime) \<Rightarrow> string \<Rightarrow> int \<Rightarrow> string list \<Rightarrow> string list \<Rightarrow> 'w \<Rightarrow> (rst_exit \<times> 'w) option" where
  "rst_main P host serialPort limit args input w =
     Option.bind (if serialPort \<noteq> [] then rstOpen P serialPort w else rstFind P w) (\<lambda>(r, w).
       case r of
         Inl e \<Rightarrow> Some (CannotOpen e, w)
       | Inr m \<Rightarrow>
           Option.bind (rst_console limit host args input \<lparr>cmount = m, printed = []\<rparr>) (\<lambda>(r, s).
             Some ((case r of Inl e \<Rightarrow> Panicked e (printed s) | Inr _ \<Rightarrow> Returned (printed s)),
                   closePort P (wire (rconn (cmount s))) w)))"

section \<open>What a line keeps\<close>

text \<open>Whatever every operation of the driver keeps, every line of the console keeps too; and a verb
  prints at least one line, its outcome or its error.\<close>

context rst_keeps
begin

lemma handles_reports [handled]:
  "keepsP I m1 \<Longrightarrow> handles I (report m1)" "keepsP I m2 \<Longrightarrow> handles I (reportF m2)" "keepsP I m3 \<Longrightarrow> handles I (reportB m3)"
  "keepsP I m3 \<Longrightarrow> handles I (reportOK m3)" "keepsP I m4 \<Longrightarrow> handles I (reportErr m4)" "keepsP I m5 \<Longrightarrow> handles I (reportPair m5)"
  unfolding report_def reportF_def reportB_def reportOK_def reportErr_def reportPair_def printErr_def
  by (intro handled | assumption)+

lemma handles_printErr [handled]: "handles I (printErr e)"
  unfolding printErr_def by (intro handled)

lemma handles_arguments [handled]:
  "(\<And>a. handles I (f1 a)) \<Longrightarrow> handles I (one_arg args u f1)"
  "(\<And>e. handles I (g e)) \<Longrightarrow> (\<And>v. handles I (f2 v)) \<Longrightarrow> handles I (float_arg a g f2)"
  "(\<And>e. handles I (g e)) \<Longrightarrow> (\<And>v. handles I (f3 v)) \<Longrightarrow> handles I (int_arg a g f3)"
  "(\<And>b. handles I (f4 b)) \<Longrightarrow> handles I (onOff args u f4)"
  unfolding one_arg_def float_arg_def int_arg_def onOff_def by (intro handled | assumption)+

lemma handles_dir [handled]: "(\<And>d. handles I (f d)) \<Longrightarrow> handles I (dir args f)"
  unfolding dir_def by (intro handles_arguments handles_switch) (auto intro: handled)

lemma handles_rate [handled]: "(\<And>d. handles I (f d)) \<Longrightarrow> handles I (rate args f)"
  unfolding rate_def by (intro handles_arguments handles_switch) (auto intro: handled)

lemma readings:
  "keepsP I rstRA" "keepsP I rstDec" "keepsP I rstAltitude" "keepsP I rstAzimuth" "keepsP I rstSiderealTime"
  "keepsP I rstLocalTime" "keepsP I rstTargetRA" "keepsP I rstTargetDec" "keepsP I TargetAltAz" "keepsP I rstVersion"
  "keepsP I Voltage" "keepsP I rstTracking" "keepsP I readTrackMode" "keepsE I HomeFound" "keepsE I HomePosition"
  "keepsP I rstDate" "keepsP I rstUTCOffset" "keepsP I rstSiteLongitude" "keepsP I readSystemStatus" "keepsP I MotorLoad"
  "keepsP I AutoResume" "keepsP I rstGuideRate" "keepsP I (SlewSpeed n)" "keepsP I AxisAngles" "keepsP I SerialNumber"
  "keepsP I ModelName" "keepsP I GearRatio" "keepsP I WormCount" "keepsE I (SiteName n)" "keepsE I Precision"
  "keepsE I ClockFormat" "keepsE I SiteSlot"
  unfolding rstRA_def rstDec_def rstAltitude_def rstAzimuth_def rstSiderealTime_def rstLocalTime_def rstTargetRA_def
    rstTargetDec_def TargetAltAz_def rstVersion_def Voltage_def rstTracking_def readTrackMode_def HomeFound_def
    HomePosition_def rstDate_def rstUTCOffset_def rstSiteLongitude_def readSystemStatus_def MotorLoad_def AutoResume_def
    rstGuideRate_def SlewSpeed_def AxisAngles_def SerialNumber_def ModelName_def trimmedP_def GearRatio_def WormCount_def
    pairInts_def Let_def SiteName_def Precision_def ClockFormat_def SiteSlot_def trimmed_def
  by (intro keeps coord reading)+

lemma limit_registers: "keepsP I (slew_limits cs)"
  by (induction cs) (simp_all only: slew_limits.simps, (intro keeps reading | assumption)+)

lemma settings:
  "keepsE I (rstSetGuideRate x)" "keepsE I (SetForcePierFlip b)" "keepsE I rstTrackSidereal" "keepsE I rstTrackSolar"
  "keepsE I rstTrackLunar" "keepsE I (SetPrecision b)" "keepsE I (EchoPrefix b)" "keepsE I (SetClockFormat n)"
  "keepsE I (rstSetLocalTime t)" "keepsE I (rstSetUTCOffset n)" "keepsE I (SetSlewSpeed n k)" "keepsE I (SelectMessier n)"
  "keepsE I (SelectNGC n)" "keepsE I (SelectStar n)" "keepsE I (SelectSiteSlot n)"
  unfolding rstSetGuideRate_def SetForcePierFlip_def rstTrackSidereal_def rstTrackSolar_def rstTrackLunar_def
    SetPrecision_def EchoPrefix_def SetClockFormat_def ToggleClockFormat_def rstSetLocalTime_def rstSetUTCOffset_def
    SetSlewSpeed_def SelectMessier_def SelectNGC_def SelectStar_def SelectSiteSlot_def Let_def
  by (intro keeps reading readings)+

lemma computed:
  "keepsP I SlewLimits" "keepsP I (boolStr Homing)" "keepsP I (rstMoveAxis a b r)" "keepsP I AlpacaAtHome"
  "keepsP I AlpacaAtPark" "keepsE I (readE Fault)" "keepsP I (\<lambda>s. rstSetUTC (f s) s)"
  "keepsP I (\<lambda>s. runP (rstSetLocalTime (g s)) s)"
proof -
  show "keepsP I (\<lambda>s. rstSetUTC (f s) s)" using clock by (auto simp: keepsP_def)
  show "keepsP I (\<lambda>s. runP (rstSetLocalTime (g s)) s)" using settings(9) by (auto simp: keepsP_def keepsE_def)
qed (unfold SlewLimits_def boolStr_def rstMoveAxis_def AlpacaAtHome_def AlpacaAtPark_def,
  (intro keeps limit_registers homing rates status mods)+)

lemmas ops = onConn readings settings computed starting(3) targets slews pole syncs homing status parks tracking guiding
  rates clock limit_registers

lemma waiting: "handles I waitSlew"
proof -
  define told where "told o1 m = (case o1 of
        Failed e \<Rightarrow> printErr e
      | Standing \<Rightarrow>
          if Fault m \<noteq> [] then
            printl (''ABORTED at fault %q (e.g. movement limit) '' @ em_dash @ '' check position'') [AStr (Fault m)]
          else ask rstAzimuth (\<lambda>az. ask rstAltitude (\<lambda>alt.
            printl ''done: Az=%.3f Alt=%.3f'' [AFlt (val0 az), AFlt (val0 alt)]))
      | TimedOut \<Rightarrow> printl ''timeout waiting for slew to finish'' [])" for o1 m
  have told: "handles I (told o1 m)" for o1 m
    unfolding told_def by (cases o1) (simp_all only: wait_end.case, (intro handled ops)+)
  show ?thesis unfolding handles_def
  proof (intro allI impI)
    fix s r s'
    assume i: "I (cmount s)" and w: "waitSlew s = Some (r, s')"
    obtain o1 m where m: "wait_poll (clockNow (cmount s) + 180000 * ms) (cmount s) = (o1, m)" by fastforce
    with w have "told o1 m (s\<lparr>cmount := m\<rparr>) = Some (r, s')" by (simp add: waitSlew_def told_def)
    have "I (rst_sleep (500 * ms) t)" if "I t" for t unfolding rst_sleep_def by (rule conn [OF that])
    from handlesD [OF told _ \<open>told o1 m _ = _\<close>] rstw.keeps_wait [OF status(1) this i m]
    show "r = Inr () \<and> I (cmount s') \<and> strict_prefix (printed s) (printed s')" by simp
  qed
qed

lemma moving: "keepsP I m \<Longrightarrow> handles I (moveThenWait m)"
  unfolding moveThenWait_def by (intro handled waiting | assumption)+

lemma actions: "handles I (moveAxis args)" "handles I (pulse args)" "handles I alpacaStatus" "handles I rst_help"
proof -
  have go: "handles I (rate as (\<lambda>r. reportErr (rstMoveAxis a b r)))" for as a b
    by (intro handled ops)
  show "handles I (moveAxis args)" unfolding moveAxis_def Let_def
    by (intro handled handles_switch) (auto intro: go handled)
  show "handles I (pulse args)" unfolding pulse_def by (intro handled ops keeps)
  show "handles I rst_help" unfolding rst_help_def by (rule handles_inTurn) (auto intro: handled simp: help_text_def)
  have l: "handles I (inTurn [a, b, c, d])" if "handles I a" "handles I b" "tolerates I c" "handles I d" for a b c d
    using that by (intro handles_first) (auto intro: handles_tolerates)
  show "handles I alpacaStatus" unfolding alpacaStatus_def Let_def by (intro handled l tolerates_reading ops keeps)
qed

lemma tables: "handles I status" "handles I gps"
proof -
  have row: "handles I (statusRow n f m)" if "keepsP I m" for n and f :: "'b \<Rightarrow> string" and m
    unfolding statusRow_def using that by (intro handled)
  have line: "handles I (gpsLine n v f m)" if "keepsP I m" for n v and f :: "'b \<Rightarrow> farg" and m
    unfolding gpsLine_def using that by (intro handled)
  show "handles I status" unfolding status_def Let_def
    by (rule handles_inTurn) (auto intro: row ops keeps)
  show "handles I gps" unfolding gps_def
    by (rule handles_first) (auto intro: line handled ops keeps handles_tolerates tolerates_reading)
qed

lemmas acts = actions tables moving waiting

lemma raw_verbs: "(ns, a) \<in> set (rawVerbs limit args) \<Longrightarrow> handles I a"
  unfolding rawVerbs_def Let_def by (auto intro!: handled ops keeps)

lemma read_verbs: "(ns, a) \<in> set (readVerbs args) \<Longrightarrow> handles I a"
  unfolding readVerbs_def Let_def by (auto intro!: handled acts ops keeps)

lemma goto_verbs: "(ns, a) \<in> set (gotoVerbs args) \<Longrightarrow> handles I a"
  unfolding gotoVerbs_def poleVerb_def parkVerb_def Let_def by (auto intro!: handled acts ops keeps)

lemma move_verbs: "(ns, a) \<in> set (moveVerbs args) \<Longrightarrow> handles I a"
  unfolding moveVerbs_def by (auto intro!: handled acts ops keeps)

lemma setup_verbs: "(ns, a) \<in> set (setupVerbs host args) \<Longrightarrow> handles I a"
  unfolding setupVerbs_def Let_def by (auto intro!: handled acts ops keeps simp del: runP_apply)

lemma catalog_verbs: "(ns, a) \<in> set (catalogVerbs verb args) \<Longrightarrow> handles I a"
  unfolding catalogVerbs_def by (auto intro!: handled acts ops keeps)

lemma every_verb: "(ns, a) \<in> set (verbs limit host verb args) \<Longrightarrow> handles I a"
  unfolding verbs_def
  by (auto intro: raw_verbs read_verbs goto_verbs move_verbs setup_verbs catalog_verbs actions)

lemma line_handled: "Fields line \<noteq> [] \<Longrightarrow> handles I (rst_line limit host line)"
  unfolding rst_line_def Let_def
  by (cases "Fields line") (auto intro!: handles_switch handled ops keeps intro: every_verb)

lemma session_handled:
  "I (cmount s) \<Longrightarrow> rst_session limit host input s = Some (r, s') \<Longrightarrow>
    r = Inr () \<and> I (cmount s') \<and> prefix (printed s) (printed s') \<and> length (printed s) + length (run_lines input) \<le> length (printed s')"
proof (induction input arbitrary: s)
  case Nil
  then show ?case by (simp add: run_lines_def)
next
  case (Cons l input)
  show ?case
  proof (cases "TrimSpace l \<in> {''quit'', ''exit'', ''q''} \<or> TrimSpace l = []")
    case True
    with Cons show ?thesis by (auto simp: Let_def bindP_apply run_lines_Cons)
  next
    case False
    then have e: "rst_session limit host (l # input) = bindP (rst_line limit host (TrimSpace l)) (\<lambda>_. rst_session limit host input)"
      by (simp add: Let_def)
    obtain q t where q: "rst_line limit host (TrimSpace l) s = Some (q, t)"
      using Cons(3) unfolding e by (auto simp: bindP_def tryP_def bind_eq_Some_conv)
    have h: "handles I (rst_line limit host (TrimSpace l))" using False by (intro line_handled TrimSpace_Fields) auto
    note t = handlesD [OF h Cons(2) q]
    with Cons(3) q have "rst_session limit host input t = Some (r, s')" unfolding e by (simp add: bindP_apply)
    from Cons(1) [OF _ this] t strict_prefix_length [of "printed s" "printed t"] False show ?thesis
      by (auto simp: run_lines_Cons intro: prefix_order.trans)
  qed
qed

end

lemma blank_line: "Fields line = [] \<Longrightarrow> rst_line limit host line s = Some (Inl noWord, s)"
  by (simp add: rst_line_def)

lemma greeting_handled:
  "handles rst_inv (ask rstVersion (\<lambda>v. case v of
        Inr v \<Rightarrow> printl (''connected '' @ em_dash @ '' firmware %q'') [AStr v]
      | Inl e \<Rightarrow> printl ''connected (version read failed: %v)'' [AStr (err_text e)]))"
  by (intro handled latches.readings)

text \<open>C24: the console survives every command and is never silent about one. Whenever the operations of
  the driver it calls return, so that the console does (a query of the driver may not, \<open>query_returns\<close>,
  and the theorem says nothing then), the latches of the driver stay consistent, an interactive session goes
  on to its end, at least one line is printed per command besides the greeting and the hint, so that a
  single command never ends in silence, its error included, and the program panics exactly when it was started with arguments that
  hold no word.\<close>

theorem console_panics_exactly:
  assumes "rst_inv (cmount s)" "rst_console limit host args input s = Some (r, s')"
  shows "rst_inv (cmount s') \<and> prefix (printed s) (printed s')
    \<and> (if args \<noteq> [] \<and> Fields (Join args '' '') = [] then r = Inl noWord
        else r = Inr () \<and> length (printed s) + (if args \<noteq> [] then 2 else 2 + length (run_lines input)) \<le> length (printed s'))"
proof -
  let ?hint = "printl (''type '' @ [CHR 0x27] @ ''help'' @ [CHR 0x27] @ '' for commands, '' @ [CHR 0x27] @ ''quit'' @ [CHR 0x27]
                    @ '' to exit'') []"
  let ?rest = "if args \<noteq> [] then rst_line limit host (Join args '' '') else bindP ?hint (\<lambda>_. rst_session limit host input)"
  obtain t where t: "rst_inv (cmount t)" "strict_prefix (printed s) (printed t)" "?rest t = Some (r, s')"
    using assms(2) handlesD [OF greeting_handled assms(1)] unfolding rst_console_def bindP_def tryP_apply
    by (auto simp: bind_eq_Some_conv split: if_splits)
  note p = strict_prefix_length [OF t(2)]
  show ?thesis
  proof (cases "args = []")
    case True
    define u where "u = t\<lparr>printed := printed t @ [(''type '' @ [CHR 0x27] @ ''help'' @ [CHR 0x27] @ '' for commands, '' @ [CHR 0x27]
      @ ''quit'' @ [CHR 0x27] @ '' to exit'', [])]\<rparr>"
    have "rst_session limit host input u = Some (r, s')" using t(3) True by (simp add: bindP_apply printl_def u_def)
    from latches.session_handled [OF _ this] t(1) p True show ?thesis
      by (auto simp: u_def intro: prefix_order.trans [of _ "printed t"] append_prefixD)
  next
    case False
    show ?thesis
    proof (cases "Fields (Join args '' '') = []")
      case True
      with t(3) False p t(1) blank_line show ?thesis by simp
    next
      case word: False
      from handlesD [OF latches.line_handled [OF word] t(1)] t(3) False
      have h: "r = Inr () \<and> rst_inv (cmount s') \<and> strict_prefix (printed t) (printed s')" by simp
      with strict_prefix_length [of "printed t" "printed s'"] p False word show ?thesis
        by (auto intro: prefix_order.trans)
    qed
  qed
qed

theorem console_panics_exactly_witness:
  "\<exists>s'. rst_console (3000 * ms) (\<lambda>t. (t, 0)) ['' ''] [] \<lparr>cmount = newRst (mount_conn 0 (\<lambda>h. [])), printed = []\<rparr> = Some (Inl noWord, s')"
proof -
  let ?m = "newRst (mount_conn 0 (\<lambda>h. []))" and ?s = "\<lparr>cmount = newRst (mount_conn 0 (\<lambda>h. [])), printed = []\<rparr>"
  have i: "rst_inv (cmount ?s)" by (simp add: newRst_def rst_inv_def)
  have f: "Fields '' '' = []" by code_simp
  obtain v m' where "rstVersion ?m = Some (v, m')"
    by (cases "get_attempts 2 '':AV#'' '':AV'' ?m") (simp add: rstVersion_def rst_get_idle newRst_def)
  then obtain r s' where c: "rst_console (3000 * ms) (\<lambda>t. (t, 0)) ['' ''] [] ?s = Some (r, s')"
    by (cases v) (simp_all add: rst_console_def bindP_apply tryP_def onM_def printl_def rst_line_def f)
  from console_panics_exactly [OF i c] f have "r = Inl noWord" by simp
  with c show ?thesis by blast
qed

section \<open>The homing gate\<close>

definition gatedVerbs :: "(string \<times> string \<times> (string \<times> farg list) list) list" where
  "gatedVerbs =
     [(''slew'', ''goto'', []),
      (''pole'', ''polar-axis slew'', [(''slewing to celestial pole (Az 0, Alt=latitude)...'', [])]),
      (''sync'', ''sync'', []),
      (''addpt'', ''add alignment point'', []),
      (''park'', ''park'', [(parkSays, [])])]"

definition needs_home :: "string \<Rightarrow> string \<times> farg list" where
  "needs_home op = (''err: %v'', [AStr (''rainbow: '' @ op @ '' requires the mount to be homed first '' @ em_dash
     @ '' run FindHome (the mount seeks its West-horizon mechanical home)'')])"

lemma printl_apply [simp]: "printl f args s = Some (Inr (), s\<lparr>printed := printed s @ [(f, args)]\<rparr>)"
  by (simp add: printl_def)

lemma needs_home_text: "(''err: %v'', [AStr (err_text (homeErr op))]) = needs_home op"
  by (simp add: needs_home_def homeErr_def Sprintf.simps em_dash_def verb_flag_def is_digit_def)

lemma report_refused:
  assumes "m (cmount s) = Some (Inl (homeErr op), cmount s)"
  shows "reportWith printErr f m s = Some (Inr (), s\<lparr>printed := printed s @ [needs_home op]\<rparr>)"
  using assms needs_home_text [of op] by (simp add: reportWith_def tryP_def onM_def printErr_def)

lemma unhomed_ops:
  assumes "\<not> homeFound c"
  shows "runP rstSlewToTarget c = Some (Inl (homeErr ''goto''), c)" "SlewToPole c = Some (Inl (homeErr ''polar-axis slew''), c)"
    "runP rstSyncToTarget c = Some (Inl (homeErr ''sync''), c)"
    "runP AddAlignmentPoint c = Some (Inl (homeErr ''add alignment point''), c)" "Park c = Some (Inl (homeErr ''park''), c)"
  by (simp_all add: gated [OF assms])

lemma switch_append: "switch v (t @ u) d = switch v t (switch v u d)"
  by (induction v t d rule: switch.induct) auto

lemmas verb_tables = verbs_def switch_append rawVerbs_def readVerbs_def gotoVerbs_def Let_def

lemma switch_gated:
  "switch ''slew'' (verbs limit host v args) d = moveThenWait (runP rstSlewToTarget)"
  "switch ''pole'' (verbs limit host v args) d = poleVerb"
  "switch ''sync'' (verbs limit host v args) d = reportWith printErr (\<lambda>_. printl ''ok'' []) (runP rstSyncToTarget)"
  "switch ''addpt'' (verbs limit host v args) d = reportErr (runP AddAlignmentPoint)"
  "switch ''park'' (verbs limit host v args) d = parkVerb"
  by (simp_all add: verb_tables del: runP_apply)

text \<open>On a mount that was not homed these verbs print the refusal, and neither the mount nor the driver
  notices.\<close>

lemma unhomed_console:
  assumes "\<not> homeFound (cmount s)" "Fields line = v # args" "(ToLower v, op, ls) \<in> set gatedVerbs"
  shows "rst_line limit host line s = Some (Inr (), s\<lparr>printed := printed s @ ls @ [needs_home op]\<rparr>)"
proof -
  note refused = unhomed_ops [OF assms(1)]
  have said: "inTurn [printl f as, reportWith printErr g m] s = Some (Inr (), s\<lparr>printed := printed s @ [(f, as), needs_home op]\<rparr>)"
    if "m (cmount s) = Some (Inl (homeErr op), cmount s)" for f as g m op
    using that report_refused [of m "s\<lparr>printed := printed s @ [(f, as)]\<rparr>"] by (simp add: bindP_apply)
  show ?thesis using assms(2,3)
    by (auto simp: gatedVerbs_def rst_line_def switch_gated moveThenWait_def reportErr_def poleVerb_def parkVerb_def
      report_refused refused said simp del: inTurn.simps runP_apply)
qed

section \<open>The wait is bounded\<close>

text \<open>C14: a motion that the console waits for does not hang it: from any state of the driver and the
  wire at most 361 polls decide the wait, with the answer that the mount neither slews nor is moved,
  with the error of a poll, or with a timeout once three minutes are over.\<close>

theorem wait_is_bounded:
  "\<exists>e s'. wait_fuel clockNow rstSlewing (rst_sleep (500 * ms)) 361 (clockNow s + 180000 * ms) s = Some (e, s')
     \<and> wait_poll (clockNow s + 180000 * ms) s = (e, s')
     \<and> (case e of Standing \<Rightarrow> \<not> slewing s' \<and> \<not> moving s' | TimedOut \<Rightarrow> clockNow s + 180000 * ms \<le> clockNow s' | Failed _ \<Rightarrow> True)"
proof -
  obtain e s' where w: "wait_poll (clockNow s + 180000 * ms) s = (e, s')" by fastforce
  have stands: "\<not> slewing t' \<and> \<not> moving t'" if "rstSlewing t = (Inr False, t')" for t t'
    using that unfolding rstSlewing_def by (auto simp: bindE_def split: prod.splits sum.splits)
  from rstw.bounded [of s] rstw.ends [of "\<lambda>s. \<not> slewing s \<and> \<not> moving s", OF stands w] w
  show ?thesis by (cases e) simp_all
qed

end
