(* ===== verification/TenConsole.thy ===== *)
theory TenConsole
  imports Console Drivers TenDates TenMore GoTime
begin

text \<open>
  The interactive console of the 10Micron driver (src/cmd/tenmicron/main.go): the verbs of \<open>run\<close>, tables
  with a row per case, the groups of readings (\<open>probe\<close>), the peripherals, and \<open>main\<close>. The conventions are
  those of the console of the RST; \<open>host\<close> is the computer's clock. A block printed by one call is one
  entry per line.
\<close>

type_synonym tcon = "(tenmicron console, unit) pio"

definition hline :: string where "hline = [CHR 0xE2, CHR 0x94, CHR 0x80]"
definition micro :: string where "micro = [CHR 0xC2, CHR 0xB5]"
definition arrow :: string where "arrow = [CHR 0xE2, CHR 0x86, CHR 0x92]"
definition ellipsis :: string where "ellipsis = [CHR 0xE2, CHR 0x80, CHR 0xA6]"
definition plus_minus :: string where "plus_minus = [CHR 0xC2, CHR 0xB1]"
definition apos :: string where "apos = [CHR 0x27]"

section \<open>Times as text\<close>

text \<open>\<open>time.Duration.String\<close>: below a second one unit with a fraction, from there on hours, minutes and
  seconds. Zeros at the end of a fraction are dropped.\<close>

definition frac_text :: "nat \<Rightarrow> nat \<Rightarrow> string" where
  "frac_text prec n =
     (let ds = rev (dropWhile (\<lambda>c. c = CHR ''0'') (rev (pad0 prec (nat_str (n mod 10 ^ prec)))))
      in if prec = 0 \<or> ds = [] then [] else ''.'' @ ds)"

definition dur_String :: "duration \<Rightarrow> string" where
  "dur_String d =
     (let u = nat \<bar>d\<bar>; sign = (if d < 0 then ''-'' else []);
          part = (\<lambda>prec. nat_str (u div 10 ^ prec) @ frac_text prec u)
      in if u = 0 then ''0s''
         else if u < 1000 then sign @ part 0 @ ''ns''
         else if u < 1000000 then sign @ part 3 @ micro @ ''s''
         else if u < 1000000000 then sign @ part 6 @ ''ms''
         else (let s = u div 10 ^ 9; secs = nat_str (s mod 60) @ frac_text 9 u @ ''s''
               in sign @ (if s < 60 then secs
                          else if s < 3600 then nat_str (s div 60) @ ''m'' @ secs
                          else nat_str (s div 3600) @ ''h'' @ nat_str (s div 60 mod 60) @ ''m'' @ secs)))"

text \<open>The layout RFC 3339: printed, for an instant in UTC, and read, with its zone.\<close>

definition Format_rfc3339 :: "gotime \<Rightarrow> string" where
  "Format_rfc3339 t = Format_iso (fst t) @ ''T'' @ Format_clock (fst t) @ ''Z''"

definition rfc3339 :: "element list" where
  "rfc3339 = iso_date @ [Literal CHR ''T'', Hour, Literal CHR '':'', ZeroMinute, Literal CHR '':'', ZeroSecond]"

definition zone_seconds :: "string \<Rightarrow> (int \<times> string) option" where
  "zone_seconds s =
     (case s of
        [] \<Rightarrow> None
      | c # r \<Rightarrow>
          if c = CHR ''Z'' then Some (0, r)
          else if length s < 6 \<or> s ! 3 \<noteq> CHR '':'' \<or> c \<noteq> CHR ''+'' \<and> c \<noteq> CHR ''-'' then None
          else (case (ranged 0 24 (getnum True (take 2 r)), ranged 0 60 (getnum True (take 2 (drop 3 r)))) of
                  (Some (h, _), Some (m, _)) \<Rightarrow>
                    Some ((if c = CHR ''-'' then - 1 else 1) * (h * 60 + m) * 60, drop 6 s)
                | _ \<Rightarrow> None))"

definition Parse_rfc3339 :: "string \<Rightarrow> int option" where
  "Parse_rfc3339 s =
     (case parse_elements rfc3339 (s, fields0) of
        None \<Rightarrow> None
      | Some (r, f) \<Rightarrow>
          (case zone_seconds r of
             Some (z, []) \<Rightarrow>
               if fDay f < 1 \<or> fDay f > daysIn (fMonth f) (fYear f) then None
               else Some (DateUTC (fYear f) (fMonth f) (fDay f)
                     + (fHour f * 3600 + fMinute f * 60 + fSecond f - z) * 1000000000 + fNano f)
           | _ \<Rightarrow> None))"

section \<open>Reports\<close>

definition tm_printErr :: "gerr \<Rightarrow> tcon" where
  "tm_printErr e = printl ''err: %v'' [AStr (err_text e)]"

text \<open>One call of the driver: its error is printed, its value handed on.\<close>

definition call :: "(tenmicron, 'a) io \<Rightarrow> ('a \<Rightarrow> tcon) \<Rightarrow> tcon" where
  "call m f = reportWith tm_printErr f (runP m)"

definition tm_report :: "(tenmicron, string) io \<Rightarrow> tcon" where
  "tm_report m = call m (\<lambda>s. printl ''reply: %q'' [AStr s])"

definition reportS :: "(tenmicron, string) io \<Rightarrow> tcon" where
  "reportS m = call m (\<lambda>s. printl ''value: %s'' [AStr s])"

definition tm_reportF :: "(tenmicron, f64) io \<Rightarrow> tcon" where
  "tm_reportF m = call m (\<lambda>v. printl ''value: %.6f'' [AFlt v])"

definition reportI :: "(tenmicron, int) io \<Rightarrow> tcon" where
  "reportI m = call m (\<lambda>v. printl ''value: %d'' [AInt v])"

definition tm_reportB :: "(tenmicron, bool) io \<Rightarrow> tcon" where
  "tm_reportB m = call m (\<lambda>v. printl ''value: %v'' [AStr (bool_text v)])"

definition reportT :: "(tenmicron, gotime) io \<Rightarrow> tcon" where
  "reportT m = call m (\<lambda>v. printl ''value: %s'' [AStr (Format_rfc3339 v)])"

definition tm_reportOK :: "(tenmicron, bool) io \<Rightarrow> tcon" where
  "tm_reportOK m = call m (\<lambda>v. printl ''accepted: %v'' [AStr (bool_text v)])"

definition tm_reportErr :: "(tenmicron, unit) io \<Rightarrow> tcon" where
  "tm_reportErr m = call m (\<lambda>_. printl ''ok'' [])"

definition tm_pier_int :: "PierSide \<Rightarrow> int" where
  "tm_pier_int p = (case p of PierUnknown \<Rightarrow> - 1 | PierEast \<Rightarrow> 0 | PierWest \<Rightarrow> 1)"

definition pierStr :: "(tenmicron, PierSide) io \<Rightarrow> (tenmicron, string) io" where
  "pierStr m = bindE m (\<lambda>p. okE (fmt_d 0 (tm_pier_int p)))"

section \<open>Arguments\<close>

definition pF :: "string list \<Rightarrow> string \<Rightarrow> (f64 \<Rightarrow> tcon) \<Rightarrow> tcon" where
  "pF args usage f =
     (if length args \<noteq> 1 then printl (''usage: '' @ usage) []
      else case ParseFloat64 (args ! 0) of (v, err) \<Rightarrow> (case err of None \<Rightarrow> f v | Some e \<Rightarrow> tm_printErr e))"

definition pI :: "string list \<Rightarrow> string \<Rightarrow> (int \<Rightarrow> tcon) \<Rightarrow> tcon" where
  "pI args usage f =
     (if length args \<noteq> 1 then printl (''usage: '' @ usage) []
      else case Atoi (args ! 0) of (v, err) \<Rightarrow> (case err of None \<Rightarrow> f v | Some e \<Rightarrow> tm_printErr e))"

text \<open>The value of a number and the absence of an error.\<close>

definition float_ok :: "string \<Rightarrow> f64 option" where
  "float_ok s = (case ParseFloat64 s of (v, err) \<Rightarrow> (case err of None \<Rightarrow> Some v | Some _ \<Rightarrow> None))"

definition int_ok :: "string \<Rightarrow> int option" where
  "int_ok s = (case Atoi s of (v, err) \<Rightarrow> (case err of None \<Rightarrow> Some v | Some _ \<Rightarrow> None))"

definition pI2 :: "string list \<Rightarrow> string \<Rightarrow> (int \<Rightarrow> int \<Rightarrow> tcon) \<Rightarrow> tcon" where
  "pI2 args usage f =
     (if length args \<noteq> 2 then printl (''usage: '' @ usage) []
      else case (int_ok (args ! 0), int_ok (args ! 1)) of
             (Some a, Some b) \<Rightarrow> f a b
           | _ \<Rightarrow> printl ''err: both values must be integers'' [])"

definition choice :: "string list \<Rightarrow> string \<Rightarrow> string \<Rightarrow> (bool \<Rightarrow> tcon) \<Rightarrow> tcon" where
  "choice args yes no f =
     (if length args \<noteq> 1 \<or> args ! 0 \<noteq> yes \<and> args ! 0 \<noteq> no then printl (''usage: <verb> '' @ yes @ ''|'' @ no) []
      else f (args ! 0 = yes))"

definition tm_onOff :: "string list \<Rightarrow> (bool \<Rightarrow> tcon) \<Rightarrow> tcon" where
  "tm_onOff args f = choice args ''on'' ''off'' f"

definition openClose :: "string list \<Rightarrow> (bool \<Rightarrow> tcon) \<Rightarrow> tcon" where
  "openClose args f = choice args ''open'' ''close'' f"

definition subArgs :: "string list \<Rightarrow> string \<times> string list" where
  "subArgs args = ((if length args > 1 then ToLower (args ! 1) else []), (if length args > 2 then drop 2 args else []))"

definition rotFrame :: "string \<Rightarrow> RotatorFrame option" where
  "rotFrame s = switch (ToLower s)
     [([''mech'', ''m''], Some RotatorMechanical), ([''equ'', ''eq'', ''r''], Some RotatorEquatorial),
      ([''opt'', ''o''], Some RotatorOptical)] None"

text \<open>UTC now, or the time in the argument.\<close>

definition hostUTC :: "(int \<Rightarrow> gotime) \<Rightarrow> (gotime \<Rightarrow> tcon) \<Rightarrow> tcon" where
  "hostUTC host f = (\<lambda>s. f (fst (host (tm_clock (cmount s))), 0) s)"

definition parseWhen :: "(int \<Rightarrow> gotime) \<Rightarrow> string list \<Rightarrow> (gotime \<Rightarrow> tcon) \<Rightarrow> tcon" where
  "parseWhen host args f =
     (if length args = 1 then
        (case Parse_rfc3339 (args ! 0) of
           Some t \<Rightarrow> f (t, 0)
         | None \<Rightarrow> bindP (printl ''warn: bad RFC3339 time, using now'' []) (\<lambda>_. hostUTC host f))
      else hostUTC host f)"

definition parseMerSide :: "string list \<Rightarrow> (MeridianSide \<Rightarrow> tcon) \<Rightarrow> tcon" where
  "parseMerSide args f =
     (let bad = printl ''usage: setmerside both|west|east'' []
      in if length args = 1 then switch (ToLower (args ! 0))
           [([''both''], f MeridianBothSides), ([''west''], f MeridianWestOnly), ([''east''], f MeridianEastOnly)] bad
         else bad)"

definition parseTrackRate :: "string list \<Rightarrow> (TrackRate \<Rightarrow> tcon) \<Rightarrow> tcon" where
  "parseTrackRate args f =
     (let bad = printl ''usage: trackrate lunar|solar|sidereal|stop'' []
      in if length args = 1 then switch (ToLower (args ! 0))
           [([''lunar''], f TrackLunarRate), ([''solar''], f TrackSolarRate), ([''sidereal''], f TrackSiderealRate),
            ([''stop''], f TrackStopped)] bad
         else bad)"

definition tm_dir :: "string list \<Rightarrow> (Direction \<Rightarrow> tcon) \<Rightarrow> tcon" where
  "tm_dir args f =
     (if length args \<noteq> 1 then printl ''usage: <verb> n|s|e|w'' []
      else switch (ToLower (args ! 0))
             [([''n''], f North), ([''s''], f South), ([''e''], f East), ([''w''], f West)]
             (printl ''bad direction %q (n|s|e|w)'' [AStr (args ! 0)]))"

definition tm_rate :: "string list \<Rightarrow> (Rate \<Rightarrow> tcon) \<Rightarrow> tcon" where
  "tm_rate args f =
     (if length args \<noteq> 1 then printl ''usage: rate g|c|f|s   (guide|center|find|slew)'' []
      else switch (ToLower (args ! 0))
             [([''g''], f RateGuide), ([''c''], f RateCenter), ([''f'', ''m''], f RateFind), ([''s''], f RateMax)]
             (printl ''bad rate %q (g|c|f|s)'' [AStr (args ! 0)]))"

definition axis :: "string list \<Rightarrow> (Axis \<Rightarrow> tcon) \<Rightarrow> tcon" where
  "axis args f =
     (if length args < 1 then printl ''usage: <verb> pri|sec ...'' []
      else switch (ToLower (args ! 0))
             [([''pri'', ''p'', ''0'', ''ra'', ''az''], f AxisPrimary), ([''sec'', ''s'', ''1'', ''dec'', ''alt''], f AxisSecondary)]
             (printl ''bad axis %q (pri|sec)'' [AStr (args ! 0)]))"

definition tm_moveAxis :: "string list \<Rightarrow> tcon" where
  "tm_moveAxis args =
     (if length args \<noteq> 3 then printl ''usage: moveaxis pri|sec +|- <degPerSec>'' []
      else axis args (\<lambda>a. case ParseFloat64 (args ! 2) of (dps, err) \<Rightarrow>
        (case err of
           Some e \<Rightarrow> printl ''err: rate must be a number (deg/s): %v'' [AStr (err_text e)]
         | None \<Rightarrow> tm_reportErr (tm_MoveAxisRate a (args ! 1 \<noteq> ''-'') dps))))"

definition tm_pulse :: "string list \<Rightarrow> tcon" where
  "tm_pulse args =
     (if length args \<noteq> 2 then printl ''usage: pulse n|s|e|w <ms>'' []
      else tm_dir (take 1 args) (\<lambda>d. case Atoi (args ! 1) of (t, err) \<Rightarrow>
        (case err of Some e \<Rightarrow> tm_printErr e | None \<Rightarrow> tm_reportErr (tm_PulseGuide d t))))"

definition precisionVerb :: "string list \<Rightarrow> tcon" where
  "precisionVerb args =
     (let bad = printl ''usage: precision low|high|ultra|toggle'' []
      in if length args \<noteq> 1 then bad
         else switch (ToLower (args ! 0))
                [([''low''], tm_reportErr SetPrecisionLow), ([''high''], tm_reportErr SetPrecisionHigh),
                 ([''ultra''], tm_reportErr SetPrecisionUltra), ([''toggle''], tm_reportErr TogglePrecision)] bad)"

section \<open>Readings in several lines\<close>

definition ginfo :: tcon where
  "ginfo = call Refresh (\<lambda>s. inTurn
     [printl ''  ra=%.5f dec=%.5f alt=%.5f az=%.5f pier=%v gstat=%d slew=%v''
        [AFlt (gRA s), AFlt (gDec s), AFlt (gAlt s), AFlt (gAz s), AInt (tm_pier_int (gPier s)), AInt (Gstat s), AStr (bool_text (gSlew s))],
      printl ''  tracking=%v slewing=%v parked=%v''
        [AStr (bool_text (IsTracking s)), AStr (bool_text (IsSlewing s)), AStr (bool_text (IsParked s))]])"

definition mountCfg :: tcon where
  "mountCfg = inTurn
     [\<lambda>s. (let c = mountClass (cmount s)
           in printl ''  class: product=%q altaz=%v gm4000=%v dds=%v raSlewRatio=%.2f''
                [AStr (mcProduct c), AStr (bool_text (mcAltAz c)), AStr (bool_text (mcGM4000 c)), AStr (bool_text (mcDDS c)),
                 AFlt (RASlewRatio (cmount s))]) s,
      reportWith (\<lambda>e. printl ''  :GCFG# err: %v'' [AStr (err_text e)])
        (\<lambda>c. printl ''  live:  altaz=%v fork=%v southern=%v homed=%v''
           (map (\<lambda>b. AStr (bool_text b)) [cfgAltAz c, cfgFork c, cfgSouthern c, cfgHomed c])) (runP MountConfiguration)]"

definition alarmLines :: "string \<Rightarrow> (tenmicron, int list) io \<Rightarrow> tcon" where
  "alarmLines title m = reportWith
     (\<lambda>e. printl ''  %-16s err: %v'' [AStr title, AStr (err_text e)])
     (\<lambda>l. if l = [] then printl ''  %-16s none'' [AStr title]
          else inTurn (map (\<lambda>a. printl ''  %-16s %d (%s)'' [AStr title, AInt a, AStr (AlarmString a)]) l)) (runP m)"

definition alarms :: tcon where
  "alarms = inTurn [alarmLines ''active'' ActiveAlarms, alarmLines ''unacknowledged'' UnacknowledgedAlarms]"

definition modelVerb :: tcon where
  "modelVerb = inTurn
     [reportWith (\<lambda>e. printl ''  starCount err: %v'' [AStr (err_text e)])
        (\<lambda>n. printl ''  alignment stars: %d'' [AInt n]) (runP AlignmentStarCount),
      reportWith (\<lambda>e. printl ''  :getain# err: %v'' [AStr (err_text e)])
        (\<lambda>i. inTurn
           [printl ''  az=%.4f alt=%.4f polarErr=%.4f posAngle=%.4f orthoErr=%.4f''
              (map AFlt [aiAzimuth i, aiAltitude i, PolarError i, PositionAngle i, OrthoError i]),
            printl ((''  azTurns=%.2f altTurns=%.2f terms=%d rms=%.2f'' @ dquote))
              [AFlt (AzTurns i), AFlt (AltTurns i), AInt (Terms i), AFlt (RMSArcsec i)]]) (runP readAlignmentInfo)]"

section \<open>Probes\<close>

type_synonym probe = "string \<times> (tenmicron, string) io"

definition runProbe :: "probe \<Rightarrow> tcon" where
  "runProbe p = reportWith
     (\<lambda>e. printl ''  %-18s err: %v'' [AStr (fst p), AStr (err_text e)])
     (\<lambda>v. printl ''  %-18s %s'' [AStr (fst p), AStr v]) (runP (snd p))"

definition runProbes :: "probe list \<Rightarrow> tcon" where
  "runProbes ps = inTurn (map runProbe ps)"

definition adapt :: "('a \<Rightarrow> string) \<Rightarrow> (tenmicron, 'a) io \<Rightarrow> (tenmicron, string) io" where
  "adapt f m = bindE m (\<lambda>v. okE (f v))"

definition fF :: "(tenmicron, f64) io \<Rightarrow> (tenmicron, string) io" where "fF = adapt (fmt_f False 0 6)"
definition fI :: "(tenmicron, int) io \<Rightarrow> (tenmicron, string) io" where "fI = adapt (fmt_d 0)"
definition fI2 :: "(tenmicron, int) io \<Rightarrow> (tenmicron, string) io" where "fI2 = fI"
definition fB :: "(tenmicron, bool) io \<Rightarrow> (tenmicron, string) io" where "fB = adapt bool_text"
definition fD :: "(tenmicron, duration) io \<Rightarrow> (tenmicron, string) io" where "fD = adapt dur_String"
definition fT :: "(tenmicron, gotime) io \<Rightarrow> (tenmicron, string) io" where "fT = adapt Format_rfc3339"
definition fS :: "(tenmicron, string) io \<Rightarrow> (tenmicron, string) io" where "fS = adapt quote"

definition alarms_text :: "int list \<Rightarrow> string" where
  "alarms_text l = (if l = [] then ''none'' else Join (map (\<lambda>a. fmt_d 0 a @ '' ('' @ AlarmString a @ '')'') l) '', '')"

definition fAlarms :: "(tenmicron, int list) io \<Rightarrow> (tenmicron, string) io" where "fAlarms = adapt alarms_text"

definition fWeather :: "(tenmicron, f64 \<times> duration) io \<Rightarrow> (tenmicron, string) io" where
  "fWeather = adapt (\<lambda>(v, age). fmt_f False 0 1 v @ '' (age '' @ dur_String age @ '')'')"

definition fPair :: "(tenmicron, int \<times> int) io \<Rightarrow> (tenmicron, string) io" where
  "fPair = adapt (\<lambda>(lo, hi). fmt_d 0 lo @ ''..'' @ fmt_d 0 hi)"

definition fNet :: "(tenmicron, NetworkConfig) io \<Rightarrow> (tenmicron, string) io" where
  "fNet = adapt (\<lambda>nc. ''ip='' @ ncIP nc @ '' mask='' @ ncNetmask nc @ '' gw='' @ ncGateway nc @ '' flag='' @ ncFlag nc)"

definition info_text :: "FocuserInfo \<Rightarrow> string" where
  "info_text i = quote (fiName i) @ '' / '' @ quote (fiType i) @ '' / '' @ quote (fiSerial i)"

fun transit_int :: "TransitSlewState \<Rightarrow> int" where
  "transit_int TransitSlewing = 0"
| "transit_int TransitWaiting = 1"
| "transit_int TransitCatching = 2"
| "transit_int TransitTracking = 3"
| "transit_int TransitEnded = 4"
| "transit_int TransitUnknown = 5"

definition transitCode :: "(tenmicron, int) io" where
  "transitCode = bindE TransitSlewStatus (\<lambda>v. okE (transit_int v))"

definition clockProbes :: "probe list" where
  "clockProbes =
     [(''siteLat'', fF tm_SiteLatitude), (''siteLon'', fF tm_SiteLongitude), (''siteElev'', fF SiteElevation),
      (''utcOffset'', fD tm_UTCOffset), (''localTime'', fD tm_LocalTime), (''localDate'', fT LocalDate),
      (''utcDateTime'', fT UTCDateTime), (''localDateTime'', fT LocalDateTime), (''julianDate'', fF JulianDate),
      (''ut1MinusUTC'', fF UT1MinusUTC), (''gpsSynced'', fB GPSSynced), (''gpsSyncState'', fI2 GPSSyncState),
      (''gpsNMEA'', fS GPSNMEA), (''gpsMinusUTC'', fI GPSMinusUTC), (''gpsWeekRollover'', fI GPSWeekRollover),
      (''nextLeapSecond'', adapt (\<lambda>(d, ok). if ok then Format_iso (fst d) else ''none scheduled'') NextLeapSecond),
      (''deltaTStatus'', adapt (\<lambda>(v, exp). ''valid='' @ bool_text v @ '' expiry='' @ Format_iso (fst exp)) DeltaTStatus)]"

definition limitProbes :: "probe list" where
  "limitProbes =
     [(''highAltLimit'', fF HighAltitudeLimit), (''lowAltLimit'', fF LowAltitudeLimit),
      (''meridianTrackLim'', fI MeridianTrackLimit), (''meridianSlewLim'', fI MeridianSlewLimit),
      (''meridianSide'', fI2 MeridianSideBehaviour), (''unattendedFlip'', fB UnattendedFlip),
      (''slewSettleTime'', fD SlewSettleTime), (''timeToTrackEnd'', fD TimeToTrackingEnd), (''targetTrackable'', fB TargetTrackable)]"

definition rateProbes :: "probe list" where
  "rateProbes =
     [(''slewRate'', fF SlewRate), (''minSlewRate'', fF MinSlewRate), (''maxSlewRate'', fF MaxSlewRate),
      ((''guideRate'' @ dquote @ ''/s''), fF tm_GuideRate), ((''guideRate'' @ times_sign @ ''sid''), fF tm_GuideRateSidereal),
      (''guiderPortOn'', fB GuiderPortEnabled), (''guidingState'', fI GuidingState), (''trackingRateHz'', fF tm_TrackingRateHz)]"

definition refractionProbes :: "probe list" where
  "refractionProbes =
     [(''refraction'', adapt (\<lambda>(p, t). fmt_f False 0 1 p @ '' hPa / '' @ fmt_f False 0 1 t @ ('' '' @ degree_sign @ ''C'')) Refraction),
      (''refractionCorr'', fB RefractionCorrection), (''speedCorrection'', fB SpeedCorrection)]"

definition targetProbes :: "probe list" where
  "targetProbes =
     [(''targetRA'', fF tm_TargetRA), (''targetDec'', fF tm_TargetDec), (''targetAlt'', fF TargetAltitude),
      (''targetAz'', fF TargetAzimuth), (''targetAxisPri'', fF TargetAxisAnglePrimary), (''targetAxisSec'', fF TargetAxisAngleSecondary)]"

definition networkProbes :: "probe list" where
  "networkProbes =
     [(''connectionType'', fI ConnectionType), (''wiredNetwork'', fNet WiredNetwork), (''wirelessNetwork'', fNet WirelessNetwork),
      (''wirelessAvail'', fB WirelessAvailable), (''wirelessESSID'', fS WirelessESSID), (''wirelessStatus'', fS WirelessStatus),
      (''ethernetMAC'', fS EthernetMAC), (''wirelessMAC'', fS WirelessMAC), (''webInterface'', fB WebInterfaceActive),
      (''wakeOnLAN'', fI2 WakeOnLANState),
      (''discoveryService'', adapt (\<lambda>ds. ''available='' @ bool_text (dsAvailable ds) @ '' active='' @ bool_text (dsActive ds)
         @ '' name='' @ quote (dsName ds)) readDiscoveryService),
      (''wirelessAPs'', adapt (\<lambda>aps. Join aps '', '') WirelessAccessPoints)]"

definition domeProbes :: "probe list" where
  "domeProbes =
     [(''domeAzimuth'', fF DomeAzimuth), (''domeFlap'', fI2 DomeFlap), (''domeShutter'', fI2 DomeShutter),
      (''domeHoming'', fB DomeHoming), (''domeSlewing'', fB DomeSlewing), (''domeSlewingExt'', fB DomeSlewingExternal),
      (''domeSettleTime'', fD DomeSettleTime)]"

definition identityProbes :: "probe list" where
  "identityProbes =
     [(''firmware'', fS (onT Firmware)), (''firmwareDate'', fT FirmwareDate), (''firmwareTime'', fS FirmwareTime),
      (''product'', fS tm_Product), (''hardwareID'', fS HardwareID), (''controlBox'', fS ControlBoxVersion),
      (''emulatedRev'', fS EmulatedFirmwareRev), (''connectionType'', fI ConnectionType), (''autoPowerOn'', fI2 AutoPowerOnState)]"

definition positionProbes :: "probe list" where
  "positionProbes =
     [(''ra'', fF tm_RA), (''dec'', fF tm_Dec), (''alt'', fF tm_Altitude), (''az'', fF tm_Azimuth), (''siderealTime'', fF (onT SiderealTime)),
      (''pierSide'', fS (pierStr tm_PierSide)), (''pointingState'', fS (pierStr PointingState)),
      (''destSideOfPier'', fS (pierStr DestinationSideOfPier)), (''axisAnglePri'', fF AxisAnglePrimary), (''axisAngleSec'', fF AxisAngleSecondary)]"

definition flagProbes :: "probe list" where
  "flagProbes =
     [(''statusCode'', fI StatusCode), (''slewing'', fB tm_Slewing), (''slewInProgress'', fB SlewInProgress), (''tracking'', fB tm_Tracking),
      (''trackingActive'', fB TrackingActive), (''dualAxisTracking'', fB DualAxisTracking), (''targetTrackable'', fB TargetTrackable),
      (''atPark'', fB tm_AtPark), (''atHome'', fB tm_AtHome), (''homeStatus'', fI2 HomeStatus)]"

definition boxTemperature :: "(tenmicron, string) io" where
  "boxTemperature = tryE (Temperature TempElectronicsBox) (\<lambda>r. case r of
     Inl e \<Rightarrow> if errors_is e ErrTemperatureUnavailable then okE ''unavailable'' else errE e
   | Inr v \<Rightarrow> okE (fmt_f False 0 1 v))"

definition dither_text :: "DitherParams \<Rightarrow> string" where
  "dither_text p = ''ra='' @ fmt_f False 0 1 (RAArcsec p) @ (dquote @ '' dec='') @ fmt_f False 0 1 (DecArcsec p) @ (dquote @ '' delay='')
     @ fmt_f False 0 0 (DelaySec p) @ ''s exp='' @ fmt_f False 0 0 (ExposureSec p) @ ''s interval=''
     @ fmt_f False 0 0 (IntervalSec p) @ ''s''"

definition dumpGroups :: "(string \<times> probe list) list" where
  "dumpGroups =
     [(''identity'', identityProbes), (''position'', positionProbes), (''status flags'', flagProbes),
      (''target register'', targetProbes), (''site / clock'', clockProbes), (''limits'', limitProbes),
      (''rates / guiding'', rateProbes), (''refraction'', refractionProbes),
      (''parallactic'', [(''parallacticAngle'', fF ParallacticAngle), (''parallacticSpeed'', fF ParallacticSpeed),
         (''parallacticAngZ'', fF ParallacticAngleZenith), (''parallacticSpdZ'', fF ParallacticSpeedZenith)]),
      (''model'', [(''alignmentStars'', fI AlignmentStarCount), (''maxAlignStars'', fI MaxAlignmentStars), (''savedModelCount'', fI SavedModelCount)]),
      (''final approach'', [(''faMode'', fI2 FinalApproachMode), (''faTimeConstant'', fF FinalApproachTimeConstant),
         (''faDistanceLimit'', fF FinalApproachDistanceLimit)]),
      (''dome'', domeProbes),
      (''peripherals'', [(''focuserMaxIndex'', fI FocuserMaxIndex), (''rotatorMaxIndex'', fI RotatorMaxIndex),
         (''lowTempLimited'', fB LowTemperatureLimited), ((''elecBoxTemp'' @ degree_sign @ ''C''), boxTemperature)]),
      (''weather station'', [(''pressure'', fWeather WeatherPressure), (''temperature'', fWeather WeatherTemperature),
         (''humidity'', fWeather WeatherHumidity), (''dewPoint'', fWeather WeatherDewPoint), (''autoUpdateMode'', fI2 WeatherAutoUpdateMode)]),
      (''network'', networkProbes),
      (''satellite / dither'', [(''tleDatabaseCount'', fI DatabaseTLECount), (''loadedTLE'', fS LoadedTLE), (''transitSlewState'', fI2 transitCode),
         (''ditheringActive'', fB DitheringActive), (''ditherParams'', adapt dither_text DitherParameters)])]"

definition alarmProbes :: "string \<times> probe list" where
  "alarmProbes = (''alarms'', [(''activeAlarms'', fAlarms ActiveAlarms), (''unackedAlarms'', fAlarms UnacknowledgedAlarms)])"

definition runGroup :: "string \<times> probe list \<Rightarrow> tcon" where
  "runGroup g = inTurn [printl (hline @ hline @ '' %s '' @ hline @ hline) [AStr (fst g)], runProbes (snd g)]"

definition dump :: tcon where
  "dump = (\<lambda>s. inTurn (map runGroup (dumpGroups @ (if mcDDS (mountClass (cmount s)) then [alarmProbes] else []))) s)"

section \<open>Waiting for a motion\<close>

lemma onT_clock: "later m \<Longrightarrow> keepsE (\<lambda>s. k \<le> tm_clock s) (onT m)"
  unfolding keepsE_def onT_def tm_clock_def later_def
  by (auto split: prod.splits) (meson order_trans)

lemma tm_status_clock: "keepsE (\<lambda>s. k \<le> tm_clock s) tm_status"
proof -
  have f: "keepsE (\<lambda>s. k \<le> tm_clock s) (bindE tm_fetch (\<lambda>v. bindE (modE (tm_store v)) (\<lambda>_. okE v)))"
    unfolding tm_fetch_def by (intro keeps onT_clock Get_later keepsE_modE) (simp add: tm_store_def tm_clock_def)
  show ?thesis unfolding tm_status_def keepsE_def by (auto dest: keepsED [OF f] split: if_splits)
qed

lemma tm_Slewing_clock: "tm_Slewing s = (r, s') \<Longrightarrow> tm_clock s \<le> tm_clock s'"
proof -
  have f: "keepsE (\<lambda>t. tm_clock s \<le> tm_clock t) (bindE tm_status (\<lambda>i. okE (IsSlewing i)))"
    by (intro keeps tm_status_clock)
  show "tm_Slewing s = (r, s') \<Longrightarrow> tm_clock s \<le> tm_clock s'"
    unfolding tm_Slewing_def by (auto dest: keepsED [OF f order.refl] split: if_splits)
qed

definition tm_sleep :: "int \<Rightarrow> tenmicron \<Rightarrow> tenmicron" where
  "tm_sleep d s = s\<lparr>tconn := (tconn s)\<lparr>wire := tr_sleep d (wire (tconn s))\<rparr>\<rparr>"

function tm_wait_poll :: "int \<Rightarrow> tenmicron \<Rightarrow> wait_end \<times> tenmicron" where
  "tm_wait_poll deadline s =
     (if tm_clock s < deadline then
        (case tm_Slewing s of
           (Inl e, s) \<Rightarrow> (Failed e, s)
         | (Inr sl, s) \<Rightarrow> if \<not> sl then (Standing, s) else tm_wait_poll deadline (tm_sleep (500 * ms) s))
      else (TimedOut, s))"
  by pat_completeness auto
termination
proof (relation "measure (\<lambda>(deadline, s). nat (deadline - tm_clock s))", goal_cases)
  case (2 deadline s x t sl)
  then have "tm_Slewing s = (Inr sl, t)" by simp
  from tm_Slewing_clock [OF this] 2(1) show ?case
    by (simp add: tm_sleep_def tm_clock_def tr_sleep_def ms_def)
qed simp

declare tm_wait_poll.simps [simp del]

interpretation tmw: polled tm_clock tm_Slewing "tm_sleep (500 * ms)" tm_wait_poll
proof unfold_locales
  show "tm_wait_poll deadline s =
     (if tm_clock s < deadline then
        (case tm_Slewing s of
           (Inl e, s) \<Rightarrow> (Failed e, s)
         | (Inr sl, s) \<Rightarrow> if \<not> sl then (Standing, s) else tm_wait_poll deadline (tm_sleep (500 * ms) s))
      else (TimedOut, s))" for deadline s by (rule tm_wait_poll.simps)
qed (rule tm_Slewing_clock, assumption, simp add: tm_sleep_def tm_clock_def tr_sleep_def)

definition tm_waitSlew :: tcon where
  "tm_waitSlew = bindP (printl ''slewing...'' []) (\<lambda>_ s.
     case tm_wait_poll (tm_clock (cmount s) + 180000 * ms) (cmount s) of (o1, m) \<Rightarrow>
       (case o1 of
          Failed e \<Rightarrow> tm_printErr e
        | Standing \<Rightarrow> ginfo
        | TimedOut \<Rightarrow> printl ''timeout waiting for slew to finish'' []) (s\<lparr>cmount := m\<rparr>))"

definition startWait :: "(tenmicron, unit) io \<Rightarrow> tcon" where
  "startWait m = call m (\<lambda>_. tm_waitSlew)"

definition syncCurrent :: tcon where
  "syncCurrent = call tm_RA (\<lambda>ra. call tm_Dec (\<lambda>dec.
     call (tm_SetTargetRA ra) (\<lambda>_. call (tm_SetTargetDec dec) (\<lambda>_. inTurn
       [printl ''syncing to current RA=%.5f Dec=%.5f ...'' [AFlt ra, AFlt dec],
        call tm_SyncToTarget (\<lambda>_. printl ''ok'' [])]))))"

section \<open>Peripherals\<close>

text \<open>A reading whose error is dropped: its value is the given one, or what the conversion of a
  malformed number leaves.\<close>

definition dropErr :: "'a \<Rightarrow> (tenmicron, 'a) io \<Rightarrow> (tenmicron, 'a) io" where
  "dropErr d m = tryE m (\<lambda>r. case r of Inl _ \<Rightarrow> okE d | Inr v \<Rightarrow> okE v)"

definition looseInt :: "string \<Rightarrow> (tenmicron, int) io" where
  "looseInt cmd = dropErr 0 (bindE (onT (Get cmd)) (\<lambda>s. okE (fst (Atoi (TrimSpace s)))))"

definition looseFloat :: "string \<Rightarrow> (tenmicron, f64) io" where
  "looseFloat cmd = dropErr (Fin 0) (bindE (onT (Get cmd)) (\<lambda>s. okE (floatOf s)))"

definition noInfo :: FocuserInfo where
  "noInfo = \<lparr>fiName = [], fiType = [], fiSerial = []\<rparr>"

definition focuserLine :: "int \<Rightarrow> tcon" where
  "focuserLine n = call (dropErr False (foc_Available n)) (\<lambda>av.
     if \<not> av then printl ''  [%d] not present'' [AInt n]
     else call (dropErr noInfo (foc_Info n)) (\<lambda>i.
          call (looseInt (foc_cmd n ''GuF'')) (\<lambda>pos.
          call (looseInt (foc_cmd n ''d'')) (\<lambda>st.
            printl (''  [%d] %q pos=%d'' @ micro @ ''m status=%d'') [AInt n, AStr (fiName i), AInt pos, AInt st]))))"

text \<open>The loop over the indexes \<open>1\<close> to \<open>max\<close>; its counter is an \<open>int\<close>.\<close>

partial_function (option) count_loop :: "(int \<Rightarrow> tcon) \<Rightarrow> int \<Rightarrow> int \<Rightarrow> tcon" where
  "count_loop line n top_n s =
     (if n \<le> top_n then bindP (line n) (\<lambda>_ t. count_loop line (wrap64 (n + 1)) top_n t) s else Some (Inr (), s))"

definition focuserUsage :: string where
  "focuserUsage = ''usage: focuser <n> <status|info|goto|move|stop|home|maxspeed|range> ...''"

definition focuserProbes :: "int \<Rightarrow> probe list" where
  "focuserProbes n =
     [(''available'', fB (foc_Available n)), (''positionValid'', fB (foc_PositionValid n)), (''position'', fI (foc_Position n)),
      (''destination'', fI (foc_Destination n)), (''moving'', fB (foc_Moving n)), (''status'', fI2 (foc_Status n)),
      (''temperature'', fF (foc_Temperature n)), (''maxSpeed'', fI (foc_MaxSpeed n)), (''maxSpeedRange'', fPair (foc_MaxSpeedRange n)),
      (''range'', fPair (foc_Range n)), (''homingStatus'', fI2 (foc_HomingStatus n)), (''info'', adapt info_text (foc_Info n))]"

definition focuserSub :: "int \<Rightarrow> string list \<Rightarrow> (string list \<times> tcon) list" where
  "focuserSub n rest =
     [([[], ''status''], inTurn [printl (hline @ hline @ '' focuser %d '' @ hline @ hline) [AInt n], runProbes (focuserProbes n)]),
      ([''info''], call (foc_Info n) (\<lambda>i. printl ''name=%q type=%q serial=%q'' [AStr (fiName i), AStr (fiType i), AStr (fiSerial i)])),
      ([''goto''], pI rest ''focuser <n> goto <microns>'' (\<lambda>v. call (foc_SetDestination n v) (\<lambda>ok.
         if \<not> ok then printl ''rejected: destination out of range'' [] else tm_reportOK (foc_StartMove n)))),
      ([''move''], pI rest (''focuser <n> move <'' @ plus_minus @ micro @ ''m/s>'') (\<lambda>v. tm_reportOK (foc_MoveAtSpeed n v))),
      ([''stop''], tm_reportErr (foc_Stop n)),
      ([''home''], tm_reportOK (foc_StartHoming n)),
      ([''maxspeed''], pI rest (''focuser <n> maxspeed <'' @ micro @ ''m/s>'') (\<lambda>v. tm_reportOK (foc_SetMaxSpeed n v))),
      ([''range''], pI2 rest ''focuser <n> range <min> <max>'' (\<lambda>lo hi. tm_reportOK (foc_SetRange n lo hi)))]"

definition focuserCmd :: "string list \<Rightarrow> tcon" where
  "focuserCmd args =
     (if args = [] then call FocuserMaxIndex (\<lambda>n. bindP (printl ''focuser max index: %d'' [AInt n]) (\<lambda>_. count_loop focuserLine 1 n))
      else case int_ok (args ! 0) of
             None \<Rightarrow> printl focuserUsage []
           | Some n \<Rightarrow> (case subArgs args of (sub, rest) \<Rightarrow> switch sub (focuserSub n rest) (printl focuserUsage [])))"

definition focuser1Cmd :: "string list \<Rightarrow> tcon" where
  "focuser1Cmd args =
     (let usage = printl ''usage: focuser1 in|out|fast|slow|halt|speed <1-4>'' []
      in if args = [] then usage
         else switch (ToLower (args ! 0))
           [([''in''], tm_reportErr Focuser1In), ([''out''], tm_reportErr Focuser1Out), ([''fast''], tm_reportErr Focuser1SpeedFast),
            ([''slow''], tm_reportErr Focuser1SpeedSlow), ([''halt'', ''stop''], tm_reportErr Focuser1Halt),
            ([''speed''], pI (drop 1 args) ''focuser1 speed <1-4>'' (\<lambda>n. tm_reportErr (Focuser1Speed n)))] usage)"

definition rotatorLine :: "int \<Rightarrow> tcon" where
  "rotatorLine n = call (dropErr False (rot_Available n)) (\<lambda>av.
     if \<not> av then printl ''  [%d] not present'' [AInt n]
     else call (dropErr noInfo (rot_Info n)) (\<lambda>i.
          call (looseFloat (rot_cmd n (''G'' @ rotPosVerb RotatorEquatorial))) (\<lambda>ang.
          call (looseInt (rot_cmd n ''d'')) (\<lambda>st.
            printl (''  [%d] %q equAngle=%.4f'' @ degree_sign @ '' status=%d'') [AInt n, AStr (fiName i), AFlt ang, AInt st]))))"

definition rotatorUsage :: string where
  "rotatorUsage = ''usage: rotator <n> <status|goto|stop|home|zero|offset|maxspeed> ...''"

definition rotatorProbes :: "int \<Rightarrow> probe list" where
  "rotatorProbes n =
     [(''available'', fB (rot_Available n)), (''positionValid'', fB (rot_PositionValid n)),
      (''angleMech'', fF (rot_Angle n RotatorMechanical)), (''angleEqu'', fF (rot_Angle n RotatorEquatorial)),
      (''angleOpt'', fF (rot_Angle n RotatorOptical)), (''destEqu'', fF (rot_Destination n RotatorEquatorial)),
      (''moving'', fB (rot_Moving n)), (''status'', fI (rot_Status n)), (''offset'', fF (rot_Offset n)), (''maxSpeed'', fI (rot_MaxSpeed n)),
      (''maxSpeedRange'', fPair (rot_MaxSpeedRange n)), (''homingStatus'', fI2 (rot_HomingStatus n)), (''info'', adapt info_text (rot_Info n))]"

definition rotatorSub :: "int \<Rightarrow> string list \<Rightarrow> (string list \<times> tcon) list" where
  "rotatorSub n rest =
     [([[], ''status''], inTurn [printl (hline @ hline @ '' rotator %d '' @ hline @ hline) [AInt n], runProbes (rotatorProbes n)]),
      ([''goto''],
         if length rest \<noteq> 2 then printl ''usage: rotator <n> goto mech|equ|opt <deg>'' []
         else case rotFrame (rest ! 0) of
                None \<Rightarrow> printl ''bad frame (mech|equ|opt)'' []
              | Some fr \<Rightarrow> (case ParseFloat64 (rest ! 1) of (deg, err) \<Rightarrow>
                  (case err of Some e \<Rightarrow> tm_printErr e | None \<Rightarrow> tm_reportOK (rot_SetDestination n fr deg)))),
      ([''stop''], tm_reportErr (rot_Stop n)),
      ([''home''], tm_reportOK (rot_StartHoming n)),
      ([''zero''],
         let usage = printl ''usage: rotator <n> zero mech|equ'' []
         in if length rest \<noteq> 1 then usage
            else switch (ToLower (rest ! 0))
                   [([''mech'', ''m''], tm_reportOK (rot_ZeroMechanical n)), ([''equ'', ''eq'', ''r''], tm_reportOK (rot_ZeroEquatorial n))] usage),
      ([''offset''], pF rest ''rotator <n> offset <deg>'' (\<lambda>v. tm_reportOK (rot_SetOffset n v))),
      ([''maxspeed''], pI rest ''rotator <n> maxspeed <deg/s>'' (\<lambda>v. tm_reportOK (rot_SetMaxSpeed n v)))]"

definition rotatorCmd :: "string list \<Rightarrow> tcon" where
  "rotatorCmd args =
     (if args = [] then call RotatorMaxIndex (\<lambda>n. bindP (printl ''rotator max index: %d'' [AInt n]) (\<lambda>_. count_loop rotatorLine 1 n))
      else case int_ok (args ! 0) of
             None \<Rightarrow> printl rotatorUsage []
           | Some n \<Rightarrow> (case subArgs args of (sub, rest) \<Rightarrow> switch sub (rotatorSub n rest) (printl rotatorUsage [])))"

definition DomeDisconnect :: int where "DomeDisconnect = 0"
definition DomeOnRS232 :: int where "DomeOnRS232 = 1"
definition DomeOnGPS :: int where "DomeOnGPS = 2"

definition domeControl :: "string list \<Rightarrow> tcon" where
  "domeControl rest =
     (let usage = printl ''usage: dome control disconnect|rs232|gps'' []
      in if length rest \<noteq> 1 then usage
         else switch (ToLower (rest ! 0))
           [([''disconnect'', ''off''], tm_reportOK (SetDomeControl DomeDisconnect)), ([''rs232''], tm_reportOK (SetDomeControl DomeOnRS232)),
            ([''gps''], tm_reportOK (SetDomeControl DomeOnGPS))] usage)"

definition domeSub :: "string list \<Rightarrow> (string list \<times> tcon) list" where
  "domeSub rest =
     [([''flap''], openClose rest (\<lambda>b. tm_reportOK (CommandDomeFlap b))),
      ([''shutter''], openClose rest (\<lambda>b. tm_reportOK (CommandDomeShutter b))),
      ([''slew''], pF rest ''dome slew <az>'' (\<lambda>v. tm_reportOK (SlewDomeToAzimuth v))),
      ([''release''], tm_reportErr ReleaseDomeControl),
      ([''home''], tm_reportOK StartDomeHoming),
      ([''control''], domeControl rest),
      ([''settle''], pF rest ''dome settle <sec>'' (\<lambda>s. tm_reportErr (SetDomeSettleTime (seconds_dur s)))),
      ([''radius''], pI rest ''dome radius <mm>'' (\<lambda>v. tm_reportErr (SetDomeRadius v))),
      ([''update''], pI rest ''dome update <sec>'' (\<lambda>v. tm_reportErr (SetDomeUpdateInterval v))),
      ([''mounttype''], pI rest ''dome mounttype <1|2>'' (\<lambda>v. tm_reportErr (SetDomeMountType v)))]"

definition domeCmd :: "string list \<Rightarrow> tcon" where
  "domeCmd args =
     (case args of
        [] \<Rightarrow> runProbes domeProbes
      | sub # rest \<Rightarrow> switch (ToLower sub) (domeSub rest)
          (printl (''usage: dome [flap|shutter open|close | slew <az> | release | home | control '' @ ellipsis @ '' | settle/radius/update/mounttype '' @ ellipsis @ '']'') []))"

definition transitLine :: "string \<Rightarrow> (tenmicron, Transit) io \<Rightarrow> tcon" where
  "transitLine what m = call m (\<lambda>tr. printl (what @ ('': JD %.6f '' @ arrow @ '' %.6f  flip=%v''))
     [AFlt (JDStart tr), AFlt (JDEnd tr), AStr (bool_text (tFlip tr))])"

definition satOffset :: "string \<Rightarrow> string list \<Rightarrow> tcon" where
  "satOffset sub rest =
     (if length rest \<noteq> 2 then printl ''usage: sat %s <id 1-4> <value>'' [AStr sub]
      else case (int_ok (rest ! 0), float_ok (rest ! 1)) of
             (Some n, Some v) \<Rightarrow>
               if ToLower sub = ''offadd'' then tm_reportErr (AddTrajectoryOffset n v) else tm_reportErr (SetTrajectoryOffset n v)
           | _ \<Rightarrow> printl ''err: id int, value float'' [])"

definition satSub :: "string \<Rightarrow> string list \<Rightarrow> (string list \<times> tcon) list" where
  "satSub sub rest =
     [([''load''], if rest = [] then printl ''usage: sat load <tle text>'' [] else tm_reportErr (LoadTLE (Join rest '' ''))),
      ([''dbcount''], reportI DatabaseTLECount),
      ([''dbload''], pI rest ''sat dbload <n>'' (\<lambda>n. tm_report (LoadDatabaseTLE n))),
      ([''eq''], pF rest ''sat eq <julianDate>'' (\<lambda>jd. call (SatelliteEquatorial jd) (\<lambda>(ra, dec).
         printl (''RA=%.5f h  Dec=%.5f'' @ degree_sign) [AFlt ra, AFlt dec]))),
      ([''az''], pF rest ''sat az <julianDate>'' (\<lambda>jd. call (SatelliteHorizontal jd) (\<lambda>(alt, az).
         printl (''Alt=%.5f'' @ degree_sign @ ''  Az=%.5f'' @ degree_sign) [AFlt alt, AFlt az]))),
      ([''precalc''],
         if length rest \<noteq> 2 then printl ''usage: sat precalc <jd> <minutes>'' []
         else case (float_ok (rest ! 0), int_ok (rest ! 1)) of
                (Some jd, Some mins) \<Rightarrow> transitLine ''transit'' (PrecalcTransit jd mins)
              | _ \<Rightarrow> printl ''err: jd float, minutes int'' []),
      ([''replay''], transitLine ''trajectory'' ReplayTrajectory),
      ([''slew''], tm_reportErr SlewToTransit),
      ([''status''], reportI transitCode),
      ([''offget''], pI rest ''sat offget <id 1-4>'' (\<lambda>n. tm_reportF (TrajectoryOffsetValue n))),
      ([''offset'', ''offadd''], satOffset sub rest),
      ([''offclear''], tm_reportErr ClearTrajectoryOffsets)]"

definition satCmd :: "string list \<Rightarrow> tcon" where
  "satCmd args =
     (case args of
        [] \<Rightarrow> runProbes [(''loadedTLE'', fS LoadedTLE), (''dbCount'', fI DatabaseTLECount), (''transitSlew'', fI2 transitCode)]
      | sub # rest \<Rightarrow> switch (ToLower sub) (satSub sub rest)
          (printl (''usage: sat [load <tle> | dbcount | dbload <n> | eq/az <jd> | precalc <jd> <min> | replay | slew | status | offget/offset/offadd/offclear '' @ ellipsis @ '']'') []))"

section \<open>The verbs\<close>

text \<open>The cases of the switch, by the groups of the source.\<close>

definition tm_rawVerbs :: "int \<Rightarrow> string list \<Rightarrow> (string list \<times> tcon) list" where
  "tm_rawVerbs limit args =
     [([''g'', ''get''], if length args \<noteq> 1 then printl ''usage: g :CMD#'' [] else tm_report (onT (Get (args ! 0)))),
      ([''a'', ''ack''], if length args \<noteq> 1 then printl ''usage: a :CMD#'' []
         else call (onT (AckByte (args ! 0))) (\<lambda>b. printl ''byte: %q (0x%02x)'' [AStr (rune_str b), AInt (of_char b)])),
      ([''b'', ''blind''], if length args \<noteq> 1 then printl ''usage: b :CMD#'' []
         else call (onT (Blind (args ! 0))) (\<lambda>_. printl ''sent (no reply expected)'' [])),
      ([''w'', ''await''],
         tm_report (onT (Await (if length args = 1 then (case int_ok (args ! 0) of Some n \<Rightarrow> wrap64 (n * ms) | None \<Rightarrow> limit) else limit))))]"

definition tm_readVerbs :: "string list \<Rightarrow> (string list \<times> tcon) list" where
  "tm_readVerbs args =
     [([''ra''], tm_reportF tm_RA), ([''dec''], tm_reportF tm_Dec), ([''alt''], tm_reportF tm_Altitude), ([''az''], tm_reportF tm_Azimuth),
      ([''lst''], tm_reportF (onT SiderealTime)), ([''pier''], reportS (pierStr tm_PierSide)), ([''pointing''], reportS (pierStr PointingState)),
      ([''destpier''], reportS (pierStr DestinationSideOfPier)), ([''slewing''], tm_reportB tm_Slewing), ([''tracking''], tm_reportB tm_Tracking),
      ([''trackactive''], tm_reportB TrackingActive), ([''dualaxis''], tm_reportB DualAxisTracking), ([''athome''], tm_reportB tm_AtHome),
      ([''atpark''], tm_reportB tm_AtPark), ([''statuscode''], reportI StatusCode), ([''slewprog''], tm_reportB SlewInProgress),
      ([''trackable''], tm_reportB TargetTrackable), ([''ginfo'', ''status'', ''st''], ginfo), ([''dump''], dump),
      ([''version'', ''ver''], tm_report (onT Firmware)), ([''fwdate''], reportT FirmwareDate), ([''fwtime''], tm_report FirmwareTime),
      ([''product''], tm_report tm_Product), ([''hwid''], tm_report HardwareID), ([''controlbox''], tm_report ControlBoxVersion),
      ([''mountcfg''], mountCfg), ([''alarms''], alarms),
      ([''alarmack''], if length args \<noteq> 1 then printl ''usage: alarmack <alarm-id>   (e.g. 1001)'' []
         else case int_ok (args ! 0) of
                None \<Rightarrow> printl ''err: bad alarm id %q'' [AStr (args ! 0)]
              | Some n \<Rightarrow> tm_reportErr (AcknowledgeAlarm n)),
      ([''clock'', ''site''], runProbes clockProbes), ([''limits''], runProbes limitProbes), ([''rates''], runProbes rateProbes),
      ([''refraction''], runProbes refractionProbes), ([''target'', ''tgt''], runProbes targetProbes), ([''network'', ''net''], runProbes networkProbes),
      ([''dome''], domeCmd args), ([''focuser'', ''foc''], focuserCmd args), ([''focuser1'', ''f1''], focuser1Cmd args),
      ([''rotator'', ''rot''], rotatorCmd args), ([''sat'', ''satellite''], satCmd args), ([''guiderate''], tm_reportF tm_GuideRate),
      ([''temp''], if length args \<noteq> 1 then printl (''usage: temp <sensor#>  (1 RA drv,2 Dec drv,9 elec box,'' @ ellipsis @ '')'') []
         else call (Temperature (fst (Atoi (args ! 0)))) (\<lambda>v. printl (''value: %.2f '' @ degree_sign @ ''C'') [AFlt v])),
      ([''model''], modelVerb)]"

definition targetVerbs :: "string list \<Rightarrow> (string list \<times> tcon) list" where
  "targetVerbs args =
     [([''sr'', ''settargetra''], pF args ''sr <hours>'' (\<lambda>h. tm_reportOK (tm_SetTargetRA h))),
      ([''sd'', ''settargetdec''], pF args ''sd <deg>'' (\<lambda>d. tm_reportOK (tm_SetTargetDec d))),
      ([''sa'', ''settargetalt''], pF args ''sa <deg>'' (\<lambda>d. tm_reportOK (SetTargetAltitude d))),
      ([''sz'', ''settargetaz''], pF args ''sz <deg>'' (\<lambda>d. tm_reportOK (SetTargetAzimuth d)))]"

definition siteVerbs :: "(int \<Rightarrow> gotime) \<Rightarrow> string list \<Rightarrow> (string list \<times> tcon) list" where
  "siteVerbs host args =
     [([''setsitelat''], pF args ''setsitelat <deg>'' (\<lambda>d. tm_reportErr (tm_SetSiteLatitude d))),
      ([''setsitelon''], pF args ''setsitelon <deg, east+>'' (\<lambda>d. tm_reportErr (tm_SetSiteLongitude d))),
      ([''setsiteelev''], pF args ''setsiteelev <meters>'' (\<lambda>d. tm_reportErr (tm_SetSiteElevation d))),
      ([''setutcoffset''], pF args ''setutcoffset <hours>'' (\<lambda>h. tm_reportErr (tm_SetUTCOffset (hours_dur h)))),
      ([''setutc''], parseWhen host args (\<lambda>t. tm_reportErr (tm_SetUTC t))),
      ([''setclock''], parseWhen host args (\<lambda>t. reportWith (\<lambda>e. printl ''err (date): %v'' [AStr (err_text e)])
         (\<lambda>_. tm_reportErr (SetTime t)) (runP (tm_SetDate t)))),
      ([''setjd''], pF args ''setjd <julianDate>'' (\<lambda>jd. tm_reportErr (SetJulianDate jd))),
      ([''nudgetime''], pI args (''nudgetime <'' @ plus_minus @ ''ms>'') (\<lambda>n. tm_reportErr (NudgeTime n))),
      ([''updategps''], tm_reportOK UpdateFromGPS)]"

definition limitVerbs :: "string list \<Rightarrow> (string list \<times> tcon) list" where
  "limitVerbs args =
     [([''sethighalt''], pI args ''sethighalt <deg>'' (\<lambda>d. tm_reportOK (SetHighAltitudeLimit d))),
      ([''setlowalt''], pI args ''setlowalt <deg, -5..45>'' (\<lambda>d. tm_reportOK (SetLowAltitudeLimit d))),
      ([''setmertrack''], pI args ''setmertrack <deg>'' (\<lambda>d. tm_reportOK (SetMeridianTrackLimit d))),
      ([''setmerslew''], pI args ''setmerslew <deg>'' (\<lambda>d. tm_reportOK (SetMeridianSlewLimit d))),
      ([''setmerside''], parseMerSide args (\<lambda>s. tm_reportOK (SetMeridianSideBehaviour s))),
      ([''setsettle''], pF args ''setsettle <seconds>'' (\<lambda>s. tm_reportErr (SetSlewSettleTime (seconds_dur s)))),
      ([''setunattended''], tm_onOff args (\<lambda>b. tm_reportErr (SetUnattendedFlip b)))]"

definition rateVerbs :: "string list \<Rightarrow> (string list \<times> tcon) list" where
  "rateVerbs args =
     [([''setmaxslew''], pI args ''setmaxslew <degPerSec>'' (\<lambda>d. tm_reportOK (SetMaxSlewRate d))),
      ([''setautoslew''], pI args ''setautoslew <degPerSec>'' (\<lambda>d. tm_reportErr (SetAutomatedSlewRate d))),
      ([''setguideidx''], pI args (''setguideidx <0-2> (0.25/0.5/1.0'' @ times_sign @ '')'') (\<lambda>n. tm_reportErr (SetGuidingRateIndex n))),
      ([''setcenteridx''], pI args (''setcenteridx <0-3> (16/64/600/1200'' @ times_sign @ '')'') (\<lambda>n. tm_reportErr (SetCenteringRateIndex n))),
      ([''setslewidx''], pI args (''setslewidx <0-2> (1200/900/600'' @ times_sign @ '')'') (\<lambda>n. tm_reportErr (tm_SetSlewRateIndex n))),
      ([''setcenter''], pI args (''setcenter <1-255 '' @ times_sign @ ''sidereal>'') (\<lambda>x. tm_reportErr (SetCenteringRateSidereal x))),
      ([''setslew''], pI args (''setslew <1-1200 '' @ times_sign @ ''sidereal>'') (\<lambda>x. tm_reportErr (SetSlewRateSidereal x))),
      ([''setguiderate''], pF args ''setguiderate <arcsec/s>'' (\<lambda>v. tm_reportErr (tm_SetGuideRate v))),
      ([''setguideport''], tm_onOff args (\<lambda>b. tm_reportErr (SetGuiderPortEnabled b))),
      ([''precision''], precisionVerb args)]"

definition airVerbs :: "string list \<Rightarrow> (string list \<times> tcon) list" where
  "airVerbs args =
     [([''setrefraction''],
         if length args \<noteq> 2 then printl ''usage: setrefraction <hPa> <tempC>'' []
         else case (float_ok (args ! 0), float_ok (args ! 1)) of
                (Some p, Some t) \<Rightarrow> tm_reportErr (SetRefraction p t)
              | _ \<Rightarrow> printl ''err: hPa/tempC must be numbers'' []),
      ([''setpressure''], pF args ''setpressure <hPa>'' (\<lambda>v. tm_reportErr (SetRefractionPressure v))),
      ([''settemp''], pF args (''settemp <'' @ degree_sign @ ''C>'') (\<lambda>v. tm_reportErr (SetRefractionTemperature v))),
      ([''refcorr''], tm_onOff args (\<lambda>b. tm_reportOK (SetRefractionCorrection b))),
      ([''speedcorr''], tm_onOff args (\<lambda>b. tm_reportOK (SetSpeedCorrection b))),
      ([''setdecbacklash''], pF args ''setdecbacklash <arcsec>'' (\<lambda>v. tm_reportErr (SetDecBacklash v))),
      ([''setrabacklash''], pF args ''setrabacklash <arcsec>'' (\<lambda>v. tm_reportErr (SetRABacklash v)))]"

definition trackVerbs :: "string list \<Rightarrow> (string list \<times> tcon) list" where
  "trackVerbs args =
     [([''trackrate''], parseTrackRate args (\<lambda>r. tm_reportErr (SetTrackRate r))),
      ([''setdualaxis''], tm_onOff args (\<lambda>b. tm_reportErr (SetDualAxisTracking b))),
      ([''setrarate''], pF args (''setrarate <'' @ times_sign @ ''sidereal>'') (\<lambda>v. tm_reportErr (SetCustomRARate v))),
      ([''setdecrate''], pF args (''setdecrate <'' @ times_sign @ ''sidereal>'') (\<lambda>v. tm_reportErr (SetCustomDecRate v))),
      ([''settrackarcsec''], pF args ''settrackarcsec <arcsec/s>'' (\<lambda>v. tm_reportErr (SetTrackRateArcsec v)))]"

definition tm_gotoVerbs :: "string list \<Rightarrow> (string list \<times> tcon) list" where
  "tm_gotoVerbs args =
     [([''slew''], startWait tm_SlewToTarget), ([''slewfine''], startWait SlewToTargetFineLimit),
      ([''altaz''],
         if length args \<noteq> 2 then printl ''usage: altaz <az> <alt>'' []
         else case (float_ok (args ! 0), float_ok (args ! 1)) of
                (Some az, Some alt) \<Rightarrow> startWait (tm_SlewToAltAz alt az)
              | _ \<Rightarrow> printl ''err: az/alt must be numbers'' []),
      ([''sync''], call tm_SyncToTarget (\<lambda>_. printl ''ok'' [])), ([''synccurrent''], syncCurrent), ([''flip''], startWait Flip),
      ([''nudge''],
         if length args \<noteq> 2 then printl ''usage: nudge <raAzArcsec> <decAltArcsec>'' []
         else case (int_ok (args ! 0), int_ok (args ! 1)) of
                (Some ra, Some dec) \<Rightarrow> startWait (Nudge ra dec)
              | _ \<Rightarrow> printl ''err: offsets must be integers (arcsec)'' []),
      ([''home''], startWait tm_FindHome), ([''park''], startWait tm_Park),
      ([''raaxis''], if args = [] then startWait SlewToRAAxis else pF args ''raaxis [<deg>]'' (\<lambda>d. startWait (RotateRAAxis d))),
      ([''unpark''], tm_reportErr tm_Unpark), ([''stop''], tm_reportErr tm_Stop), ([''halt''], tm_reportErr tm_Halt)]"

definition tm_moveVerbs :: "string list \<Rightarrow> (string list \<times> tcon) list" where
  "tm_moveVerbs args =
     [([''track''], tm_onOff args (\<lambda>b. tm_reportErr (tm_SetTracking b))),
      ([''sidereal''], tm_reportErr tm_TrackSidereal), ([''solar''], tm_reportErr tm_TrackSolar), ([''lunar''], tm_reportErr tm_TrackLunar),
      ([''move''], tm_dir args (\<lambda>d. tm_reportErr (onT (Move d)))),
      ([''rate''], tm_rate args (\<lambda>r. tm_reportErr (onT (SetRate r)))),
      ([''moveaxis''], tm_moveAxis args), ([''stopaxis''], axis args (\<lambda>a. tm_reportErr (tm_StopAxis a))), ([''pulse''], tm_pulse args)]"

definition tm_help_text :: "string list" where
  "tm_help_text =
    [''raw protocol (type the full frame, e.g. :GVN#):'',
     ''  g :CMD#   a :CMD#   b :CMD#   w [ms]        query / ack-byte / blind / await'',
     (''  :CMD#     shorthand for '' @ apos @ ''g :CMD#'' @ apos),
     [],
     (''reads '' @ em_dash @ '' position / status:''),
     ''  ra dec alt az lst  pier pointing destpier'',
     ''  slewing tracking trackactive dualaxis athome atpark statuscode slewprog trackable'',
     ''  ginfo                decode a fresh :Ginfo#'',
     ''  dump                 read-only sweep of EVERY no-arg getter (the validation pass)'',
     [],
     (''reads '' @ em_dash @ '' grouped:''),
     ''  clock  limits  rates  refraction  target  network  dome  model  mountcfg'',
     (''  alarms               DDS alarm lists (fw '' @ ge_sign @ '' 3.4); alarmack <id> to acknowledge''),
     ''  version fwdate fwtime product hwid controlbox  guiderate  temp <sensor#>'',
     [],
     ''target setters (round-trip the coordinate encoders):'',
     ''  sr <hours>  sd <deg>  sa <alt>  sz <az>'',
     [],
     ''site / time setters:'',
     ''  setsitelat <deg>  setsitelon <deg,E+>  setsiteelev <m>'',
     ''  setutcoffset <hours>  setutc [RFC3339]  setclock [RFC3339]  setjd <jd>'',
     (''  nudgetime <'' @ plus_minus @ ''ms>  updategps''),
     [],
     ''limit setters:'',
     ''  sethighalt <deg>  setlowalt <deg>  setmertrack <deg>  setmerslew <deg>'',
     ''  setmerside both|west|east  setsettle <sec>  setunattended on|off'',
     [],
     ''rate setters:'',
     ''  setmaxslew <deg/s>  setautoslew <deg/s>  setguideidx <0-2>  setcenteridx <0-3>'',
     ''  setslewidx <0-2>  setcenter <1-255>  setslew <1-1200>'',
     ''  setguiderate <arcsec/s>  setguideport on|off'',
     [],
     ''precision:   precision low|high|ultra|toggle'',
     (''refraction:  setrefraction <hPa> <tempC>  setpressure <hPa>  settemp <'' @ degree_sign @ ''C>''),
     ''             refcorr on|off  speedcorr on|off'',
     ''backlash:    setdecbacklash <arcsec>  setrabacklash <arcsec>'',
     ''tracking:    track on|off  sidereal solar lunar  trackrate lunar|solar|sidereal|stop'',
     (''             setdualaxis on|off  setrarate <'' @ times_sign @ ''sid>  setdecrate <'' @ times_sign @ ''sid>  settrackarcsec <'' @ dquote @ ''/s>''),
     [],
     ''goto / sync (motion commands wait for the slew to finish):'',
     (''  slew  slewfine  sync  synccurrent  altaz <az> <alt>  flip  nudge <raAz'' @ dquote @ ''> <decAlt'' @ dquote @ ''>''),
     ''  home  park  unpark  stop  halt'',
     (''  raaxis                   go to the RA-axis reference (RA axis 90'' @ degree_sign @ '', Dec axis 0'' @ degree_sign @ '') and stop''),
     ''  raaxis <deg>             rotate the RA axis to an exact mechanical angle (Dec unchanged)'',
     [],
     ''manual motion:'',
     ''  move n|s|e|w  rate g|c|f|s  moveaxis pri|sec +|- <deg/s>  stopaxis pri|sec  pulse n|s|e|w <ms>'',
     [],
     ''peripherals (no-arg form probes presence first):'',
     (''  focuser [<n> status|info|goto <'' @ micro @ ''m>|move <'' @ plus_minus @ micro @ ''m/s>|stop|home|maxspeed <'' @ micro @ ''m/s>|range <lo> <hi>]''),
     ''  focuser1 in|out|fast|slow|halt|speed <1-4>'',
     ''  rotator [<n> status|goto mech|equ|opt <deg>|stop|home|zero mech|equ|offset <deg>|maxspeed <deg/s>]'',
     ''  dome  [flap|shutter open|close | slew <az> | release | home | control disconnect|rs232|gps'',
     ''         | settle <sec> | radius <mm> | update <sec> | mounttype <1|2>]'',
     ''  sat   [load <tle> | dbcount | dbload <n> | eq|az <jd> | precalc <jd> <min>'',
     ''         | replay | slew | status | offget <id> | offset|offadd <id> <val> | offclear]'',
     [],
     ''  help   quit'']"

definition tm_help :: tcon where
  "tm_help = inTurn (map (\<lambda>l. printl ''%s'' [AStr l]) tm_help_text)"

definition tm_verbs :: "int \<Rightarrow> (int \<Rightarrow> gotime) \<Rightarrow> string list \<Rightarrow> (string list \<times> tcon) list" where
  "tm_verbs limit host args =
     tm_rawVerbs limit args @ tm_readVerbs args @ targetVerbs args @ siteVerbs host args @ limitVerbs args @ rateVerbs args
     @ airVerbs args @ trackVerbs args @ tm_gotoVerbs args @ tm_moveVerbs args @ [([''help'', ''?'', ''h''], tm_help)]"

definition tm_line :: "int \<Rightarrow> (int \<Rightarrow> gotime) \<Rightarrow> string \<Rightarrow> tcon" where
  "tm_line limit host line =
     (case Fields line of
        [] \<Rightarrow> errP noWord
      | f # args \<Rightarrow>
          let verb = ToLower f
          in switch verb (tm_verbs limit host args)
               (if HasPrefix verb '':'' then tm_report (onT (Get f))
                else printl (''unknown command %q (try '' @ apos @ ''help'' @ apos @ '')'') [AStr verb]))"

section \<open>A session and the program\<close>

fun tm_session :: "int \<Rightarrow> (int \<Rightarrow> gotime) \<Rightarrow> string list \<Rightarrow> tcon" where
  "tm_session limit host [] = okP ()"
| "tm_session limit host (l # ls) =
     (let line = TrimSpace l
      in if line \<in> {''quit'', ''exit'', ''q''} then okP ()
         else bindP (if line = [] then okP () else tm_line limit host line) (\<lambda>_. tm_session limit host ls))"

definition tm_console :: "int \<Rightarrow> (int \<Rightarrow> gotime) \<Rightarrow> string \<Rightarrow> string list \<Rightarrow> string list \<Rightarrow> tcon" where
  "tm_console limit host addr args input = bindP
     (reportWith (\<lambda>e. printl ''connected %s (version read failed: %v)'' [AStr addr, AStr (err_text e)])
        (\<lambda>v s. printl (''connected %s '' @ em_dash @ '' firmware %q (%s), %s'')
           [AStr addr, AStr v, AStr (VersionString (FirmwareVersion (cmount s))), AStr (mcProduct (mountClass (cmount s)))] s)
        (runP (onT Firmware))) (\<lambda>_.
      if args \<noteq> [] then tm_line limit host (Join args '' '')
      else bindP (printl (''type '' @ apos @ ''help'' @ apos @ '' for commands, '' @ apos @ ''quit'' @ apos @ '' to exit'') []) (\<lambda>_. tm_session limit host input))"

datatype tm_exit = NoAddress | CannotConnect gerr | Died gerr "(string \<times> farg list) list" | Finished "(string \<times> farg list) list"

text \<open>\<open>main\<close>: the flags, the words after them and the lines of the standard input.\<close>

definition tm_main :: "'w tcp \<Rightarrow> (int \<Rightarrow> gotime) \<Rightarrow> string \<Rightarrow> int \<Rightarrow> string list \<Rightarrow> string list \<Rightarrow> 'w \<Rightarrow> (tm_exit \<times> 'w) option" where
  "tm_main N host addr limit args input w =
     (if addr = [] then Some (NoAddress, w)
      else case tm_Dial N addr w of
             (Inl e, w) \<Rightarrow> Some (CannotConnect e, w)
           | (Inr m, w) \<Rightarrow>
               Option.bind (tm_console limit host addr args input \<lparr>cmount = m, printed = []\<rparr>) (\<lambda>(r, s).
                 Some ((case r of Inl e \<Rightarrow> Died e (printed s) | Inr _ \<Rightarrow> Finished (printed s)),
                       netClose N (wire (tconn (cmount s))) w)))"

section \<open>Every command ends\<close>

lemma answers_printErr [answered]: "answers (tm_printErr e)"
  unfolding tm_printErr_def by (intro answered)

lemma answers_call [answered]: "(\<And>v. answers (f v)) \<Longrightarrow> answers (call m f)"
  unfolding call_def by (intro answered)

lemma answers_reports [answered]:
  "answers (tm_report m1)" "answers (reportS m1)" "answers (tm_reportF m2)" "answers (reportI m3)" "answers (tm_reportB m4)"
  "answers (reportT m5)" "answers (tm_reportOK m4)" "answers (tm_reportErr m6)"
  unfolding tm_report_def reportS_def tm_reportF_def reportI_def tm_reportB_def reportT_def tm_reportOK_def tm_reportErr_def
  by (intro answered)+

lemma answers_arguments [answered]:
  "(\<And>v. answers (f1 v)) \<Longrightarrow> answers (pF args u f1)" "(\<And>v. answers (f2 v)) \<Longrightarrow> answers (pI args u f2)"
  "(\<And>a b. answers (f3 a b)) \<Longrightarrow> answers (pI2 args u f3)" "(\<And>b. answers (f4 b)) \<Longrightarrow> answers (choice args yes no f4)"
  unfolding pF_def pI_def pI2_def choice_def by (intro answered | assumption)+

lemma answers_switches [answered]:
  "(\<And>b. answers (f1 b)) \<Longrightarrow> answers (tm_onOff args f1)" "(\<And>b. answers (f1 b)) \<Longrightarrow> answers (openClose args f1)"
  "(\<And>v. answers (f2 v)) \<Longrightarrow> answers (parseMerSide args f2)" "(\<And>v. answers (f2 v)) \<Longrightarrow> answers (parseTrackRate args f2)"
  "(\<And>v. answers (f3 v)) \<Longrightarrow> answers (tm_dir args f3)" "(\<And>v. answers (f3 v)) \<Longrightarrow> answers (tm_rate args f3)"
  "(\<And>v. answers (f2 v)) \<Longrightarrow> answers (axis args f2)"
  unfolding tm_onOff_def openClose_def parseMerSide_def parseTrackRate_def tm_dir_def tm_rate_def axis_def Let_def
  by (auto intro!: answered intro: answers_switch)

lemma answers_when [answered]: "(\<And>t. answers (f t)) \<Longrightarrow> answers (parseWhen host args f)"
proof -
  assume f: "\<And>t. answers (f t)"
  have "answers (hostUTC host f)" using f by (auto simp: hostUTC_def answers_def)
  with f show ?thesis unfolding parseWhen_def by (intro answered)
qed

lemma answers_probe [answered]: "answers (runProbe p)"
  unfolding runProbe_def by (intro answered)

lemma finishes_probes: "finishes (runProbes ps)"
  unfolding runProbes_def by (rule finishes_inTurn) (auto intro: answered)

lemma answers_Cons [answered]: "answers (runProbes (p # ps))"
  unfolding runProbes_def by (rule answers_inTurn) (auto intro: answered)

lemma answers_headed: "answers (inTurn [printl f a, runProbes ps])"
  unfolding inTurn.simps bindP_okP by (intro answers_then answered finishes_probes)

lemma answers_listed [answered]:
  "answers (runProbes domeProbes)" "answers (runProbes clockProbes)" "answers (runProbes limitProbes)" "answers (runProbes rateProbes)"
  "answers (runProbes refractionProbes)" "answers (runProbes targetProbes)" "answers (runProbes networkProbes)"
  unfolding domeProbes_def clockProbes_def limitProbes_def rateProbes_def refractionProbes_def targetProbes_def networkProbes_def
  by (rule answers_Cons)+

lemma answers_groups [answered]: "answers (runGroup g)" "answers dump"
proof -
  show g: "answers (runGroup g)" for g unfolding runGroup_def by (rule answers_headed)
  have "answers (inTurn (map runGroup (dumpGroups @ gs)))" for gs
    by (rule answers_inTurn) (auto intro: g simp: dumpGroups_def simp del: inTurn.simps)
  then show "answers dump" unfolding dump_def answers_def by blast
qed

lemma answers_ginfo [answered]: "answers ginfo"
  unfolding ginfo_def by (intro answered answers_inTurn) (auto intro: answered)

lemma answers_wait [answered]: "answers tm_waitSlew"
proof -
  define told where "told o1 = (case o1 of
          Failed e \<Rightarrow> tm_printErr e
        | Standing \<Rightarrow> ginfo
        | TimedOut \<Rightarrow> printl ''timeout waiting for slew to finish'' [])" for o1
  have t: "answers (told o1)" for o1 unfolding told_def by (cases o1) (simp_all only: wait_end.case, (intro answered)+)
  have "answers (\<lambda>s. case tm_wait_poll (tm_clock (cmount s) + 180000 * ms) (cmount s) of (o1, m) \<Rightarrow> told o1 (s\<lparr>cmount := m\<rparr>))"
    unfolding answers_def
  proof
    fix s :: "tenmicron console"
    obtain o1 m where m: "tm_wait_poll (tm_clock (cmount s) + 180000 * ms) (cmount s) = (o1, m)" by fastforce
    from answersD [OF t, of o1 "s\<lparr>cmount := m\<rparr>"] m
    show "\<exists>s'. (case tm_wait_poll (tm_clock (cmount s) + 180000 * ms) (cmount s) of (o1, m) \<Rightarrow> told o1 (s\<lparr>cmount := m\<rparr>)) = Some (Inr (), s')
        \<and> strict_prefix (printed s) (printed s')" by simp
  qed
  then show ?thesis unfolding tm_waitSlew_def told_def by (intro answered)
qed

lemma answers_actions [answered]:
  "answers (startWait m)" "answers syncCurrent" "answers (tm_moveAxis args)" "answers (tm_pulse args)" "answers (precisionVerb args)"
  "answers mountCfg" "answers (alarmLines t l)" "answers alarms" "answers modelVerb" "answers (focuserLine n)" "answers (rotatorLine n)"
  "answers (transitLine w tr)" "answers (satOffset sub rest)" "answers (domeControl rest)" "answers tm_help"
proof -
  show "answers (startWait m)" unfolding startWait_def by (intro answered)
  show "answers syncCurrent" unfolding syncCurrent_def by (intro answered answers_inTurn) (auto intro: answered)
  show "answers (tm_moveAxis args)" unfolding tm_moveAxis_def by (intro answered)
  show "answers (tm_pulse args)" unfolding tm_pulse_def by (intro answered)
  show "answers (precisionVerb args)" unfolding precisionVerb_def Let_def by (auto intro!: answered intro: answers_switch)
  have "answers (\<lambda>s. printl f (g s) s)" for f and g :: "tenmicron console \<Rightarrow> farg list"
    by (simp add: answers_def printl_def strict_prefix_def)
  then show "answers mountCfg" unfolding mountCfg_def Let_def by (intro answers_inTurn) (auto intro: answered)
  have row: "answers (if l = [] then m else inTurn (map f l))" if "answers m" "\<And>a. answers (f a)" for m and f :: "int \<Rightarrow> tcon" and l
  proof (cases "l = []")
    case False
    then have "answers (inTurn (map f l))" by (intro answers_inTurn) (auto intro: that)
    with False show ?thesis by simp
  qed (simp add: that)
  show a: "answers (alarmLines t l)" for t l unfolding alarmLines_def by (intro answered row)
  show "answers alarms" unfolding alarms_def by (rule answers_inTurn) (auto intro: a)
  show "answers modelVerb" unfolding modelVerb_def
    by (rule answers_inTurn) (auto intro!: answered simp del: inTurn.simps, (rule answers_inTurn, auto intro: answered)+)
  show "answers (focuserLine n)" unfolding focuserLine_def by (intro answered)
  show "answers (rotatorLine n)" unfolding rotatorLine_def by (intro answered)
  show "answers (transitLine w tr)" unfolding transitLine_def by (intro answered)
  show "answers (satOffset sub rest)" unfolding satOffset_def by (intro answered)
  show "answers (domeControl rest)" unfolding domeControl_def Let_def by (auto intro!: answered intro: answers_switch)
  show "answers tm_help" unfolding tm_help_def by (rule answers_inTurn) (auto intro: answered simp: tm_help_text_def)
qed

lemma answers_subverbs:
  "(ns, a) \<in> set (focuserSub n rest) \<Longrightarrow> answers a" "(ns, a) \<in> set (rotatorSub n rest) \<Longrightarrow> answers a"
  "(ns, a) \<in> set (domeSub rest) \<Longrightarrow> answers a" "(ns, a) \<in> set (satSub sub rest) \<Longrightarrow> answers a"
  unfolding focuserSub_def rotatorSub_def domeSub_def satSub_def Let_def
  by (auto intro!: answered answers_headed intro: answers_switch simp del: inTurn.simps)

lemmas answers_sub = answers_subverbs [THEN answers_switch]

text \<open>The listing of the focusers or rotators ends for every count a mount may reasonably report; for the
  largest \<open>int\<close> its counter wraps around and it does not.\<close>

lemma wrap64_less: "- 9223372036854775808 \<le> n \<Longrightarrow> n < 9223372036854775808 \<Longrightarrow> wrap64 n = n"
  by (simp add: wrap64_def)

lemma count_loop_ends:
  assumes "\<And>n. answers (line n)" "1 \<le> n" "top_n < 9223372036854775807"
  shows "finishes (count_loop line n top_n)"
  using assms(2)
proof (induction "nat (top_n + 1 - n)" arbitrary: n)
  case 0
  then have "count_loop line n top_n s = Some (Inr (), s)" for s by (subst count_loop.simps) simp
  then show ?case by (simp add: finishes_def)
next
  case (Suc k)
  then have "n \<le> top_n" by simp
  then have "wrap64 (n + 1) = n + 1" using Suc(3) assms(3) by (intro wrap64_less) auto
  then have e: "count_loop line n top_n = bindP (line n) (\<lambda>_. count_loop line (n + 1) top_n)"
    using \<open>n \<le> top_n\<close> by (intro ext) (subst count_loop.simps, simp)
  have "finishes (count_loop line (n + 1) top_n)" by (rule Suc(1)) (use Suc(2,3) in auto)
  then show ?case unfolding e by (intro answers_finishes [OF answers_then] assms(1))
qed

lemma wrap64_bound: "wrap64 n \<le> 9223372036854775807"
  by (simp add: wrap64_def)

lemma count_loop_wraps:
  assumes "\<And>n. answers (line n)" "n \<le> 9223372036854775807"
  shows "count_loop line n 9223372036854775807 s = None"
proof -
  have "(\<forall>n. answers (line n)) \<longrightarrow> n \<le> 9223372036854775807 \<longrightarrow> top_n = 9223372036854775807 \<longrightarrow> False"
    if "count_loop line n top_n s = Some y" for line n top_n s y
  proof (rule count_loop.raw_induct [OF _ that])
    fix loop :: "(int \<Rightarrow> tcon) \<Rightarrow> int \<Rightarrow> int \<Rightarrow> tcon" and line n top_n s y
    assume IH: "\<And>line n top_n s y. loop line n top_n s = Some y \<Longrightarrow>
        (\<forall>n. answers (line n)) \<longrightarrow> n \<le> 9223372036854775807 \<longrightarrow> top_n = 9223372036854775807 \<longrightarrow> False"
      and l: "(if n \<le> top_n then bindP (line n) (\<lambda>_ t. loop line (wrap64 (n + 1)) top_n t) s else Some (Inr (), s)) = Some y"
    show "(\<forall>n. answers (line n)) \<longrightarrow> n \<le> 9223372036854775807 \<longrightarrow> top_n = 9223372036854775807 \<longrightarrow> False"
    proof (intro impI)
      assume a: "\<forall>n. answers (line n)" and n: "n \<le> 9223372036854775807" "top_n = 9223372036854775807"
      obtain t where "line n s = Some (Inr (), t)" using answersD a by blast
      with l n have "loop line (wrap64 (n + 1)) top_n t = Some y" by (simp add: bindP_apply)
      from IH [OF this] a n wrap64_bound show False by blast
    qed
  qed
  with assms show ?thesis by (metis not_None_eq)
qed

lemma answers_peripherals [answered]:
  "answers (focuser1Cmd args)" "answers (domeCmd args)" "answers (satCmd args)"
  "args \<noteq> [] \<Longrightarrow> answers (focuserCmd args)" "args \<noteq> [] \<Longrightarrow> answers (rotatorCmd args)"
proof -
  show "answers (focuser1Cmd args)" unfolding focuser1Cmd_def Let_def by (auto intro!: answered intro: answers_switch)
  show "answers (domeCmd args)" unfolding domeCmd_def by (intro answered answers_sub) assumption+
  show "answers (satCmd args)" unfolding satCmd_def by (intro answered answers_sub) assumption+
  assume "args \<noteq> []"
  then show "answers (focuserCmd args)" "answers (rotatorCmd args)" unfolding focuserCmd_def rotatorCmd_def
    by (simp_all only: if_False) (intro answered answers_sub, assumption+)+
qed

definition listers :: "string set" where
  "listers = {''focuser'', ''foc'', ''rotator'', ''rot''}"

lemma answers_verbs:
  assumes "(ns, a) \<in> set (tm_verbs limit host args)" "v \<in> set ns" "args \<noteq> [] \<or> v \<notin> listers"
  shows "answers a"
proof -
  have "(ns, a) \<in> set (tm_rawVerbs limit args) \<Longrightarrow> answers a" unfolding tm_rawVerbs_def by (auto intro!: answered)
  moreover have "(ns, a) \<in> set (tm_readVerbs args) \<Longrightarrow> answers a" using assms(2,3) unfolding tm_readVerbs_def listers_def
    by (auto intro!: answered)
  moreover have "(ns, a) \<in> set (targetVerbs args) \<Longrightarrow> answers a" unfolding targetVerbs_def by (auto intro!: answered)
  moreover have "(ns, a) \<in> set (siteVerbs host args) \<Longrightarrow> answers a" unfolding siteVerbs_def by (auto intro!: answered)
  moreover have "(ns, a) \<in> set (limitVerbs args) \<Longrightarrow> answers a" unfolding limitVerbs_def by (auto intro!: answered)
  moreover have "(ns, a) \<in> set (rateVerbs args) \<Longrightarrow> answers a" unfolding rateVerbs_def by (auto intro!: answered)
  moreover have "(ns, a) \<in> set (airVerbs args) \<Longrightarrow> answers a" unfolding airVerbs_def by (auto intro!: answered)
  moreover have "(ns, a) \<in> set (trackVerbs args) \<Longrightarrow> answers a" unfolding trackVerbs_def by (auto intro!: answered)
  moreover have "(ns, a) \<in> set (tm_gotoVerbs args) \<Longrightarrow> answers a" unfolding tm_gotoVerbs_def by (auto intro!: answered)
  moreover have "(ns, a) \<in> set (tm_moveVerbs args) \<Longrightarrow> answers a" unfolding tm_moveVerbs_def by (auto intro!: answered)
  ultimately show "answers a" using assms(1) unfolding tm_verbs_def by (auto intro: answered)
qed

text \<open>A line that only asks for such a listing, whose length the mount decides.\<close>

definition listing :: "string \<Rightarrow> bool" where
  "listing line = (case Fields line of [f] \<Rightarrow> ToLower f \<in> listers | _ \<Rightarrow> False)"

lemma answers_line: "Fields line \<noteq> [] \<Longrightarrow> \<not> listing line \<Longrightarrow> answers (tm_line limit host line)"
  unfolding tm_line_def Let_def listing_def
  by (cases "Fields line") (auto intro!: answers_switch_case answered intro: answers_verbs split: list.splits)

text \<open>What the mount may answer to how many there are.\<close>

definition endless :: "tenmicron console \<Rightarrow> bool" where
  "endless s = (fst (FocuserMaxIndex (cmount s)) = Inr 9223372036854775807)"

lemma FocuserMaxIndex_bound: "FocuserMaxIndex s = (Inr n, s') \<Longrightarrow> n \<le> 9223372036854775807"
  by (auto simp: FocuserMaxIndex_def getInt_def bindE_def liftE_def val_err_def Atoi_def ParseInt_def Let_def
      split: prod.splits sum.splits option.splits if_splits)

lemma listing_ends:
  assumes "\<And>n. answers (line n)"
  shows "(\<exists>s'. call FocuserMaxIndex (\<lambda>n. bindP (printl f [AInt n]) (\<lambda>_. count_loop line 1 n)) s = Some (Inr (), s')
      \<and> strict_prefix (printed s) (printed s'))
    \<or> call FocuserMaxIndex (\<lambda>n. bindP (printl f [AInt n]) (\<lambda>_. count_loop line 1 n)) s = None \<and> endless s"
proof -
  let ?go = "\<lambda>n. bindP (printl f [AInt n]) (\<lambda>_. count_loop line 1 n)"
  obtain q d where q: "FocuserMaxIndex (cmount s) = (q, d)" by fastforce
  define t where "t = s\<lparr>cmount := d\<rparr>"
  have c: "call FocuserMaxIndex ?go s = (case q of Inl e \<Rightarrow> tm_printErr e | Inr n \<Rightarrow> ?go n) t"
    using q by (simp add: call_def reportWith_def tryP_def onM_def t_def)
  show ?thesis
  proof (cases q)
    case (Inl e)
    from answersD [OF answers_printErr, of e t] show ?thesis unfolding c Inl sum.case by (simp add: t_def)
  next
    case (Inr n)
    with q have "n \<le> 9223372036854775807" by (auto dest: FocuserMaxIndex_bound)
    then consider "n < 9223372036854775807" | "n = 9223372036854775807" by linarith
    then show ?thesis
    proof cases
      case 1
      have "answers (?go n)" by (intro answers_then answers_printl count_loop_ends assms) (use 1 in simp_all)
      from answersD [OF this, of t] show ?thesis unfolding c Inr sum.case by (simp add: t_def)
    next
      case 2
      have "?go n t = None" unfolding 2 bindP_apply printl_def
        by (simp add: count_loop_wraps [OF assms])
      moreover have "endless s" using q Inr 2 by (simp add: endless_def)
      ultimately show ?thesis unfolding c Inr sum.case by simp
    qed
  qed
qed

lemma switch_listers:
  "switch ''focuser'' (tm_verbs limit host []) d = focuserCmd []" "switch ''foc'' (tm_verbs limit host []) d = focuserCmd []"
  "switch ''rotator'' (tm_verbs limit host []) d = rotatorCmd []" "switch ''rot'' (tm_verbs limit host []) d = rotatorCmd []"
  unfolding tm_verbs_def tm_rawVerbs_def tm_readVerbs_def append_Cons append_Nil switch.simps by simp_all

lemma line_ends:
  assumes "Fields line \<noteq> []"
  shows "(\<exists>s'. tm_line limit host line s = Some (Inr (), s') \<and> strict_prefix (printed s) (printed s'))
    \<or> tm_line limit host line s = None \<and> listing line \<and> endless s"
proof (cases "listing line")
  case False
  from answersD [OF answers_line [OF assms False]] show ?thesis by blast
next
  case True
  then obtain f where f: "Fields line = [f]" "ToLower f \<in> listers" by (auto simp: listing_def split: list.splits)
  then consider "ToLower f = ''focuser'' \<or> ToLower f = ''foc''" | "ToLower f = ''rotator'' \<or> ToLower f = ''rot''" unfolding listers_def by blast
  then show ?thesis
  proof cases
    case 1
    have "tm_line limit host line = focuserCmd []" using f(1) 1 by (auto simp: tm_line_def Let_def switch_listers)
    with True listing_ends [of focuserLine] answers_actions show ?thesis unfolding focuserCmd_def by simp
  next
    case 2
    have "tm_line limit host line = rotatorCmd []" using f(1) 2 by (auto simp: tm_line_def Let_def switch_listers)
    with True listing_ends [of rotatorLine] answers_actions show ?thesis
      unfolding rotatorCmd_def by (simp add: RotatorMaxIndex_def FocuserMaxIndex_def)
  qed
qed

lemma session_ends:
  "(\<exists>s'. tm_session limit host input s = Some (Inr (), s') \<and> prefix (printed s) (printed s')
      \<and> length (printed s) + length (run_lines input) \<le> length (printed s'))
    \<or> tm_session limit host input s = None
      \<and> (\<exists>k u. k < length input \<and> listing (TrimSpace (input ! k)) \<and> tm_session limit host (take k input) s = Some (Inr (), u) \<and> endless u)"
proof (induction input arbitrary: s)
  case Nil
  show ?case by (simp add: run_lines_def)
next
  case (Cons l input)
  show ?case
  proof (cases "TrimSpace l \<in> {''quit'', ''exit'', ''q''}")
    case True
    then show ?thesis by (simp add: Let_def run_lines_Cons)
  next
    case go: False
    define step where "step = (if TrimSpace l = [] then okP () else tm_line limit host (TrimSpace l))"
    have e: "tm_session limit host (l # ls) s = bindP step (\<lambda>_. tm_session limit host ls) s" for ls s
      using go by (simp add: Let_def step_def)
    have "(\<exists>t. step s = Some (Inr (), t) \<and> prefix (printed s) (printed t)
          \<and> length (printed s) + (if TrimSpace l = [] then 0 else 1) \<le> length (printed t))
        \<or> step s = None \<and> listing (TrimSpace l) \<and> endless s"
    proof (cases "TrimSpace l = []")
      case True
      then show ?thesis by (simp add: step_def)
    next
      case False
      with line_ends [OF TrimSpace_Fields [OF False], of limit host s] show ?thesis
        by (fastforce simp: step_def dest: strict_prefix_length)
    qed
    then show ?thesis
    proof (elim disjE conjE exE)
      fix t
      assume on: "step s = Some (Inr (), t)" "prefix (printed s) (printed t)"
        "length (printed s) + (if TrimSpace l = [] then 0 else 1) \<le> length (printed t)"
      have st: "tm_session limit host (l # ls) s = tm_session limit host ls t" for ls
        unfolding e by (simp add: bindP_apply on(1))
      from Cons [of t] show ?thesis
      proof (elim disjE conjE exE)
        fix s' assume "tm_session limit host input t = Some (Inr (), s')" "prefix (printed t) (printed s')"
          "length (printed t) + length (run_lines input) \<le> length (printed s')"
        with on go show ?thesis unfolding st
          by (auto simp: run_lines_Cons intro: prefix_order.trans split: if_splits)
      next
        fix k u assume "tm_session limit host input t = None" "k < length input" "listing (TrimSpace (input ! k))"
          "tm_session limit host (take k input) t = Some (Inr (), u)" "endless u"
        then show ?thesis unfolding st by (intro disjI2 conjI exI [of _ "Suc k"] exI [of _ u]) (simp_all only: length_Cons Suc_less_eq nth_Cons_Suc take_Suc_Cons st)
      qed
    next
      assume stuck: "step s = None" "listing (TrimSpace l)" "endless s"
      have "tm_session limit host (l # input) s = None" unfolding e bindP_apply stuck(1) by simp
      with stuck show ?thesis by (intro disjI2 conjI exI [of _ 0] exI [of _ s]) simp_all
    qed
  qed
qed

text \<open>C15: whatever is typed and whatever the mount answers, or does not answer, the console of the
  10Micron driver comes to an end, having printed its greeting and at least one line per command it
  read, so that a single command never ends in silence, its error included, and it panics exactly when it was started with arguments that hold no
  word. There is one exception, and it is stated: the listing of the focusers or rotators on a mount that
  reports exactly the largest \<open>int\<close> as their number, whose counter wraps around.\<close>

theorem tm_console_ends:
  "(\<exists>s'. tm_console limit host addr args input s =
        Some (if args \<noteq> [] \<and> Fields (Join args '' '') = [] then Inl noWord else Inr (), s')
      \<and> prefix (printed s) (printed s')
      \<and> length (printed s) + (if args = [] then 2 + length (run_lines input) else if Fields (Join args '' '') = [] then 1 else 2)
          \<le> length (printed s'))
    \<or> tm_console limit host addr args input s = None
      \<and> (\<exists>k u. k < (if args = [] then length input else 1)
          \<and> listing (if args = [] then TrimSpace (input ! k) else Join args '' '')
          \<and> tm_console limit host addr [] (take k input) s = Some (Inr (), u)
          \<and> fst (FocuserMaxIndex (cmount u)) = Inr 9223372036854775807)"
proof -
  let ?hint = "(''type '' @ apos @ ''help'' @ apos @ '' for commands, '' @ apos @ ''quit'' @ apos @ '' to exit'')"
  let ?rest = "\<lambda>args input. if args \<noteq> [] then tm_line limit host (Join args '' '')
      else bindP (printl ?hint []) (\<lambda>_. tm_session limit host input)"
  let ?hello = "reportWith (\<lambda>e. printl ''connected %s (version read failed: %v)'' [AStr addr, AStr (err_text e)])
        (\<lambda>v s. printl (''connected %s '' @ em_dash @ '' firmware %q (%s), %s'')
           [AStr addr, AStr v, AStr (VersionString (FirmwareVersion (cmount s))), AStr (mcProduct (mountClass (cmount s)))] s)
        (runP (onT Firmware))"
  have "answers (\<lambda>s. printl f (g s) s)" for f and g :: "tenmicron console \<Rightarrow> farg list"
    by (simp add: answers_def printl_def strict_prefix_def)
  then have "answers ?hello" by (intro answered)
  then obtain t where t: "?hello s = Some (Inr (), t)" "strict_prefix (printed s) (printed t)" by (auto simp: answers_def)
  note p = strict_prefix_length [OF t(2)]
  have c: "tm_console limit host addr args input s = ?rest args input t" for args input
    unfolding tm_console_def bindP_apply t(1) by simp
  define u where "u = t\<lparr>printed := printed t @ [(?hint, [])]\<rparr>"
  have h: "tm_console limit host addr [] input s = tm_session limit host input u" for input
    unfolding c by (simp add: bindP_apply printl_def u_def)
  have u: "prefix (printed s) (printed u)" "length (printed s) + 2 \<le> length (printed u)" "cmount u = cmount t"
    using p by (auto simp: u_def)
  show ?thesis
  proof (cases "args = []")
    case True
    from session_ends [of limit host input u] show ?thesis
    proof (elim disjE conjE exE)
      fix s' assume "tm_session limit host input u = Some (Inr (), s')" "prefix (printed u) (printed s')"
        "length (printed u) + length (run_lines input) \<le> length (printed s')"
      with u show ?thesis unfolding True h by (intro disjI1 exI [of _ s']) (auto intro: prefix_order.trans)
    next
      fix k w assume "tm_session limit host input u = None" "k < length input" "listing (TrimSpace (input ! k))"
        "tm_session limit host (take k input) u = Some (Inr (), w)" "endless w"
      then show ?thesis unfolding True h endless_def by (intro disjI2 conjI exI [of _ k] exI [of _ w]) simp_all
    qed
  next
    case args: False
    show ?thesis
    proof (cases "Fields (Join args '' '') = []")
      case True
      then have "tm_console limit host addr args input s = Some (Inl noWord, t)" using args unfolding c by (simp add: tm_line_def)
      with True args p show ?thesis by (intro disjI1 exI [of _ t]) simp
    next
      case word: False
      have l: "tm_console limit host addr args input s = tm_line limit host (Join args '' '') t" using args unfolding c by simp
      from line_ends [OF word, of limit host t] show ?thesis
      proof (elim disjE conjE exE)
        fix s' assume "tm_line limit host (Join args '' '') t = Some (Inr (), s')" "strict_prefix (printed t) (printed s')"
        with strict_prefix_length [of "printed t" "printed s'"] p args word show ?thesis unfolding l
          by (intro disjI1 exI [of _ s']) (auto intro: prefix_order.trans)
      next
        assume "tm_line limit host (Join args '' '') t = None" "listing (Join args '' '')" "endless t"
        then show ?thesis unfolding l endless_def using args h [of "[]"] u(3)
          by (intro disjI2 conjI exI [of _ 0] exI [of _ u]) simp_all
      qed
    qed
  qed
qed

end
