(* ===== verification/TenDump.thy ===== *)
theory TenDump
  imports TenConsole
begin

text \<open>
  What the sweep of the 10Micron console (\<open>dump\<close> in src/cmd/tenmicron/main.go) does to the mount: it only
  asks. \<open>quiet m\<close> describes the drivers that differ from \<open>m\<close> in what was asked and in the cached status;
  every getter of the sweep keeps it.
\<close>

section \<open>Queries\<close>

text \<open>The frames of the protocol that read: those of the family \<open>:G\<close>, and some more.\<close>

definition otherQueries :: "string list" where
  "otherQueries =
     ['':V#'', '':D#'', '':h?#'', '':pS#'', '':QaXa#'', '':QaXb#'', '':FocQmax#'', '':getalst#'', '':getalstm#'', '':modelcnt#'',
      '':TLESCK#'', '':TLEDN#'', '':TLEG#'', '':NTGdisc#'', '':NTGweb#'', '':alarmlistact#'', '':alarmlistunack#'',
      '':WSP#'', '':WST#'', '':WSH#'', '':WSD#'', '':WSG#'', '':gtg#'', '':gps#'', '':gtgpps#'']"

definition asks :: "string \<Rightarrow> bool" where
  "asks cmd = (HasPrefix cmd '':G'' \<or> cmd \<in> set otherQueries)"

lemma asks_G [simp]: "asks (CHR '':'' # CHR ''G'' # r)"
  by (simp add: asks_def HasPrefix_def)

lemma asks_other: "cmd \<in> set otherQueries \<Longrightarrow> asks cmd"
  by (simp add: asks_def)

section \<open>Getters only ask\<close>

definition quiet :: "tenmicron \<Rightarrow> tenmicron \<Rightarrow> bool" where
  "quiet m m' = (\<exists>c v t cs. m' = m\<lparr>tconn := c, tcached := v, tcachedAt := t\<rparr>
     \<and> sent c = sent (tconn m) @ cs \<and> list_all asks cs)"

lemma quiet_refl: "quiet m m"
  unfolding quiet_def by (intro exI [of _ "tconn m"] exI [of _ "tcached m"] exI [of _ "tcachedAt m"] exI [of _ "[]"]) simp

lemma quiet_emits:
  assumes "emits sent op [cmd]" "asks cmd"
  shows "keepsE (quiet m) (onT op)"
  unfolding keepsE_def
proof (intro allI impI)
  fix s r s'
  assume q: "quiet m s" and o: "onT op s = (r, s')"
  obtain r1 c1 where o1: "op (tconn s) = (r1, c1)" by fastforce
  then obtain p where p: "prefix p [cmd]" "sent c1 = sent (tconn s) @ p" by (rule emitsE [OF assms(1)])
  then have "list_all asks p" using assms(2) by (auto simp: prefix_Cons)
  moreover obtain c v t cs where s: "s = m\<lparr>tconn := c, tcached := v, tcachedAt := t\<rparr>"
      "sent c = sent (tconn m) @ cs" "list_all asks cs"
    using q unfolding quiet_def by blast
  ultimately have "s' = m\<lparr>tconn := c1, tcached := v, tcachedAt := t\<rparr>" "sent c1 = sent (tconn m) @ (cs @ p)" "list_all asks (cs @ p)"
    using p(2) o o1 by (auto simp: onT_def)
  then show "quiet m s'" unfolding quiet_def by blast
qed

named_theorems quieting \<open>getters that only ask\<close>

lemma quiet_ops [quieting]:
  "asks cmd \<Longrightarrow> keepsE (quiet m) (onT (Get cmd))" "asks cmd \<Longrightarrow> keepsE (quiet m) (onT (AckByte cmd))"
  by (rule quiet_emits [OF get.op_emits], assumption) (rule quiet_emits [OF ackbyte.op_emits])

lemma quiet_query [quieting]: "asks cmd \<Longrightarrow> keepsE (quiet m) (onT (query cmd))"
  unfolding query_def by (rule quiet_emits [OF get.op_lift])

lemma keepsE_Let [keeps]: "(\<And>x. keepsE I (m x)) \<Longrightarrow> keepsE I (Let a m)"
  by simp

lemma keepsE_list [keeps]:
  "keepsE I m \<Longrightarrow> (\<And>x xs. keepsE I (n x xs)) \<Longrightarrow> keepsE I (case ys of [] \<Rightarrow> m | x # xs \<Rightarrow> n x xs)"
  by (cases ys) simp_all

lemma quiet_readers [quieting]:
  assumes "asks cmd"
  shows "keepsE (quiet m) (getInt cmd)" "keepsE (quiet m) (getFloat cmd)" "keepsE (quiet m) (getBool cmd)"
    "keepsE (quiet m) (getBoolByte cmd)" "keepsE (quiet m) (getAngle cmd)" "keepsE (quiet m) (getLimitDeg cmd)"
    "keepsE (quiet m) (axisTarget cmd)" "keepsE (quiet m) (faFloat cmd)" "keepsE (quiet m) (weather cmd)"
    "keepsE (quiet m) (alarmList cmd)" "keepsE (quiet m) (featureState cmd)" "keepsE (quiet m) (macAddr cmd)"
    "keepsE (quiet m) (netConfig cmd)" "keepsE (quiet m) (dateTime cmd)"
  unfolding getInt_def getFloat_def getBool_def getBoolByte_def getAngle_def getLimitDeg_def axisTarget_def faFloat_def
    weather_def alarmList_def featureState_def macAddr_def netConfig_def dateTime_def Let_def
  by (intro keeps quieting assms)+

lemma quiet_status [quieting]: "keepsE (quiet m) tm_status"
proof -
  have st: "quiet m (tm_store v s)" if "quiet m s" for v s
    using that unfolding quiet_def tm_store_def by fastforce
  have f: "keepsE (quiet m) (bindE tm_fetch (\<lambda>v. bindE (modE (tm_store v)) (\<lambda>_. okE v)))"
    unfolding tm_fetch_def by (intro keeps quieting keepsE_modE st asks_G)
  show ?thesis unfolding tm_status_def keepsE_def by (auto dest: keepsED [OF f] split: if_splits)
qed

lemma quiet_Slewing [quieting]: "keepsE (quiet m) tm_Slewing"
proof -
  have f: "keepsE (quiet m) (bindE tm_status (\<lambda>i. okE (IsSlewing i)))" by (intro keeps quieting)
  show ?thesis unfolding tm_Slewing_def keepsE_def by (auto dest: keepsED [OF f] split: if_splits)
qed

section \<open>The sweep\<close>

text \<open>The readings of the sweep, by the theory that holds them.\<close>

lemmas common_getters =
  Firmware_def SiderealTime_def

lemmas core_getters =
  tm_AtPark_def tm_Tracking_def tm_SiteLatitude_def tm_Dec_def tm_Azimuth_def tm_PierSide_def tm_RA_def tm_Altitude_def

lemmas motion_getters =
  TargetAzimuth_def tm_TargetDec_def tm_TargetRA_def TargetAltitude_def TargetAxisAnglePrimary_def
    TargetAxisAngleSecondary_def SpeedCorrection_def HomeStatus_def SlewInProgress_def tm_AtHome_def AxisAngleSecondary_def
    correctedPier_def PointingState_def AxisAnglePrimary_def

lemmas settings_getters =
  LowAltitudeLimit_def SlewSettleTime_def TargetTrackable_def MeridianSlewLimit_def HighAltitudeLimit_def
    MeridianTrackLimit_def UnattendedFlip_def TimeToTrackingEnd_def MeridianSideBehaviour_def MaxSlewRate_def
    tm_TrackingRateHz_def tm_GuideRateSidereal_def tm_GuideRate_def GuiderPortEnabled_def MinSlewRate_def GuidingState_def
    SlewRate_def StatusCode_def TrackingActive_def DualAxisTracking_def GPSMinusUTC_def GPSNMEA_def tm_SiteLongitude_def
    GPSSynced_def tm_LocalTime_def SiteElevation_def GPSSyncState_def JulianDate_def GPSWeekRollover_def UT1MinusUTC_def
    tm_UTCOffset_def DestinationSideOfPier_def

lemmas dates_getters =
  FirmwareDate_def DeltaTStatus_def LocalDate_def UTCDateTime_def NextLeapSecond_def LocalDateTime_def

lemmas parts_getters =
  ActiveAlarms_def UnacknowledgedAlarms_def ParallacticSpeedZenith_def WeatherTemperature_def LowTemperatureLimited_def
    WeatherAutoUpdateMode_def DitherParameters_def FinalApproachMode_def WeatherDewPoint_def ParallacticAngleZenith_def
    ParallacticSpeed_def FinalApproachDistanceLimit_def Temperature_def Refraction_def RefractionCorrection_def
    ParallacticAngle_def DomeSlewing_def DomeSettleTime_def DomeAzimuth_def DomeSlewingExternal_def DomeShutter_def
    DomeHoming_def DomeFlap_def DitheringActive_def FinalApproachTimeConstant_def WeatherPressure_def WeatherHumidity_def

lemmas more_getters =
  LoadedTLE_def WakeOnLANState_def WirelessStatus_def WiredNetwork_def WirelessAccessPoints_def WirelessAvailable_def
    EthernetMAC_def WirelessNetwork_def WebInterfaceActive_def WirelessMAC_def ConnectionType_def WirelessESSID_def
    readDiscoveryService_def TransitSlewStatus_def RotatorMaxIndex_def AlignmentStarCount_def FocuserMaxIndex_def
    MaxAlignmentStars_def SavedModelCount_def DatabaseTLECount_def EmulatedFirmwareRev_def AutoPowerOnState_def
    ControlBoxVersion_def tm_Product_def HardwareID_def FirmwareTime_def

lemmas getters = common_getters core_getters motion_getters settings_getters dates_getters parts_getters more_getters

lemma quiet_adapt [quieting]:
  assumes "keepsE (quiet m) n"
  shows "keepsE (quiet m) (adapt f n)"
  unfolding adapt_def by (intro keeps assms)

lemma quiet_pierStr [quieting]: "keepsE (quiet m) n \<Longrightarrow> keepsE (quiet m) (pierStr n)"
  unfolding pierStr_def by (intro keeps)

text \<open>The probes of a list only ask.\<close>

definition quietProbes :: "tenmicron \<Rightarrow> probe list \<Rightarrow> bool" where
  "quietProbes m ps = list_all (\<lambda>p. keepsE (quiet m) (snd p)) ps"

lemma quietProbes_Cons: "keepsE (quiet m) n \<Longrightarrow> quietProbes m ps \<Longrightarrow> quietProbes m ((x, n) # ps)"
  by (simp add: quietProbes_def)

lemma quietProbes_Nil: "quietProbes m []"
  by (simp add: quietProbes_def)

lemmas adapters = fF_def fI_def fI2_def fB_def fD_def fT_def fS_def fAlarms_def fWeather_def fPair_def fNet_def

lemmas probe_lists = identityProbes_def positionProbes_def flagProbes_def targetProbes_def clockProbes_def limitProbes_def
  rateProbes_def refractionProbes_def domeProbes_def networkProbes_def

lemma quiet_temperature [quieting]: "keepsE (quiet m) boxTemperature"
  unfolding boxTemperature_def Temperature_def by (intro keeps quieting) (simp add: asks_def HasPrefix_def)

lemma quiet_lists:
  "quietProbes m identityProbes" "quietProbes m positionProbes" "quietProbes m flagProbes" "quietProbes m targetProbes"
  "quietProbes m clockProbes" "quietProbes m limitProbes" "quietProbes m rateProbes" "quietProbes m refractionProbes"
  "quietProbes m domeProbes" "quietProbes m networkProbes"
  unfolding probe_lists adapters getters
  by (intro quietProbes_Cons quietProbes_Nil quieting keeps asks_G | simp add: asks_other otherQueries_def)+

lemma quiet_groups: "g \<in> set (dumpGroups @ [alarmProbes]) \<Longrightarrow> quietProbes m (snd g)"
proof -
  have "list_all (\<lambda>g. quietProbes m (snd g)) (dumpGroups @ [alarmProbes])"
    unfolding dumpGroups_def alarmProbes_def list.pred_inject append.simps snd_conv adapters getters transitCode_def
    by (intro conjI TrueI quiet_lists quietProbes_Cons quietProbes_Nil quieting keeps asks_G
      | simp add: asks_other otherQueries_def)+
  then show "g \<in> set (dumpGroups @ [alarmProbes]) \<Longrightarrow> quietProbes m (snd g)" by (simp only: list_all_iff)
qed

text \<open>A verb that prints \<open>n\<close> lines, whatever the mount answers.\<close>

definition prints :: "nat \<Rightarrow> tcon \<Rightarrow> bool" where
  "prints n m = (\<forall>s. \<exists>s'. m s = Some (Inr (), s') \<and> length (printed s') = length (printed s) + n)"

lemma prints_bindP: "prints a m \<Longrightarrow> (\<And>x. prints b (f x)) \<Longrightarrow> prints (a + b) (bindP m f)"
  unfolding prints_def
proof
  fix s
  assume m: "\<forall>s. \<exists>s'. m s = Some (Inr (), s') \<and> length (printed s') = length (printed s) + a"
    and f: "\<And>x. \<forall>s. \<exists>s'. f x s = Some (Inr (), s') \<and> length (printed s') = length (printed s) + b"
  obtain t where t: "m s = Some (Inr (), t)" "length (printed t) = length (printed s) + a" using m by blast
  obtain u where "f () t = Some (Inr (), u)" "length (printed u) = length (printed t) + b" using f by blast
  with t show "\<exists>s'. bindP m f s = Some (Inr (), s') \<and> length (printed s') = length (printed s) + (a + b)"
    by (simp add: bindP_apply)
qed

lemma prints_inTurn: "list_all2 prints ns vs \<Longrightarrow> prints (sum_list ns) (inTurn vs)"
proof (induction rule: list_all2_induct)
  case Nil
  show ?case by (simp add: prints_def)
next
  case (Cons n ns v vs)
  then show ?case by (auto intro: prints_bindP)
qed

lemma prints_line: "prints 1 (printl f a)"
  by (simp add: prints_def printl_def)

lemma prints_probe: "prints 1 (runProbe p)"
  by (auto simp: prints_def runProbe_def reportWith_def tryP_def onM_def printl_def split: prod.splits sum.splits)

lemma prints_probes: "prints (length ps) (runProbes ps)"
proof -
  have "list_all2 prints (replicate (length ps) 1) (map runProbe ps)"
    by (simp add: list_all2_conv_all_nth prints_probe del: One_nat_def)
  from prints_inTurn [OF this] show ?thesis by (simp add: runProbes_def sum_list_replicate)
qed

lemma prints_group: "prints (1 + length (snd g)) (runGroup g)"
proof -
  have "list_all2 prints [1, length (snd g)] [printl f a, runProbes (snd g)]" for f a
    by (simp add: prints_line prints_probes del: One_nat_def)
  from prints_inTurn [OF this] show ?thesis unfolding runGroup_def by simp
qed

lemma prints_groups: "prints (sum_list (map (\<lambda>g. 1 + length (snd g)) gs)) (inTurn (map runGroup gs))"
  by (rule prints_inTurn) (auto simp only: list_all2_map1 list_all2_map2 list_all2_same intro: prints_group)

lemma tolerates_groups:
  assumes "set gs \<subseteq> set (dumpGroups @ [alarmProbes])"
  shows "tolerates (quiet m) (inTurn (map runGroup gs))"
proof -
  have p: "handles (quiet m) (runProbe p)" if "g \<in> set gs" "p \<in> set (snd g)" for g p
  proof -
    have "keepsE (quiet m) (snd p)" using quiet_groups [of g m] that assms by (auto simp: quietProbes_def list_all_iff)
    then show ?thesis unfolding runProbe_def by (intro handled keeps)
  qed
  have r: "tolerates (quiet m) (runProbes (snd g))" if g: "g \<in> set gs" for g
    unfolding runProbes_def by (rule tolerates_inTurn) (use p [OF g] in \<open>auto intro: handles_tolerates\<close>)
  have "tolerates (quiet m) (runGroup g)" if "g \<in> set gs" for g
    using r [OF that] unfolding runGroup_def by (intro tolerates_inTurn) (auto intro: handles_tolerates handled)
  then show ?thesis by (intro tolerates_inTurn) auto
qed

text \<open>C16: the sweep of the console, which is advertised as safe on a live mount, only asks: whatever the mount
  answers, or does not answer, every frame it sends is a query, the driver is left as it was but for the
  cached status, and it always ends, with one line printed for each group and each reading.\<close>

theorem dump_reads_only:
  "\<exists>s' c v t cs. dump s = Some (Inr (), s')
   \<and> cmount s' = (cmount s)\<lparr>tconn := c, tcached := v, tcachedAt := t\<rparr>
   \<and> sent c = sent (tconn (cmount s)) @ cs \<and> list_all asks cs
   \<and> length (printed s') = length (printed s) + (if mcDDS (mountClass (cmount s)) then 134 else 131)"
proof -
  let ?gs = "dumpGroups @ (if mcDDS (mountClass (cmount s)) then [alarmProbes] else [])"
  have q: "tolerates (quiet m) (inTurn (map runGroup ?gs))" for m by (rule tolerates_groups) auto
  obtain s' where s': "dump s = Some (Inr (), s')"
      "length (printed s') = length (printed s) + sum_list (map (\<lambda>g. 1 + length (snd g)) ?gs)"
    using prints_groups [of ?gs] unfolding prints_def dump_def by blast
  moreover have "sum_list (map (\<lambda>g. 1 + length (snd g)) ?gs) = (if mcDDS (mountClass (cmount s)) then 134 else 131)"
    by (simp add: dumpGroups_def alarmProbes_def probe_lists)
  moreover have "quiet (cmount s) (cmount s')"
    using toleratesD [OF q, of "cmount s" s] s'(1) quiet_refl unfolding dump_def by blast
  ultimately show ?thesis unfolding quiet_def by auto
qed

end
