(* ===== verification/Spec2Isabelle.thy ===== *)
theory Spec2Isabelle
  imports OpLock BridgeClock Serve BootTool RstText Am5Sweep Drivers RstConsole TenDump
begin

text \<open>
  Verification of the Go module \<open>lx200\<close>: drivers for telescope mounts that speak dialects of the LX200
  protocol over a serial port or TCP, a bridge that serves a mount to LX200 clients, the bootloader
  client that flashes the firmware of an RST mount, and the tools on top.

  \<^bold>\<open>The parts and how they interact.\<close> A driver owns a \<open>Conn\<close> (src/lx200.go): a mutex around a byte pipe
  (\<open>Transport\<close>: a serial port of package \<open>serial\<close> or a TCP connection) with primitives that write one
  command and read its reply. The common command set (src/commands.go) is written over the primitives,
  coordinates are text (src/sexagesimal.go). Four drivers embed \<open>*Conn\<close> and override what their mount
  does differently: \<open>onstep\<close>, \<open>am5\<close>, \<open>tenmicron\<close>, which cache one status reply for a short time, and
  \<open>rst\<close>, whose mount pushes completion tokens between replies. Each driver is an \<open>lx200.Mount\<close>
  (src/mount.go); package \<open>bridge\<close> translates the requests of a client into calls of a \<open>Mount\<close>, with its
  own caches and a buffered target and clock per client, and takes the mount's \<open>OpLock\<close> around
  a target and the slew that uses it. \<open>rst\<close> and \<open>am5\<close> find their mounts on the serial ports, \<open>am5\<close> also on
  the network. \<open>rst/boot\<close> frames, streams and verifies firmware files over the same kind of port.

  \<^bold>\<open>The theories.\<close>

  \<^item> \<open>Prelude\<close>, \<open>Float64\<close>, \<open>GoLang\<close>, \<open>GoFmt\<close>, \<open>GoErr\<close>, \<open>GoNum\<close>, \<open>GoPart\<close>, \<open>Calendar\<close>, \<open>CalendarFacts\<close>, \<open>GoTime\<close>:
    Go and the parts of its standard library the program uses: rounded binary64 arithmetic with error
    bounds, error values and early return (\<open>bindE\<close> and its kin, type \<open>io\<close>), package \<open>strings\<close>, the verbs of
    \<open>fmt\<close>, \<open>strconv\<close>, code that may not return (type \<open>pio\<close>), dates and layouts of package \<open>time\<close>.
  \<^item> \<open>Transport\<close>, \<open>Conn\<close>, \<open>Sexagesimal\<close>, \<open>Commands\<close>, \<open>Mount\<close>: src/lx200.go, src/sexagesimal.go,
    src/commands.go, src/mount.go. The record \<open>transport\<close> holds the reads the peer has scheduled, what
    was written and the time; \<open>conn\<close> is \<open>Conn\<close>; the record \<open>mount\<close> is the interface \<open>Mount\<close>, an optional
    interface being a component that may be absent.
  \<^item> \<open>Bridge\<close>, \<open>BridgeClock\<close>, \<open>Serve\<close>, \<open>OpLock\<close>: src/bridge/bridge.go. \<open>server\<close> is the configuration of \<open>Server\<close>, \<open>bridge\<close> its caches
    with one \<open>connState\<close>, the device and the text sent to the client; \<open>handle\<close>, \<open>dispatch\<close> and each handler
    keep their names. \<open>BridgeClock\<close> counts the settings of
    the mount's clock. \<open>handle_timed\<close> is \<open>handle\<close> with its idle deadline. \<open>op_step\<close> interleaves the commands of any number of clients.
  \<^item> \<open>RstState\<close>, \<open>Rst\<close>, \<open>RstMisc\<close>, \<open>RstFind\<close>: src/rst. The record \<open>rst\<close> is \<open>Mount\<close>, its latches included; \<open>applyToken\<close> and
    \<open>rst_get\<close> are the handling of pushed tokens. \<open>RstInv\<close>, \<open>RstProps\<close>, \<open>RstText\<close> hold its proofs,
    by the rules of \<open>Keeps\<close>.
  \<^item> \<open>Console\<close>, \<open>RstConsole\<close>, \<open>TenConsole\<close>, \<open>TenDump\<close>: src/cmd/rst and src/cmd/tenmicron. A verb is a row of a table, the
    record \<open>console\<close> is the driver and what was printed; the locale \<open>polled\<close> is the wait of both for a motion.
  \<^item> \<open>StatusCache\<close>, \<open>Device\<close>: the contracts the other drivers share. \<open>OnStep\<close> is src/onstep; \<open>Am5\<close>, \<open>Am5Props\<close>,
    \<open>Am5Find\<close>, \<open>Subnets\<close>, \<open>Am5Sweep\<close> are src/am5; \<open>TenCore\<close>, \<open>TenMotion\<close>, \<open>TenText\<close>, \<open>TenSettings\<close>, \<open>TenParts\<close>, \<open>TenMore\<close>,
    \<open>TenProps\<close>, \<open>TenDates\<close> are src/tenmicron. \<open>Drivers\<close> has these drivers as mounts behind the bridge.
  \<^item> \<open>Ports\<close>: src/serial and \<open>DialTCP\<close>, over parameters for the serial library and package \<open>net\<close>.
  \<^item> \<open>BootFrame\<close>, \<open>BootHex\<close>, \<open>BootClient\<close>, \<open>BootTool\<close>: src/rst/boot (\<open>frame.go\<close>, \<open>hex.go\<close>, \<open>boot.go\<close>) and
    src/cmd/rstflash. \<open>decoder\<close>, \<open>Image\<close> and \<open>client\<close> are the structs of the same names.
  An operation that changes state is a function from the state to its outcome and the new state.
  A definition has the name of the function it models, with the package as prefix where two packages
  use a name.

  \<^bold>\<open>What is shown.\<close> \<open>Sexagesimal\<close>: coordinates survive parsing and printing. \<open>Conn\<close>: a reply is found
  however the reads cut it, unacceptable frames are skipped in order and within the budget and what follows
  stays on the wire, a read ends in time. \<open>Bridge\<close>, \<open>OpLock\<close>, \<open>Drivers\<close>: what a client asks for is what the mount is told, through every
  driver, and with the lock no client's slew uses another's target; every query gets one frame, where
  the names it passes on hold no delimiter. \<open>BridgeClock\<close>: the three clock messages, in any order and among other
  requests, become one setting. \<open>Bridge\<close>, \<open>Serve\<close>: a protected site is not touched; a client is dropped only when idle. \<open>RstInv\<close>, \<open>RstProps\<close>, \<open>RstText\<close>: the
  latches of parking and homing as an invariant of any run of the driver, the six operations behind the gate on homing, queries
  among pushed tokens and when they return, the exact split of coordinates. \<open>RstConsole\<close>: whenever the console
  returns, every command printed its outcome or its error and kept the latches, what makes it panic, and that
  waiting for a motion ends. \<open>TenConsole\<close>, \<open>TenDump\<close>: that the console ends, save for one listing on a mount with
  the largest count, and that its sweep of all readings only asks. \<open>OnStep\<close>, \<open>Am5Props\<close>, \<open>TenProps\<close>:
  a cached status never outlives a command of the driver that marks it, settings read back, strings escape and unescape, the
  firmware gate. \<open>Am5Find\<close>, \<open>Subnets\<close>, \<open>Am5Sweep\<close>: the addresses of the sweep, own second addresses
  included, and that it finds every mount, and that a serial number picks its mount among others. \<open>BootFrame\<close>, \<open>BootHex\<close>, \<open>BootClient\<close>, \<open>BootTool\<close>: frames round-trip, the CRC
  is the CCITT division, an accepted file is the memory it describes, and flashing erases only after
  the family check and succeeds only with the right CRC. Theorems that record a defect of the code
  say what it does, not what it should.

  \<^bold>\<open>Bounds and fuel.\<close> No definition of the program takes fuel; \<open>wait_fuel\<close> states the bound of a console's wait, 361 polls
  half a second apart for three minutes. Loops are structural or come with a measure (the
  reads that are scheduled, the time that is left, the records that remain); the recursive query of
  the RST driver, its two loops over an azimuth and the listing of the focusers, whose counter can wrap, may
  not end and are \<open>partial_function\<close>s, with theorems on when they return. The scanner's line limit of 1 MiB, the 5 MiB image, the 64 hosts
  of the sweep and the retry counts are those of the source.

  \<^bold>\<open>Conventions.\<close> \<open>float64\<close> operations are rounded one by one, as on amd64, where no multiply-add is
  fused. A \<open>time.Duration\<close> and an \<open>int\<close> wrap at 64 bits where a value can get there; an instant of \<open>time.Time\<close>
  is an unbounded integer. \<open>ToLower\<close>, \<open>ToUpper\<close> and \<open>EqualFold\<close> are those of ASCII
  text, bytes above 127 are left alone; \<open>TrimSpace\<close> and \<open>Fields\<close> know the white space of Unicode.
  A section under a mutex is one step; the conversation with one host is one step of the sweep. Code outside the repository (the serial library, package \<open>net\<close>, the
  peer behind a pipe) is a parameter.

  \<^bold>\<open>Not modelled.\<close> The system calls behind opening, closing and listening; the goroutines of \<open>Server.Serve\<close>, one
  for each connection, beyond the interleavings of \<open>OpLock\<close>; the RST driver behind the bridge, whose
  queries may not return; log lines; the progress display of the flashing tool and the reading of flags; the prompt of the consoles; the fake transport of the unit tests (src/internal/lx200test).
\<close>

end
